(* ===== verification/Prelude.thy ===== *)
theory Prelude
  imports Main "HOL-Library.Word" "HOL-Library.Multiset" "HOL-Library.Sublist"
    "HOL-Library.List_Lexorder" "HOL-Library.Char_ord"
begin

text \<open>
  What the component theories share: names for the machine integer types of the C++ code,
  the exceptions it throws as values of a sum type, the parts of the C++ standard library its
  string handling uses (\<^verbatim>\<open>find\<close>, \<^verbatim>\<open>substr\<close>, \<^verbatim>\<open>getline\<close>, \<^verbatim>\<open>from_chars\<close>, \<^verbatim>\<open>stoi\<close>,
  \<^verbatim>\<open>to_string\<close>), the integer conversions of \<^verbatim>\<open>static_cast\<close>, and the generic lemmas on lists,
  options and words that the proofs of the components rest on.
\<close>

unbundle bit_operations_syntax

section \<open>Collections of facts\<close>

named_theorems string_simps \<open>unfolding rules of the string helpers\<close>
named_theorems result_simps \<open>rules for values of the result type\<close>

section \<open>Types\<close>

type_synonym u8 = "8 word"
type_synonym u16 = "16 word"
type_synonym u32 = "32 word"
type_synonym u64 = "64 word"

text \<open>The exception classes of the program, each with its \<^verbatim>\<open>what()\<close> text.\<close>

datatype cpp_error =
    InvalidArgument string
  | OutOfRange string
  | RuntimeError string
  | ConfigError string
  | FirewallError string
  | NetlinkError string
  | SchedulerError string
  | DnsError string
  | KeeneticDnsError string
  | HttpError string
  | JsonException string
  | LogicError string
  | DaemonError string
  | ApiError string nat
  | ConfigValidationError "(string \<times> string) list"

type_synonym 'a result = "cpp_error + 'a"

text \<open>A loop whose body may throw: the first exception ends it.\<close>

fun fold_result :: "('s \<Rightarrow> 'a \<Rightarrow> 's result) \<Rightarrow> 's \<Rightarrow> 'a list \<Rightarrow> 's result" where
  "fold_result f s [] = Inr s"
| "fold_result f s (x # xs) = (case f s x of Inl e \<Rightarrow> Inl e | Inr s' \<Rightarrow> fold_result f s' xs)"

lemma fold_result_append:
  "fold_result f s (xs @ ys) =
     (case fold_result f s xs of Inl e \<Rightarrow> Inl e | Inr s' \<Rightarrow> fold_result f s' ys)"
  by (induction xs arbitrary: s) (auto split: sum.splits)

lemma fold_result_invariant:
  assumes "fold_result f s xs = Inr s'" and "P s"
    and "\<And>s x s'. P s \<Longrightarrow> x \<in> set xs \<Longrightarrow> f s x = Inr s' \<Longrightarrow> P s'"
  shows "P s'"
  using assms
proof (induction xs arbitrary: s)
  case Nil
  then show ?case by simp
next
  case (Cons x xs)
  from Cons.prems(1) obtain t where t: "f s x = Inr t" "fold_result f t xs = Inr s'"
    by (auto split: sum.splits)
  have "P t" by (rule Cons.prems(3) [OF Cons.prems(2) _ t(1)]) simp
  show ?case by (rule Cons.IH [OF t(2) \<open>P t\<close>]) (rule Cons.prems(3), simp_all)
qed

text \<open>A loop that collects results.\<close>

fun map_result :: "('a \<Rightarrow> 'b result) \<Rightarrow> 'a list \<Rightarrow> 'b list result" where
  "map_result f [] = Inr []"
| "map_result f (x # xs) =
     (case f x of Inl e \<Rightarrow> Inl e | Inr y \<Rightarrow> map_sum id ((#) y) (map_result f xs))"

text \<open>One statement after another; an exception of the first leaves the second undone.\<close>

definition bind_result :: "'a result \<Rightarrow> ('a \<Rightarrow> 'b result) \<Rightarrow> 'b result" where
  "bind_result r f = (case r of Inl e \<Rightarrow> Inl e | Inr x \<Rightarrow> f x)"

lemma bind_result_simps [simp]: "bind_result (Inr x) f = f x" "bind_result (Inl e) f = Inl e"
  by (simp_all add: bind_result_def)

lemma bind_result_Inr [result_simps]: "bind_result r f = Inr y \<longleftrightarrow> (\<exists>x. r = Inr x \<and> f x = Inr y)"
  by (cases r) auto

lemma map_sum_results [result_simps]:
  "map_sum id f r = Inr y \<longleftrightarrow> (\<exists>x. r = Inr x \<and> y = f x)"
  "Inr y = map_sum id f r \<longleftrightarrow> (\<exists>x. r = Inr x \<and> y = f x)"
  "map_sum id f r = Inl e \<longleftrightarrow> r = Inl e"
  "Inl e = map_sum id f r \<longleftrightarrow> r = Inl e"
  by (cases r; auto)+

lemma map_result_Cons:
  "map_result f (x # xs) = Inr ys \<longleftrightarrow> (\<exists>z zs. f x = Inr z \<and> map_result f xs = Inr zs \<and> ys = z # zs)"
  by (auto simp: result_simps split: sum.splits)

section \<open>Characters and digits\<close>

definition is_digit :: "char \<Rightarrow> bool" where
  "is_digit c \<longleftrightarrow> 48 \<le> (of_char c :: nat) \<and> (of_char c :: nat) \<le> 57"

definition digit_val :: "char \<Rightarrow> nat" where
  "digit_val c = of_char c - 48"

definition is_lower :: "char \<Rightarrow> bool" where
  "is_lower c \<longleftrightarrow> 97 \<le> (of_char c :: nat) \<and> (of_char c :: nat) \<le> 122"

definition is_upper :: "char \<Rightarrow> bool" where
  "is_upper c \<longleftrightarrow> 65 \<le> (of_char c :: nat) \<and> (of_char c :: nat) \<le> 90"

definition is_xdigit :: "char \<Rightarrow> bool" where
  "is_xdigit c \<longleftrightarrow> is_digit c
     \<or> (97 \<le> (of_char c :: nat) \<and> (of_char c :: nat) \<le> 102)
     \<or> (65 \<le> (of_char c :: nat) \<and> (of_char c :: nat) \<le> 70)"

definition xdigit_val :: "char \<Rightarrow> nat" where
  "xdigit_val c =
     (let n = (of_char c :: nat)
      in if n \<le> 57 then n - 48 else if n \<le> 70 then n - 55 else n - 87)"

text \<open>The C locale's \<^verbatim>\<open>isspace\<close>: tab, line feed, vertical tab, form feed, carriage return, space.\<close>

definition is_space :: "char \<Rightarrow> bool" where
  "is_space c \<longleftrightarrow> (of_char c :: nat) = 32 \<or> 9 \<le> (of_char c :: nat) \<and> (of_char c :: nat) \<le> 13"

text \<open>The C locale's \<^verbatim>\<open>iscntrl\<close>.\<close>

definition is_cntrl :: "char \<Rightarrow> bool" where
  "is_cntrl c \<longleftrightarrow> (of_char c :: nat) < 32 \<or> (of_char c :: nat) = 127"

definition to_lower :: "char \<Rightarrow> char" where
  "to_lower c = (if is_upper c then char_of ((of_char c :: nat) + 32) else c)"

lemmas char_class_defs [string_simps] =
  is_digit_def is_lower_def is_upper_def is_xdigit_def is_space_def is_cntrl_def

lemma punctuation_not_digit [simp]:
  "\<not> is_digit CHR ''-''" "\<not> is_digit CHR '':''" "\<not> is_digit CHR '',''" "\<not> is_digit CHR ''.''"
  "\<not> is_digit CHR ''/''" "\<not> is_digit CHR ''*''" "\<not> is_digit CHR '' ''"
  by (simp_all add: is_digit_def)

lemma digit_char [simp]: "(n :: nat) < 10 \<Longrightarrow> is_digit (char_of (48 + n))"
  by (simp add: is_digit_def)

lemma digit_val_char [simp]: "n < 10 \<Longrightarrow> digit_val (char_of (48 + n)) = n"
  by (simp add: digit_val_def)

lemma digit_chars [simp]:
  "char_of (48 :: nat) = CHR ''0''" "char_of (49 :: nat) = CHR ''1''" "char_of (50 :: nat) = CHR ''2''"
  "char_of (51 :: nat) = CHR ''3''" "char_of (52 :: nat) = CHR ''4''" "char_of (53 :: nat) = CHR ''5''"
  "char_of (54 :: nat) = CHR ''6''" "char_of (55 :: nat) = CHR ''7''" "char_of (56 :: nat) = CHR ''8''"
  "char_of (57 :: nat) = CHR ''9''"
  by (simp_all add: char_of_def bit_Suc_0_iff)

section \<open>Numbers in text\<close>

text \<open>The value of a digit string, most significant digit first.\<close>

definition dec_value :: "string \<Rightarrow> nat" where
  "dec_value s = foldl (\<lambda>n c. 10 * n + digit_val c) 0 s"

definition hex_value :: "string \<Rightarrow> nat" where
  "hex_value s = foldl (\<lambda>n c. 16 * n + xdigit_val c) 0 s"

lemma dec_value_snoc [simp]: "dec_value (s @ [c]) = 10 * dec_value s + digit_val c"
  by (simp add: dec_value_def)

lemma dec_value_Nil [simp]: "dec_value [] = 0"
  by (simp add: dec_value_def)

text \<open>\<^verbatim>\<open>std::to_string\<close> of an unsigned value.\<close>

fun nat_to_string :: "nat \<Rightarrow> string" where
  "nat_to_string n =
     (if n < 10 then [char_of (48 + n)]
      else nat_to_string (n div 10) @ [char_of (48 + n mod 10)])"

declare nat_to_string.simps [simp del]

definition int_to_string :: "int \<Rightarrow> string" where
  "int_to_string i = (if i < 0 then CHR ''-'' # nat_to_string (nat (- i)) else nat_to_string (nat i))"

lemma nat_to_string_nonempty [simp]: "nat_to_string n \<noteq> []"
  by (subst nat_to_string.simps) simp

lemma nat_to_string_digits: "\<forall>c \<in> set (nat_to_string n). is_digit c"
proof (induction n rule: nat_to_string.induct)
  case (1 n)
  then show ?case
    by (cases "n < 10") (auto simp: nat_to_string.simps [of n])
qed

lemma dec_value_nat_to_string [simp]: "dec_value (nat_to_string n) = n"
proof (induction n rule: nat_to_string.induct)
  case (1 n)
  show ?case
  proof (cases "n < 10")
    case True
    then show ?thesis by (simp add: nat_to_string.simps [of n] dec_value_def)
  next
    case False
    with 1 show ?thesis by (simp add: nat_to_string.simps [of n])
  qed
qed

lemma inj_nat_to_string: "nat_to_string m = nat_to_string n \<longleftrightarrow> m = n"
  by (metis dec_value_nat_to_string)

text \<open>\<^verbatim>\<open>snprintf("%x")\<close>: lower-case hexadecimal without leading zeros.\<close>

definition hex_digit :: "nat \<Rightarrow> char" where
  "hex_digit n = (if n < 10 then char_of (48 + n) else char_of (87 + n))"

fun hex_string :: "nat \<Rightarrow> string" where
  "hex_string n =
     (if n < 16 then [hex_digit n] else hex_string (n div 16) @ [hex_digit (n mod 16)])"

declare hex_string.simps [simp del]

lemma hex_digit_is_xdigit: "n < 16 \<Longrightarrow> is_xdigit (hex_digit n)"
  by (auto simp: hex_digit_def is_xdigit_def is_digit_def)

lemma xdigit_val_hex_digit: "n < 16 \<Longrightarrow> xdigit_val (hex_digit n) = n"
  by (auto simp: hex_digit_def xdigit_val_def Let_def)

lemma hex_string_xdigits: "\<forall>c \<in> set (hex_string n). is_xdigit c"
proof (induction n rule: hex_string.induct)
  case (1 n)
  then show ?case
    by (cases "n < 16") (auto simp: hex_string.simps [of n] hex_digit_is_xdigit)
qed

lemma hex_value_hex_string [simp]: "hex_value (hex_string n) = n"
proof (induction n rule: hex_string.induct)
  case (1 n)
  then show ?case
    by (cases "n < 16") (simp_all add: hex_string.simps [of n] hex_value_def xdigit_val_hex_digit)
qed

text \<open>
  \<^verbatim>\<open>std::from_chars\<close> into \<^verbatim>\<open>int\<close>, together with the check \<^verbatim>\<open>ptr == end\<close> that every caller makes:
  an optional minus sign, at least one digit, nothing after the digits, and a value that fits.
\<close>

definition from_chars_int :: "string \<Rightarrow> int option" where
  "from_chars_int s =
     (if s \<noteq> [] \<and> hd s = CHR ''-''
      then (if tl s \<noteq> [] \<and> list_all is_digit (tl s) \<and> dec_value (tl s) \<le> 2 ^ 31
            then Some (- int (dec_value (tl s))) else None)
      else (if s \<noteq> [] \<and> list_all is_digit s \<and> dec_value s < 2 ^ 31
            then Some (int (dec_value s)) else None))"

text \<open>\<^verbatim>\<open>std::from_chars\<close> into \<^verbatim>\<open>unsigned int\<close>: no sign is accepted.\<close>

definition from_chars_uint :: "string \<Rightarrow> nat option" where
  "from_chars_uint s =
     (if s \<noteq> [] \<and> list_all is_digit s \<and> dec_value s < 2 ^ 32 then Some (dec_value s) else None)"

definition from_chars_hex :: "string \<Rightarrow> nat option" where
  "from_chars_hex s =
     (if s \<noteq> [] \<and> list_all is_xdigit s \<and> hex_value s < 2 ^ 32 then Some (hex_value s) else None)"

text \<open>
  \<^verbatim>\<open>std::stoi\<close>: leading white space and one sign are skipped, the longest run of digits is read and
  what follows it is ignored.
\<close>

definition stoi :: "string \<Rightarrow> int result" where
  "stoi s =
     (let t = dropWhile is_space s;
          neg = (t \<noteq> [] \<and> hd t = CHR ''-'');
          u = (if t \<noteq> [] \<and> (hd t = CHR ''-'' \<or> hd t = CHR ''+'') then tl t else t);
          ds = takeWhile is_digit u;
          v = (if neg then - int (dec_value ds) else int (dec_value ds))
      in if ds = [] then Inl (InvalidArgument ''stoi'')
         else if v < - (2 ^ 31) \<or> 2 ^ 31 \<le> v then Inl (OutOfRange ''stoi'')
         else Inr v)"

section \<open>Searching and splitting strings\<close>

text \<open>
  \<^verbatim>\<open>find(c)\<close> followed by \<^verbatim>\<open>substr(0, pos)\<close> and \<^verbatim>\<open>substr(pos + 1)\<close>: the parts before and after the first
  occurrence, or \<^const>\<open>None\<close> for \<^verbatim>\<open>npos\<close>.
\<close>

definition split_first :: "char \<Rightarrow> string \<Rightarrow> (string \<times> string) option" where
  "split_first c s =
     (if c \<in> set s
      then Some (takeWhile (\<lambda>x. x \<noteq> c) s, tl (dropWhile (\<lambda>x. x \<noteq> c) s))
      else None)"

text \<open>The segments between separators; there is always at least one.\<close>

fun split_on :: "char \<Rightarrow> string \<Rightarrow> string list" where
  "split_on sep [] = [[]]"
| "split_on sep (c # cs) =
     (if c = sep then [] # split_on sep cs
      else (case split_on sep cs of [] \<Rightarrow> [[c]] | seg # segs \<Rightarrow> (c # seg) # segs))"

text \<open>
  The strings that \<^verbatim>\<open>while (std::getline(ss, token, sep))\<close> yields: an empty rest after the last
  separator gives no further token.
\<close>

definition getline_tokens :: "char \<Rightarrow> string \<Rightarrow> string list" where
  "getline_tokens sep s =
     (let segs = split_on sep s in if last segs = [] then butlast segs else segs)"

text \<open>Removing leading and trailing characters of a class.\<close>

definition trim_by :: "(char \<Rightarrow> bool) \<Rightarrow> string \<Rightarrow> string" where
  "trim_by p s = rev (dropWhile p (rev (dropWhile p s)))"

lemma split_first_None [simp]: "split_first c s = None \<longleftrightarrow> c \<notin> set s"
  by (simp add: split_first_def)

lemma split_first_absent [simp]: "c \<notin> set s \<Longrightarrow> split_first c s = None"
  by simp

lemma split_first_SomeD:
  "split_first c s = Some (a, b) \<Longrightarrow> s = a @ c # b \<and> c \<notin> set a"
proof -
  assume asm: "split_first c s = Some (a, b)"
  then have c: "c \<in> set s" and a: "a = takeWhile (\<lambda>x. x \<noteq> c) s"
    and b: "b = tl (dropWhile (\<lambda>x. x \<noteq> c) s)"
    by (auto simp: split_first_def split: if_splits)
  have ne: "dropWhile (\<lambda>x. x \<noteq> c) s \<noteq> []" using c by (simp add: dropWhile_eq_Nil_conv)
  then have "hd (dropWhile (\<lambda>x. x \<noteq> c) s) = c" using hd_dropWhile [of "\<lambda>x. x \<noteq> c" s] by blast
  with ne b have "dropWhile (\<lambda>x. x \<noteq> c) s = c # b" by (metis list.collapse)
  then have "s = a @ c # b" using a by (metis takeWhile_dropWhile_id)
  moreover have "c \<notin> set a" using a by (auto dest: set_takeWhileD)
  ultimately show ?thesis by simp
qed

lemma split_first_append [simp]: "c \<notin> set a \<Longrightarrow> split_first c (a @ c # b) = Some (a, b)"
  by (induction a) (auto simp: split_first_def)

lemma split_on_nonempty [simp]: "split_on sep s \<noteq> []"
  by (induction s) (auto split: list.splits)

lemma split_on_no_sep: "seg \<in> set (split_on sep s) \<Longrightarrow> sep \<notin> set seg"
  by (induction s arbitrary: seg) (auto split: list.splits if_splits)

lemma split_on_single: "sep \<notin> set s \<Longrightarrow> split_on sep s = [s]"
  by (induction s) auto

lemma split_on_append: "sep \<notin> set a \<Longrightarrow> split_on sep (a @ sep # b) = a # split_on sep b"
  by (induction a) auto

lemma split_on_append_sep: "split_on sep (a @ sep # b) = split_on sep a @ split_on sep b"
  by (induction a) (auto split: list.splits)

lemma split_on_prefix:
  assumes "sep \<notin> set a"
  shows "\<exists>rest. hd (split_on sep (a @ b)) = a @ rest"
  using assms
proof (induction a)
  case (Cons c a)
  then show ?case by (cases "split_on sep (a @ b)") auto
qed simp

lemma set_trim_by: "set (trim_by p s) \<subseteq> set s"
proof
  fix x assume "x \<in> set (trim_by p s)"
  then have "x \<in> set (dropWhile p (rev (dropWhile p s)))" by (simp add: trim_by_def)
  then have "x \<in> set (dropWhile p s)" using set_dropWhileD by force
  then show "x \<in> set s" by (rule set_dropWhileD)
qed

lemma trim_by_ends:
  assumes "trim_by p s \<noteq> []"
  shows "\<not> p (hd (trim_by p s))" and "\<not> p (last (trim_by p s))"
proof -
  let ?a = "dropWhile p s" and ?b = "dropWhile p (rev (dropWhile p s))"
  have ne: "?b \<noteq> []" using assms by (simp add: trim_by_def)
  have hb: "\<not> p (hd ?b)" using ne hd_dropWhile by blast
  then show "\<not> p (last (trim_by p s))" using ne by (simp add: trim_by_def last_rev)
  obtain pre where pre: "rev ?a = pre @ ?b"
    by (metis takeWhile_dropWhile_id)
  then have "?a = rev ?b @ rev pre" by (metis rev_append rev_rev_ident)
  then have "hd ?a = hd (rev ?b)" and "?a \<noteq> []"
    using ne by (metis hd_append2 rev_is_Nil_conv, metis append_is_Nil_conv rev_is_Nil_conv)
  moreover have "\<not> p (hd ?a)" using calculation(2) hd_dropWhile by blast
  ultimately show "\<not> p (hd (trim_by p s))" by (simp add: trim_by_def)
qed

section \<open>Ordered maps\<close>

text \<open>
  A \<^verbatim>\<open>std::map\<close> that the code iterates is an association list in key order. What its clients use is the
  usual contract of a map; the laws of repeated insertion are proved once from it.
\<close>

type_synonym ('k, 'v) smap = "('k \<times> 'v) list"

fun smap_put :: "'k :: linorder \<Rightarrow> 'v \<Rightarrow> ('k, 'v) smap \<Rightarrow> ('k, 'v) smap" where
  "smap_put k v [] = [(k, v)]"
| "smap_put k v ((k', v') # m) =
     (if k < k' then (k, v) # (k', v') # m
      else if k = k' then (k, v) # m
      else (k', v') # smap_put k v m)"

definition smap_erase :: "'k \<Rightarrow> ('k, 'v) smap \<Rightarrow> ('k, 'v) smap" where
  "smap_erase k m = filter (\<lambda>kv. fst kv \<noteq> k) m"

text \<open>\<^verbatim>\<open>emplace\<close> keeps an existing value.\<close>

definition smap_emplace :: "'k :: linorder \<Rightarrow> 'v \<Rightarrow> ('k, 'v) smap \<Rightarrow> ('k, 'v) smap" where
  "smap_emplace k v m = (if map_of m k = None then smap_put k v m else m)"

definition smap_wf :: "('k :: linorder, 'v) smap \<Rightarrow> bool" where
  "smap_wf m \<longleftrightarrow> sorted_wrt (<) (map fst m)"

locale std_map =
  fixes map_empty :: 'm and map_put :: "'k \<Rightarrow> 'v \<Rightarrow> 'm \<Rightarrow> 'm" and map_lookup :: "'m \<Rightarrow> 'k \<Rightarrow> 'v option"
  assumes lookup_empty: "map_lookup map_empty k = None"
    and lookup_put: "map_lookup (map_put k v m) = (map_lookup m)(k \<mapsto> v)"
begin

lemma lookup_fold_put:
  "map_lookup (fold (\<lambda>(k, v). map_put k v) kvs m) = map_lookup m ++ map_of (rev kvs)"
  by (induction kvs arbitrary: m) (auto simp: lookup_put map_add_def split: option.splits)

lemma lookup_build: "map_lookup (fold (\<lambda>(k, v). map_put k v) kvs map_empty) = map_of (rev kvs)"
  by (auto simp: lookup_fold_put lookup_empty map_add_def fun_eq_iff split: option.splits)

end

lemma map_of_smap_put: "map_of (smap_put k v m) = (map_of m)(k \<mapsto> v)"
  by (induction k v m rule: smap_put.induct) auto

interpretation smap: std_map "[]" smap_put map_of
  by unfold_locales (simp_all add: map_of_smap_put)

lemma map_of_smap_erase: "map_of (smap_erase k m) = (map_of m)(k := None)"
  by (induction m) (auto simp: smap_erase_def)

lemma map_of_smap_emplace:
  "map_of (smap_emplace k v m) = (if map_of m k = None then (map_of m)(k \<mapsto> v) else map_of m)"
  by (simp add: smap_emplace_def map_of_smap_put)

lemma set_smap_put_keys: "set (map fst (smap_put k v m)) = insert k (set (map fst m))"
  by (induction k v m rule: smap_put.induct) auto

lemma smap_put_wf: "smap_wf m \<Longrightarrow> smap_wf (smap_put k v m)"
proof (induction k v m rule: smap_put.induct)
  case (2 k v k' v' m)
  then show ?case
    using set_smap_put_keys [of k v m] by (auto simp: smap_wf_def)
qed (simp add: smap_wf_def)

lemma smap_emplace_wf: "smap_wf m \<Longrightarrow> smap_wf (smap_emplace k v m)"
  by (simp add: smap_emplace_def smap_put_wf)

section \<open>Integer conversions\<close>

text \<open>\<^verbatim>\<open>static_cast<uint32_t>\<close> and \<^verbatim>\<open>static_cast<int>\<close> of a 64-bit value keep the low 32 bits.\<close>

definition to_u32 :: "int \<Rightarrow> u32" where
  "to_u32 i = word_of_int i"

definition to_i32 :: "int \<Rightarrow> int" where
  "to_i32 i = sint (word_of_int i :: u32)"

text \<open>C++ integer division rounds towards zero.\<close>

definition cpp_div :: "int \<Rightarrow> int \<Rightarrow> int" where
  "cpp_div a b = sgn a * sgn b * (\<bar>a\<bar> div \<bar>b\<bar>)"

lemma cpp_div_nonneg [simp]: "0 \<le> a \<Longrightarrow> 0 < b \<Longrightarrow> cpp_div a b = a div b"
  by (cases "a = 0") (auto simp: cpp_div_def)

text \<open>The conversion to \<^verbatim>\<open>int64_t\<close>.\<close>

definition to_i64 :: "int \<Rightarrow> int" where
  "to_i64 i = sint (word_of_int i :: u64)"

definition int64_ok :: "int \<Rightarrow> bool" where
  "int64_ok i \<longleftrightarrow> - (2 ^ 63) \<le> i \<and> i < 2 ^ 63"

lemma to_i64_id [simp]: "int64_ok i \<Longrightarrow> to_i64 i = i"
  by (simp add: to_i64_def int64_ok_def sint_sbintrunc' signed_take_bit_int_eq_self)

section \<open>The text of an exception\<close>

text \<open>\<^verbatim>\<open>ConfigValidationError::build_message\<close>: a single issue gives its message, several their number.\<close>

definition build_message :: "(string \<times> string) list \<Rightarrow> string" where
  "build_message issues =
     (case issues of [] \<Rightarrow> ''Config validation failed''
      | [(issue_path, message)] \<Rightarrow> message
      | _ \<Rightarrow> ''Config validation failed with '' @ nat_to_string (length issues) @ '' errors'')"

definition what :: "cpp_error \<Rightarrow> string" where
  "what e = (case e of InvalidArgument s \<Rightarrow> s | OutOfRange s \<Rightarrow> s | RuntimeError s \<Rightarrow> s | ConfigError s \<Rightarrow> s
     | FirewallError s \<Rightarrow> s | NetlinkError s \<Rightarrow> s | SchedulerError s \<Rightarrow> s | DnsError s \<Rightarrow> s | KeeneticDnsError s \<Rightarrow> s
     | HttpError s \<Rightarrow> s | JsonException s \<Rightarrow> s | LogicError s \<Rightarrow> s | DaemonError s \<Rightarrow> s | ApiError s status \<Rightarrow> s
     | ConfigValidationError issues \<Rightarrow> build_message issues)"

section \<open>Word bounds\<close>

lemma unat_u16_less [simp]: "unat (x :: u16) < 65536"
  using unsigned_less [of x, where 'a = nat] by simp

lemma unat_u16_le [simp]: "unat (x :: u16) \<le> 65535"
  using unat_u16_less [of x] by linarith

lemma unat_u32_less [simp]: "unat (x :: u32) < 4294967296"
  using unsigned_less [of x, where 'a = nat] by simp

lemma unat_of_nat_u16: "n < 65536 \<Longrightarrow> unat (of_nat n :: u16) = n"
  by (simp add: unat_of_nat)

lemma unat_of_nat_u32: "n < 4294967296 \<Longrightarrow> unat (of_nat n :: u32) = n"
  by (simp add: unat_of_nat)

end
