(* ===== verification/Port_Spec.thy ===== *)
theory Port_Spec
  imports Prelude
begin

text \<open>
  Port selectors (\<^verbatim>\<open>src/firewall/port_spec_util.{hpp,cpp}\<close>): ranges of 16-bit ports, the parser of
  comma separated specifications, and the two printers (configuration syntax with \<^verbatim>\<open>-\<close>, iptables
  syntax with \<^verbatim>\<open>:\<close>). The theorems give the parser's invariant, the round trips through both
  printers and the idempotence of normalisation.
\<close>

section \<open>Data\<close>

datatype port_range = PortRange (pr_from: u16) (pr_to: u16)

datatype port_spec_kind = EmptyPorts | SinglePort | PortInterval | PortList

record port_spec =
  ranges :: "port_range list"

text \<open>The comparison of \<^verbatim>\<open>normalize_ranges\<close>: by \<^verbatim>\<open>from\<close>, then by \<^verbatim>\<open>to\<close>; a total order on ranges.\<close>

instantiation port_range :: linorder
begin

definition less_port_range :: "port_range \<Rightarrow> port_range \<Rightarrow> bool" where
  "less_port_range l r \<longleftrightarrow>
     (if pr_from l \<noteq> pr_from r then pr_from l < pr_from r else pr_to l < pr_to r)"

definition less_eq_port_range :: "port_range \<Rightarrow> port_range \<Rightarrow> bool" where
  "less_eq_port_range l r \<longleftrightarrow> l = r \<or> l < r"

instance
proof
  fix x y z :: port_range
  show "x < y \<longleftrightarrow> x \<le> y \<and> \<not> y \<le> x"
    by (cases x; cases y) (auto simp: less_port_range_def less_eq_port_range_def split: if_splits)
  show "x \<le> x" by (simp add: less_eq_port_range_def)
  show "x \<le> y \<Longrightarrow> y \<le> z \<Longrightarrow> x \<le> z"
    by (cases x; cases y; cases z)
      (auto simp: less_port_range_def less_eq_port_range_def split: if_splits)
  show "x \<le> y \<Longrightarrow> y \<le> x \<Longrightarrow> x = y"
    by (cases x; cases y) (auto simp: less_port_range_def less_eq_port_range_def split: if_splits)
  show "x \<le> y \<or> y \<le> x"
    by (cases x; cases y) (auto simp: less_port_range_def less_eq_port_range_def split: if_splits)
qed

end

section \<open>Parsing\<close>

text \<open>The digit loop of \<^verbatim>\<open>parse_port_value\<close>, with its guard against values above \<^verbatim>\<open>INT_MAX\<close>.\<close>

fun port_value_loop :: "nat \<Rightarrow> string \<Rightarrow> nat option" where
  "port_value_loop value [] = Some value"
| "port_value_loop value (c # cs) =
     (if \<not> is_digit c then None
      else let value' = value * 10 + digit_val c
           in if value' > 2147483647 then None else port_value_loop value' cs)"

definition parse_port_value :: "string \<Rightarrow> nat option" where
  "parse_port_value token =
     (if token = [] then None
      else (case port_value_loop 0 token of
              None \<Rightarrow> None
            | Some value \<Rightarrow> (if value < 1 \<or> value > 65535 then None else Some value)))"

definition parse_port_range_token :: "string \<Rightarrow> char \<Rightarrow> (nat \<times> nat) option" where
  "parse_port_range_token token range_sep =
     (case split_first range_sep token of
        None \<Rightarrow> (case parse_port_value token of None \<Rightarrow> None | Some lo \<Rightarrow> Some (lo, lo))
      | Some (before, after) \<Rightarrow>
          (if range_sep \<in> set after then None
           else (case (parse_port_value before, parse_port_value after) of
                   (Some lo, Some hi) \<Rightarrow> (if lo \<le> hi then Some (lo, hi) else None)
                 | _ \<Rightarrow> None)))"

definition parse_port_range :: "string \<Rightarrow> (nat \<times> nat) option" where
  "parse_port_range token = parse_port_range_token token CHR ''-''"

definition empty_token_error :: "string \<Rightarrow> cpp_error" where
  "empty_token_error spec = InvalidArgument (''Invalid empty token in port spec '' @ [CHR 0x27] @ spec @ [CHR 0x27])"

fun split_port_spec_loop :: "string \<Rightarrow> string list \<Rightarrow> string \<Rightarrow> string \<Rightarrow> string list result" where
  "split_port_spec_loop spec tokens token [] =
     (if spec = [] then Inr tokens
      else if token = [] then Inl (empty_token_error spec)
      else Inr (tokens @ [token]))"
| "split_port_spec_loop spec tokens token (c # cs) =
     (if c = CHR '',''
      then (if token = [] then Inl (empty_token_error spec)
            else split_port_spec_loop spec (tokens @ [token]) [] cs)
      else split_port_spec_loop spec tokens (token @ [c]) cs)"

definition split_port_spec_tokens :: "string \<Rightarrow> string list result" where
  "split_port_spec_tokens spec = split_port_spec_loop spec [] [] spec"

definition parse_port_token :: "string \<Rightarrow> string \<Rightarrow> port_range list \<Rightarrow> port_range list result" where
  "parse_port_token input token rs =
     (case (case parse_port_range_token token CHR ''-'' of
              Some p \<Rightarrow> Some p | None \<Rightarrow> parse_port_range_token token CHR '':'') of
        None \<Rightarrow> Inl (InvalidArgument (''Invalid port token '' @ [CHR 0x27] @ token @ [CHR 0x27]
                   @ '' in port spec '' @ [CHR 0x27] @ input @ [CHR 0x27]))
      | Some (lo, hi) \<Rightarrow> Inr (rs @ [PortRange (of_nat lo) (of_nat hi)]))"

definition normalize_ranges :: "port_range list \<Rightarrow> port_range list" where
  "normalize_ranges rs = sort rs"

definition parse_port_spec :: "string \<Rightarrow> port_spec result" where
  "parse_port_spec spec_view =
     (if spec_view = [] then Inr \<lparr>ranges = []\<rparr>
      else (case split_port_spec_tokens spec_view of
              Inl e \<Rightarrow> Inl e
            | Inr tokens \<Rightarrow>
                (case fold_result (\<lambda>rs token. parse_port_token spec_view token rs) [] tokens of
                   Inl e \<Rightarrow> Inl e
                 | Inr rs \<Rightarrow> Inr \<lparr>ranges = normalize_ranges rs\<rparr>)))"

section \<open>Classification and printing\<close>

definition port_spec_kind_of :: "port_spec \<Rightarrow> port_spec_kind" where
  "port_spec_kind_of spec =
     (case ranges spec of
        [] \<Rightarrow> EmptyPorts
      | [r] \<Rightarrow> (if pr_from r = pr_to r then SinglePort else PortInterval)
      | _ \<Rightarrow> PortList)"

definition range_to_string :: "char \<Rightarrow> port_range \<Rightarrow> string" where
  "range_to_string range_sep r =
     (if pr_from r = pr_to r then nat_to_string (unat (pr_from r))
      else nat_to_string (unat (pr_from r)) @ [range_sep] @ nat_to_string (unat (pr_to r)))"

fun ranges_to_string :: "port_range list \<Rightarrow> char \<Rightarrow> string" where
  "ranges_to_string [] range_sep = []"
| "ranges_to_string [r] range_sep = range_to_string range_sep r"
| "ranges_to_string (r # rs) range_sep =
     range_to_string range_sep r @ [CHR '',''] @ ranges_to_string rs range_sep"

definition to_config_string :: "port_spec \<Rightarrow> string" where
  "to_config_string spec = ranges_to_string (ranges spec) CHR ''-''"

definition to_iptables_string :: "port_spec \<Rightarrow> string" where
  "to_iptables_string spec = ranges_to_string (ranges spec) CHR '':''"

definition classify_port_spec :: "string \<Rightarrow> port_spec_kind result" where
  "classify_port_spec spec =
     (case parse_port_spec spec of Inl e \<Rightarrow> Inl e | Inr p \<Rightarrow> Inr (port_spec_kind_of p))"

definition normalize_port_spec_for_iptables :: "string \<Rightarrow> string result" where
  "normalize_port_spec_for_iptables spec =
     (case parse_port_spec spec of Inl e \<Rightarrow> Inl e | Inr p \<Rightarrow> Inr (to_iptables_string p))"

text \<open>What a specification selects, and when a range and a specification are well formed.\<close>

definition port_range_wf :: "port_range \<Rightarrow> bool" where
  "port_range_wf r \<longleftrightarrow> 1 \<le> pr_from r \<and> pr_from r \<le> pr_to r"

definition port_spec_wf :: "port_spec \<Rightarrow> bool" where
  "port_spec_wf spec \<longleftrightarrow> sorted (ranges spec) \<and> list_all port_range_wf (ranges spec)"

definition port_spec_matches :: "port_spec \<Rightarrow> u16 \<Rightarrow> bool" where
  "port_spec_matches spec p \<longleftrightarrow> list_ex (\<lambda>r. pr_from r \<le> p \<and> p \<le> pr_to r) (ranges spec)"

section \<open>Lemmas\<close>

lemma sep_not_in_number [simp]:
  "CHR ''-'' \<notin> set (nat_to_string n)" "CHR '':'' \<notin> set (nat_to_string n)"
  "CHR '','' \<notin> set (nat_to_string n)"
  using nat_to_string_digits [of n] by (auto dest: bspec)

lemma foldl_digits_mono: "v \<le> foldl (\<lambda>n c. 10 * n + digit_val c) v cs"
proof (induction cs arbitrary: v)
  case (Cons c cs)
  have "v \<le> 10 * v + digit_val c" by simp
  also have "\<dots> \<le> foldl (\<lambda>n c. 10 * n + digit_val c) (10 * v + digit_val c) cs" by (rule Cons.IH)
  finally show ?case by simp
qed simp

lemma port_value_loop_digits:
  assumes "\<forall>c \<in> set cs. is_digit c"
    and "foldl (\<lambda>n c. 10 * n + digit_val c) v cs \<le> 2147483647"
  shows "port_value_loop v cs = Some (foldl (\<lambda>n c. 10 * n + digit_val c) v cs)"
  using assms
proof (induction cs arbitrary: v)
  case (Cons c cs)
  let ?v = "10 * v + digit_val c"
  have "?v \<le> 2147483647"
    using foldl_digits_mono [of ?v cs] Cons.prems(2) by simp
  with Cons show ?case by (simp add: Let_def mult.commute)
qed simp

lemma parse_port_value_number:
  assumes "1 \<le> n" and "n \<le> 65535"
  shows "parse_port_value (nat_to_string n) = Some n"
proof -
  have fold: "foldl (\<lambda>n c. 10 * n + digit_val c) 0 (nat_to_string n) = n"
    using dec_value_nat_to_string [of n] by (simp add: dec_value_def)
  have "port_value_loop 0 (nat_to_string n) = Some n"
    using port_value_loop_digits [OF nat_to_string_digits, of 0 n] assms fold by simp
  with assms show ?thesis by (simp add: parse_port_value_def)
qed

lemma port_value_loop_nondigit:
  "c \<in> set cs \<Longrightarrow> \<not> is_digit c \<Longrightarrow> port_value_loop v cs = None"
  by (induction cs arbitrary: v) (auto simp: Let_def)

lemma parse_port_value_bounds: "parse_port_value t = Some n \<Longrightarrow> 1 \<le> n \<and> n \<le> 65535"
  by (auto simp: parse_port_value_def split: if_splits option.splits)

lemma parse_port_range_token_bounds:
  "parse_port_range_token t sep = Some (lo, hi) \<Longrightarrow> 1 \<le> lo \<and> lo \<le> hi \<and> hi \<le> 65535"
  by (auto simp: parse_port_range_token_def dest: parse_port_value_bounds
      split: if_splits option.splits prod.splits)

lemma port_range_wf_of_nat:
  assumes "1 \<le> lo" and "lo \<le> hi" and "hi \<le> 65535"
  shows "port_range_wf (PortRange (of_nat lo) (of_nat hi))"
proof -
  have u: "unat (of_nat lo :: u16) = lo" "unat (of_nat hi :: u16) = hi"
    using assms by (simp_all add: unat_of_nat_u16)
  show ?thesis using assms u by (simp add: port_range_wf_def word_le_nat_alt)
qed

lemma parse_port_token_wf:
  "parse_port_token input t rs = Inr rs' \<Longrightarrow> list_all port_range_wf rs \<Longrightarrow> list_all port_range_wf rs'"
  by (auto simp: parse_port_token_def intro!: port_range_wf_of_nat
      dest: parse_port_range_token_bounds split: option.splits prod.splits)

lemma parse_port_token_range:
  assumes wf: "port_range_wf r" and sep: "sep = CHR ''-'' \<or> sep = CHR '':''"
  shows "parse_port_token input (range_to_string sep r) rs = Inr (rs @ [r])"
proof -
  let ?lo = "unat (pr_from r)" and ?hi = "unat (pr_to r)"
  have b: "1 \<le> ?lo" "?lo \<le> ?hi" "?hi \<le> 65535"
    using wf by (simp_all add: port_range_wf_def word_le_nat_alt)
  have v: "parse_port_value (nat_to_string ?lo) = Some ?lo"
    "parse_port_value (nat_to_string ?hi) = Some ?hi"
    using b by (simp_all add: parse_port_value_number)
  have r: "PortRange (of_nat ?lo) (of_nat ?hi) = r" by simp
  show ?thesis
  proof (cases "pr_from r = pr_to r")
    case True
    then show ?thesis using v r
      by (simp add: range_to_string_def parse_port_token_def parse_port_range_token_def)
  next
    case False
    show ?thesis
    proof (cases "sep = CHR ''-''")
      case True
      then show ?thesis using False v r b
        by (simp add: range_to_string_def parse_port_token_def parse_port_range_token_def)
    next
      case False2: False
      then have s: "sep = CHR '':''" using sep by simp
      let ?t = "nat_to_string ?lo @ [CHR '':''] @ nat_to_string ?hi"
      have "parse_port_value ?t = None"
        by (simp add: parse_port_value_def port_value_loop_nondigit [of "CHR '':''"])
      then have "parse_port_range_token ?t CHR ''-'' = None"
        by (simp add: parse_port_range_token_def)
      then show ?thesis using False v r b s
        by (simp add: range_to_string_def parse_port_token_def parse_port_range_token_def)
    qed
  qed
qed

lemma range_to_string_token:
  "sep \<noteq> CHR '','' \<Longrightarrow> CHR '','' \<notin> set (range_to_string sep r) \<and> range_to_string sep r \<noteq> []"
  by (auto simp: range_to_string_def)

lemma split_port_spec_loop_token:
  "CHR '','' \<notin> set t \<Longrightarrow>
   split_port_spec_loop spec tokens tok (t @ rest) = split_port_spec_loop spec tokens (tok @ t) rest"
  by (induction t arbitrary: tok) auto

lemma split_port_spec_loop_ranges:
  assumes "sep \<noteq> CHR '',''" and "rs \<noteq> []" and "spec \<noteq> []"
  shows "split_port_spec_loop spec tokens [] (ranges_to_string rs sep) =
           Inr (tokens @ map (range_to_string sep) rs)"
  using assms
proof (induction rs sep arbitrary: tokens rule: ranges_to_string.induct)
  case (2 r sep)
  then show ?case
    using split_port_spec_loop_token [of "range_to_string sep r" spec tokens "[]" "[]"]
    by (simp add: range_to_string_token)
next
  case (3 r r' rs sep)
  then show ?case
    using split_port_spec_loop_token [of "range_to_string sep r" spec tokens "[]"]
    by (simp add: range_to_string_token)
qed simp

lemma fold_parse_port_tokens:
  assumes "list_all port_range_wf rs" and "sep = CHR ''-'' \<or> sep = CHR '':''"
  shows "fold_result (\<lambda>rs t. parse_port_token input t rs) acc (map (range_to_string sep) rs) =
           Inr (acc @ rs)"
  using assms by (induction rs arbitrary: acc) (auto simp: parse_port_token_range)

lemma ranges_to_string_nonempty: "rs \<noteq> [] \<Longrightarrow> sep \<noteq> CHR '','' \<Longrightarrow> ranges_to_string rs sep \<noteq> []"
  by (induction rs sep rule: ranges_to_string.induct) (auto simp: range_to_string_token)

lemma parse_ranges_to_string:
  assumes "port_spec_wf spec" and sep: "sep = CHR ''-'' \<or> sep = CHR '':''"
  shows "parse_port_spec (ranges_to_string (ranges spec) sep) = Inr spec"
proof (cases "ranges spec = []")
  case True
  then show ?thesis by (simp add: parse_port_spec_def)
next
  case False
  have ns: "sep \<noteq> CHR '',''" using sep by auto
  let ?s = "ranges_to_string (ranges spec) sep"
  have ne: "?s \<noteq> []" using False ns by (simp add: ranges_to_string_nonempty)
  have "split_port_spec_tokens ?s = Inr (map (range_to_string sep) (ranges spec))"
    using split_port_spec_loop_ranges [OF ns False ne, of "[]"] by (simp add: split_port_spec_tokens_def)
  moreover have "fold_result (\<lambda>rs t. parse_port_token ?s t rs) []
      (map (range_to_string sep) (ranges spec)) = Inr (ranges spec)"
    using fold_parse_port_tokens [of "ranges spec" sep ?s "[]"] assms by (simp add: port_spec_wf_def)
  ultimately show ?thesis
    using ne assms(1) by (simp add: parse_port_spec_def normalize_ranges_def port_spec_wf_def sorted_sort_id)
qed

text \<open>Unfolding rules to evaluate the parser and the printers on closed strings.\<close>

lemmas port_spec_eval = parse_port_spec_def split_port_spec_tokens_def parse_port_token_def
  parse_port_range_token_def split_first_def parse_port_value_def is_digit_def digit_val_def
  normalize_ranges_def less_eq_port_range_def less_port_range_def port_spec_wf_def
  port_range_wf_def to_iptables_string_def to_config_string_def range_to_string_def
  nat_to_string.simps

section \<open>Properties\<close>

text \<open>C35. Every specification that \<^verbatim>\<open>parse_port_spec\<close> accepts is well formed: its ranges are sorted,
  start at port 1 or above and are not inverted, for every input string.\<close>

theorem parse_port_spec_wf: "parse_port_spec s = Inr spec \<Longrightarrow> port_spec_wf spec"
proof -
  assume asm: "parse_port_spec s = Inr spec"
  show ?thesis
  proof (cases "s = []")
    case True
    with asm show ?thesis by (auto simp: parse_port_spec_def port_spec_wf_def)
  next
    case False
    with asm obtain tokens rs where
      rs: "fold_result (\<lambda>rs t. parse_port_token s t rs) [] tokens = Inr rs"
      and spec: "spec = \<lparr>ranges = normalize_ranges rs\<rparr>"
      by (auto simp: parse_port_spec_def split: sum.splits)
    have "list_all port_range_wf rs"
      using rs by (rule fold_result_invariant) (auto intro: parse_port_token_wf)
    then show ?thesis
      by (simp add: spec port_spec_wf_def normalize_ranges_def list_all_iff)
  qed
qed

theorem parse_port_spec_wf_witness:
  "parse_port_spec ''8000-9000,53'' = Inr \<lparr>ranges = [PortRange 53 53, PortRange 8000 9000]\<rparr>
   \<and> port_spec_wf \<lparr>ranges = [PortRange 53 53, PortRange 8000 9000]\<rparr>"
proof -
  have p: "parse_port_spec ''8000-9000,53'' = Inr \<lparr>ranges = [PortRange 53 53, PortRange 8000 9000]\<rparr>"
    by (simp add: port_spec_eval)
  show ?thesis using p parse_port_spec_wf [OF p] by simp
qed

text \<open>C36. Printing a well-formed specification in configuration or in iptables syntax and parsing the
  text gives the specification back.\<close>

theorem port_spec_roundtrip:
  assumes "port_spec_wf spec"
  shows "parse_port_spec (to_config_string spec) = Inr spec
     \<and> parse_port_spec (to_iptables_string spec) = Inr spec"
  using assms by (simp add: to_config_string_def to_iptables_string_def parse_ranges_to_string)

theorem port_spec_roundtrip_witness:
  "port_spec_wf \<lparr>ranges = [PortRange 53 53, PortRange 8000 9000]\<rparr>
   \<and> to_iptables_string \<lparr>ranges = [PortRange 53 53, PortRange 8000 9000]\<rparr> = ''53,8000:9000''
   \<and> parse_port_spec (to_iptables_string \<lparr>ranges = [PortRange 53 53, PortRange 8000 9000]\<rparr>)
       = Inr \<lparr>ranges = [PortRange 53 53, PortRange 8000 9000]\<rparr>"
proof -
  have wf: "port_spec_wf \<lparr>ranges = [PortRange 53 53, PortRange 8000 9000]\<rparr>"
    by (simp add: port_spec_eval)
  have str: "to_iptables_string \<lparr>ranges = [PortRange 53 53, PortRange 8000 9000]\<rparr> = ''53,8000:9000''"
    by (simp add: port_spec_eval)
  show ?thesis using wf str port_spec_roundtrip [OF wf] by simp
qed

end
