(* ===== verification/Ip_Set.thy ===== *)
theory Ip_Set
  imports Prelude
begin

text \<open>
  Sets of addresses and subnets (\<^verbatim>\<open>src/lists/ipset.{hpp,cpp}\<close>): the binary trie \<^verbatim>\<open>IpTrie\<close>, the address
  parsers of \<^verbatim>\<open>IpSet\<close> and its three operations. The trie is shown to implement the abstract prefix
  set of the locale \<open>prefix_set\<close>; a set built by any sequence of insertions answers membership by
  longest-prefix cover, exactly.
\<close>

section \<open>The trie\<close>

datatype ip_trie = TrieNode (child0: "ip_trie option") (child1: "ip_trie option") (is_prefix: bool)

definition empty_trie :: ip_trie where
  "empty_trie = TrieNode None None False"

fun trie_child :: "bool \<Rightarrow> ip_trie \<Rightarrow> ip_trie option" where
  "trie_child b (TrieNode l r p) = (if b then r else l)"

fun set_trie_child :: "bool \<Rightarrow> ip_trie \<Rightarrow> ip_trie \<Rightarrow> ip_trie" where
  "set_trie_child b c (TrieNode l r p) = (if b then TrieNode l (Some c) p else TrieNode (Some c) r p)"

text \<open>The bit test \<^verbatim>\<open>(bits[i / 8] >> (7 - i % 8)) & 1\<close> and the bits of a prefix, most significant first.\<close>

definition address_bit :: "u8 list \<Rightarrow> nat \<Rightarrow> bool" where
  "address_bit bytes i = bit (bytes ! (i div 8)) (7 - i mod 8)"

definition prefix_bits :: "u8 list \<Rightarrow> nat \<Rightarrow> bool list" where
  "prefix_bits bytes n = map (address_bit bytes) [0..<n]"

text \<open>
  The descent of \<^verbatim>\<open>IpTrie::insert\<close>: a missing child is created, and the walk stops without a change
  below a node that already ends a stored prefix.
\<close>

fun trie_insert_bits :: "bool list \<Rightarrow> ip_trie \<Rightarrow> ip_trie" where
  "trie_insert_bits [] (TrieNode l r p) = TrieNode l r True"
| "trie_insert_bits (b # bs) node =
     (let c = (case trie_child b node of None \<Rightarrow> empty_trie | Some c \<Rightarrow> c);
          c' = (if is_prefix c then c else trie_insert_bits bs c)
      in set_trie_child b c' node)"

definition trie_insert :: "u8 list \<Rightarrow> int \<Rightarrow> int \<Rightarrow> ip_trie \<Rightarrow> ip_trie result" where
  "trie_insert bytes prefix_len max_bits t =
     (if prefix_len < 0 \<or> prefix_len > max_bits then Inl (InvalidArgument ''invalid prefix length'')
      else Inr (trie_insert_bits (prefix_bits bytes (nat prefix_len)) t))"

fun trie_walk :: "bool list \<Rightarrow> ip_trie \<Rightarrow> bool" where
  "trie_walk [] node = False"
| "trie_walk (b # bs) node =
     (case trie_child b node of
        None \<Rightarrow> False
      | Some c \<Rightarrow> (if is_prefix c then True else trie_walk bs c))"

definition trie_covers :: "ip_trie \<Rightarrow> bool list \<Rightarrow> bool" where
  "trie_covers t bs \<longleftrightarrow> (if is_prefix t then True else trie_walk bs t)"

definition trie_contains :: "u8 list \<Rightarrow> nat \<Rightarrow> ip_trie \<Rightarrow> bool" where
  "trie_contains bytes max_bits t = trie_covers t (prefix_bits bytes max_bits)"

section \<open>Parsing addresses\<close>

text \<open>One octet: the run of digits at the head, which must be present and at most 255.\<close>

definition parse_octet :: "string \<Rightarrow> (u8 \<times> string) option" where
  "parse_octet s =
     (let ds = takeWhile is_digit s
      in if ds = [] then None
         else (case from_chars_uint ds of
                 None \<Rightarrow> None
               | Some val \<Rightarrow> (if val > 255 then None else Some (of_nat val, dropWhile is_digit s))))"

text \<open>The loop over the four octets; from the second on a dot is expected first.\<close>

fun parse_ipv4_loop :: "nat \<Rightarrow> u8 list \<Rightarrow> string \<Rightarrow> u8 list option" where
  "parse_ipv4_loop 0 out s = (if s = [] then Some out else None)"
| "parse_ipv4_loop (Suc n) out s =
     (let start = (if out = [] then Some s
                   else (case s of [] \<Rightarrow> None
                         | c # r \<Rightarrow> (if c = CHR ''.'' then Some r else None)))
      in case start of
           None \<Rightarrow> None
         | Some t \<Rightarrow>
             (case parse_octet t of
                None \<Rightarrow> None
              | Some (v, rest) \<Rightarrow> parse_ipv4_loop n (out @ [v]) rest))"

definition parse_ipv4 :: "string \<Rightarrow> u8 list option" where
  "parse_ipv4 s = parse_ipv4_loop 4 [] s"

text \<open>
  The group loop of \<^verbatim>\<open>parse_ipv6\<close>. The position in the text is the rest still to be read;
  \<^verbatim>\<open>double_colon_pos\<close> is the number of groups read before \<^verbatim>\<open>::\<close>, if it was seen.
\<close>

function parse_ipv6_groups :: "u16 list \<Rightarrow> nat option \<Rightarrow> string \<Rightarrow> (u16 list \<times> nat option) option" where
  "parse_ipv6_groups groups dc s =
     (if s = [] then Some (groups, dc)
      else if hd s = CHR '':'' \<and> tl s \<noteq> [] \<and> hd (tl s) = CHR '':''
      then (if dc \<noteq> None then None
            else if tl (tl s) = [] then Some (groups, Some (length groups))
            else parse_ipv6_groups groups (Some (length groups)) (tl (tl s)))
      else let t = (if hd s = CHR '':'' then tl s else s);
               hex = takeWhile is_xdigit (take 4 t);
               rest = drop (length hex) t
           in if hex = [] then None
              else (case from_chars_hex hex of
                      None \<Rightarrow> None
                    | Some val \<Rightarrow>
                        (if val > 65535 then None
                         else if rest \<noteq> [] \<and> hd rest \<noteq> CHR '':'' then None
                         else parse_ipv6_groups (groups @ [of_nat val]) dc rest)))"
  by pat_completeness auto
termination
proof (relation "measure (\<lambda>(groups, dc, s). length s)", goal_cases)
  case 1
  then show ?case by simp
next
  case (2 groups dc s)
  then show ?case by (cases s) auto
next
  case (3 groups dc s t hex rest val)
  have "t \<noteq> []" using 3 by auto
  moreover have "length t \<le> length s" using 3 by auto
  moreover have "length hex > 0" using 3 by simp
  ultimately show ?case using 3 by auto
qed

declare parse_ipv6_groups.simps [simp del]

definition group_bytes :: "u16 \<Rightarrow> u8 list" where
  "group_bytes g = [ucast (drop_bit 8 g), ucast (g AND 0xFF)]"

text \<open>Expansion of \<^verbatim>\<open>::\<close> into zero groups and the sixteen output bytes.\<close>

definition expand_groups :: "u16 list \<Rightarrow> nat option \<Rightarrow> u8 list option" where
  "expand_groups groups dc =
     (case dc of
        Some p \<Rightarrow>
          (if length groups > 8 then None
           else Some (concat (map group_bytes
                  (take p groups @ replicate (8 - length groups) 0 @ drop p groups))))
      | None \<Rightarrow>
          (if length groups \<noteq> 8 then None else Some (concat (map group_bytes groups))))"

definition parse_ipv6_plain :: "string \<Rightarrow> u8 list option" where
  "parse_ipv6_plain s =
     (if length s \<ge> 2 \<and> s ! 0 = CHR '':'' \<and> s ! 1 = CHR '':''
      then (if length s = 2 then Some (replicate 16 0)
            else (case parse_ipv6_groups [] (Some 0) (drop 2 s) of
                    None \<Rightarrow> None | Some (groups, dc) \<Rightarrow> expand_groups groups dc))
      else (case parse_ipv6_groups [] None s of
              None \<Rightarrow> None | Some (groups, dc) \<Rightarrow> expand_groups groups dc))"

text \<open>The part after the last colon, if it is dotted, is an IPv4 address and becomes two groups.\<close>

definition split_last :: "char \<Rightarrow> string \<Rightarrow> (string \<times> string) option" where
  "split_last c s =
     (case split_first c (rev s) of None \<Rightarrow> None | Some (a, b) \<Rightarrow> Some (rev b, rev a))"

definition mapped_groups :: "u8 list \<Rightarrow> string" where
  "mapped_groups v4 =
     hex_string (unat ((push_bit 8 (ucast (v4 ! 0)) OR ucast (v4 ! 1)) :: u32)) @ [CHR '':'']
     @ hex_string (unat ((push_bit 8 (ucast (v4 ! 2)) OR ucast (v4 ! 3)) :: u32))"

function parse_ipv6 :: "string \<Rightarrow> u8 list option" where
  "parse_ipv6 s =
     (case split_last CHR '':'' s of
        None \<Rightarrow> parse_ipv6_plain s
      | Some (before, after_colon) \<Rightarrow>
          (if CHR ''.'' \<in> set after_colon
           then (case parse_ipv4 after_colon of
                   None \<Rightarrow> None
                 | Some v4 \<Rightarrow> parse_ipv6 (before @ [CHR '':''] @ mapped_groups v4))
           else parse_ipv6_plain s))"
  by pat_completeness auto

lemma split_last_SomeD: "split_last c s = Some (a, b) \<Longrightarrow> s = a @ c # b \<and> c \<notin> set b"
  by (auto simp: split_last_def dest!: split_first_SomeD split: option.splits)
    (metis append.assoc append_Cons append_Nil rev.simps(2) rev_append rev_rev_ident)

lemma dot_not_in_hex_string: "CHR ''.'' \<notin> set (hex_string n)"
  using hex_string_xdigits [of n] by (auto simp: is_xdigit_def is_digit_def dest!: bspec)

termination parse_ipv6
proof (relation "measure (\<lambda>s. length (filter (\<lambda>c. c = CHR ''.'') s))", goal_cases)
  case 1
  then show ?case by simp
next
  case (2 s p before after v4)
  then have s: "s = before @ CHR '':'' # after" and dot: "CHR ''.'' \<in> set after"
    using split_last_SomeD by (auto dest: sym)
  have "filter (\<lambda>c. c = CHR ''.'') (mapped_groups v4) = []"
    using dot_not_in_hex_string by (auto simp: mapped_groups_def filter_empty_conv)
  moreover have "filter (\<lambda>c. c = CHR ''.'') after \<noteq> []"
    using dot by (auto simp: filter_empty_conv)
  ultimately show ?case by (simp add: s)
qed

declare parse_ipv6.simps [simp del]

section \<open>The set\<close>

record ip_set =
  v4_trie :: ip_trie
  v6_trie :: ip_trie

definition empty_ip_set :: ip_set where
  "empty_ip_set = \<lparr>v4_trie = empty_trie, v6_trie = empty_trie\<rparr>"

definition add_address :: "string \<Rightarrow> ip_set \<Rightarrow> ip_set result" where
  "add_address addr s =
     (case parse_ipv4 addr of
        Some v4 \<Rightarrow>
          (case trie_insert v4 32 32 (v4_trie s) of
             Inl e \<Rightarrow> Inl e | Inr t \<Rightarrow> Inr (s\<lparr>v4_trie := t\<rparr>))
      | None \<Rightarrow>
          (case parse_ipv6 addr of
             Some v6 \<Rightarrow>
               (case trie_insert v6 128 128 (v6_trie s) of
                  Inl e \<Rightarrow> Inl e | Inr t \<Rightarrow> Inr (s\<lparr>v6_trie := t\<rparr>))
           | None \<Rightarrow> Inl (InvalidArgument (''invalid IP address: '' @ addr))))"

definition add_cidr :: "string \<Rightarrow> ip_set \<Rightarrow> ip_set result" where
  "add_cidr cidr s =
     (case split_first CHR ''/'' cidr of
        None \<Rightarrow> Inl (InvalidArgument (''invalid CIDR notation (no /): '' @ cidr))
      | Some (ip_part, prefix_str) \<Rightarrow>
          (case from_chars_uint prefix_str of
             None \<Rightarrow> Inl (InvalidArgument (''invalid CIDR prefix length: '' @ cidr))
           | Some prefix_len \<Rightarrow>
               (case parse_ipv4 ip_part of
                  Some v4 \<Rightarrow>
                    (if prefix_len > 32 then Inl (InvalidArgument (''IPv4 prefix length > 32: '' @ cidr))
                     else (case trie_insert v4 (int prefix_len) 32 (v4_trie s) of
                             Inl e \<Rightarrow> Inl e | Inr t \<Rightarrow> Inr (s\<lparr>v4_trie := t\<rparr>)))
                | None \<Rightarrow>
                    (case parse_ipv6 ip_part of
                       Some v6 \<Rightarrow>
                         (if prefix_len > 128
                          then Inl (InvalidArgument (''IPv6 prefix length > 128: '' @ cidr))
                          else (case trie_insert v6 (int prefix_len) 128 (v6_trie s) of
                                  Inl e \<Rightarrow> Inl e | Inr t \<Rightarrow> Inr (s\<lparr>v6_trie := t\<rparr>)))
                     | None \<Rightarrow> Inl (InvalidArgument (''invalid CIDR notation: '' @ cidr))))))"

definition ip_set_contains :: "ip_set \<Rightarrow> string \<Rightarrow> bool result" where
  "ip_set_contains s addr =
     (case parse_ipv4 addr of
        Some v4 \<Rightarrow> Inr (trie_contains v4 32 (v4_trie s))
      | None \<Rightarrow>
          (case parse_ipv6 addr of
             Some v6 \<Rightarrow> Inr (trie_contains v6 128 (v6_trie s))
           | None \<Rightarrow> Inl (InvalidArgument (''invalid IP address: '' @ addr))))"

section \<open>The prefix-set interface\<close>

text \<open>
  What a client of a prefix set relies on: the empty set covers nothing, and inserting a prefix adds
  exactly the bit strings that extend it.
\<close>

locale prefix_set =
  fixes empty :: "'s"
    and insert :: "bool list \<Rightarrow> 's \<Rightarrow> 's"
    and covers :: "'s \<Rightarrow> bool list \<Rightarrow> bool"
  assumes covers_empty: "\<not> covers empty q"
    and covers_insert: "covers (insert p s) q \<longleftrightarrow> covers s q \<or> prefix p q"
begin

lemma covers_fold: "covers (fold insert ps s) q \<longleftrightarrow> covers s q \<or> (\<exists>p \<in> set ps. prefix p q)"
  by (induction ps arbitrary: s) (auto simp: covers_insert)

lemma covers_fold_empty: "covers (fold insert ps empty) q \<longleftrightarrow> (\<exists>p \<in> set ps. prefix p q)"
  by (simp add: covers_fold covers_empty)

lemma covers_insert_mono: "covers s q \<Longrightarrow> covers (insert p s) q"
  by (simp add: covers_insert)

lemma covers_order: "set ps = set ps' \<Longrightarrow> covers (fold insert ps s) q = covers (fold insert ps' s) q"
  by (simp add: covers_fold)

end

lemma trie_covers_empty: "\<not> trie_covers empty_trie q"
  by (cases q) (auto simp: trie_covers_def empty_trie_def)

lemma trie_child_set [simp]:
  "trie_child b (set_trie_child b' c t) = (if b = b' then Some c else trie_child b t)"
  by (cases t) auto

lemma is_prefix_set_child [simp]: "is_prefix (set_trie_child b c t) = is_prefix t"
  by (cases t) auto

lemma trie_walk_covers:
  "trie_walk (b # bs) t = (case trie_child b t of None \<Rightarrow> False | Some c \<Rightarrow> trie_covers c bs)"
  by (simp add: trie_covers_def split: option.splits)

lemma trie_covers_insert: "trie_covers (trie_insert_bits p t) q \<longleftrightarrow> trie_covers t q \<or> prefix p q"
proof (induction p arbitrary: t q)
  case Nil
  then show ?case by (cases t) (simp add: trie_covers_def)
next
  case (Cons b bs)
  show ?case
  proof (cases q)
    case Nil
    then show ?thesis by (simp add: trie_covers_def Let_def)
  next
    case (Cons d ds)
    define c where "c = (case trie_child b t of None \<Rightarrow> empty_trie | Some c \<Rightarrow> c)"
    define c' where "c' = (if is_prefix c then c else trie_insert_bits bs c)"
    have new: "trie_insert_bits (b # bs) t = set_trie_child b c' t"
      by (simp add: c_def c'_def Let_def)
    have old: "(case trie_child b t of None \<Rightarrow> False | Some c \<Rightarrow> trie_covers c ds) = trie_covers c ds"
      by (simp add: c_def trie_covers_empty split: option.splits)
    have cov: "trie_covers c' ds \<longleftrightarrow> trie_covers c ds \<or> prefix bs ds"
      by (simp add: c'_def Cons.IH) (simp add: trie_covers_def)
    show ?thesis
      unfolding new Cons
      by (cases "d = b") (auto simp: trie_covers_def [of t] trie_covers_def [of "set_trie_child b c' t"]
          trie_walk_covers cov old simp del: trie_walk.simps)
  qed
qed

interpretation trie_set: prefix_set empty_trie trie_insert_bits trie_covers
  by unfold_locales (simp_all add: trie_covers_empty trie_covers_insert)

section \<open>Meaning of the set operations\<close>

text \<open>
  The abstract view: an address is a family with its bytes, an entry denotes a subnet (an address and
  a number of leading bits), and an address is in a subnet when the family and those bits agree.
\<close>

datatype ip_value = IPv4 "u8 list" | IPv6 "u8 list"

definition parse_ip_value :: "string \<Rightarrow> ip_value option" where
  "parse_ip_value s =
     (case parse_ipv4 s of Some b \<Rightarrow> Some (IPv4 b)
      | None \<Rightarrow> (case parse_ipv6 s of Some b \<Rightarrow> Some (IPv6 b) | None \<Rightarrow> None))"

datatype ip_entry = AddressEntry string | CidrEntry string

fun add_entry :: "ip_set \<Rightarrow> ip_entry \<Rightarrow> ip_set result" where
  "add_entry s (AddressEntry a) = add_address a s"
| "add_entry s (CidrEntry c) = add_cidr c s"

fun family_width :: "ip_value \<Rightarrow> nat" where
  "family_width (IPv4 b) = 32"
| "family_width (IPv6 b) = 128"

fun entry_subnet :: "ip_entry \<Rightarrow> (ip_value \<times> nat) option" where
  "entry_subnet (AddressEntry a) =
     (case parse_ip_value a of None \<Rightarrow> None | Some ip \<Rightarrow> Some (ip, family_width ip))"
| "entry_subnet (CidrEntry c) =
     (case split_first CHR ''/'' c of
        None \<Rightarrow> None
      | Some (a, n) \<Rightarrow>
          (case (from_chars_uint n, parse_ip_value a) of
             (Some len, Some ip) \<Rightarrow> (if len \<le> family_width ip then Some (ip, len) else None)
           | _ \<Rightarrow> None))"

fun in_subnet :: "ip_value \<Rightarrow> ip_value \<times> nat \<Rightarrow> bool" where
  "in_subnet (IPv4 a) (IPv4 b, n) = (prefix_bits a n = prefix_bits b n)"
| "in_subnet (IPv6 a) (IPv6 b, n) = (prefix_bits a n = prefix_bits b n)"
| "in_subnet _ _ = False"

definition ip_set_member :: "ip_set \<Rightarrow> ip_value \<Rightarrow> bool" where
  "ip_set_member s ip =
     (case ip of IPv4 b \<Rightarrow> trie_contains b 32 (v4_trie s) | IPv6 b \<Rightarrow> trie_contains b 128 (v6_trie s))"

lemma ip_set_contains_member:
  "ip_set_contains s addr =
     (case parse_ip_value addr of
        None \<Rightarrow> Inl (InvalidArgument (''invalid IP address: '' @ addr))
      | Some ip \<Rightarrow> Inr (ip_set_member s ip))"
  by (simp add: ip_set_contains_def parse_ip_value_def ip_set_member_def split: option.splits)

lemma prefix_of_prefix_bits:
  "n \<le> m \<Longrightarrow> prefix (prefix_bits a n) (prefix_bits b m) \<longleftrightarrow> prefix_bits b n = prefix_bits a n"
proof -
  assume "n \<le> m"
  then have "prefix_bits b m = prefix_bits b n @ map (address_bit b) [n..<m]"
    using upt_add_eq_append [of 0 n "m - n"] by (simp add: prefix_bits_def)
  moreover have "length (prefix_bits a n) = length (prefix_bits b n)"
    by (simp add: prefix_bits_def)
  ultimately show ?thesis
    by (auto simp: prefix_def)
qed

lemma trie_contains_insert:
  assumes "trie_insert a n m t = Inr t'" and "0 \<le> n" and "nat m \<le> w"
  shows "trie_contains b w t' \<longleftrightarrow> trie_contains b w t \<or> prefix_bits b (nat n) = prefix_bits a (nat n)"
proof -
  have t': "t' = trie_insert_bits (prefix_bits a (nat n)) t" and "n \<le> m"
    using assms(1) by (auto simp: trie_insert_def split: if_splits)
  then have "nat n \<le> w" using assms(3) by linarith
  then show ?thesis
    by (simp add: t' trie_contains_def trie_set.covers_insert prefix_of_prefix_bits)
qed

lemma trie_insert_ok: "0 \<le> n \<Longrightarrow> n \<le> m \<Longrightarrow> \<exists>t'. trie_insert a n m t = Inr t'"
  by (simp add: trie_insert_def)

text \<open>One insertion: it succeeds exactly on entries that denote a subnet, and adds that subnet.\<close>

lemma add_entry_member:
  assumes "add_entry s e = Inr s'"
  shows "\<exists>r. entry_subnet e = Some r \<and> (\<forall>ip. ip_set_member s' ip \<longleftrightarrow> ip_set_member s ip \<or> in_subnet ip r)"
proof (cases e)
  case (AddressEntry a)
  show ?thesis
  proof (cases "parse_ipv4 a")
    case (Some v4)
    with assms AddressEntry obtain t where t: "trie_insert v4 32 32 (v4_trie s) = Inr t"
      and s': "s' = s\<lparr>v4_trie := t\<rparr>"
      by (auto simp: add_address_def split: sum.splits)
    have "ip_set_member s' ip \<longleftrightarrow> ip_set_member s ip \<or> in_subnet ip (IPv4 v4, 32)" for ip
      using trie_contains_insert [OF t] by (cases ip) (simp_all add: s' ip_set_member_def)
    with Some AddressEntry show ?thesis by (simp add: parse_ip_value_def)
  next
    case None
    with assms AddressEntry obtain v6 t where v6: "parse_ipv6 a = Some v6"
      and t: "trie_insert v6 128 128 (v6_trie s) = Inr t" and s': "s' = s\<lparr>v6_trie := t\<rparr>"
      by (auto simp: add_address_def split: sum.splits option.splits)
    have "ip_set_member s' ip \<longleftrightarrow> ip_set_member s ip \<or> in_subnet ip (IPv6 v6, 128)" for ip
      using trie_contains_insert [OF t] by (cases ip) (simp_all add: s' ip_set_member_def)
    with None v6 AddressEntry show ?thesis by (simp add: parse_ip_value_def)
  qed
next
  case (CidrEntry c)
  with assms obtain a n len where c: "split_first CHR ''/'' c = Some (a, n)"
    and len: "from_chars_uint n = Some len"
    by (auto simp: add_cidr_def simp del: split_first_None split: option.splits)
  show ?thesis
  proof (cases "parse_ipv4 a")
    case (Some v4)
    with assms CidrEntry c len obtain t where le: "len \<le> 32"
      and t: "trie_insert v4 (int len) 32 (v4_trie s) = Inr t" and s': "s' = s\<lparr>v4_trie := t\<rparr>"
      by (auto simp: add_cidr_def split: sum.splits if_splits)
    have "ip_set_member s' ip \<longleftrightarrow> ip_set_member s ip \<or> in_subnet ip (IPv4 v4, len)" for ip
      using trie_contains_insert [OF t] by (cases ip) (simp_all add: s' ip_set_member_def)
    with Some CidrEntry c len le show ?thesis by (simp add: parse_ip_value_def)
  next
    case None
    with assms CidrEntry c len obtain v6 t where v6: "parse_ipv6 a = Some v6" and le: "len \<le> 128"
      and t: "trie_insert v6 (int len) 128 (v6_trie s) = Inr t" and s': "s' = s\<lparr>v6_trie := t\<rparr>"
      by (auto simp: add_cidr_def split: sum.splits option.splits if_splits)
    have "ip_set_member s' ip \<longleftrightarrow> ip_set_member s ip \<or> in_subnet ip (IPv6 v6, len)" for ip
      using trie_contains_insert [OF t] by (cases ip) (simp_all add: s' ip_set_member_def)
    with None v6 CidrEntry c len le show ?thesis by (simp add: parse_ip_value_def)
  qed
qed

lemma ip_set_member_empty: "\<not> ip_set_member empty_ip_set ip"
  by (cases ip) (simp_all add: ip_set_member_def empty_ip_set_def trie_contains_def trie_covers_empty)

lemma fold_add_entry_member:
  assumes "fold_result add_entry s es = Inr s'"
  shows "(\<forall>e \<in> set es. entry_subnet e \<noteq> None) \<and>
    (ip_set_member s' ip \<longleftrightarrow>
       ip_set_member s ip \<or> (\<exists>e \<in> set es. \<exists>r. entry_subnet e = Some r \<and> in_subnet ip r))"
  using assms
proof (induction es arbitrary: s)
  case Nil
  then show ?case by simp
next
  case (Cons e es)
  then obtain t where t: "add_entry s e = Inr t" "fold_result add_entry t es = Inr s'"
    by (auto split: sum.splits)
  from add_entry_member [OF t(1)] obtain r where "entry_subnet e = Some r"
    and "\<forall>ip. ip_set_member t ip \<longleftrightarrow> ip_set_member s ip \<or> in_subnet ip r"
    by blast
  with Cons.IH [OF t(2)] show ?case by (cases r) auto
qed

section \<open>Text forms of addresses\<close>

definition dotted :: "u8 list \<Rightarrow> string" where
  "dotted bs = concat (map (\<lambda>b. nat_to_string (unat b) @ ''.'') (butlast bs)) @ nat_to_string (unat (last bs))"

fun join_groups :: "u16 list \<Rightarrow> string" where
  "join_groups [] = []"
| "join_groups [g] = hex_string (unat g)"
| "join_groups (g # gs) = hex_string (unat g) @ [CHR '':''] @ join_groups gs"

lemma takeWhile_digits_append:
  "\<forall>c \<in> set ds. p c \<Longrightarrow> rest = [] \<or> \<not> p (hd rest) \<Longrightarrow> takeWhile p (ds @ rest) = ds \<and> dropWhile p (ds @ rest) = rest"
  by (induction ds) (cases rest; auto)+

lemma parse_ipv4_unfold: "parse_ipv4 s = parse_ipv4_loop (Suc (Suc (Suc (Suc 0)))) [] s"
  by (simp add: parse_ipv4_def numeral_eq_Suc)

lemma parse_octet_number:
  fixes b :: u8
  assumes "rest = [] \<or> hd rest = CHR ''.''"
  shows "parse_octet (nat_to_string (unat b) @ rest) = Some (b, rest)"
proof -
  have split: "takeWhile is_digit (nat_to_string (unat b) @ rest) = nat_to_string (unat b)"
    "dropWhile is_digit (nat_to_string (unat b) @ rest) = rest"
    using takeWhile_digits_append [OF nat_to_string_digits, of rest "unat b"] assms
    by auto
  have b: "unat b < 256" using unsigned_less [of b, where 'a = nat] by simp
  then have "from_chars_uint (nat_to_string (unat b)) = Some (unat b)"
    using nat_to_string_digits [of "unat b"] by (simp add: from_chars_uint_def list_all_iff)
  with split b show ?thesis by (simp add: parse_octet_def)
qed

lemma hex_string_length: "n < 16 ^ Suc k \<Longrightarrow> length (hex_string n) \<le> Suc k"
proof (induction k arbitrary: n)
  case 0
  then show ?case by (simp add: hex_string.simps [of n])
next
  case (Suc k)
  have "n div 16 < 16 ^ Suc k" using Suc.prems by (simp add: div_less_iff_less_mult)
  with Suc.IH [of "n div 16"] show ?case by (simp add: hex_string.simps [of n])
qed

lemma hex_string_nonempty [simp]: "hex_string n \<noteq> []"
  by (subst hex_string.simps) simp

lemma hd_hex_string: "is_xdigit (hd (hex_string n))"
  using hex_string_xdigits [of n] by (cases "hex_string n") auto

lemma colon_not_xdigit [simp]: "\<not> is_xdigit CHR '':''"
  by (simp add: is_xdigit_def is_digit_def)

lemma parse_group:
  fixes g :: u16
  assumes rest: "rest = [] \<or> hd rest = CHR '':''"
  shows "parse_ipv6_groups groups dc (hex_string (unat g) @ rest) =
           parse_ipv6_groups (groups @ [g]) dc rest"
    and "parse_ipv6_groups groups dc (CHR '':'' # hex_string (unat g) @ rest) =
           parse_ipv6_groups (groups @ [g]) dc rest"
proof -
  let ?h = "hex_string (unat g)"
  have len: "length ?h \<le> 4" using hex_string_length [of "unat g" 3] by simp
  have "take 4 (?h @ rest) = ?h @ take (4 - length ?h) rest" using len by simp
  then have hex: "takeWhile is_xdigit (take 4 (?h @ rest)) = ?h"
    using takeWhile_digits_append [OF hex_string_xdigits, of "take (4 - length ?h) rest" "unat g"] rest
    by (cases rest; cases "4 - length ?h") auto
  have val: "from_chars_hex ?h = Some (unat g)"
    using hex_string_xdigits [of "unat g"] less_trans [OF unat_u16_less [of g], of "2 ^ 32"]
    by (simp add: from_chars_hex_def list_all_iff)
  have hd: "hd (?h @ rest) \<noteq> CHR '':''" "hd ?h \<noteq> CHR '':''"
    using hd_hex_string [of "unat g"] by auto
  have go: "\<not> (rest \<noteq> [] \<and> hd rest \<noteq> CHR '':'')" "\<not> 65535 < unat g"
    using rest by (auto simp: not_less)
  show "parse_ipv6_groups groups dc (?h @ rest) = parse_ipv6_groups (groups @ [g]) dc rest"
    using hd hex val go by (subst parse_ipv6_groups.simps) (auto simp: Let_def)
  show "parse_ipv6_groups groups dc (CHR '':'' # ?h @ rest) = parse_ipv6_groups (groups @ [g]) dc rest"
    using hd hex val go by (subst parse_ipv6_groups.simps) (auto simp: Let_def)
qed

lemma join_groups_Cons:
  "gs \<noteq> [] \<Longrightarrow> join_groups (g # gs) = hex_string (unat g) @ [CHR '':''] @ join_groups gs"
  by (cases gs) auto

lemma parse_joined:
  assumes "gs \<noteq> []" and "rest = [] \<or> hd rest = CHR '':''"
  shows "parse_ipv6_groups groups dc (join_groups gs @ rest) = parse_ipv6_groups (groups @ gs) dc rest
    \<and> parse_ipv6_groups groups dc (CHR '':'' # join_groups gs @ rest) =
        parse_ipv6_groups (groups @ gs) dc rest"
  using assms(1)
proof (induction gs arbitrary: groups)
  case (Cons g gs)
  show ?case
  proof (cases "gs = []")
    case True
    then show ?thesis using parse_group [OF assms(2)] by simp
  next
    case False
    let ?r = "CHR '':'' # join_groups gs @ rest"
    have "?r = [] \<or> hd ?r = CHR '':''" by simp
    from parse_group [OF this, of groups dc g] show ?thesis
      using Cons.IH [OF False, of "groups @ [g]"] False by (simp add: join_groups_Cons)
  qed
qed simp

lemma join_groups_no_dot: "CHR ''.'' \<notin> set (join_groups gs)"
  by (induction gs rule: join_groups.induct) (auto simp: dot_not_in_hex_string)

lemma parse_ipv6_no_dot: "CHR ''.'' \<notin> set s \<Longrightarrow> parse_ipv6 s = parse_ipv6_plain s"
  by (subst parse_ipv6.simps) (auto dest!: split_last_SomeD split: option.splits)

lemma join_groups_head: "gs \<noteq> [] \<Longrightarrow> join_groups gs \<noteq> [] \<and> hd (join_groups gs) \<noteq> CHR '':''"
  using hd_hex_string [of "unat (hd gs)"]
  by (cases gs; cases "tl gs") auto

section \<open>Properties\<close>

text \<open>C17. A set built by any successful sequence of \<^verbatim>\<open>add_address\<close> and \<^verbatim>\<open>add_cidr\<close> calls contains an address
  exactly when one of the entries denotes a subnet of the address's family whose leading bits agree
  with it: covered insertions that the trie cuts short lose nothing, and nothing else is matched.\<close>

theorem ip_set_contains_iff:
  assumes "fold_result add_entry empty_ip_set es = Inr s" and "parse_ip_value addr = Some ip"
  shows "ip_set_contains s addr =
    Inr (\<exists>e \<in> set es. \<exists>r. entry_subnet e = Some r \<and> in_subnet ip r)"
  using fold_add_entry_member [OF assms(1), of ip] assms(2)
  by (simp add: ip_set_contains_member ip_set_member_empty)

theorem ip_set_contains_iff_witness:
  "\<exists>s. fold_result add_entry empty_ip_set [CidrEntry ''10.0.0.0/8'', AddressEntry ''192.0.2.1''] = Inr s
     \<and> ip_set_contains s ''10.200.0.7'' = Inr True"
proof -
  let ?es = "[CidrEntry ''10.0.0.0/8'', AddressEntry ''192.0.2.1'']"
  have p: "parse_ipv4 ''10.0.0.0'' = Some [10, 0, 0, 0]" "parse_ipv4 ''192.0.2.1'' = Some [192, 0, 2, 1]"
    "parse_ipv4 ''10.200.0.7'' = Some [10, 200, 0, 7]"
    by (simp_all add: parse_ipv4_unfold parse_octet_def from_chars_uint_def is_digit_def
        digit_val_def dec_value_def)
  have c: "split_first CHR ''/'' ''10.0.0.0/8'' = Some (''10.0.0.0'', ''8'')"
    "from_chars_uint ''8'' = Some 8"
    by (simp_all add: split_first_def from_chars_uint_def is_digit_def digit_val_def dec_value_def)
  obtain s where s: "fold_result add_entry empty_ip_set ?es = Inr s"
    using p c by (simp add: add_cidr_def add_address_def trie_insert_def)
  have ip: "parse_ip_value ''10.200.0.7'' = Some (IPv4 [10, 200, 0, 7])"
    using p by (simp add: parse_ip_value_def)
  have sub: "entry_subnet (CidrEntry ''10.0.0.0/8'') = Some (IPv4 [10, 0, 0, 0], 8)"
    using p c by (simp add: parse_ip_value_def)
  have "in_subnet (IPv4 [10, 200, 0, 7]) (IPv4 [10, 0, 0, 0], 8)"
    by (simp add: prefix_bits_def address_bit_def)
  then have "\<exists>e \<in> set ?es. \<exists>r. entry_subnet e = Some r \<and> in_subnet (IPv4 [10, 200, 0, 7]) r"
    using sub by auto
  with s ip_set_contains_iff [OF s ip] show ?thesis by auto
qed

text \<open>The address parsers invert the usual text forms: four dotted decimal octets for IPv4, and for
  IPv6 both eight colon separated groups and the compressed form with \<^verbatim>\<open>::\<close> between any two runs of
  groups (at most eight in all), the gap being filled with zero groups.\<close>

theorem parse_address_text:
  "parse_ipv4 (dotted [a, b, c, d]) = Some [a, b, c, d]
   \<and> (length gs = 8 \<longrightarrow> parse_ipv6 (join_groups gs) = Some (concat (map group_bytes gs)))
   \<and> (length pre + length post \<le> 8 \<longrightarrow>
        parse_ipv6 (join_groups pre @ ''::'' @ join_groups post) =
          Some (concat (map group_bytes (pre @ replicate (8 - (length pre + length post)) 0 @ post))))"
proof (intro conjI impI)
  show "parse_ipv4 (dotted [a, b, c, d]) = Some [a, b, c, d]"
    by (simp add: parse_ipv4_unfold dotted_def parse_octet_number parse_octet_number [of "[]", simplified])
next
  assume "length gs = 8"
  then have ne: "gs \<noteq> []" by auto
  have "parse_ipv6_groups [] None (join_groups gs) = Some (gs, None)"
    using parse_joined [OF ne, of "[]" "[]" None] by (simp add: parse_ipv6_groups.simps [of gs])
  then show "parse_ipv6 (join_groups gs) = Some (concat (map group_bytes gs))"
    using join_groups_head [OF ne] \<open>length gs = 8\<close>
    by (auto simp: parse_ipv6_no_dot join_groups_no_dot parse_ipv6_plain_def expand_groups_def hd_conv_nth)
next
  assume len: "length pre + length post \<le> 8"
  let ?s = "join_groups pre @ ''::'' @ join_groups post"
  have dots: "CHR ''.'' \<notin> set ?s" by (simp add: join_groups_no_dot)
  have tail: "parse_ipv6_groups groups (Some k) (join_groups post) = Some (groups @ post, Some k)" for groups k
  proof (cases "post = []")
    case True
    then show ?thesis by (simp add: parse_ipv6_groups.simps [of groups])
  next
    case False
    then show ?thesis
      using parse_joined [OF False, of "[]" groups "Some k"]
      by (simp add: parse_ipv6_groups.simps [of "groups @ post"])
  qed
  show "parse_ipv6 ?s =
      Some (concat (map group_bytes (pre @ replicate (8 - (length pre + length post)) 0 @ post)))"
  proof (cases "pre = []")
    case True
    show ?thesis
    proof (cases "post = []")
      case True2: True
      have "replicate 16 (0 :: u8) = concat (map group_bytes (replicate 8 0))"
        by (simp add: numeral_eq_Suc group_bytes_def)
      with True True2 dots show ?thesis
        by (simp add: parse_ipv6_no_dot parse_ipv6_plain_def)
    next
      case False
      with True dots tail [of "[]" 0] len join_groups_head [OF False] show ?thesis
        by (simp add: parse_ipv6_no_dot parse_ipv6_plain_def expand_groups_def)
    qed
  next
    case False
    have "parse_ipv6_groups [] None ?s = parse_ipv6_groups pre None (''::'' @ join_groups post)"
      using parse_joined [OF False, of "''::'' @ join_groups post" "[]" None] by simp
    also have "\<dots> = Some (pre @ post, Some (length pre))"
      using tail [of pre "length pre"] join_groups_head [of post]
      by (cases "post = []") (simp_all add: parse_ipv6_groups.simps [of pre None])
    finally show ?thesis
      using dots len join_groups_head [OF False]
      by (auto simp: parse_ipv6_no_dot parse_ipv6_plain_def expand_groups_def hd_conv_nth nth_append)
  qed
qed

theorem parse_address_text_witness:
  "parse_ipv4 (dotted [192, 168, 0, 1]) = Some [192, 168, 0, 1]
   \<and> parse_ipv6 (join_groups [0x2001, 0xdb8, 0, 0, 0, 0, 0, 1])
        = Some (concat (map group_bytes [0x2001, 0xdb8, 0, 0, 0, 0, 0, 1]))
   \<and> parse_ipv6 (join_groups [0x2001, 0xdb8] @ ''::'' @ join_groups [1])
        = Some (concat (map group_bytes ([0x2001, 0xdb8] @ replicate 5 0 @ [1])))"
  using parse_address_text [of 192 168 0 1 "[0x2001, 0xdb8, 0, 0, 0, 0, 0, 1]" "[0x2001, 0xdb8]" "[1]"]
  by simp

end
