(* ===== verification/Config_Types.thy ===== *)
theory Config_Types
  imports Prelude
begin

text \<open>
  The configuration data model (\<^verbatim>\<open>src/api/generated/api_types.hpp\<close> and the aliases of
  \<^verbatim>\<open>src/config/config.hpp\<close>): one record per struct, in the order of the header, with every field of the
  struct. \<^verbatim>\<open>std::optional\<close> is \<open>option\<close>, \<^verbatim>\<open>int64_t\<close> fields are \<open>int\<close> (conversions to narrower types are
  explicit where the code makes them), \<^verbatim>\<open>std::map<std::string, T>\<close> is an association list in key order.
\<close>

record api_config =
  api_enabled :: "bool option"
  api_keep_alive_timeout_seconds :: "int option"
  api_listen :: "string option"
  api_max_request_body_bytes :: "int option"
  api_read_timeout_seconds :: "int option"
  api_write_timeout_seconds :: "int option"

record circuit_breaker_config =
  cb_failure_threshold :: "int option"
  cb_half_open_max_requests :: "int option"
  cb_success_threshold :: "int option"
  cb_timeout_ms :: "int option"

datatype daemon_firewall_backend = BackendAuto | BackendIptables | BackendNftables

datatype strict_enforcement_action_kind = StrictBlackhole | StrictUnreachable

record daemon_config =
  dm_cache_dir :: "string option"
  dm_clear_dynamic_sets_on_apply :: "bool option"
  dm_exec_kill_grace_seconds :: "int option"
  dm_exec_timeout_seconds :: "int option"
  dm_firewall_backend :: "daemon_firewall_backend option"
  dm_firewall_verify_max_bytes :: "int option"
  dm_ipv6_enabled :: "bool option"
  dm_max_file_size_bytes :: "int option"
  dm_pid_file :: "string option"
  dm_resolver_ready_timeout_seconds :: "int option"
  dm_skip_marked_packets :: "bool option"
  dm_strict_enforcement :: "bool option"
  dm_strict_enforcement_action :: "strict_enforcement_action_kind option"

record dns_test_server =
  dts_answer_ipv4 :: "string option"
  dts_listen :: string

record dns_rule =
  dr_allow_domain_rebinding :: "bool option"
  dr_enabled :: "bool option"
  dr_list :: "string list"
  dr_server :: string

datatype dns_server_type = DnsKeenetic | DnsStatic

record dns_server_config =
  srv_address :: "string option"
  srv_detour :: "string option"
  srv_tag :: string
  srv_type :: "dns_server_type option"

record system_resolver =
  sr_address :: string

record dns_config =
  dns_test_server_cfg :: "dns_test_server option"
  dns_fallback :: "string list option"
  dns_rules :: "dns_rule list option"
  dns_servers :: "dns_server_config list option"
  dns_system_resolver :: "system_resolver option"

record fwmark_config =
  fwm_mask :: "string option"
  fwm_start :: "string option"

record iproute_config =
  ipr_rule_priority_start :: "int option"
  ipr_table_start :: "int option"

record list_config =
  lst_detour :: "string option"
  lst_domains :: "string list option"
  lst_file :: "string option"
  lst_ip_cidrs :: "string list option"
  lst_ttl_ms :: "int option"
  lst_url :: "string option"

record lists_autoupdate_config =
  lau_cron :: "string option"
  lau_enabled :: "bool option"

datatype conntrack_on_switch = ConntrackDelete | ConntrackPreserve

record outbound_group =
  grp_outbounds :: "string list"
  grp_weight :: "int option"

record retry_config =
  rty_attempts :: "int option"
  rty_interval_ms :: "int option"

datatype outbound_type = BLACKHOLE | IGNORE | INTERFACE | TABLE | URLTEST

record outbound =
  ob_circuit_breaker :: "circuit_breaker_config option"
  ob_conntrack_on_switch :: "conntrack_on_switch option"
  ob_gateway :: "string option"
  ob_gateway6 :: "string option"
  ob_interface :: "string option"
  ob_interval_ms :: "int option"
  ob_outbound_groups :: "outbound_group list option"
  ob_probe_timeout_ms :: "int option"
  ob_retry :: "retry_config option"
  ob_strict_enforcement :: "bool option"
  ob_strict_enforcement_action :: "strict_enforcement_action_kind option"
  ob_table :: "int option"
  ob_tag :: string
  ob_tolerance_ms :: "int option"
  ob_type :: outbound_type
  ob_url :: "string option"

record route_rule =
  rr_dest_addr :: "string option"
  rr_dest_port :: "string option"
  rr_dscp :: "int option"
  rr_enabled :: "bool option"
  rr_list :: "string list option"
  rr_outbound :: string
  rr_proto :: "string option"
  rr_src_addr :: "string option"
  rr_src_port :: "string option"

record route_config =
  rc_inbound_interfaces :: "string list option"
  rc_rules :: "route_rule list option"

record config =
  cfg_api :: "api_config option"
  cfg_daemon :: "daemon_config option"
  cfg_dns :: "dns_config option"
  cfg_fwmark :: "fwmark_config option"
  cfg_iproute :: "iproute_config option"
  cfg_lists :: "(string \<times> list_config) list option"
  cfg_lists_autoupdate :: "lists_autoupdate_config option"
  cfg_outbounds :: "outbound list option"
  cfg_route :: "route_config option"

section \<open>Defaults\<close>

text \<open>\<^verbatim>\<open>optional::value_or\<close> and the value-initialised structs the code passes to it.\<close>

definition value_or :: "'a option \<Rightarrow> 'a \<Rightarrow> 'a" where
  "value_or x d = (case x of None \<Rightarrow> d | Some v \<Rightarrow> v)"

lemma value_or_simps [simp]: "value_or None d = d" "value_or (Some v) d = v"
  by (simp_all add: value_or_def)

definition default_circuit_breaker_config :: circuit_breaker_config where
  "default_circuit_breaker_config = \<lparr>cb_failure_threshold = None, cb_half_open_max_requests = None,
     cb_success_threshold = None, cb_timeout_ms = None\<rparr>"

definition default_daemon_config :: daemon_config where
  "default_daemon_config = \<lparr>dm_cache_dir = None, dm_clear_dynamic_sets_on_apply = None,
     dm_exec_kill_grace_seconds = None, dm_exec_timeout_seconds = None, dm_firewall_backend = None,
     dm_firewall_verify_max_bytes = None, dm_ipv6_enabled = None, dm_max_file_size_bytes = None,
     dm_pid_file = None, dm_resolver_ready_timeout_seconds = None, dm_skip_marked_packets = None,
     dm_strict_enforcement = None, dm_strict_enforcement_action = None\<rparr>"

definition default_dns_config :: dns_config where
  "default_dns_config = \<lparr>dns_test_server_cfg = None, dns_fallback = None, dns_rules = None,
     dns_servers = None, dns_system_resolver = None\<rparr>"

definition default_fwmark_config :: fwmark_config where
  "default_fwmark_config = \<lparr>fwm_mask = None, fwm_start = None\<rparr>"

definition default_iproute_config :: iproute_config where
  "default_iproute_config = \<lparr>ipr_rule_priority_start = None, ipr_table_start = None\<rparr>"

definition default_route_config :: route_config where
  "default_route_config = \<lparr>rc_inbound_interfaces = None, rc_rules = None\<rparr>"

definition default_retry_config :: retry_config where
  "default_retry_config = \<lparr>rty_attempts = None, rty_interval_ms = None\<rparr>"

section \<open>Accessors of config.hpp\<close>

definition route_rule_lists :: "route_rule \<Rightarrow> string list" where
  "route_rule_lists rule = (case rr_list rule of Some l \<Rightarrow> l | None \<Rightarrow> [])"

definition route_rule_enabled :: "route_rule \<Rightarrow> bool" where
  "route_rule_enabled rule = value_or (rr_enabled rule) True"

definition dns_rule_enabled :: "dns_rule \<Rightarrow> bool" where
  "dns_rule_enabled rule = value_or (dr_enabled rule) True"

text \<open>A blank outbound of a type, to build concrete configurations.\<close>

definition make_outbound :: "string \<Rightarrow> outbound_type \<Rightarrow> outbound" where
  "make_outbound t ty = \<lparr>ob_circuit_breaker = None, ob_conntrack_on_switch = None, ob_gateway = None,
     ob_gateway6 = None, ob_interface = None, ob_interval_ms = None, ob_outbound_groups = None,
     ob_probe_timeout_ms = None, ob_retry = None, ob_strict_enforcement = None,
     ob_strict_enforcement_action = None, ob_table = None, ob_tag = t, ob_tolerance_ms = None,
     ob_type = ty, ob_url = None\<rparr>"

definition empty_config :: config where
  "empty_config = \<lparr>cfg_api = None, cfg_daemon = None, cfg_dns = None, cfg_fwmark = None,
     cfg_iproute = None, cfg_lists = None, cfg_lists_autoupdate = None, cfg_outbounds = None,
     cfg_route = None\<rparr>"

end
