(* ===== verification/List_Parser.thy ===== *)
theory List_Parser
  imports Config_Types Ip_Set
begin

text \<open>
  List sources: the entry classifier and line parser (\<^verbatim>\<open>src/config/list_parser.cpp\<close>), the visitors
  (\<^verbatim>\<open>src/lists/list_entry_visitor.hpp\<close>), the streaming of cached files, local files and inline entries
  (\<^verbatim>\<open>src/lists/list_streamer.cpp\<close>) and the set usage analysis (\<^verbatim>\<open>src/lists/list_set_usage.cpp\<close>).
  \<^verbatim>\<open>inet_pton(AF_INET6)\<close> is the parameter \<open>pton6\<close>. A visitor is a function on its own state that may
  throw; warnings are collected in the order they are logged. Reading a file is a list of \<^verbatim>\<open>read\<close>
  results.
\<close>

section \<open>Text classification\<close>

definition trim :: "string \<Rightarrow> string" where
  "trim sv = trim_by (\<lambda>c. c = CHR '' '' \<or> c = CHR 0x09 \<or> c = CHR 0x0D) sv"

definition escape_log_char :: "char \<Rightarrow> string" where
  "escape_log_char c =
     (let ch = (of_char c :: nat)
      in if c = CHR 0x5C then [CHR 0x5C, CHR 0x5C]
         else if c = CHR 0x27 then [CHR 0x5C, CHR 0x27]
         else if c = CHR 0x0A then [CHR 0x5C, CHR ''n'']
         else if c = CHR 0x0D then [CHR 0x5C, CHR ''r'']
         else if c = CHR 0x09 then [CHR 0x5C, CHR ''t'']
         else if ch < 32 \<or> ch = 127 then [CHR 0x5C, CHR ''x'', hex_digit (ch div 16), hex_digit (ch mod 16)]
         else [c])"

definition format_entry_for_log :: "string \<Rightarrow> string" where
  "format_entry_for_log entry =
     [CHR 0x27] @ concat (map escape_log_char (take (min (length entry) 256) entry))
     @ (if length entry > min (length entry) 256 then [CHR 0xE2, CHR 0x80, CHR 0xA6] else [])
     @ [CHR 0x27]"

text \<open>
  The octet loop of \<^verbatim>\<open>is_ipv4\<close>: the first argument counts the octets still expected, the second is the
  text from the current position, \<^const>\<open>None\<close> once the position is past the end.
\<close>

fun is_ipv4_loop :: "nat \<Rightarrow> string option \<Rightarrow> bool" where
  "is_ipv4_loop 0 rest = (rest = None)"
| "is_ipv4_loop (Suc n) None = False"
| "is_ipv4_loop (Suc n) (Some s) =
     (let (part, next) = (case split_first CHR ''.'' s of None \<Rightarrow> (s, None) | Some (a, b) \<Rightarrow> (a, Some b))
      in if part = [] \<or> length part > 3 then False
         else (case from_chars_int part of
                 None \<Rightarrow> False
               | Some val \<Rightarrow> (if val < 0 \<or> val > 255 then False else is_ipv4_loop n next)))"

definition is_ipv4 :: "string \<Rightarrow> bool" where
  "is_ipv4 s = is_ipv4_loop 4 (Some s)"

text \<open>\<^verbatim>\<open>c_str()\<close> as a C function reads it: up to the first NUL.\<close>

definition c_str :: "string \<Rightarrow> string" where
  "c_str s = takeWhile (\<lambda>c. c \<noteq> CHR 0x00) s"

definition is_ipv6 :: "(string \<Rightarrow> bool) \<Rightarrow> string \<Rightarrow> bool" where
  "is_ipv6 pton6 s =
     (if s = [] then False
      else if CHR ''/'' \<in> set s then False
      else if CHR ''%'' \<in> set s then False
      else pton6 (c_str s))"

definition is_cidr_v4 :: "string \<Rightarrow> bool" where
  "is_cidr_v4 s =
     (case split_first CHR ''/'' s of
        None \<Rightarrow> False
      | Some (ip_part, prefix_part) \<Rightarrow>
          (if \<not> is_ipv4 ip_part then False
           else if prefix_part = [] \<or> length prefix_part > 2 then False
           else (case from_chars_int prefix_part of
                   None \<Rightarrow> False | Some pfx \<Rightarrow> pfx \<ge> 0 \<and> pfx \<le> 32)))"

definition is_cidr_v6 :: "(string \<Rightarrow> bool) \<Rightarrow> string \<Rightarrow> bool" where
  "is_cidr_v6 pton6 s =
     (case split_first CHR ''/'' s of
        None \<Rightarrow> False
      | Some (ip_part, prefix_part) \<Rightarrow>
          (if \<not> is_ipv6 pton6 ip_part then False
           else if prefix_part = [] \<or> length prefix_part > 3 then False
           else (case from_chars_int prefix_part of
                   None \<Rightarrow> False | Some pfx \<Rightarrow> pfx \<ge> 0 \<and> pfx \<le> 128)))"

definition domain_alpha :: "char \<Rightarrow> bool" where
  "domain_alpha c \<longleftrightarrow> is_lower c \<or> is_upper c"

definition domain_char :: "char \<Rightarrow> bool" where
  "domain_char c \<longleftrightarrow> domain_alpha c \<or> is_digit c \<or> c = CHR ''-'' \<or> c = CHR ''_''"

text \<open>The label loop of \<^verbatim>\<open>normalize_domain\<close>; the result is the final \<^verbatim>\<open>has_alpha\<close>, or \<^const>\<open>None\<close> on a bad label.\<close>

function domain_labels :: "bool \<Rightarrow> string \<Rightarrow> bool option" where
  "domain_labels has_alpha rest =
     (if rest = [] then Some has_alpha
      else let label = takeWhile (\<lambda>c. c \<noteq> CHR ''.'') rest
           in if length label = 0 \<or> length label > 63 then None
              else if hd label = CHR ''-'' \<or> last label = CHR ''-'' then None
              else if \<not> list_all domain_char label then None
              else let alpha' = (has_alpha \<or> list_ex domain_alpha label)
                   in case split_first CHR ''.'' rest of
                        None \<Rightarrow> Some alpha'
                      | Some (a, b) \<Rightarrow> domain_labels alpha' b)"
  by pat_completeness auto
termination
  by (relation "measure (\<lambda>(ha, rest). length rest)") (auto dest!: split_first_SomeD)

declare domain_labels.simps [simp del]

definition normalize_domain :: "string \<Rightarrow> string option" where
  "normalize_domain s0 =
     (if s0 = [] then None
      else let s1 = (if length s0 \<ge> 2 \<and> take 2 s0 = ''*.'' then drop 2 s0 else s0);
               s = (if s1 \<noteq> [] \<and> last s1 = CHR ''.'' then butlast s1 else s1)
           in if s = [] \<or> last s = CHR ''.'' \<or> length s > 253 then None
              else (case domain_labels False s of
                      None \<Rightarrow> None
                    | Some has_alpha \<Rightarrow> (if has_alpha then Some s else None)))"

section \<open>Visitors\<close>

datatype entry_type = EntryIp | EntryCidr | EntryDomain

type_synonym 'v visitor = "'v \<Rightarrow> entry_type \<Rightarrow> string \<Rightarrow> 'v result"

record entry_counter =
  ec_ips :: nat
  ec_cidrs :: nat
  ec_domains :: nat

definition entry_counter_init :: entry_counter where
  "entry_counter_init = \<lparr>ec_ips = 0, ec_cidrs = 0, ec_domains = 0\<rparr>"

definition entry_counter_on_entry :: "entry_counter visitor" where
  "entry_counter_on_entry ec ty entry =
     Inr (case ty of
            EntryIp \<Rightarrow> ec\<lparr>ec_ips := Suc (ec_ips ec)\<rparr>
          | EntryCidr \<Rightarrow> ec\<lparr>ec_cidrs := Suc (ec_cidrs ec)\<rparr>
          | EntryDomain \<Rightarrow> ec\<lparr>ec_domains := Suc (ec_domains ec)\<rparr>)"

section \<open>Parsing lines\<close>

text \<open>What \<^verbatim>\<open>classify_entry\<close> reports to the visitor, if anything.\<close>

definition entry_class :: "(string \<Rightarrow> bool) \<Rightarrow> string \<Rightarrow> (entry_type \<times> string) option" where
  "entry_class pton6 entry =
     (if is_cidr_v4 entry \<or> is_cidr_v6 pton6 entry then Some (EntryCidr, entry)
      else if is_ipv4 entry \<or> is_ipv6 pton6 entry then Some (EntryIp, entry)
      else (case normalize_domain entry of Some domain \<Rightarrow> Some (EntryDomain, domain) | None \<Rightarrow> None))"

definition classify_entry :: "(string \<Rightarrow> bool) \<Rightarrow> 'v visitor \<Rightarrow> string \<Rightarrow> 'v \<Rightarrow> (bool \<times> 'v) result" where
  "classify_entry pton6 vis entry v =
     (case entry_class pton6 entry of
        None \<Rightarrow> Inr (False, v)
      | Some (ty, e) \<Rightarrow> (case vis v ty e of Inl err \<Rightarrow> Inl err | Inr v' \<Rightarrow> Inr (True, v')))"

record parse_context =
  log_invalid_entries :: bool
  invalid_entry_count :: nat

record 'v line_state =
  ls_visitor :: 'v
  ls_context :: "parse_context option"
  ls_log :: "string list"

definition source_label :: "string \<Rightarrow> string" where
  "source_label source_name = (if source_name = [] then ''list source'' else source_name)"

definition parse_line ::
  "(string \<Rightarrow> bool) \<Rightarrow> 'v visitor \<Rightarrow> string \<Rightarrow> string \<Rightarrow> nat \<Rightarrow> 'v line_state \<Rightarrow> 'v line_state result" where
  "parse_line pton6 vis line source_name line_number st =
     (let value = trim line
      in if value = [] \<or> hd value = CHR ''#'' then Inr st
         else (case classify_entry pton6 vis value (ls_visitor st) of
                 Inl e \<Rightarrow> Inl e
               | Inr (recognised, v') \<Rightarrow>
                   (let st' = st\<lparr>ls_visitor := v'\<rparr>
                    in if \<not> recognised
                          \<and> (case ls_context st' of None \<Rightarrow> True | Some c \<Rightarrow> log_invalid_entries c)
                       then (let count = (case ls_context st' of None \<Rightarrow> 1 | Some c \<Rightarrow> Suc (invalid_entry_count c));
                                 ctx' = map_option (\<lambda>c. c\<lparr>invalid_entry_count := Suc (invalid_entry_count c)\<rparr>)
                                          (ls_context st');
                                 st'' = st'\<lparr>ls_context := ctx'\<rparr>
                             in if count > 6 then Inr st''
                                else if count = 6
                                then Inr (st''\<lparr>ls_log := ls_log st'' @
                                       [''Too many invalid list entries in '' @ source_label source_name
                                        @ ''; further entries will be skipped without warnings'']\<rparr>)
                                else Inr (st''\<lparr>ls_log := ls_log st'' @
                                       [''Skipping invalid list entry '' @ format_entry_for_log value @ '' in ''
                                        @ source_label source_name @ '' at line ''
                                        @ nat_to_string line_number]\<rparr>))
                       else Inr st')))"

fun stream_lines ::
  "(string \<Rightarrow> bool) \<Rightarrow> 'v visitor \<Rightarrow> string \<Rightarrow> nat \<Rightarrow> string list \<Rightarrow> 'v line_state \<Rightarrow> 'v line_state result" where
  "stream_lines pton6 vis source_name line_number [] st = Inr st"
| "stream_lines pton6 vis source_name line_number (l # ls) st =
     (case parse_line pton6 vis l source_name (Suc line_number) st of
        Inl e \<Rightarrow> Inl e
      | Inr st' \<Rightarrow> stream_lines pton6 vis source_name (Suc line_number) ls st')"

definition fresh_line_state :: "bool \<Rightarrow> 'v \<Rightarrow> 'v line_state" where
  "fresh_line_state log_invalid v =
     \<lparr>ls_visitor = v, ls_context = Some \<lparr>log_invalid_entries = log_invalid, invalid_entry_count = 0\<rparr>, ls_log = []\<rparr>"

definition stream_parse ::
  "(string \<Rightarrow> bool) \<Rightarrow> 'v visitor \<Rightarrow> string \<Rightarrow> string \<Rightarrow> 'v \<Rightarrow> 'v line_state result" where
  "stream_parse pton6 vis input source_name v =
     stream_lines pton6 vis source_name 0 (getline_tokens CHR 0x0A input) (fresh_line_state True v)"

section \<open>Streaming files\<close>

datatype read_result = ReadBytes string | ReadInterrupted | ReadFailed string

text \<open>What opening and inspecting a path gives: the error text of \<^verbatim>\<open>open\<close> or of \<^verbatim>\<open>fstat\<close>, or the mode and
  size with the results of the successive \<^verbatim>\<open>read\<close> calls.\<close>

datatype opened_file =
    OpenFailed string
  | StatFailed string
  | OpenedFile (of_regular: bool) (of_size: int) (of_reads: "read_result list")

type_synonym 'v stream_state = "string \<times> nat \<times> 'v line_state"

definition stream_byte ::
  "(string \<Rightarrow> bool) \<Rightarrow> 'v visitor \<Rightarrow> string \<Rightarrow> 'v stream_state \<Rightarrow> char \<Rightarrow> 'v stream_state result" where
  "stream_byte pton6 vis path s c =
     (case s of (line, line_number, st) \<Rightarrow>
        (if c = CHR 0x0A
         then (case parse_line pton6 vis line path line_number st of
                 Inl e \<Rightarrow> Inl e | Inr st' \<Rightarrow> Inr ([], Suc line_number, st'))
         else if length line \<ge> 4096
         then Inl (RuntimeError (''List line exceeds 4096-byte limit in '' @ path @ '' at line ''
                @ nat_to_string line_number))
         else Inr (line @ [c], line_number, st)))"

fun stream_reads ::
  "(string \<Rightarrow> bool) \<Rightarrow> 'v visitor \<Rightarrow> string \<Rightarrow> nat \<Rightarrow> nat \<Rightarrow> 'v stream_state \<Rightarrow> read_result list
     \<Rightarrow> 'v stream_state result" where
  "stream_reads pton6 vis path max_size total_bytes s [] = Inr s"
| "stream_reads pton6 vis path max_size total_bytes s (ReadInterrupted # rs) =
     stream_reads pton6 vis path max_size total_bytes s rs"
| "stream_reads pton6 vis path max_size total_bytes s (ReadFailed err # rs) =
     Inl (RuntimeError (''Failed to read list file '' @ path @ '': '' @ err))"
| "stream_reads pton6 vis path max_size total_bytes s (ReadBytes bytes # rs) =
     (if bytes = [] then Inr s
      else if total_bytes + length bytes > max_size
      then Inl (RuntimeError (''List file exceeds configured size limit: '' @ path))
      else (case fold_result (stream_byte pton6 vis path) s bytes of
              Inl e \<Rightarrow> Inl e
            | Inr s' \<Rightarrow> stream_reads pton6 vis path max_size (total_bytes + length bytes) s' rs))"

definition stream_file ::
  "(string \<Rightarrow> bool) \<Rightarrow> 'v visitor \<Rightarrow> (string \<Rightarrow> opened_file) \<Rightarrow> nat \<Rightarrow> string \<Rightarrow> bool \<Rightarrow> 'v \<Rightarrow> 'v line_state result" where
  "stream_file pton6 vis open_file max_size path log_invalid v =
     (case open_file path of
        OpenFailed err \<Rightarrow> Inl (RuntimeError (''Failed to open list file '' @ path @ '': '' @ err))
      | StatFailed err \<Rightarrow> Inl (RuntimeError (''Failed to inspect list file '' @ path @ '': '' @ err))
      | OpenedFile regular size_bytes reads \<Rightarrow>
          (if \<not> regular then Inl (RuntimeError (''List source is not a regular file: '' @ path))
           else if size_bytes < 0 \<or> size_bytes > int max_size
           then Inl (RuntimeError (''List file exceeds configured size limit: '' @ path))
           else (case stream_reads pton6 vis path max_size 0 ([], 1, fresh_line_state log_invalid v) reads of
                   Inl e \<Rightarrow> Inl e
                 | Inr (line, line_number, st) \<Rightarrow>
                     (if line \<noteq> [] then parse_line pton6 vis line path line_number st else Inr st))))"

text \<open>
  The sources of one list in the order of \<^verbatim>\<open>stream_all_sources\<close>: the cached file, the local file, then
  the inline CIDRs and domains, which share one context and one line counter. The visitor's
  \<^verbatim>\<open>on_list_complete\<close> is the last argument.
\<close>

record cache_view =
  cv_has_cache :: "string \<Rightarrow> bool"
  cv_cache_path :: "string \<Rightarrow> string"

definition stream_optional_file ::
  "(string \<Rightarrow> bool) \<Rightarrow> 'v visitor \<Rightarrow> (string \<Rightarrow> opened_file) \<Rightarrow> nat \<Rightarrow> string option \<Rightarrow> bool
     \<Rightarrow> 'v \<times> string list \<Rightarrow> ('v \<times> string list) result" where
  "stream_optional_file pton6 vis open_file max_size path log_invalid vl =
     (case path of
        None \<Rightarrow> Inr vl
      | Some p \<Rightarrow>
          (case stream_file pton6 vis open_file max_size p log_invalid (fst vl) of
             Inl e \<Rightarrow> Inl e
           | Inr st \<Rightarrow> Inr (ls_visitor st, snd vl @ ls_log st)))"

definition stream_all_sources ::
  "(string \<Rightarrow> bool) \<Rightarrow> 'v visitor \<Rightarrow> (string \<Rightarrow> opened_file) \<Rightarrow> cache_view \<Rightarrow> nat \<Rightarrow> ('v \<Rightarrow> string \<Rightarrow> 'v)
     \<Rightarrow> string \<Rightarrow> list_config \<Rightarrow> bool \<Rightarrow> 'v \<Rightarrow> ('v \<times> string list) result" where
  "stream_all_sources pton6 vis open_file cache max_size on_complete name cfg include_cache v =
     (case stream_optional_file pton6 vis open_file max_size
             (if include_cache then Some (cv_cache_path cache name) else None) False (v, []) of
        Inl e \<Rightarrow> Inl e
      | Inr vl1 \<Rightarrow>
          (case stream_optional_file pton6 vis open_file max_size (lst_file cfg) True vl1 of
             Inl e \<Rightarrow> Inl e
           | Inr vl2 \<Rightarrow>
               (case stream_lines pton6 vis (''inline list '' @ [CHR 0x27] @ name @ [CHR 0x27]) 0
                       (value_or (lst_ip_cidrs cfg) [] @ value_or (lst_domains cfg) [])
                       (fresh_line_state True (fst vl2)) of
                  Inl e \<Rightarrow> Inl e
                | Inr st \<Rightarrow> Inr (on_complete (ls_visitor st) name, snd vl2 @ ls_log st))))"

definition stream_list ::
  "(string \<Rightarrow> bool) \<Rightarrow> 'v visitor \<Rightarrow> (string \<Rightarrow> opened_file) \<Rightarrow> cache_view \<Rightarrow> nat \<Rightarrow> ('v \<Rightarrow> string \<Rightarrow> 'v)
     \<Rightarrow> string \<Rightarrow> list_config \<Rightarrow> 'v \<Rightarrow> ('v \<times> string list) result" where
  "stream_list pton6 vis open_file cache max_size on_complete name cfg v =
     stream_all_sources pton6 vis open_file cache max_size on_complete name cfg
       (lst_url cfg \<noteq> None \<and> cv_has_cache cache name) v"

definition stream_list_preferring_cache ::
  "(string \<Rightarrow> bool) \<Rightarrow> 'v visitor \<Rightarrow> (string \<Rightarrow> opened_file) \<Rightarrow> cache_view \<Rightarrow> nat \<Rightarrow> ('v \<Rightarrow> string \<Rightarrow> 'v)
     \<Rightarrow> string \<Rightarrow> list_config \<Rightarrow> 'v \<Rightarrow> ('v \<times> string list) result" where
  "stream_list_preferring_cache pton6 vis open_file cache max_size on_complete name cfg v =
     stream_all_sources pton6 vis open_file cache max_size on_complete name cfg (cv_has_cache cache name) v"

definition stream_cache ::
  "(string \<Rightarrow> bool) \<Rightarrow> 'v visitor \<Rightarrow> (string \<Rightarrow> opened_file) \<Rightarrow> cache_view \<Rightarrow> nat \<Rightarrow> string \<Rightarrow> 'v
     \<Rightarrow> ('v \<times> string list) result" where
  "stream_cache pton6 vis open_file cache max_size name v =
     stream_optional_file pton6 vis open_file max_size
       (if cv_has_cache cache name then Some (cv_cache_path cache name) else None) False (v, [])"

section \<open>Set usage\<close>

record list_set_usage =
  has_static_entries :: bool
  has_domain_entries :: bool
  dynamic_timeout :: u32

definition analyze_list_set_usage ::
  "(string \<Rightarrow> bool) \<Rightarrow> (string \<Rightarrow> opened_file) \<Rightarrow> cache_view \<Rightarrow> nat \<Rightarrow> string \<Rightarrow> list_config \<Rightarrow> list_set_usage result" where
  "analyze_list_set_usage pton6 open_file cache max_size list_name cfg =
     (case stream_list pton6 entry_counter_on_entry open_file cache max_size (\<lambda>v _. v) list_name cfg
             entry_counter_init of
        Inl e \<Rightarrow> Inl e
      | Inr (counter, log) \<Rightarrow>
          (let ttl_ms = value_or (lst_ttl_ms cfg) 0
           in Inr \<lparr>has_static_entries = (ec_ips counter > 0 \<or> ec_cidrs counter > 0),
                   has_domain_entries = (ec_domains counter > 0),
                   dynamic_timeout = (if ttl_ms \<ge> 1000 then to_u32 (cpp_div ttl_ms 1000) else 0)\<rparr>))"

section \<open>Domain names\<close>

text \<open>What a domain of a list looks like, stated over its labels.\<close>

definition domain_label :: "string \<Rightarrow> bool" where
  "domain_label l \<longleftrightarrow> l \<noteq> [] \<and> length l \<le> 63 \<and> hd l \<noteq> CHR ''-'' \<and> last l \<noteq> CHR ''-'' \<and> list_all domain_char l"

definition domain_wf :: "string \<Rightarrow> bool" where
  "domain_wf d \<longleftrightarrow>
     length d \<le> 253 \<and> list_all domain_label (split_on CHR ''.'' d) \<and> list_ex domain_alpha d"

lemma dot_not_domain_char [simp]: "\<not> domain_char CHR ''.''" "\<not> domain_alpha CHR ''.''" "\<not> domain_char CHR ''*''"
  by (simp_all add: domain_char_def domain_alpha_def char_class_defs)

lemma takeWhile_split_first: "split_first c s = Some (a, b) \<Longrightarrow> takeWhile (\<lambda>x. x \<noteq> c) s = a"
  by (auto simp: split_first_def split: if_splits)

lemma domain_labels_step:
  "rest \<noteq> [] \<Longrightarrow> domain_labels ha rest =
     (if domain_label (takeWhile (\<lambda>c. c \<noteq> CHR ''.'') rest)
      then (case split_first CHR ''.'' rest of
              None \<Rightarrow> Some (ha \<or> list_ex domain_alpha (takeWhile (\<lambda>c. c \<noteq> CHR ''.'') rest))
            | Some (a, b) \<Rightarrow> domain_labels (ha \<or> list_ex domain_alpha (takeWhile (\<lambda>c. c \<noteq> CHR ''.'') rest)) b)
      else None)"
  by (subst domain_labels.simps) (auto simp: domain_label_def Let_def)

lemma domain_labels_split_on:
  assumes "rest \<noteq> []" and "last rest \<noteq> CHR ''.''"
  shows "domain_labels ha rest =
    (if list_all domain_label (split_on CHR ''.'' rest) then Some (ha \<or> list_ex domain_alpha rest) else None)"
  using assms
proof (induction ha rest rule: domain_labels.induct)
  case (1 ha rest)
  show ?case
  proof (cases "split_first CHR ''.'' rest")
    case None
    then have nd: "CHR ''.'' \<notin> set rest" by simp
    then have tw: "takeWhile (\<lambda>c. c \<noteq> CHR ''.'') rest = rest" by (auto simp: takeWhile_eq_all_conv)
    show ?thesis
      unfolding domain_labels_step [OF 1(2)] tw None split_on_single [OF nd] by simp
  next
    case (Some ab)
    obtain a b where ab: "ab = (a, b)" by (cases ab)
    with Some have sp: "split_first CHR ''.'' rest = Some (a, b)" by simp
    from split_first_SomeD [OF sp] have rest: "rest = a @ CHR ''.'' # b" and na: "CHR ''.'' \<notin> set a" by auto
    have b: "b \<noteq> []" "last b \<noteq> CHR ''.''" using 1(3) rest by (auto split: if_splits)
    have so: "split_on CHR ''.'' rest = a # split_on CHR ''.'' b" using na by (simp add: rest split_on_append)
    have tw: "takeWhile (\<lambda>c. c \<noteq> CHR ''.'') rest = a" by (rule takeWhile_split_first [OF sp])
    show ?thesis
    proof (cases "domain_label a")
      case True
      then have label: "takeWhile (\<lambda>c. c \<noteq> CHR ''.'') rest \<noteq> []" "\<not> 63 < length a"
        "\<not> (hd a = CHR ''-'' \<or> last a = CHR ''-'')" "\<not> \<not> list_all domain_char a"
        by (auto simp: domain_label_def tw)
      have "domain_labels (ha \<or> list_ex domain_alpha a) b =
        (if list_all domain_label (split_on CHR ''.'' b)
         then Some ((ha \<or> list_ex domain_alpha a) \<or> list_ex domain_alpha b) else None)"
        by (rule 1(1) [OF 1(2) refl _ _ _ refl sp refl b, unfolded tw]) (use label in \<open>simp_all add: tw\<close>)
      with True show ?thesis
        by (simp add: domain_labels_step [OF 1(2)] tw sp so) (simp add: rest)
    next
      case False
      then show ?thesis by (simp add: domain_labels_step [OF 1(2)] tw so)
    qed
  qed
qed

lemma domain_wf_shape:
  assumes "domain_wf d"
  shows "d \<noteq> []" and "last d \<noteq> CHR ''.''" and "take 2 d \<noteq> ''*.''"
proof -
  show ne: "d \<noteq> []" using assms by (auto simp: domain_wf_def)
  show "last d \<noteq> CHR ''.''"
  proof
    assume "last d = CHR ''.''"
    with ne obtain e where "d = e @ CHR ''.'' # []" by (metis append_butlast_last_id)
    then have "[] \<in> set (split_on CHR ''.'' d)" by (simp add: split_on_append_sep)
    with assms show False by (auto simp: domain_wf_def list_all_iff domain_label_def)
  qed
  show "take 2 d \<noteq> ''*.''"
  proof
    assume "take 2 d = ''*.''"
    then obtain e where "d = ''*'' @ CHR ''.'' # e" by (metis append_Cons append_Nil append_take_drop_id)
    then have "''*'' \<in> set (split_on CHR ''.'' d)" by (simp add: split_on_append)
    with assms show False by (auto simp: domain_wf_def list_all_iff domain_label_def)
  qed
qed

text \<open>C38. \<^verbatim>\<open>normalize_domain\<close> accepts exactly the well-formed domain names (at most 253 bytes, labels of 1 to 63
  letters, digits, hyphens and underscores that neither start nor end with a hyphen, at least one letter),
  with an optional leading \<^verbatim>\<open>*.\<close> and one optional trailing dot, and returns the name without them.\<close>

theorem normalize_domain_iff:
  "normalize_domain s = Some d \<longleftrightarrow>
     domain_wf d \<and> (s = d \<or> s = d @ ''.'' \<or> s = ''*.'' @ d \<or> s = ''*.'' @ d @ ''.'')"
proof
  define s1 where "s1 = (if length s \<ge> 2 \<and> take 2 s = ''*.'' then drop 2 s else s)"
  define s2 where "s2 = (if s1 \<noteq> [] \<and> last s1 = CHR ''.'' then butlast s1 else s1)"
  have s1: "s = s1 \<or> s = ''*.'' @ s1" unfolding s1_def by (metis append_take_drop_id)
  have s2: "s1 = s2 \<or> s1 = s2 @ ''.''" unfolding s2_def by (metis append_butlast_last_id)
  assume n: "normalize_domain s = Some d"
  then have "domain_wf s2 \<and> d = s2"
    by (auto simp: normalize_domain_def s1_def [symmetric] s2_def [symmetric] Let_def
        domain_labels_split_on domain_wf_def split: if_splits option.splits)
  then show "domain_wf d \<and> (s = d \<or> s = d @ ''.'' \<or> s = ''*.'' @ d \<or> s = ''*.'' @ d @ ''.'')"
    using s1 s2 by auto
next
  assume r: "domain_wf d \<and> (s = d \<or> s = d @ ''.'' \<or> s = ''*.'' @ d \<or> s = ''*.'' @ d @ ''.'')"
  note shape = domain_wf_shape [OF conjunct1 [OF r]]
  have star: "take 2 (d @ ''.'') \<noteq> ''*.''"
    using shape r by (cases d rule: list.exhaust; cases "tl d")
      (auto simp: domain_wf_def domain_label_def)
  have core: "length d \<le> 253" "domain_labels False d = Some True"
    using r shape by (simp_all add: domain_wf_def domain_labels_split_on)
  from r consider "s = d" | "s = d @ ''.''" | "s = ''*.'' @ d" | "s = ''*.'' @ d @ ''.''" by blast
  then show "normalize_domain s = Some d"
    by cases (insert shape star core, simp_all add: normalize_domain_def Let_def)
qed

section \<open>Streaming\<close>

definition blank_line :: "string \<Rightarrow> bool" where
  "blank_line l \<longleftrightarrow> trim l = [] \<or> hd (trim l) = CHR ''#''"

definition line_entry :: "(string \<Rightarrow> bool) \<Rightarrow> string \<Rightarrow> (entry_type \<times> string) option" where
  "line_entry pton6 l = (if blank_line l then None else entry_class pton6 (trim l))"

definition line_entries :: "(string \<Rightarrow> bool) \<Rightarrow> string list \<Rightarrow> (entry_type \<times> string) list" where
  "line_entries pton6 ls = List.map_filter (line_entry pton6) ls"

definition invalid_lines :: "(string \<Rightarrow> bool) \<Rightarrow> string list \<Rightarrow> string list" where
  "invalid_lines pton6 ls = filter (\<lambda>l. \<not> blank_line l \<and> entry_class pton6 (trim l) = None) ls"

definition visit_entries :: "'v visitor \<Rightarrow> 'v \<Rightarrow> (entry_type \<times> string) list \<Rightarrow> 'v result" where
  "visit_entries vis v es = fold_result (\<lambda>v te. vis v (fst te) (snd te)) v es"

lemma stream_lines_append:
  "stream_lines pton6 vis src n (xs @ ys) st =
     (case stream_lines pton6 vis src n xs st of
        Inl e \<Rightarrow> Inl e | Inr st' \<Rightarrow> stream_lines pton6 vis src (n + length xs) ys st')"
  by (induction xs arbitrary: n st) (auto split: sum.splits)

text \<open>One line: the visitor sees the entry, if there is one; the log grows by at most one warning.\<close>

lemma parse_line_cases:
  assumes "ls_context st = Some ctx" and "log_invalid_entries ctx"
  shows "parse_line pton6 vis l src n st =
    (case line_entry pton6 l of
       Some (ty, e) \<Rightarrow> (case vis (ls_visitor st) ty e of Inl err \<Rightarrow> Inl err | Inr v' \<Rightarrow> Inr (st\<lparr>ls_visitor := v'\<rparr>))
     | None \<Rightarrow>
         (if blank_line l then Inr st
          else (let k = Suc (invalid_entry_count ctx)
                in Inr \<lparr>ls_visitor = ls_visitor st, ls_context = Some (ctx\<lparr>invalid_entry_count := k\<rparr>),
                        ls_log = ls_log st @
                          (if k > 6 then [] else if k = 6
                           then [''Too many invalid list entries in '' @ source_label src
                                 @ ''; further entries will be skipped without warnings'']
                           else [''Skipping invalid list entry '' @ format_entry_for_log (trim l) @ '' in ''
                                 @ source_label src @ '' at line '' @ nat_to_string n])\<rparr>)))"
  using assms
  by (cases st; cases "entry_class pton6 (trim l)")
    (auto simp: parse_line_def blank_line_def line_entry_def classify_entry_def Let_def
      split: sum.splits)

lemma stream_lines_logged:
  assumes "ls_context st = Some \<lparr>log_invalid_entries = True, invalid_entry_count = k\<rparr>"
    and "length (ls_log st) = m + min k 6"
  shows "case visit_entries vis (ls_visitor st) (line_entries pton6 ls) of
      Inl e \<Rightarrow> stream_lines pton6 vis src n ls st = Inl e
    | Inr v' \<Rightarrow> \<exists>log. stream_lines pton6 vis src n ls st =
          Inr \<lparr>ls_visitor = v',
               ls_context = Some \<lparr>log_invalid_entries = True,
                                  invalid_entry_count = k + length (invalid_lines pton6 ls)\<rparr>,
               ls_log = log\<rparr>
        \<and> length log = m + min (k + length (invalid_lines pton6 ls)) 6"
  using assms
proof (induction ls arbitrary: n st k)
  case Nil
  then show ?case
    by (cases st) (simp add: visit_entries_def line_entries_def invalid_lines_def List.map_filter_def)
next
  case (Cons l ls)
  note line = parse_line_cases [OF Cons.prems(1), simplified]
  show ?case
  proof (cases "line_entry pton6 l")
    case (Some te)
    obtain ty e where te: "te = (ty, e)" by (cases te)
    have valid: "invalid_lines pton6 (l # ls) = invalid_lines pton6 ls"
      using Some by (auto simp: invalid_lines_def line_entry_def split: if_splits)
    have entries: "line_entries pton6 (l # ls) = (ty, e) # line_entries pton6 ls"
      using Some te by (simp add: line_entries_def List.map_filter_def)
    show ?thesis
    proof (cases "vis (ls_visitor st) ty e")
      case (Inl err)
      with Some te entries show ?thesis by (simp add: visit_entries_def line)
    next
      case (Inr v')
      have "visit_entries vis (ls_visitor st) (line_entries pton6 (l # ls)) =
          visit_entries vis (ls_visitor (st\<lparr>ls_visitor := v'\<rparr>)) (line_entries pton6 ls)"
        using Inr by (simp add: entries visit_entries_def)
      moreover have step: "stream_lines pton6 vis src n (l # ls) st =
          stream_lines pton6 vis src (Suc n) ls (st\<lparr>ls_visitor := v'\<rparr>)"
        using Some te Inr by (simp add: line)
      ultimately show ?thesis
        using Cons.IH [of "st\<lparr>ls_visitor := v'\<rparr>" k "Suc n"] Cons.prems unfolding valid step by simp
    qed
  next
    case None
    have entries: "line_entries pton6 (l # ls) = line_entries pton6 ls"
      using None by (simp add: line_entries_def List.map_filter_def)
    show ?thesis
    proof (cases "blank_line l")
      case True
      then have "invalid_lines pton6 (l # ls) = invalid_lines pton6 ls" by (simp add: invalid_lines_def)
      with True None Cons.IH [of st k "Suc n"] Cons.prems entries show ?thesis
        by (simp add: line split: sum.splits)
    next
      case False
      then have inv: "length (invalid_lines pton6 (l # ls)) = Suc (length (invalid_lines pton6 ls))"
        using None by (simp add: invalid_lines_def line_entry_def)
      obtain st' where st': "parse_line pton6 vis l src (Suc n) st = Inr st'"
        and ctx: "ls_context st' = Some \<lparr>log_invalid_entries = True, invalid_entry_count = Suc k\<rparr>"
        and log: "length (ls_log st') = m + min (Suc k) 6" and vis': "ls_visitor st' = ls_visitor st"
        using False None Cons.prems by (auto simp: line Let_def)
      from Cons.IH [OF ctx log, of "Suc n"] show ?thesis
        using inv by (simp add: entries st' vis' split: sum.splits)
    qed
  qed
qed

text \<open>Parsing a list from a stream hands the visitor exactly the recognised entries, in the order of their
  lines and normalised, and stops with the visitor's exception if it throws one; comments and blank lines
  are skipped, every other line is counted as invalid, and however many there are at most six warnings are
  logged.\<close>

theorem stream_parse_entries:
  "case visit_entries vis v (line_entries pton6 (getline_tokens CHR 0x0A input)) of
     Inl e \<Rightarrow> stream_parse pton6 vis input src v = Inl e
   | Inr v' \<Rightarrow> \<exists>log. stream_parse pton6 vis input src v =
         Inr \<lparr>ls_visitor = v',
              ls_context = Some \<lparr>log_invalid_entries = True,
                invalid_entry_count = length (invalid_lines pton6 (getline_tokens CHR 0x0A input))\<rparr>,
              ls_log = log\<rparr>
       \<and> length log = min (length (invalid_lines pton6 (getline_tokens CHR 0x0A input))) 6"
  using stream_lines_logged [of "fresh_line_state True v" 0 0 pton6 vis src 0 "getline_tokens CHR 0x0A input"]
  unfolding stream_parse_def fresh_line_state_def add_0 by simp

text \<open>The bytes a sequence of reads delivers before the end of the file.\<close>

fun delivered :: "read_result list \<Rightarrow> string" where
  "delivered [] = []"
| "delivered (ReadBytes bs # rs) = bs @ delivered rs"
| "delivered (r # rs) = delivered rs"

fun read_progress :: "read_result \<Rightarrow> bool" where
  "read_progress (ReadBytes bs) = (bs \<noteq> [])"
| "read_progress ReadInterrupted = True"
| "read_progress (ReadFailed err) = False"

lemma stream_reads_chunks:
  assumes "list_all read_progress rs" and "t + length (delivered rs) \<le> max_size"
  shows "stream_reads pton6 vis path max_size t s rs = fold_result (stream_byte pton6 vis path) s (delivered rs)"
  using assms
proof (induction rs arbitrary: t s)
  case (Cons r rs)
  then show ?case by (cases r) (auto simp: fold_result_append split: sum.splits)
qed simp

lemma stream_reads_size:
  assumes "stream_reads pton6 vis path max_size t s rs = Inr s'" and "t \<le> max_size"
    and "list_all read_progress rs"
  shows "t + length (delivered rs) \<le> max_size"
  using assms
proof (induction rs arbitrary: t s)
  case (Cons r rs)
  show ?case
  proof (cases r)
    case (ReadBytes bs)
    with Cons.prems obtain s1 where "t + length bs \<le> max_size"
      and "stream_reads pton6 vis path max_size (t + length bs) s1 rs = Inr s'"
      by (auto split: sum.splits if_splits)
    from Cons.IH [OF this(2,1)] Cons.prems ReadBytes show ?thesis by simp
  qed (use Cons in auto)
qed simp

lemma fold_stream_byte:
  assumes "CHR 0x0A \<notin> set line" and "\<forall>seg \<in> set (split_on CHR 0x0A (line @ bytes)). length seg \<le> 4096"
  shows "fold_result (stream_byte pton6 vis path) (line, Suc n, st) bytes =
    (case stream_lines pton6 vis path n (butlast (split_on CHR 0x0A (line @ bytes))) st of
       Inl e \<Rightarrow> Inl e
     | Inr st' \<Rightarrow> Inr (last (split_on CHR 0x0A (line @ bytes)),
                     Suc (n + length (butlast (split_on CHR 0x0A (line @ bytes)))), st'))"
  using assms
proof (induction bytes arbitrary: line n st)
  case Nil
  then show ?case by (simp add: split_on_single)
next
  case (Cons c cs)
  show ?case
  proof (cases "c = CHR 0x0A")
    case True
    then have "split_on CHR 0x0A (line @ c # cs) = line # split_on CHR 0x0A cs"
      using Cons.prems by (simp add: split_on_append)
    then show ?thesis
      using True Cons.prems Cons.IH [of "[]"]
      by (auto simp: stream_byte_def split: sum.splits)
  next
    case False
    have "hd (split_on CHR 0x0A ((line @ [c]) @ cs)) \<in> set (split_on CHR 0x0A (line @ c # cs))" by simp
    moreover obtain rest where "hd (split_on CHR 0x0A ((line @ [c]) @ cs)) = (line @ [c]) @ rest"
      using split_on_prefix [of "CHR 0x0A" "line @ [c]" cs] False Cons.prems by auto
    ultimately have "length ((line @ [c]) @ rest) \<le> 4096" using Cons.prems(2) by metis
    with False have "stream_byte pton6 vis path (line, Suc n, st) c = Inr (line @ [c], Suc n, st)"
      by (simp add: stream_byte_def)
    then show ?thesis
      using False Cons.prems Cons.IH [of "line @ [c]"] by (simp cong: sum.case_cong)
  qed
qed

lemma stream_byte_line_bound:
  assumes "fold_result (stream_byte pton6 vis path) (line, n, st) bytes = Inr s'"
    and "length line \<le> 4096" and "CHR 0x0A \<notin> set line"
  shows "\<forall>seg \<in> set (split_on CHR 0x0A (line @ bytes)). length seg \<le> 4096"
  using assms
proof (induction bytes arbitrary: line n st)
  case Nil
  then show ?case by (simp add: split_on_single)
next
  case (Cons c cs)
  from Cons.prems(1) obtain line' n' st' where
    step: "stream_byte pton6 vis path (line, n, st) c = Inr (line', n', st')"
    and rest: "fold_result (stream_byte pton6 vis path) (line', n', st') cs = Inr s'"
    by (auto split: sum.splits)
  show ?case
  proof (cases "c = CHR 0x0A")
    case True
    with step have "line' = []" by (auto simp: stream_byte_def split: sum.splits)
    with Cons.IH [OF rest] True Cons.prems show ?thesis by (simp add: split_on_append)
  next
    case False
    with step have "line' = line @ [c]" "length line < 4096" by (auto simp: stream_byte_def split: if_splits)
    with Cons.IH [OF rest] False Cons.prems show ?thesis by simp
  qed
qed

text \<open>C39. Reading a list file is independent of how the kernel chops it into reads and of interrupted reads:
  for a regular file of admissible size the result is that of parsing its lines in order, numbered from 1.
  A file that delivers more bytes than the limit, or that has a line of more than 4096 bytes, is always
  rejected, so the line buffer stays bounded.\<close>

theorem stream_file_lines:
  assumes "open_file path = OpenedFile True size_bytes reads" and "0 \<le> size_bytes" and "size_bytes \<le> int max_size"
    and "list_all read_progress reads"
  shows "if length (delivered reads) \<le> max_size
            \<and> (\<forall>l \<in> set (split_on CHR 0x0A (delivered reads)). length l \<le> 4096)
         then stream_file pton6 vis open_file max_size path log_invalid v =
              stream_lines pton6 vis path 0 (getline_tokens CHR 0x0A (delivered reads)) (fresh_line_state log_invalid v)
         else \<exists>e. stream_file pton6 vis open_file max_size path log_invalid v = Inl e"
proof -
  let ?st = "fresh_line_state log_invalid v" and ?segs = "split_on CHR 0x0A (delivered reads)"
  let ?run = "stream_reads pton6 vis path max_size 0 ([], Suc 0, ?st) reads"
  have result: "stream_file pton6 vis open_file max_size path log_invalid v =
      (case ?run of Inl e \<Rightarrow> Inl e
       | Inr (line, n, st) \<Rightarrow> if line \<noteq> [] then parse_line pton6 vis line path n st else Inr st)"
    using assms by (simp add: stream_file_def)
  show ?thesis
  proof (cases "length (delivered reads) \<le> max_size \<and> (\<forall>l \<in> set ?segs. length l \<le> 4096)")
    case True
    have run: "?run = (case stream_lines pton6 vis path 0 (butlast ?segs) ?st of
        Inl e \<Rightarrow> Inl e | Inr st' \<Rightarrow> Inr (last ?segs, Suc (length (butlast ?segs)), st'))"
      using stream_reads_chunks [OF assms(4), of 0 max_size pton6 vis path "([], Suc 0, ?st)"]
        fold_stream_byte [of "[]" "delivered reads" pton6 vis path 0 ?st] True
      by (simp cong: sum.case_cong)
    have "stream_lines pton6 vis path 0 ?segs ?st =
        (case stream_lines pton6 vis path 0 (butlast ?segs) ?st of
           Inl e \<Rightarrow> Inl e
         | Inr st' \<Rightarrow> parse_line pton6 vis (last ?segs) path (Suc (length (butlast ?segs))) st')"
      using stream_lines_append [of pton6 vis path 0 "butlast ?segs" "[last ?segs]" ?st]
      by (simp split: sum.splits)
    with True show ?thesis
      by (auto simp: result run getline_tokens_def Let_def split: sum.splits)
  next
    case False
    have "\<exists>e. ?run = Inl e"
    proof (rule ccontr)
      assume "\<nexists>e. ?run = Inl e"
      then obtain s' where ok: "?run = Inr s'" by (cases ?run) auto
      from stream_reads_size [OF ok _ assms(4)] have len: "length (delivered reads) \<le> max_size" by simp
      then have "fold_result (stream_byte pton6 vis path) ([], Suc 0, ?st) (delivered reads) = Inr s'"
        using ok stream_reads_chunks [OF assms(4), of 0 max_size pton6 vis path "([], Suc 0, ?st)"] by simp
      from stream_byte_line_bound [OF this] len False show False by simp
    qed
    with False show ?thesis by (auto simp: result)
  qed
qed

theorem stream_file_lines_witness:
  "stream_file (\<lambda>_. False) entry_counter_on_entry
     (\<lambda>_. OpenedFile True 24 [ReadBytes ''exam'', ReadInterrupted, ReadBytes (''ple.com'' @ [CHR 0x0A] @ ''10.0.0.1'')])
     100 ''f'' True entry_counter_init
   = stream_lines (\<lambda>_. False) entry_counter_on_entry ''f'' 0 [''example.com'', ''10.0.0.1'']
       (fresh_line_state True entry_counter_init)"
  using stream_file_lines [of
      "\<lambda>_. OpenedFile True 24 [ReadBytes ''exam'', ReadInterrupted, ReadBytes (''ple.com'' @ [CHR 0x0A] @ ''10.0.0.1'')]"
      "''f''" 24 "[ReadBytes ''exam'', ReadInterrupted, ReadBytes (''ple.com'' @ [CHR 0x0A] @ ''10.0.0.1'')]"
      100 "\<lambda>_. False" entry_counter_on_entry True entry_counter_init]
  by (simp add: getline_tokens_def)

section \<open>Agreement with the IP set\<close>

lemma from_chars_int_digits:
  assumes "from_chars_int s = Some i" and "CHR ''-'' \<notin> set s" and "0 \<le> i" and "i \<le> 4000000000"
  shows "list_all is_digit s \<and> s \<noteq> [] \<and> from_chars_uint s = Some (nat i)"
proof -
  have "s = [] \<or> hd s \<noteq> CHR ''-''" using assms(2) by (cases s) auto
  with assms(1) have "s \<noteq> [] \<and> list_all is_digit s \<and> dec_value s < 2 ^ 31 \<and> i = int (dec_value s)"
    by (auto simp: from_chars_int_def split: if_splits)
  then show ?thesis by (simp add: from_chars_uint_def)
qed

lemma parse_octet_digits:
  assumes "list_all is_digit part" and "part \<noteq> []" and "from_chars_uint part = Some v" and "v \<le> 255"
    and "rest = [] \<or> \<not> is_digit (hd rest)"
  shows "parse_octet (part @ rest) = Some (of_nat v, rest)"
proof -
  have "takeWhile is_digit (part @ rest) = part" "dropWhile is_digit (part @ rest) = rest"
    using assms(1,5) by (cases rest; auto simp: list_all_iff takeWhile_append dropWhile_append)+
  with assms show ?thesis by (simp add: parse_octet_def)
qed

lemma is_ipv4_loop_parse:
  assumes "is_ipv4_loop (Suc n) (Some s)" and "CHR ''-'' \<notin> set s"
  shows "\<exists>bs. parse_ipv4_loop (Suc n) out (if out = [] then s else CHR ''.'' # s) = Some (out @ bs)
           \<and> length bs = Suc n"
  using assms
proof (induction n arbitrary: s out)
  case 0
  have nodot: "CHR ''.'' \<notin> set s"
    using 0 by (auto simp: Let_def split: option.splits if_splits prod.splits)
  then obtain i where i: "from_chars_int s = Some i" "0 \<le> i" "i \<le> 255"
    using 0 by (auto simp: Let_def split: option.splits if_splits)
  from from_chars_int_digits [OF i(1) 0(2) i(2)] i(3)
  have "parse_octet (s @ []) = Some (of_nat (nat i), [])" by (intro parse_octet_digits) auto
  then show ?case by (auto simp: Let_def)
next
  case (Suc n)
  from Suc.prems(1) obtain a b where ab: "split_first CHR ''.'' s = Some (a, b)"
    by (cases "split_first CHR ''.'' s") (auto simp: Let_def split: option.splits if_splits)
  then have s: "s = a @ CHR ''.'' # b" by (auto dest: split_first_SomeD)
  from Suc.prems(1) ab obtain i where i: "from_chars_int a = Some i" "0 \<le> i" "i \<le> 255"
    and loop: "is_ipv4_loop (Suc n) (Some b)"
    by (auto simp: Let_def simp del: is_ipv4_loop.simps(3) simp: is_ipv4_loop.simps(3) [of "Suc n" s]
        split: option.splits if_splits)
  have minus: "CHR ''-'' \<notin> set a" "CHR ''-'' \<notin> set b" using Suc.prems(2) s by auto
  from from_chars_int_digits [OF i(1) minus(1) i(2)] i(3)
  have octet: "parse_octet (a @ CHR ''.'' # b) = Some (of_nat (nat i), CHR ''.'' # b)"
    by (intro parse_octet_digits) auto
  obtain bs where "parse_ipv4_loop (Suc n) (out @ [of_nat (nat i)]) (CHR ''.'' # b) =
      Some ((out @ [of_nat (nat i)]) @ bs)" "length bs = Suc n"
    using Suc.IH [OF loop minus(2), of "out @ [of_nat (nat i)]"] by auto
  with octet s show ?case
    by (auto simp: Let_def simp del: parse_ipv4_loop.simps(2) simp: parse_ipv4_loop.simps(2) [of "Suc n"]
        intro!: exI [of _ "of_nat (nat i) # bs"])
qed

lemma is_ipv4_unfold: "is_ipv4 s = is_ipv4_loop (Suc (Suc (Suc (Suc 0)))) (Some s)"
  by (simp add: is_ipv4_def numeral_eq_Suc)

lemma is_ipv4_parse:
  assumes "is_ipv4 s" and "CHR ''-'' \<notin> set s"
  shows "\<exists>bs. parse_ipv4 s = Some bs \<and> length bs = 4"
  using is_ipv4_loop_parse [of "Suc (Suc (Suc 0))" s "[]"] assms
  by (simp add: is_ipv4_unfold parse_ipv4_unfold eval_nat_numeral del: is_ipv4_loop.simps parse_ipv4_loop.simps)

text \<open>Every IPv4 address and IPv4 subnet the list parser recognises can be added to an IP set, provided its
  text has no minus sign.\<close>

theorem ipv4_entries_added:
  assumes "CHR ''-'' \<notin> set entry"
  shows "(is_ipv4 entry \<longrightarrow> (\<exists>t. add_address entry s = Inr t))
    \<and> (is_cidr_v4 entry \<longrightarrow> (\<exists>t. add_cidr entry s = Inr t))"
proof (intro conjI impI)
  assume "is_ipv4 entry"
  then show "\<exists>t. add_address entry s = Inr t"
    using is_ipv4_parse [OF _ assms] by (auto simp: add_address_def trie_insert_def)
next
  assume cidr: "is_cidr_v4 entry"
  then obtain a b i where ab: "split_first CHR ''/'' entry = Some (a, b)" and a: "is_ipv4 a"
    and i: "from_chars_int b = Some i" "0 \<le> i" "i \<le> 32"
    by (auto simp: is_cidr_v4_def split: option.splits if_splits)
  from split_first_SomeD [OF ab] assms have minus: "CHR ''-'' \<notin> set a" "CHR ''-'' \<notin> set b" by auto
  from from_chars_int_digits [OF i(1) minus(2) i(2)] i have "from_chars_uint b = Some (nat i)" by simp
  moreover from is_ipv4_parse [OF a minus(1)] obtain bs where "parse_ipv4 a = Some bs" by auto
  ultimately show "\<exists>t. add_cidr entry s = Inr t"
    using ab i by (auto simp: add_cidr_def trie_insert_def)
qed

theorem ipv4_entries_added_witness:
  "is_ipv4 ''10.0.0.1'' \<and> is_cidr_v4 ''10.0.0.0/8''
   \<and> (\<exists>t. add_address ''10.0.0.1'' empty_ip_set = Inr t) \<and> (\<exists>t. add_cidr ''10.0.0.0/8'' empty_ip_set = Inr t)"
proof -
  have "is_ipv4 ''10.0.0.1''" "is_cidr_v4 ''10.0.0.0/8''"
    by (simp_all add: is_ipv4_unfold is_cidr_v4_def split_first_def from_chars_int_def is_digit_def
        dec_value_def digit_val_def Let_def)
  then show ?thesis
    using ipv4_entries_added [of "''10.0.0.1''" empty_ip_set] ipv4_entries_added [of "''10.0.0.0/8''" empty_ip_set]
    by simp
qed

text \<open>The proviso is needed: \<^verbatim>\<open>from_chars\<close> into a signed integer reads \<^verbatim>\<open>-0\<close> as an octet.\<close>

lemma is_ipv4_accepts_minus_zero:
  "is_ipv4 ''-0.0.0.0'' \<and> (\<exists>e. add_address ''-0.0.0.0'' s = Inl e)"
proof -
  have "parse_ipv4 ''-0.0.0.0'' = None"
    by (simp add: parse_ipv4_unfold parse_octet_def)
  moreover have "parse_ipv6 ''-0.0.0.0'' = None"
    by (simp add: parse_ipv6.simps split_last_def split_first_def parse_ipv6_plain_def parse_ipv6_groups.simps
        is_xdigit_def is_digit_def)
  moreover have "is_ipv4 ''-0.0.0.0''"
    by (simp add: is_ipv4_unfold split_first_def from_chars_int_def is_digit_def dec_value_def digit_val_def Let_def)
  ultimately show ?thesis by (simp add: add_address_def)
qed

end
