(* ===== verification/Cron.thy ===== *)
theory Cron
  imports Prelude
begin

text \<open>
  Cron expressions (\<^verbatim>\<open>src/util/cron.hpp\<close>): expansion of a field into its set of values, the five fields of an
  expression, and the search for the next matching minute. The local time conversion
  \<^verbatim>\<open>localtime_r\<close> is a parameter; a time point counts nanoseconds and a \<^verbatim>\<open>time_t\<close> seconds since the
  epoch. The loop counter of a field is a mathematical integer here: the C++ \<^verbatim>\<open>int\<close> overflows for
  steps close to \<^verbatim>\<open>INT_MAX\<close>.
\<close>

section \<open>Fields\<close>

definition cron_parse_int :: "string \<Rightarrow> string \<Rightarrow> int result" where
  "cron_parse_int s ctx =
     (if s = [] then Inl (InvalidArgument (''Empty number in cron field: '' @ ctx))
      else if \<not> list_all is_digit s
      then Inl (InvalidArgument (''Non-numeric character in cron field: '' @ ctx))
      else (case stoi s of
              Inl e \<Rightarrow> Inl (InvalidArgument (''Number out of range in cron field: '' @ ctx))
            | Inr v \<Rightarrow> Inr v))"

record cron_part =
  cp_start :: int
  cp_end :: int
  cp_step :: int

definition cron_step :: "string \<Rightarrow> string \<Rightarrow> int result" where
  "cron_step token part =
     (case split_first CHR ''/'' part of
        None \<Rightarrow> Inr 1
      | Some (rng, step) \<Rightarrow>
          (case cron_parse_int step token of
             Inl e \<Rightarrow> Inl e
           | Inr v \<Rightarrow> (if v < 1 then Inl (InvalidArgument (''Step must be >= 1 in cron field: '' @ token))
                      else Inr v)))"

definition cron_bounds :: "string \<Rightarrow> int \<Rightarrow> int \<Rightarrow> string \<Rightarrow> (int \<times> int) result" where
  "cron_bounds token lo hi part =
     (let range_part = (case split_first CHR ''/'' part of None \<Rightarrow> part | Some (r, s) \<Rightarrow> r)
      in if range_part = ''*'' then Inr (lo, hi)
         else (case split_first CHR ''-'' range_part of
                 Some (a, b) \<Rightarrow>
                   (case cron_parse_int a token of
                      Inl e \<Rightarrow> Inl e
                    | Inr start \<Rightarrow>
                        (case cron_parse_int b token of Inl e \<Rightarrow> Inl e | Inr end' \<Rightarrow> Inr (start, end')))
               | None \<Rightarrow>
                   (case cron_parse_int range_part token of
                      Inl e \<Rightarrow> Inl e
                    | Inr start \<Rightarrow> Inr (start, if split_first CHR ''/'' part \<noteq> None then hi else start))))"

definition cron_range_error :: "int \<Rightarrow> int \<Rightarrow> int \<Rightarrow> string \<Rightarrow> cpp_error" where
  "cron_range_error v lo hi token =
     InvalidArgument (''Value '' @ int_to_string v @ '' out of range ['' @ int_to_string lo @ '','' @ int_to_string hi
       @ ''] in cron field: '' @ token)"

definition expand_cron_part :: "string \<Rightarrow> int \<Rightarrow> int \<Rightarrow> string \<Rightarrow> cron_part result" where
  "expand_cron_part token lo hi part =
     (case cron_step token part of
        Inl e \<Rightarrow> Inl e
      | Inr step \<Rightarrow>
          (case cron_bounds token lo hi part of
             Inl e \<Rightarrow> Inl e
           | Inr (start, end') \<Rightarrow>
               (if start < lo \<or> start > hi then Inl (cron_range_error start lo hi token)
                else if end' < lo \<or> end' > hi then Inl (cron_range_error end' lo hi token)
                else if start > end' then Inl (InvalidArgument (''Range start > end in cron field: '' @ token))
                else Inr \<lparr>cp_start = start, cp_end = end', cp_step = step\<rparr>)))"

text \<open>\<^verbatim>\<open>for (int v = start; v <= end; v += step)\<close>; the caller has checked that the step is positive.\<close>

function cron_values :: "int \<Rightarrow> int \<Rightarrow> int \<Rightarrow> int list" where
  "cron_values v end' step = (if v > end' \<or> step < 1 then [] else v # cron_values (v + step) end' step)"
  by pat_completeness auto
termination
  by (relation "measure (\<lambda>(v, e, s). nat (e + 1 - v))") auto

declare cron_values.simps [simp del]

definition expand_cron_field :: "string \<Rightarrow> int \<Rightarrow> int \<Rightarrow> int set result" where
  "expand_cron_field token lo hi =
     (case fold_result
             (\<lambda>result part.
                case expand_cron_part token lo hi part of
                  Inl e \<Rightarrow> Inl e
                | Inr p \<Rightarrow> Inr (result \<union> set (cron_values (cp_start p) (cp_end p) (cp_step p))))
             {} (split_on CHR '','' token) of
        Inl e \<Rightarrow> Inl e
      | Inr result \<Rightarrow>
          (if result = {} then Inl (InvalidArgument (''Empty expansion for cron field: '' @ token))
           else Inr result))"

section \<open>Expressions\<close>

record cron_fields =
  cf_minute :: "int set"
  cf_hour :: "int set"
  cf_mday :: "int set"
  cf_month :: "int set"
  cf_wday :: "int set"

fun cron_tokens :: "string \<Rightarrow> string \<Rightarrow> string list" where
  "cron_tokens cur [] = (if cur = [] then [] else [cur])"
| "cron_tokens cur (c # cs) =
     (if c = CHR '' '' \<or> c = CHR 0x09
      then (if cur = [] then cron_tokens [] cs else cur # cron_tokens [] cs)
      else cron_tokens (cur @ [c]) cs)"

definition parse_cron_fields :: "string \<Rightarrow> cron_fields result" where
  "parse_cron_fields expr =
     (case cron_tokens [] expr of
        [t0, t1, t2, t3, t4] \<Rightarrow>
          (case expand_cron_field t0 0 59 of Inl e \<Rightarrow> Inl e | Inr minute \<Rightarrow>
          (case expand_cron_field t1 0 23 of Inl e \<Rightarrow> Inl e | Inr hour \<Rightarrow>
          (case expand_cron_field t2 1 31 of Inl e \<Rightarrow> Inl e | Inr mday \<Rightarrow>
          (case expand_cron_field t3 1 12 of Inl e \<Rightarrow> Inl e | Inr month \<Rightarrow>
          (case expand_cron_field t4 0 6 of Inl e \<Rightarrow> Inl e | Inr wday \<Rightarrow>
             Inr \<lparr>cf_minute = minute, cf_hour = hour, cf_mday = mday, cf_month = month, cf_wday = wday\<rparr>)))))
      | tokens \<Rightarrow> Inl (InvalidArgument (''Cron expression must have exactly 5 fields, got ''
          @ nat_to_string (length tokens) @ '': '' @ [CHR 0x27] @ expr @ [CHR 0x27])))"

definition cron_validate :: "string \<Rightarrow> unit result" where
  "cron_validate expr = (case parse_cron_fields expr of Inl e \<Rightarrow> Inl e | Inr f \<Rightarrow> Inr ())"

section \<open>The next fire time\<close>

record local_tm =
  tm_mon :: int
  tm_mday :: int
  tm_wday :: int
  tm_hour :: int
  tm_min :: int

definition cron_matches :: "cron_fields \<Rightarrow> local_tm \<Rightarrow> bool" where
  "cron_matches f tm \<longleftrightarrow>
     tm_mon tm + 1 \<in> cf_month f \<and> tm_mday tm \<in> cf_mday f \<and> tm_wday tm \<in> cf_wday f
     \<and> tm_hour tm \<in> cf_hour f \<and> tm_min tm \<in> cf_minute f"

fun cron_scan :: "(int \<Rightarrow> local_tm) \<Rightarrow> cron_fields \<Rightarrow> nat \<Rightarrow> int \<Rightarrow> int option" where
  "cron_scan localtime f n t =
     (if n = 0 then None
      else if cron_matches f (localtime t) then Some t
      else cron_scan localtime f (n - 1) (t + 60))"

declare cron_scan.simps [simp del]

definition max_minutes :: nat where
  "max_minutes = 366 * 2 * 24 * 60"

definition cron_start :: "int \<Rightarrow> int" where
  "cron_start from = cpp_div (cpp_div (from + 1000000000) 1000000000 + 59) 60 * 60"

definition cron_next :: "(int \<Rightarrow> local_tm) \<Rightarrow> string \<Rightarrow> int \<Rightarrow> int result" where
  "cron_next localtime expr from =
     (case parse_cron_fields expr of
        Inl e \<Rightarrow> Inl e
      | Inr f \<Rightarrow>
          (case cron_scan localtime f max_minutes (cron_start from) of
             Some t \<Rightarrow> Inr (t * 1000000000)
           | None \<Rightarrow> Inl (InvalidArgument (''cron_next: no matching time found within 2 years for: ''
               @ [CHR 0x27] @ expr @ [CHR 0x27]))))"

section \<open>Properties\<close>

lemma set_cron_values:
  assumes "1 \<le> step"
  shows "set (cron_values v e step) = {x. v \<le> x \<and> x \<le> e \<and> step dvd x - v}"
  using assms
proof (induction v e step rule: cron_values.induct)
  case (1 v e step)
  show ?case
  proof (cases "v > e")
    case True
    then show ?thesis by (auto simp: cron_values.simps [of v])
  next
    case False
    have split: "v \<le> x \<and> step dvd x - v \<longleftrightarrow> x = v \<or> (v + step \<le> x \<and> step dvd x - (v + step))" for x
    proof -
      have "step dvd x - v \<longleftrightarrow> step dvd x - (v + step)"
      proof -
        have "x - v = (x - (v + step)) + step" by simp
        then show ?thesis by (simp only: dvd_add_triv_right_iff)
      qed
      moreover have "step dvd x - v \<Longrightarrow> v < x \<Longrightarrow> v + step \<le> x"
        using zdvd_imp_le [of step "x - v"] by simp
      ultimately show ?thesis using 1(2) by auto
    qed
    have ih: "set (cron_values (v + step) e step) = {x. v + step \<le> x \<and> x \<le> e \<and> step dvd x - (v + step)}"
      using 1(1) False 1(2) by simp
    have "x \<in> set (cron_values v e step) \<longleftrightarrow> v \<le> x \<and> x \<le> e \<and> step dvd x - v" for x
      using split [of x] False 1(2) by (subst cron_values.simps) (auto simp: ih)
    then show ?thesis by blast
  qed
qed

lemma expand_cron_part_bounds:
  assumes "expand_cron_part token lo hi part = Inr p"
  shows "lo \<le> cp_start p" "cp_start p \<le> cp_end p" "cp_end p \<le> hi" "1 \<le> cp_step p"
  using assms
  by (auto simp: expand_cron_part_def cron_step_def split: sum.splits if_splits option.splits)

text \<open>The values a field denotes, read off its comma separated parts.\<close>

definition part_values :: "cron_part \<Rightarrow> int set" where
  "part_values p = {x. cp_start p \<le> x \<and> x \<le> cp_end p \<and> cp_step p dvd x - cp_start p}"

lemma expand_parts_fold:
  assumes "fold_result (\<lambda>result part. case expand_cron_part token lo hi part of Inl e \<Rightarrow> Inl e
      | Inr p \<Rightarrow> Inr (result \<union> set (cron_values (cp_start p) (cp_end p) (cp_step p)))) acc parts = Inr s"
  shows "\<exists>ps. map (expand_cron_part token lo hi) parts = map Inr ps \<and> s = acc \<union> \<Union> (part_values ` set ps)"
  using assms
proof (induction parts arbitrary: acc)
  case Nil
  then show ?case by simp
next
  case (Cons part parts)
  from Cons.prems obtain p where p: "expand_cron_part token lo hi part = Inr p"
    by (auto split: sum.splits)
  with Cons.prems Cons.IH [of "acc \<union> set (cron_values (cp_start p) (cp_end p) (cp_step p))"] obtain ps where
    "map (expand_cron_part token lo hi) parts = map Inr ps"
    "s = acc \<union> set (cron_values (cp_start p) (cp_end p) (cp_step p)) \<union> \<Union> (part_values ` set ps)"
    by auto
  moreover have "set (cron_values (cp_start p) (cp_end p) (cp_step p)) = part_values p"
    using set_cron_values [OF expand_cron_part_bounds(4) [OF p]] by (simp add: part_values_def)
  ultimately show ?case using p by (intro exI [of _ "p # ps"]) auto
qed

text \<open>A cron field expands to the union, over its comma separated parts, of the arithmetic progressions
  the parts denote; every part is well formed, so the field is a non-empty subset of its legal range.\<close>

theorem expand_cron_field_values:
  assumes "expand_cron_field token lo hi = Inr s"
  shows "\<exists>ps. map (expand_cron_part token lo hi) (split_on CHR '','' token) = map Inr ps
    \<and> s = \<Union> (part_values ` set ps) \<and> s \<noteq> {} \<and> s \<subseteq> {lo..hi}"
proof -
  from assms obtain ps where ps: "map (expand_cron_part token lo hi) (split_on CHR '','' token) = map Inr ps"
    and s: "s = \<Union> (part_values ` set ps)" and "s \<noteq> {}"
    by (auto simp: expand_cron_field_def split: sum.splits if_splits dest!: expand_parts_fold)
  have "part_values p \<subseteq> {lo..hi}" if "p \<in> set ps" for p
  proof -
    from that have "Inr p \<in> set (map (expand_cron_part token lo hi) (split_on CHR '','' token))"
      unfolding ps by simp
    then obtain part where "expand_cron_part token lo hi part = Inr p" by auto
    from expand_cron_part_bounds [OF this] show ?thesis by (auto simp: part_values_def)
  qed
  with s \<open>s \<noteq> {}\<close> ps show ?thesis by blast
qed

theorem expand_cron_field_values_witness:
  "expand_cron_field ''*/15,7'' 0 59 = Inr {0, 15, 30, 45, 7}
   \<and> (\<exists>ps. map (expand_cron_part ''*/15,7'' 0 59) (split_on CHR '','' ''*/15,7'') = map Inr ps
        \<and> {0, 15, 30, 45, 7} = \<Union> (part_values ` set ps) \<and> {0, 15, 30, 45, 7 :: int} \<noteq> {}
        \<and> {0, 15, 30, 45, 7 :: int} \<subseteq> {0..59})"
proof -
  have "expand_cron_field ''*/15,7'' 0 59 = Inr {0, 15, 30, 45, 7}"
    by (simp add: expand_cron_field_def expand_cron_part_def cron_step_def cron_bounds_def cron_parse_int_def
        split_first_def stoi_def Let_def is_digit_def is_space_def dec_value_def digit_val_def cron_values.simps)
      (simp add: insert_commute)
  then show ?thesis using expand_cron_field_values [of "''*/15,7''" 0 59] by blast
qed

lemma cron_scan_Some:
  assumes "cron_scan localtime f n t = Some u"
  shows "cron_matches f (localtime u) \<and> (\<exists>k < n. u = t + 60 * int k)
    \<and> (\<forall>j. t + 60 * int j < u \<longrightarrow> \<not> cron_matches f (localtime (t + 60 * int j)))"
  using assms
proof (induction localtime f n t rule: cron_scan.induct)
  case (1 localtime f n t)
  show ?case
  proof (cases "cron_matches f (localtime t)")
    case True
    with 1(2) have "u = t" "0 < n" by (auto simp: cron_scan.simps [of localtime f n] split: if_splits)
    with True show ?thesis by auto
  next
    case False
    with 1 obtain k where m: "cron_matches f (localtime u)" and k: "k < n - 1" "u = t + 60 + 60 * int k"
      and first: "\<forall>j. t + 60 + 60 * int j < u \<longrightarrow> \<not> cron_matches f (localtime (t + 60 + 60 * int j))"
      by (auto simp: cron_scan.simps [of localtime f n] split: if_splits)
    have "\<not> cron_matches f (localtime (t + 60 * int j))" if "t + 60 * int j < u" for j
      using that False first by (cases j) (auto simp: algebra_simps)
    moreover have "\<exists>k < n. u = t + 60 * int k" using k by (intro exI [of _ "Suc k"]) auto
    ultimately show ?thesis using m by blast
  qed
qed

lemma cron_scan_None:
  assumes "cron_scan localtime f n t = None" and "j < n"
  shows "\<not> cron_matches f (localtime (t + 60 * int j))"
  using assms
proof (induction localtime f n t arbitrary: j rule: cron_scan.induct)
  case (1 localtime f n t)
  then have not: "\<not> cron_matches f (localtime t)" and rest: "cron_scan localtime f (n - 1) (t + 60) = None"
    by (auto simp: cron_scan.simps [of localtime f n] split: if_splits)
  show ?case
  proof (cases j)
    case 0
    with not show ?thesis by simp
  next
    case (Suc i)
    with 1(1) [OF _ not rest, of i] 1(3) show ?thesis by (simp add: algebra_simps)
  qed
qed

lemma cron_start_spec:
  assumes "0 \<le> from"
  shows "60 dvd cron_start from" and "from < cron_start from * 1000000000"
    and "60 dvd v \<Longrightarrow> from < v * 1000000000 \<Longrightarrow> cron_start from \<le> v"
proof -
  have eq: "cron_start from = ((from + 1000000000) div 1000000000 + 59) div 60 * 60"
    using assms by (simp add: cron_start_def)
  show "60 dvd cron_start from" by (simp add: eq)
  show "from < cron_start from * 1000000000" unfolding eq by linarith
  assume "60 dvd v" "from < v * 1000000000"
  then obtain w where w: "v = 60 * w" by auto
  have "(from + 1000000000) div 1000000000 \<le> v" using \<open>from < v * 1000000000\<close> by linarith
  then have "((from + 1000000000) div 1000000000 + 59) div 60 \<le> w" using w by linarith
  then show "cron_start from \<le> v" unfolding eq w by linarith
qed

definition fire_time :: "(int \<Rightarrow> local_tm) \<Rightarrow> cron_fields \<Rightarrow> int \<Rightarrow> bool" where
  "fire_time localtime f t \<longleftrightarrow> 60 dvd t \<and> cron_matches f (localtime t)"

lemma cron_grid:
  assumes "0 \<le> from" and "60 dvd v" and "from < v * 1000000000"
  shows "\<exists>j. v = cron_start from + 60 * int j"
proof -
  have "60 dvd v - cron_start from" and "0 \<le> v - cron_start from"
    using cron_start_spec [OF assms(1)] assms(2,3) by auto
  then obtain w where "v - cron_start from = 60 * w" "0 \<le> w" by (auto elim!: dvdE)
  then show ?thesis by (intro exI [of _ "nat w"]) auto
qed

text \<open>C40. For a valid expression \<^verbatim>\<open>cron_next\<close> returns the first whole minute strictly after the given time whose
  local date and time match all five fields; it reports an error only if the expression is invalid or if none
  of the 1054080 whole minutes that follow matches.\<close>

theorem cron_next_earliest:
  assumes "0 \<le> from"
  shows "case cron_next localtime expr from of
      Inr u \<Rightarrow> \<exists>f t. parse_cron_fields expr = Inr f \<and> u = t * 1000000000 \<and> from < u \<and> fire_time localtime f t
        \<and> (\<forall>v. from < v * 1000000000 \<and> v < t \<longrightarrow> \<not> fire_time localtime f v)
    | Inl e \<Rightarrow> parse_cron_fields expr = Inl e
        \<or> (\<exists>f. parse_cron_fields expr = Inr f
             \<and> (\<forall>v. from < v * 1000000000 \<and> v < cron_start from + 60 * int max_minutes \<longrightarrow> \<not> fire_time localtime f v))"
proof (cases "parse_cron_fields expr")
  case (Inl e)
  then show ?thesis by (simp add: cron_next_def)
next
  case (Inr f)
  show ?thesis
  proof (cases "cron_scan localtime f max_minutes (cron_start from)")
    case None
    have "\<not> fire_time localtime f v" if v: "from < v * 1000000000" "v < cron_start from + 60 * int max_minutes" for v
    proof
      assume fire: "fire_time localtime f v"
      then obtain j where "v = cron_start from + 60 * int j"
        using cron_grid [OF assms _ v(1)] by (auto simp: fire_time_def)
      with cron_scan_None [OF None, of j] v fire show False by (auto simp: fire_time_def)
    qed
    with None Inr show ?thesis by (simp add: cron_next_def)
  next
    case (Some t)
    note scan = cron_scan_Some [OF Some]
    then obtain k where k: "t = cron_start from + 60 * int k" by auto
    have "\<not> fire_time localtime f v" if "from < v * 1000000000" "v < t" for v
      using scan cron_grid [OF assms, of v] that by (auto simp: fire_time_def)
    moreover have "fire_time localtime f t" "from < t * 1000000000"
      using scan k cron_start_spec(1,2) [OF assms] by (auto simp: fire_time_def)
    ultimately show ?thesis using Some Inr by (auto simp: cron_next_def)
  qed
qed

theorem cron_next_earliest_witness:
  "cron_next (\<lambda>t. \<lparr>tm_mon = 0, tm_mday = 1, tm_wday = 4, tm_hour = t div 3600, tm_min = t mod 3600 div 60\<rparr>)
     ''* * * * *'' 90000000000 = Inr 120000000000
   \<and> (\<exists>f t. parse_cron_fields ''* * * * *'' = Inr f \<and> 120000000000 = t * 1000000000
        \<and> fire_time (\<lambda>t. \<lparr>tm_mon = 0, tm_mday = 1, tm_wday = 4, tm_hour = t div 3600, tm_min = t mod 3600 div 60\<rparr>) f t)"
proof -
  let ?lt = "\<lambda>t. \<lparr>tm_mon = 0, tm_mday = 1, tm_wday = 4, tm_hour = t div 3600, tm_min = t mod 3600 div 60\<rparr>"
  have star: "expand_cron_field ''*'' lo hi = Inr {lo..hi}" if "lo \<le> hi" for lo hi
    using that set_cron_values [of 1 lo hi]
    by (auto simp: expand_cron_field_def expand_cron_part_def cron_step_def cron_bounds_def split_first_def Let_def
        atLeastAtMost_def)
  have "cron_next ?lt ''* * * * *'' 90000000000 = Inr 120000000000"
    by (simp add: cron_next_def parse_cron_fields_def star cron_start_def cron_scan.simps max_minutes_def
        cron_matches_def)
  then show ?thesis using cron_next_earliest [of 90000000000 "''* * * * *''" ?lt] by auto
qed

end
