(* ===== verification/Circuit_Breaker.thy ===== *)
theory Circuit_Breaker
  imports Config_Types
begin

text \<open>
  The circuit breaker (\<^verbatim>\<open>src/health/circuit_breaker.cpp\<close>). The steady clock is an argument of the operations
  that read it, in nanoseconds; \<^verbatim>\<open>entries_\<close> is a partial map. The counters of the half-open state keep their
  32-bit width.
\<close>

section \<open>State and operations\<close>

datatype circuit_state = CircuitClosed | CircuitOpen | CircuitHalfOpen

record circuit_breaker_entry =
  ce_state :: circuit_state
  ce_failure_count :: int
  ce_success_count :: u32
  ce_active_requests :: u32
  ce_last_failure_time :: int
  ce_opened_at :: int

definition fresh_entry :: circuit_breaker_entry where
  "fresh_entry = \<lparr>ce_state = CircuitClosed, ce_failure_count = 0, ce_success_count = 0, ce_active_requests = 0,
     ce_last_failure_time = 0, ce_opened_at = 0\<rparr>"

record circuit_breaker =
  cbr_config :: circuit_breaker_config
  cbr_entries :: "string \<rightharpoonup> circuit_breaker_entry"

definition new_circuit_breaker :: "circuit_breaker_config \<Rightarrow> circuit_breaker" where
  "new_circuit_breaker cfg = \<lparr>cbr_config = cfg, cbr_entries = Map.empty\<rparr>"

definition get_or_create :: "circuit_breaker \<Rightarrow> string \<Rightarrow> circuit_breaker_entry" where
  "get_or_create cb tag = (case cbr_entries cb tag of None \<Rightarrow> fresh_entry | Some e \<Rightarrow> e)"

definition put_entry :: "string \<Rightarrow> circuit_breaker_entry \<Rightarrow> circuit_breaker \<Rightarrow> circuit_breaker" where
  "put_entry tag e cb = cb\<lparr>cbr_entries := (cbr_entries cb)(tag \<mapsto> e)\<rparr>"

definition success_threshold :: "circuit_breaker_config \<Rightarrow> u32" where
  "success_threshold cfg = to_u32 (value_or (cb_success_threshold cfg) 2)"

definition failure_threshold :: "circuit_breaker_config \<Rightarrow> int" where
  "failure_threshold cfg = to_i32 (value_or (cb_failure_threshold cfg) 5)"

definition half_open_max_requests :: "circuit_breaker_config \<Rightarrow> u32" where
  "half_open_max_requests cfg = to_u32 (value_or (cb_half_open_max_requests cfg) 1)"

definition cooldown :: "circuit_breaker_config \<Rightarrow> int" where
  "cooldown cfg = value_or (cb_timeout_ms cfg) 30000 * 1000000"

definition entry_success :: "circuit_breaker_config \<Rightarrow> circuit_breaker_entry \<Rightarrow> circuit_breaker_entry" where
  "entry_success cfg e =
     (case ce_state e of
        CircuitHalfOpen \<Rightarrow>
          (let e' = e\<lparr>ce_success_count := ce_success_count e + 1\<rparr>
           in if ce_success_count e' \<ge> success_threshold cfg
              then e'\<lparr>ce_state := CircuitClosed, ce_failure_count := 0, ce_success_count := 0,
                      ce_active_requests := 0\<rparr>
              else e')
      | CircuitClosed \<Rightarrow> e\<lparr>ce_failure_count := 0\<rparr>
      | CircuitOpen \<Rightarrow> e)"

definition record_success :: "string \<Rightarrow> circuit_breaker \<Rightarrow> circuit_breaker" where
  "record_success tag cb = put_entry tag (entry_success (cbr_config cb) (get_or_create cb tag)) cb"

definition entry_failure :: "circuit_breaker_config \<Rightarrow> int \<Rightarrow> circuit_breaker_entry \<Rightarrow> circuit_breaker_entry" where
  "entry_failure cfg now e0 =
     (let e = e0\<lparr>ce_failure_count := ce_failure_count e0 + 1, ce_last_failure_time := now\<rparr>
      in case ce_state e of
           CircuitClosed \<Rightarrow>
             (if ce_failure_count e \<ge> failure_threshold cfg
              then e\<lparr>ce_state := CircuitOpen, ce_opened_at := now\<rparr> else e)
         | CircuitHalfOpen \<Rightarrow>
             e\<lparr>ce_state := CircuitOpen, ce_opened_at := now, ce_success_count := 0, ce_active_requests := 0\<rparr>
         | CircuitOpen \<Rightarrow> e)"

definition record_failure :: "string \<Rightarrow> int \<Rightarrow> circuit_breaker \<Rightarrow> circuit_breaker" where
  "record_failure tag now cb = put_entry tag (entry_failure (cbr_config cb) now (get_or_create cb tag)) cb"

definition entry_allowed ::
  "circuit_breaker_config \<Rightarrow> int \<Rightarrow> circuit_breaker_entry \<Rightarrow> bool \<times> circuit_breaker_entry" where
  "entry_allowed cfg now e =
     (case ce_state e of
        CircuitClosed \<Rightarrow> (True, e)
      | CircuitOpen \<Rightarrow>
          (if now - ce_opened_at e \<ge> cooldown cfg
           then (True, e\<lparr>ce_state := CircuitHalfOpen, ce_success_count := 0, ce_active_requests := 0\<rparr>)
           else (False, e))
      | CircuitHalfOpen \<Rightarrow> (ce_active_requests e < half_open_max_requests cfg, e))"

definition is_allowed :: "string \<Rightarrow> int \<Rightarrow> circuit_breaker \<Rightarrow> bool \<times> circuit_breaker" where
  "is_allowed tag now cb =
     (let (r, e) = entry_allowed (cbr_config cb) now (get_or_create cb tag) in (r, put_entry tag e cb))"

definition entry_begin :: "circuit_breaker_entry \<Rightarrow> circuit_breaker_entry" where
  "entry_begin e =
     (if ce_state e = CircuitHalfOpen then e\<lparr>ce_active_requests := ce_active_requests e + 1\<rparr> else e)"

definition begin_request :: "string \<Rightarrow> circuit_breaker \<Rightarrow> circuit_breaker" where
  "begin_request tag cb = put_entry tag (entry_begin (get_or_create cb tag)) cb"

definition entry_end :: "circuit_breaker_entry \<Rightarrow> circuit_breaker_entry" where
  "entry_end e = (if ce_active_requests e > 0 then e\<lparr>ce_active_requests := ce_active_requests e - 1\<rparr> else e)"

definition end_request :: "string \<Rightarrow> circuit_breaker \<Rightarrow> circuit_breaker" where
  "end_request tag cb = put_entry tag (entry_end (get_or_create cb tag)) cb"

definition breaker_state :: "circuit_breaker \<Rightarrow> string \<Rightarrow> circuit_state" where
  "breaker_state cb tag = (case cbr_entries cb tag of None \<Rightarrow> CircuitClosed | Some e \<Rightarrow> ce_state e)"

definition breaker_failure_count :: "circuit_breaker \<Rightarrow> string \<Rightarrow> int" where
  "breaker_failure_count cb tag = (case cbr_entries cb tag of None \<Rightarrow> 0 | Some e \<Rightarrow> ce_failure_count e)"

definition breaker_reset :: "string \<Rightarrow> circuit_breaker \<Rightarrow> circuit_breaker" where
  "breaker_reset tag cb = cb\<lparr>cbr_entries := (cbr_entries cb)(tag := None)\<rparr>"

definition breaker_reset_all :: "circuit_breaker \<Rightarrow> circuit_breaker" where
  "breaker_reset_all cb = cb\<lparr>cbr_entries := Map.empty\<rparr>"

section \<open>Sequences of calls\<close>

datatype breaker_event =
    EvSuccess string
  | EvFailure string int
  | EvAllowed string int
  | EvBegin string
  | EvEnd string
  | EvReset string
  | EvResetAll

fun breaker_step :: "circuit_breaker \<Rightarrow> breaker_event \<Rightarrow> circuit_breaker" where
  "breaker_step cb (EvSuccess tag) = record_success tag cb"
| "breaker_step cb (EvFailure tag now) = record_failure tag now cb"
| "breaker_step cb (EvAllowed tag now) = snd (is_allowed tag now cb)"
| "breaker_step cb (EvBegin tag) = begin_request tag cb"
| "breaker_step cb (EvEnd tag) = end_request tag cb"
| "breaker_step cb (EvReset tag) = breaker_reset tag cb"
| "breaker_step cb EvResetAll = breaker_reset_all cb"

definition breaker_run :: "circuit_breaker \<Rightarrow> breaker_event list \<Rightarrow> circuit_breaker" where
  "breaker_run cb evs = foldl breaker_step cb evs"

text \<open>The same on the entry of one tag: calls for other tags leave it alone.\<close>

fun entry_step :: "circuit_breaker_config \<Rightarrow> string \<Rightarrow> circuit_breaker_entry \<Rightarrow> breaker_event \<Rightarrow> circuit_breaker_entry" where
  "entry_step cfg t e (EvSuccess tag) = (if tag = t then entry_success cfg e else e)"
| "entry_step cfg t e (EvFailure tag now) = (if tag = t then entry_failure cfg now e else e)"
| "entry_step cfg t e (EvAllowed tag now) = (if tag = t then snd (entry_allowed cfg now e) else e)"
| "entry_step cfg t e (EvBegin tag) = (if tag = t then entry_begin e else e)"
| "entry_step cfg t e (EvEnd tag) = (if tag = t then entry_end e else e)"
| "entry_step cfg t e (EvReset tag) = (if tag = t then fresh_entry else e)"
| "entry_step cfg t e EvResetAll = fresh_entry"

lemmas breaker_ops = record_success_def record_failure_def is_allowed_def begin_request_def end_request_def
  breaker_reset_def breaker_reset_all_def put_entry_def

lemma breaker_step_config [simp]: "cbr_config (breaker_step cb ev) = cbr_config cb"
  by (cases ev) (auto simp: breaker_ops split: prod.splits)

lemma breaker_step_entry [simp]:
  "get_or_create (breaker_step cb ev) t = entry_step (cbr_config cb) t (get_or_create cb t) ev"
  by (cases ev) (auto simp: breaker_ops get_or_create_def split: prod.splits option.splits)

lemma breaker_run_entry:
  "get_or_create (breaker_run cb evs) t = foldl (entry_step (cbr_config cb) t) (get_or_create cb t) evs"
  unfolding breaker_run_def
  by (induction evs arbitrary: cb) simp_all

lemma breaker_state_entry: "breaker_state cb t = ce_state (get_or_create cb t)"
  by (simp add: breaker_state_def get_or_create_def fresh_entry_def split: option.splits)

lemma breaker_failure_count_entry: "breaker_failure_count cb t = ce_failure_count (get_or_create cb t)"
  by (simp add: breaker_failure_count_def get_or_create_def fresh_entry_def split: option.splits)

section \<open>Invariant of an entry\<close>

definition entry_inv :: "circuit_breaker_config \<Rightarrow> circuit_breaker_entry \<Rightarrow> bool" where
  "entry_inv cfg e \<longleftrightarrow>
     0 \<le> ce_failure_count e
     \<and> (ce_state e \<noteq> CircuitHalfOpen \<longrightarrow> ce_success_count e = 0 \<and> ce_active_requests e = 0)
     \<and> (ce_state e = CircuitClosed \<longrightarrow> ce_failure_count e = 0 \<or> ce_failure_count e < failure_threshold cfg)
     \<and> (ce_state e = CircuitHalfOpen \<longrightarrow> ce_success_count e = 0 \<or> ce_success_count e < success_threshold cfg)"

lemma fresh_entry_inv: "entry_inv cfg fresh_entry"
  by (simp add: entry_inv_def fresh_entry_def)

lemma entry_step_inv: "entry_inv cfg e \<Longrightarrow> entry_inv cfg (entry_step cfg t e ev)"
  by (cases ev; cases "ce_state e")
    (auto simp: entry_inv_def fresh_entry_def entry_success_def entry_failure_def entry_allowed_def entry_begin_def
      entry_end_def Let_def)

lemma entry_run_inv: "entry_inv cfg e \<Longrightarrow> entry_inv cfg (foldl (entry_step cfg t) e evs)"
  by (induction evs arbitrary: e) (auto intro: entry_step_inv)

lemma get_or_create_new [simp]: "get_or_create (new_circuit_breaker cfg) tag = fresh_entry"
  by (simp add: new_circuit_breaker_def get_or_create_def)

lemma new_breaker_config [simp]: "cbr_config (new_circuit_breaker cfg) = cfg"
  by (simp add: new_circuit_breaker_def)

text \<open>C33. In every state a breaker can reach, each outbound that is not half open has no probe accounting left
  over, a closed one has fewer consecutive failures than the threshold that would open it, and a half-open one
  has fewer successes than the threshold that would close it.\<close>

theorem breaker_reachable_inv:
  "entry_inv cfg (get_or_create (breaker_run (new_circuit_breaker cfg) evs) tag)"
  using entry_run_inv [of cfg fresh_entry tag evs]
  by (simp add: breaker_run_entry fresh_entry_inv)

section \<open>Recovery\<close>

definition allowed_after :: "string \<Rightarrow> int \<Rightarrow> int \<Rightarrow> breaker_event list \<Rightarrow> bool" where
  "allowed_after t opened cool evs \<longleftrightarrow> (\<exists>now. EvAllowed t now \<in> set evs \<and> now - opened \<ge> cool)"

definition success_events :: "string \<Rightarrow> breaker_event list \<Rightarrow> nat" where
  "success_events t evs = length (filter (\<lambda>ev. ev = EvSuccess t) evs)"

text \<open>How far an outbound that opened at time \<open>opened\<close> can have recovered.\<close>

definition recovery :: "circuit_breaker_config \<Rightarrow> string \<Rightarrow> int \<Rightarrow> breaker_event list \<Rightarrow> circuit_breaker_entry \<Rightarrow> bool" where
  "recovery cfg t opened evs e \<longleftrightarrow>
     (case ce_state e of
        CircuitOpen \<Rightarrow> ce_opened_at e = opened \<or> allowed_after t opened (cooldown cfg) evs
      | CircuitHalfOpen \<Rightarrow> allowed_after t opened (cooldown cfg) evs \<and> unat (ce_success_count e) \<le> success_events t evs
      | CircuitClosed \<Rightarrow> allowed_after t opened (cooldown cfg) evs \<and> 1 \<le> success_events t evs
          \<and> unat (success_threshold cfg) \<le> success_events t evs)"

lemma allowed_after_snoc [simp]:
  "allowed_after t opened cool (evs @ [ev]) \<longleftrightarrow>
     allowed_after t opened cool evs \<or> (\<exists>now. ev = EvAllowed t now \<and> now - opened \<ge> cool)"
  by (auto simp: allowed_after_def)

lemma success_events_snoc [simp]:
  "success_events t (evs @ [ev]) = success_events t evs + (if ev = EvSuccess t then 1 else 0)"
  by (simp add: success_events_def)

lemma unat_succ_le: "unat (w + 1 :: u32) \<le> Suc (unat w)"
  by (simp add: unat_word_ariths)

lemma recovery_success:
  assumes "recovery cfg t opened evs e"
  shows "recovery cfg t opened (evs @ [EvSuccess t]) (entry_success cfg e)"
proof (cases "ce_state e")
  case CircuitHalfOpen
  have "unat (ce_success_count e + 1) \<le> Suc (success_events t evs)"
    using assms CircuitHalfOpen unat_succ_le [of "ce_success_count e"] by (simp add: recovery_def)
  moreover have "success_threshold cfg \<le> ce_success_count e + 1 \<Longrightarrow>
      unat (success_threshold cfg) \<le> unat (ce_success_count e + 1)"
    by (simp add: word_le_nat_alt)
  ultimately show ?thesis
    using assms CircuitHalfOpen by (auto simp: recovery_def entry_success_def Let_def)
qed (use assms in \<open>auto simp: recovery_def entry_success_def\<close>)

lemma recovery_step:
  assumes "recovery cfg t opened evs e" and "ev \<noteq> EvReset t" and "ev \<noteq> EvResetAll"
  shows "recovery cfg t opened (evs @ [ev]) (entry_step cfg t e ev)"
proof (cases ev)
  case (EvSuccess tag)
  then show ?thesis
    using assms recovery_success [OF assms(1)] by (auto simp: recovery_def split: circuit_state.splits)
next
  case (EvFailure tag now)
  then show ?thesis
    using assms by (auto simp: recovery_def entry_failure_def Let_def split: circuit_state.splits)
next
  case (EvAllowed tag now)
  then show ?thesis
    using assms by (auto simp: recovery_def entry_allowed_def split: circuit_state.splits if_splits)
next
  case (EvBegin tag)
  then show ?thesis using assms by (auto simp: recovery_def entry_begin_def split: circuit_state.splits)
next
  case (EvEnd tag)
  then show ?thesis using assms by (auto simp: recovery_def entry_end_def split: circuit_state.splits)
next
  case (EvReset tag)
  then show ?thesis using assms by (auto simp: recovery_def split: circuit_state.splits)
qed (use assms in simp)

lemma recovery_run:
  assumes "ce_state e = CircuitOpen" and "EvReset t \<notin> set evs" and "EvResetAll \<notin> set evs"
  shows "recovery cfg t (ce_opened_at e) evs (foldl (entry_step cfg t) e evs)"
  using assms
proof (induction evs rule: rev_induct)
  case Nil
  then show ?case by (simp add: recovery_def)
next
  case (snoc ev evs)
  then show ?case using recovery_step [of cfg t "ce_opened_at e" evs _ ev] by auto
qed


definition sample_breaker_config :: circuit_breaker_config where
  "sample_breaker_config = \<lparr>cb_failure_threshold = Some 1, cb_half_open_max_requests = None,
     cb_success_threshold = Some 1, cb_timeout_ms = Some 10\<rparr>"


section \<open>Admission of probes\<close>

text \<open>A client that calls \<^verbatim>\<open>begin_request\<close> only right after \<^verbatim>\<open>is_allowed\<close> said yes.\<close>

definition guarded_begin :: "string \<Rightarrow> int \<Rightarrow> circuit_breaker \<Rightarrow> circuit_breaker" where
  "guarded_begin tag now cb = (let (ok, cb') = is_allowed tag now cb in if ok then begin_request tag cb' else cb')"

datatype client_event = Probe string int | Other breaker_event

fun client_step :: "circuit_breaker \<Rightarrow> client_event \<Rightarrow> circuit_breaker" where
  "client_step cb (Probe tag now) = guarded_begin tag now cb"
| "client_step cb (Other ev) = breaker_step cb ev"

lemma guarded_begin_entry:
  "get_or_create (guarded_begin tag now cb) t =
     (if t = tag then (let (ok, e) = entry_allowed (cbr_config cb) now (get_or_create cb t)
                       in if ok then entry_begin e else e)
      else get_or_create cb t)"
  by (auto simp: guarded_begin_def is_allowed_def begin_request_def put_entry_def get_or_create_def
      split: prod.splits option.splits)

lemma guarded_begin_config [simp]: "cbr_config (guarded_begin tag now cb) = cbr_config cb"
  by (auto simp: guarded_begin_def is_allowed_def begin_request_def put_entry_def split: prod.splits)

lemma client_step_config [simp]: "cbr_config (client_step cb ev) = cbr_config cb"
  by (cases ev) simp_all

lemma word_Suc_le: "(a :: u32) < m \<Longrightarrow> a + 1 \<le> m"
  by (metis inc_le)

lemma word_pred_le: "(a :: u32) \<le> m \<Longrightarrow> 0 < a \<Longrightarrow> a - 1 \<le> m"
  by (simp add: word_le_nat_alt word_less_nat_alt unat_minus_one unat_gt_0)

lemma client_step_active:
  assumes "ce_active_requests (get_or_create cb t) \<le> half_open_max_requests (cbr_config cb)"
    and "1 \<le> half_open_max_requests (cbr_config cb)" and "\<And>tag. ev \<noteq> Other (EvBegin tag)"
  shows "ce_active_requests (get_or_create (client_step cb ev) t) \<le> half_open_max_requests (cbr_config cb)"
proof (cases ev)
  case (Probe tag now)
  then show ?thesis
    using assms by (auto simp: guarded_begin_entry entry_allowed_def entry_begin_def word_Suc_le Let_def
        split: circuit_state.splits if_splits)
next
  case (Other bev)
  then have "get_or_create (client_step cb ev) t = entry_step (cbr_config cb) t (get_or_create cb t) bev"
    by (simp del: breaker_step.simps)
  then show ?thesis
    using assms Other
    by (cases bev) (auto simp: entry_success_def entry_failure_def entry_allowed_def entry_end_def fresh_entry_def
        word_pred_le Let_def split: circuit_state.splits)
qed

text \<open>If probes are started only after \<^verbatim>\<open>is_allowed\<close>, the number of requests in flight never exceeds
  \<^verbatim>\<open>half_open_max_requests\<close>, whatever the order of successes, failures, completions and resets.\<close>

theorem half_open_limit:
  assumes "1 \<le> half_open_max_requests cfg" and "\<And>tag. Other (EvBegin tag) \<notin> set evs"
  shows "ce_active_requests (get_or_create (foldl client_step (new_circuit_breaker cfg) evs) tag)
    \<le> half_open_max_requests cfg"
proof -
  have "cbr_config (foldl client_step (new_circuit_breaker cfg) evs) = cfg
      \<and> ce_active_requests (get_or_create (foldl client_step (new_circuit_breaker cfg) evs) tag)
        \<le> half_open_max_requests cfg"
    using assms(2)
  proof (induction evs rule: rev_induct)
    case Nil
    then show ?case by (simp add: fresh_entry_def)
  next
    case (snoc ev evs)
    let ?cb = "foldl client_step (new_circuit_breaker cfg) evs"
    have "cbr_config ?cb = cfg" "ce_active_requests (get_or_create ?cb tag) \<le> half_open_max_requests cfg"
      using snoc by auto
    moreover have "\<And>tag. ev \<noteq> Other (EvBegin tag)" using snoc.prems by auto
    ultimately show ?case using client_step_active [of ?cb tag ev] assms(1) by simp
  qed
  then show ?thesis by simp
qed

theorem half_open_limit_witness:
  "1 \<le> half_open_max_requests sample_breaker_config
   \<and> ce_active_requests (get_or_create (foldl client_step (new_circuit_breaker sample_breaker_config)
       [Other (EvFailure ''a'' 5), Probe ''a'' 10000005, Probe ''a'' 10000006]) ''a'')
     \<le> half_open_max_requests sample_breaker_config"
proof -
  have "1 \<le> half_open_max_requests sample_breaker_config"
    by (simp add: half_open_max_requests_def sample_breaker_config_def value_or_def to_u32_def)
  then show ?thesis
    using half_open_limit [of sample_breaker_config
        "[Other (EvFailure ''a'' 5), Probe ''a'' 10000005, Probe ''a'' 10000006]" "''a''"]
    by simp
qed

end
