(* ===== verification/Urltest.thy ===== *)
theory Urltest
  imports Circuit_Breaker
begin

text \<open>
  The URL test manager (\<^verbatim>\<open>src/routing/urltest_manager.cpp\<close>): registration, queueing of probes, committing
  of their results and the choice of a child outbound. The scheduler's task ids, the executor's acceptance
  of a job, the HTTP tester and the readings of the clock are arguments. \<^verbatim>\<open>std::sort\<close> by weight is
  unstable, so the selection takes the sorting function as an argument that may return any permutation in
  order of weight.
\<close>

section \<open>State\<close>

record url_test_result =
  utr_success :: bool
  utr_latency_ms :: u32
  utr_error :: string

record urltest_state =
  us_config :: outbound
  us_last_results :: "string \<rightharpoonup> url_test_result"
  us_circuit_breakers :: "string \<rightharpoonup> circuit_breaker"
  us_selected :: string
  us_task_id :: int
  us_probe_inflight :: bool
  us_generation :: u64

record urltest_manager =
  um_states :: "(string, urltest_state) smap"
  um_generation :: u64

definition new_urltest_manager :: urltest_manager where
  "new_urltest_manager = \<lparr>um_states = [], um_generation = 1\<rparr>"

record test_candidate =
  tc_child_tag :: string
  tc_url :: string
  tc_fwmark :: u32
  tc_timeout_ms :: u32
  tc_retry :: retry_config

definition outbound_groups :: "outbound \<Rightarrow> outbound_group list" where
  "outbound_groups ut = value_or (ob_outbound_groups ut) []"

definition child_tags :: "outbound \<Rightarrow> string list" where
  "child_tags ut = concat (map grp_outbounds (outbound_groups ut))"

definition normalize_interval_seconds :: "outbound \<Rightarrow> int" where
  "normalize_interval_seconds ob =
     (let interval = cpp_div (value_or (ob_interval_ms ob) 180000) 1000 in if interval < 1 then 1 else interval)"

section \<open>Selection\<close>

definition group_weights :: "outbound_group list \<Rightarrow> (nat \<times> u32) list" where
  "group_weights groups = map (\<lambda>i. (i, to_u32 (value_or (grp_weight (groups ! i)) 1))) [0..<length groups]"

text \<open>The guard both loops share: a breaker that is not open and a successful last result.\<close>

definition child_latency :: "urltest_state \<Rightarrow> string \<Rightarrow> u32 option" where
  "child_latency st child =
     (case us_circuit_breakers st child of
        None \<Rightarrow> None
      | Some cb \<Rightarrow>
          (if breaker_state cb child = CircuitOpen then None
           else (case us_last_results st child of
                   None \<Rightarrow> None
                 | Some r \<Rightarrow> (if utr_success r then Some (utr_latency_ms r) else None))))"

definition min_latency_step :: "urltest_state \<Rightarrow> u32 \<Rightarrow> string \<Rightarrow> u32" where
  "min_latency_step st m child = (case child_latency st child of None \<Rightarrow> m | Some l \<Rightarrow> min m l)"

definition min_latency :: "urltest_state \<Rightarrow> string list \<Rightarrow> u32" where
  "min_latency st children = foldl (min_latency_step st) (- 1) children"

definition within_tolerance :: "urltest_state \<Rightarrow> u32 \<Rightarrow> u32 \<Rightarrow> string \<Rightarrow> bool" where
  "within_tolerance st m tolerance child =
     (case child_latency st child of None \<Rightarrow> False | Some l \<Rightarrow> l \<le> m + tolerance)"

definition select_in_group :: "urltest_state \<Rightarrow> u32 \<Rightarrow> string list \<Rightarrow> string option" where
  "select_in_group st tolerance children =
     (let m = min_latency st children
      in if m = - 1 then None
         else if us_selected st \<noteq> [] \<and> us_selected st \<in> set children \<and> within_tolerance st m tolerance (us_selected st)
         then Some (us_selected st)
         else find (within_tolerance st m tolerance) children)"

fun select_in_groups :: "urltest_state \<Rightarrow> u32 \<Rightarrow> outbound_group list \<Rightarrow> (nat \<times> u32) list \<Rightarrow> string" where
  "select_in_groups st tolerance groups [] = []"
| "select_in_groups st tolerance groups (ref # refs) =
     (case select_in_group st tolerance (grp_outbounds (groups ! fst ref)) of
        Some child \<Rightarrow> child
      | None \<Rightarrow> select_in_groups st tolerance groups refs)"

definition select_from_state ::
  "((nat \<times> u32) list \<Rightarrow> (nat \<times> u32) list) \<Rightarrow> urltest_state \<Rightarrow> string" where
  "select_from_state sorter st =
     (case ob_outbound_groups (us_config st) of
        None \<Rightarrow> []
      | Some groups \<Rightarrow>
          select_in_groups st (to_u32 (value_or (ob_tolerance_ms (us_config st)) 100)) groups
            (sorter (group_weights groups)))"

definition select_outbound ::
  "((nat \<times> u32) list \<Rightarrow> (nat \<times> u32) list) \<Rightarrow> string \<Rightarrow> urltest_manager \<Rightarrow> string" where
  "select_outbound sorter tag um =
     (case map_of (um_states um) tag of None \<Rightarrow> [] | Some st \<Rightarrow> select_from_state sorter st)"

section \<open>Operations\<close>

definition new_urltest_state :: "outbound \<Rightarrow> int \<Rightarrow> urltest_state" where
  "new_urltest_state ut task_id =
     \<lparr>us_config = ut, us_last_results = Map.empty,
      us_circuit_breakers =
        foldl (\<lambda>m child. if m child = None
                 then m(child \<mapsto> new_circuit_breaker (value_or (ob_circuit_breaker ut) default_circuit_breaker_config))
                 else m) Map.empty (child_tags ut),
      us_selected = [], us_task_id = task_id, us_probe_inflight = False, us_generation = 0\<rparr>"

text \<open>The first locked section of \<^verbatim>\<open>queue_probe_unlocked\<close>: one child after the other, the breakers threaded
  through; \<open>now i\<close> is the clock when the i-th child is examined.\<close>

definition queue_child ::
  "(string \<rightharpoonup> u32) \<Rightarrow> outbound \<Rightarrow> (string \<rightharpoonup> circuit_breaker) \<times> test_candidate list \<Rightarrow> int \<times> string
     \<Rightarrow> (string \<rightharpoonup> circuit_breaker) \<times> test_candidate list" where
  "queue_child marks cfg acc timed_child =
     (case (acc, timed_child) of ((cbs, candidates), (now, child)) \<Rightarrow>
        (case marks child of
           None \<Rightarrow> (cbs, candidates)
         | Some mark \<Rightarrow>
             (case cbs child of
                None \<Rightarrow> (cbs, candidates)
              | Some cb \<Rightarrow>
                  (let (ok, cb') = is_allowed child now cb
                   in if \<not> ok then (cbs(child \<mapsto> cb'), candidates)
                      else (cbs(child \<mapsto> begin_request child cb'),
                            candidates @ [\<lparr>tc_child_tag = child, tc_url = value_or (ob_url cfg) [], tc_fwmark = mark,
                              tc_timeout_ms = to_u32 (value_or (ob_probe_timeout_ms cfg) 5000),
                              tc_retry = value_or (ob_retry cfg) default_retry_config\<rparr>])))))"

definition begin_probe ::
  "(string \<rightharpoonup> u32) \<Rightarrow> (nat \<Rightarrow> int) \<Rightarrow> string \<Rightarrow> urltest_manager \<Rightarrow> ((u64 \<times> test_candidate list) option \<times> urltest_manager)" where
  "begin_probe marks now tag um =
     (case map_of (um_states um) tag of
        None \<Rightarrow> (None, um)
      | Some st \<Rightarrow>
          (if us_probe_inflight st then (None, um)
           else let gen = um_generation um;
                    children = child_tags (us_config st);
                    (cbs, candidates) =
                      foldl (queue_child marks (us_config st)) (us_circuit_breakers st, [])
                        (zip (map now [0..<length children]) children);
                    st' = st\<lparr>us_probe_inflight := True, us_generation := gen, us_circuit_breakers := cbs\<rparr>
                in (Some (gen, candidates),
                    um\<lparr>um_states := smap_put tag st' (um_states um), um_generation := gen + 1\<rparr>)))"

definition end_candidate :: "(string \<rightharpoonup> circuit_breaker) \<Rightarrow> test_candidate \<Rightarrow> (string \<rightharpoonup> circuit_breaker)" where
  "end_candidate cbs c =
     (case cbs (tc_child_tag c) of
        None \<Rightarrow> cbs | Some cb \<Rightarrow> cbs(tc_child_tag c \<mapsto> end_request (tc_child_tag c) cb))"

text \<open>The last locked section: the executor has refused the job.\<close>

definition abandon_probe :: "string \<Rightarrow> u64 \<Rightarrow> test_candidate list \<Rightarrow> urltest_manager \<Rightarrow> urltest_manager" where
  "abandon_probe tag gen candidates um =
     (case map_of (um_states um) tag of
        None \<Rightarrow> um
      | Some st \<Rightarrow>
          (if us_generation st = gen
           then um\<lparr>um_states := smap_put tag
                  (st\<lparr>us_probe_inflight := False,
                      us_circuit_breakers := foldl end_candidate (us_circuit_breakers st) candidates\<rparr>)
                  (um_states um)\<rparr>
           else um))"

definition queue_probe_unlocked ::
  "(string \<rightharpoonup> u32) \<Rightarrow> (nat \<Rightarrow> int) \<Rightarrow> bool \<Rightarrow> string \<Rightarrow> urltest_manager
     \<Rightarrow> bool \<times> (u64 \<times> test_candidate list) option \<times> urltest_manager" where
  "queue_probe_unlocked marks now accepted tag um =
     (case begin_probe marks now tag um of
        (None, um') \<Rightarrow> (False, None, um')
      | (Some (gen, candidates), um') \<Rightarrow>
          (if accepted then (True, Some (gen, candidates), um')
           else (False, None, abandon_probe tag gen candidates um')))"

definition is_probe_current :: "urltest_manager \<Rightarrow> string \<Rightarrow> u64 \<Rightarrow> bool" where
  "is_probe_current um tag gen =
     (case map_of (um_states um) tag of None \<Rightarrow> False | Some st \<Rightarrow> us_generation st = gen)"

text \<open>The queued job: the manager is looked at again before each candidate; \<^const>\<open>None\<close> is the early return.\<close>

fun run_probe ::
  "(string \<Rightarrow> u32 \<Rightarrow> u32 \<Rightarrow> retry_config \<Rightarrow> url_test_result) \<Rightarrow> string \<Rightarrow> u64
     \<Rightarrow> (urltest_manager \<times> test_candidate) list \<Rightarrow> (string, url_test_result) smap
     \<Rightarrow> (string, url_test_result) smap option" where
  "run_probe tester tag gen [] results = Some results"
| "run_probe tester tag gen ((um, c) # rest) results =
     (if \<not> is_probe_current um tag gen then None
      else run_probe tester tag gen rest
             (smap_emplace (tc_child_tag c) (tester (tc_url c) (tc_fwmark c) (tc_timeout_ms c) (tc_retry c)) results))"

definition commit_result ::
  "urltest_state \<Rightarrow> int \<times> string \<times> url_test_result \<Rightarrow> urltest_state" where
  "commit_result st timed_result =
     (case timed_result of (now, child, result) \<Rightarrow>
        (case us_circuit_breakers st child of
           None \<Rightarrow> st
         | Some cb \<Rightarrow>
             (let cb1 = end_request child cb;
                  cb2 = (if utr_success result then record_success child cb1 else record_failure child now cb1)
              in st\<lparr>us_circuit_breakers := (us_circuit_breakers st)(child \<mapsto> cb2),
                    us_last_results := (us_last_results st)(child \<mapsto> result)\<rparr>)))"

text \<open>The result tells whether the selection changed and to what, which is when \<^verbatim>\<open>on_change_\<close> is called.\<close>

definition commit_probe_results ::
  "((nat \<times> u32) list \<Rightarrow> (nat \<times> u32) list) \<Rightarrow> (nat \<Rightarrow> int) \<Rightarrow> string \<Rightarrow> u64 \<Rightarrow> (string, url_test_result) smap
     \<Rightarrow> urltest_manager \<Rightarrow> string option \<times> urltest_manager" where
  "commit_probe_results sorter now tag gen results um =
     (case map_of (um_states um) tag of
        None \<Rightarrow> (None, um)
      | Some st \<Rightarrow>
          (if gen \<noteq> us_generation st then (None, um)
           else let st1 = foldl commit_result (st\<lparr>us_probe_inflight := False\<rparr>)
                            (zip (map now [0..<length results]) results);
                    new_selected = select_from_state sorter st1
                in if new_selected \<noteq> us_selected st1
                   then (Some new_selected,
                         um\<lparr>um_states := smap_put tag (st1\<lparr>us_selected := new_selected\<rparr>) (um_states um)\<rparr>)
                   else (None, um\<lparr>um_states := smap_put tag st1 (um_states um)\<rparr>)))"

definition register_urltest ::
  "(string \<rightharpoonup> u32) \<Rightarrow> (nat \<Rightarrow> int) \<Rightarrow> bool \<Rightarrow> int \<Rightarrow> outbound \<Rightarrow> urltest_manager
     \<Rightarrow> (u64 \<times> test_candidate list) option \<times> urltest_manager" where
  "register_urltest marks now accepted task_id ut um =
     (let um1 = um\<lparr>um_states := smap_emplace (ob_tag ut) (new_urltest_state ut task_id) (um_states um)\<rparr>
      in snd (queue_probe_unlocked marks now accepted (ob_tag ut) um1))"

definition get_selected :: "urltest_manager \<Rightarrow> string \<Rightarrow> string" where
  "get_selected um tag = (case map_of (um_states um) tag of None \<Rightarrow> [] | Some st \<Rightarrow> us_selected st)"

definition get_state :: "urltest_manager \<Rightarrow> string \<Rightarrow> urltest_state option" where
  "get_state um tag = map_of (um_states um) tag"

text \<open>The ids of the cancelled tasks are part of the result.\<close>

definition clear :: "urltest_manager \<Rightarrow> int list \<times> urltest_manager" where
  "clear um =
     (filter (\<lambda>i. i \<ge> 0) (map (us_task_id \<circ> snd) (um_states um)),
      um\<lparr>um_states := [], um_generation := um_generation um + 1\<rparr>)"

section \<open>Which child is selected\<close>

definition available :: "urltest_state \<Rightarrow> string list \<Rightarrow> bool" where
  "available st children \<longleftrightarrow> (\<exists>c \<in> set children. child_latency st c \<noteq> None)"

definition group_weight :: "outbound_group \<Rightarrow> u32" where
  "group_weight g = to_u32 (value_or (grp_weight g) 1)"

text \<open>No latency, however large the tolerance is, leaves the range of a 32-bit sum.\<close>

definition tolerance_fits :: "urltest_state \<Rightarrow> u32 \<Rightarrow> bool" where
  "tolerance_fits st tolerance \<longleftrightarrow>
     (\<forall>c l. child_latency st c = Some l \<longrightarrow> unat l + unat tolerance < 2 ^ 32 - 1)"

definition close_to_best :: "urltest_state \<Rightarrow> u32 \<Rightarrow> string list \<Rightarrow> string \<Rightarrow> bool" where
  "close_to_best st tolerance children c \<longleftrightarrow>
     (\<exists>l. child_latency st c = Some l
        \<and> (\<forall>c' \<in> set children. \<forall>l'. child_latency st c' = Some l' \<longrightarrow> unat l \<le> unat l' + unat tolerance))"

definition good_choice :: "urltest_state \<Rightarrow> u32 \<Rightarrow> string list \<Rightarrow> string \<Rightarrow> bool" where
  "good_choice st tolerance children c \<longleftrightarrow>
     c \<in> set children \<and> close_to_best st tolerance children c
     \<and> (us_selected st \<noteq> [] \<and> us_selected st \<in> set children \<and> close_to_best st tolerance children (us_selected st)
          \<longrightarrow> c = us_selected st)"

lemma foldl_min_latency:
  shows "foldl (min_latency_step st) m0 children \<le> m0"
    and "c \<in> set children \<Longrightarrow> child_latency st c = Some l \<Longrightarrow> foldl (min_latency_step st) m0 children \<le> l"
    and "foldl (min_latency_step st) m0 children = m0 \<or> (\<exists>c \<in> set children. child_latency st c = Some (foldl (min_latency_step st) m0 children))"
proof (induction children arbitrary: m0)
  case (Cons x xs)
  have le: "min_latency_step st m x \<le> m" for m by (simp add: min_latency_step_def split: option.splits)
  { case 1
    show ?case using order.trans [OF Cons.IH(1) [of "min_latency_step st m0 x"] le] by simp
  next
    case 2
    have "foldl (min_latency_step st) (min_latency_step st m0 x) xs \<le> l"
    proof (cases "c = x")
      case True
      then have "min_latency_step st m0 x \<le> l" using 2 by (simp add: min_latency_step_def)
      then show ?thesis by (rule order.trans [OF Cons.IH(1) [of "min_latency_step st m0 x"]])
    qed (use 2 Cons.IH(2) [of "min_latency_step st m0 x"] in auto)
    then show ?case by simp
  next
    case 3
    have "min_latency_step st m0 x = m0 \<or> child_latency st x = Some (min_latency_step st m0 x)"
      by (auto simp: min_latency_step_def min_def split: option.splits)
    then show ?case using Cons.IH(3) [of "min_latency_step st m0 x"] by auto
  }
qed simp_all

lemma min_max_u32: "min (- 1) (l :: u32) = l"
  by (simp add: min_absorb2)

lemma min_latency_none: "\<not> available st children \<Longrightarrow> min_latency st children = - 1"
  using foldl_min_latency(3) [of st "- 1" children] by (auto simp: min_latency_def available_def)

lemma min_latency_some:
  assumes "available st children" and "tolerance_fits st tolerance"
  shows "min_latency st children \<noteq> - 1"
    and "\<exists>c \<in> set children. child_latency st c = Some (min_latency st children)"
proof -
  obtain c l where c: "c \<in> set children" "child_latency st c = Some l"
    using assms(1) by (auto simp: available_def)
  have "min_latency st children \<le> l"
    unfolding min_latency_def by (rule foldl_min_latency(2) [OF c])
  moreover have "unat l < 2 ^ 32 - 1" using assms(2) c(2) by (fastforce simp: tolerance_fits_def)
  moreover have "unat (- 1 :: u32) = 2 ^ 32 - 1" by (simp add: unsigned_minus_1_eq_mask mask_eq_exp_minus_1)
  ultimately show ne: "min_latency st children \<noteq> - 1" by (auto simp: word_le_nat_alt)
  then show "\<exists>c \<in> set children. child_latency st c = Some (min_latency st children)"
    using foldl_min_latency(3) [of st "- 1" children] by (auto simp: min_latency_def)
qed

lemma within_tolerance_close:
  assumes "available st children" and "tolerance_fits st tolerance"
  shows "within_tolerance st (min_latency st children) tolerance c \<longleftrightarrow> close_to_best st tolerance children c"
proof -
  let ?m = "min_latency st children"
  obtain b where b: "b \<in> set children" "child_latency st b = Some ?m"
    using min_latency_some [OF assms] by auto
  have "unat (?m + tolerance) = unat ?m + unat tolerance"
    using b(2) assms(2) by (subst unat_plus_if') (fastforce simp: tolerance_fits_def)
  then have sum: "l \<le> ?m + tolerance \<longleftrightarrow> unat l \<le> unat ?m + unat tolerance" for l
    by (simp add: word_le_nat_alt)
  have least: "unat ?m \<le> unat l'" if "c' \<in> set children" "child_latency st c' = Some l'" for c' l'
    using foldl_min_latency(2) [OF that, of "- 1"] by (simp add: min_latency_def word_le_nat_alt)
  show ?thesis
  proof
    assume "within_tolerance st ?m tolerance c"
    then obtain l where l: "child_latency st c = Some l" "unat l \<le> unat ?m + unat tolerance"
      by (auto simp: within_tolerance_def sum split: option.splits)
    have "unat l \<le> unat l' + unat tolerance" if "c' \<in> set children" "child_latency st c' = Some l'" for c' l'
      using least [OF that] l(2) by linarith
    with l(1) show "close_to_best st tolerance children c" by (auto simp: close_to_best_def)
  next
    assume "close_to_best st tolerance children c"
    with b show "within_tolerance st ?m tolerance c"
      by (auto simp: close_to_best_def within_tolerance_def sum)
  qed
qed

lemma find_SomeD: "find P xs = Some x \<Longrightarrow> x \<in> set xs \<and> P x"
  by (auto simp: find_Some_iff)

lemma find_exists: "x \<in> set xs \<Longrightarrow> P x \<Longrightarrow> \<exists>y. find P xs = Some y"
  by (cases "find P xs") (auto simp: find_None_iff)

lemma select_in_group_choice:
  assumes "tolerance_fits st tolerance"
  shows "case select_in_group st tolerance children of
      None \<Rightarrow> \<not> available st children
    | Some c \<Rightarrow> available st children \<and> good_choice st tolerance children c"
proof (cases "available st children")
  case False
  then show ?thesis by (simp add: select_in_group_def min_latency_none)
next
  case True
  note close = within_tolerance_close [OF True assms]
  obtain b where b: "b \<in> set children" "close_to_best st tolerance children b"
  proof -
    obtain b where "b \<in> set children" "child_latency st b = Some (min_latency st children)"
      using min_latency_some [OF True assms] by auto
    moreover have "within_tolerance st (min_latency st children) tolerance b"
    proof -
      have "unat (min_latency st children + tolerance) = unat (min_latency st children) + unat tolerance"
        using calculation(2) assms by (subst unat_plus_if') (fastforce simp: tolerance_fits_def)
      then show ?thesis using calculation(2) by (simp add: within_tolerance_def word_le_nat_alt)
    qed
    ultimately show ?thesis using that close by blast
  qed
  show ?thesis
  proof (cases "us_selected st \<noteq> [] \<and> us_selected st \<in> set children
      \<and> close_to_best st tolerance children (us_selected st)")
    case sticky: True
    then show ?thesis
      using True min_latency_some(1) [OF True assms]
      by (simp add: select_in_group_def close good_choice_def)
  next
    case False
    have find: "select_in_group st tolerance children =
        find (within_tolerance st (min_latency st children) tolerance) children"
      using False min_latency_some(1) [OF True assms] by (auto simp: select_in_group_def close Let_def)
    obtain c where c: "find (within_tolerance st (min_latency st children) tolerance) children = Some c"
      using find_exists [OF b(1)] b(2) close by blast
    then show ?thesis
      using find_SomeD [OF c] False True by (auto simp: find close good_choice_def)
  qed
qed

text \<open>The contract of the sorting function, and what holds of the choice for every function that keeps it.\<close>

locale weight_sort =
  fixes sorter :: "(nat \<times> u32) list \<Rightarrow> (nat \<times> u32) list"
  assumes sorter_mset: "mset (sorter refs) = mset refs"
    and sorter_sorted: "sorted (map snd (sorter refs))"
begin

lemma set_sorter [simp]: "set (sorter refs) = set refs"
  using sorter_mset mset_eq_setD by blast

lemma select_sorted:
  assumes fits: "tolerance_fits st tolerance" and "sorted (map snd refs)"
  shows "(\<forall>ref \<in> set refs. \<not> available st (grp_outbounds (groups ! fst ref)))
      \<and> select_in_groups st tolerance groups refs = []
    \<or> (\<exists>ref \<in> set refs. good_choice st tolerance (grp_outbounds (groups ! fst ref))
           (select_in_groups st tolerance groups refs)
         \<and> (\<forall>ref' \<in> set refs. snd ref' < snd ref \<longrightarrow> \<not> available st (grp_outbounds (groups ! fst ref'))))"
  using assms(2)
proof (induction refs)
  case (Cons ref refs)
  note here = select_in_group_choice [OF fits, of "grp_outbounds (groups ! fst ref)"]
  show ?case
  proof (cases "select_in_group st tolerance (grp_outbounds (groups ! fst ref))")
    case None
    with here have "\<not> available st (grp_outbounds (groups ! fst ref))" by simp
    with None Cons show ?thesis by auto
  next
    case (Some c)
    with here have "good_choice st tolerance (grp_outbounds (groups ! fst ref)) c" by simp
    moreover have "\<forall>ref' \<in> set (ref # refs). \<not> snd ref' < snd ref"
      using Cons.prems by (auto simp: not_less)
    ultimately show ?thesis using Some by auto
  qed
qed simp

lemma select_from_state_choice:
  assumes "ob_outbound_groups (us_config st) = Some groups"
    and "tolerance_fits st (to_u32 (value_or (ob_tolerance_ms (us_config st)) 100))"
  shows "(\<forall>g \<in> set groups. \<not> available st (grp_outbounds g)) \<and> select_from_state sorter st = []
    \<or> (\<exists>g \<in> set groups.
          good_choice st (to_u32 (value_or (ob_tolerance_ms (us_config st)) 100)) (grp_outbounds g)
            (select_from_state sorter st)
        \<and> (\<forall>g' \<in> set groups. group_weight g' < group_weight g \<longrightarrow> \<not> available st (grp_outbounds g')))"
proof -
  have refs: "set (group_weights groups) = {(i, group_weight (groups ! i)) | i. i < length groups}"
    by (auto simp: group_weights_def group_weight_def)
  have "\<forall>g \<in> set groups. \<exists>i < length groups. groups ! i = g" by (auto simp: in_set_conv_nth)
  then show ?thesis
    using select_sorted [OF assms(2) sorter_sorted [of "group_weights groups"], of groups] assms(1)
    by (auto simp: select_from_state_def refs) (metis nth_mem)+
qed

end

lemma stable_weight_sort: "mset (sort_key snd refs) = mset (refs :: (nat \<times> u32) list)" "sorted (map snd (sort_key snd refs))"
  by simp_all

interpretation stable_weights: weight_sort "sort_key snd"
  by unfold_locales (rule stable_weight_sort)+


definition sample_urltest :: outbound where
  "sample_urltest = (make_outbound ''auto'' URLTEST)\<lparr>ob_outbound_groups :=
     Some [\<lparr>grp_outbounds = [''a'', ''b''], grp_weight = None\<rparr>]\<rparr>"

definition sample_urltest_state :: urltest_state where
  "sample_urltest_state = (new_urltest_state sample_urltest 7)\<lparr>us_last_results :=
     [''a'' \<mapsto> \<lparr>utr_success = True, utr_latency_ms = 250, utr_error = []\<rparr>,
      ''b'' \<mapsto> \<lparr>utr_success = True, utr_latency_ms = 100, utr_error = []\<rparr>]\<rparr>"


section \<open>Stale probes\<close>

datatype um_event =
    UmRegister "string \<rightharpoonup> u32" "nat \<Rightarrow> int" bool int outbound
  | UmQueue "string \<rightharpoonup> u32" "nat \<Rightarrow> int" string
  | UmAbandon string u64 "test_candidate list"
  | UmCommit "(nat \<times> u32) list \<Rightarrow> (nat \<times> u32) list" "nat \<Rightarrow> int" string u64 "(string, url_test_result) smap"
  | UmClear

fun um_step :: "urltest_manager \<Rightarrow> um_event \<Rightarrow> urltest_manager" where
  "um_step um (UmRegister marks now accepted task_id ut) = snd (register_urltest marks now accepted task_id ut um)"
| "um_step um (UmQueue marks now tag) = snd (begin_probe marks now tag um)"
| "um_step um (UmAbandon tag gen candidates) = abandon_probe tag gen candidates um"
| "um_step um (UmCommit sorter now tag gen results) = snd (commit_probe_results sorter now tag gen results um)"
| "um_step um UmClear = snd (clear um)"

text \<open>Every registered test has never been probed or was last probed at generation \<open>g\<close> or later.\<close>

definition generations_from :: "u64 \<Rightarrow> urltest_manager \<Rightarrow> bool" where
  "generations_from g um \<longleftrightarrow>
     g \<le> um_generation um
     \<and> (\<forall>tag st. map_of (um_states um) tag = Some st \<longrightarrow> us_generation st = 0 \<or> g \<le> us_generation st)"

lemma commit_result_generation [simp]: "us_generation (foldl commit_result st rs) = us_generation st"
  by (induction rs arbitrary: st) (auto simp: commit_result_def Let_def split: option.splits prod.splits)

lemma begin_probe_generations:
  assumes "generations_from g um" and "unat (um_generation um) + 1 < 2 ^ 64"
  shows "generations_from g (snd (begin_probe marks now tag um))"
    and "unat (um_generation (snd (begin_probe marks now tag um))) \<le> Suc (unat (um_generation um))"
proof -
  have inc: "unat (um_generation um + 1) = Suc (unat (um_generation um))"
    using assms(2) by (subst unat_plus_if') auto
  then have "um_generation um \<le> um_generation um + 1" by (simp add: word_le_nat_alt)
  then show "generations_from g (snd (begin_probe marks now tag um))"
    using assms(1)
    by (auto simp: generations_from_def begin_probe_def Let_def map_of_smap_put split: option.splits prod.splits
        intro: order.trans)
  show "unat (um_generation (snd (begin_probe marks now tag um))) \<le> Suc (unat (um_generation um))"
    using inc by (auto simp: begin_probe_def Let_def split: option.splits prod.splits)
qed

lemma abandon_probe_generations:
  assumes "generations_from g um"
  shows "generations_from g (abandon_probe tag gen candidates um)"
    and "um_generation (abandon_probe tag gen candidates um) = um_generation um"
  using assms by (auto simp: generations_from_def abandon_probe_def map_of_smap_put split: option.splits)

lemma um_step_generations:
  assumes "generations_from g um" and "unat (um_generation um) + 1 < 2 ^ 64"
  shows "generations_from g (um_step um ev)"
    and "unat (um_generation (um_step um ev)) \<le> Suc (unat (um_generation um))"
proof -
  have "generations_from g (um_step um ev) \<and> unat (um_generation (um_step um ev)) \<le> Suc (unat (um_generation um))"
  proof (cases ev)
    case (UmRegister marks now accepted task_id ut)
    let ?um1 = "um\<lparr>um_states := smap_emplace (ob_tag ut) (new_urltest_state ut task_id) (um_states um)\<rparr>"
    have um1: "generations_from g ?um1"
      using assms(1) by (auto simp: generations_from_def map_of_smap_emplace new_urltest_state_def)
    note q = begin_probe_generations [OF um1, of marks now "ob_tag ut"]
    show ?thesis
      using q assms(2) abandon_probe_generations [OF q(1)] UmRegister
      by (auto simp: register_urltest_def queue_probe_unlocked_def Let_def split: prod.splits option.splits)
  next
    case (UmQueue marks now tag)
    then show ?thesis using begin_probe_generations [OF assms] by simp
  next
    case (UmAbandon tag gen candidates)
    then show ?thesis using abandon_probe_generations [OF assms(1)] by simp
  next
    case (UmCommit sorter now tag gen results)
    then show ?thesis
      using assms(1)
      by (auto simp: generations_from_def commit_probe_results_def map_of_smap_put Let_def split: option.splits)
  next
    case UmClear
    have inc: "unat (um_generation um + 1) = Suc (unat (um_generation um))"
      using assms(2) by (subst unat_plus_if') auto
    then have "um_generation um \<le> um_generation um + 1" by (simp add: word_le_nat_alt)
    then show ?thesis using UmClear assms(1) inc by (auto simp: generations_from_def clear_def)
  qed
  then show "generations_from g (um_step um ev)"
    and "unat (um_generation (um_step um ev)) \<le> Suc (unat (um_generation um))"
    by auto
qed

lemma um_run_generations:
  assumes "generations_from g um" and "unat (um_generation um) + length evs < 2 ^ 64"
  shows "generations_from g (foldl um_step um evs)"
  using assms
proof (induction evs arbitrary: um)
  case (Cons ev evs)
  then show ?case
    using um_step_generations [of g um ev] by auto
qed simp

text \<open>The results of a probe that was started before a \<^verbatim>\<open>clear\<close> are dropped whenever they arrive: whatever
  was registered, probed and committed since, committing them changes neither the state nor the selection.\<close>

theorem stale_commit_ignored:
  assumes "0 < g" and "g < um_generation (snd (clear um))"
    and "unat (um_generation (snd (clear um))) + length evs < 2 ^ 64"
  shows "commit_probe_results sorter now tag g results (foldl um_step (snd (clear um)) evs)
    = (None, foldl um_step (snd (clear um)) evs)"
proof -
  let ?um = "foldl um_step (snd (clear um)) evs"
  have "generations_from (um_generation (snd (clear um))) (snd (clear um))"
    by (simp add: generations_from_def clear_def)
  from um_run_generations [OF this assms(3)]
  have "us_generation st \<noteq> g" if "map_of (um_states ?um) tag = Some st" for st
    using that assms(1,2) unfolding generations_from_def by (metis leD word_gt_0)
  then show ?thesis by (auto simp: commit_probe_results_def split: option.splits)
qed

theorem stale_commit_ignored_witness:
  "commit_probe_results (sort_key snd) (\<lambda>_. 0) ''auto'' 1 [(''a'', \<lparr>utr_success = True, utr_latency_ms = 5, utr_error = []\<rparr>)]
     (foldl um_step (snd (clear new_urltest_manager)) [UmRegister (\<lambda>_. Some 1) (\<lambda>_. 0) True 3 sample_urltest])
   = (None, foldl um_step (snd (clear new_urltest_manager)) [UmRegister (\<lambda>_. Some 1) (\<lambda>_. 0) True 3 sample_urltest])"
  by (rule stale_commit_ignored) (simp_all add: clear_def new_urltest_manager_def)

text \<open>The hypothesis on the tolerance matters: when the 32-bit sum of the best latency and the tolerance wraps
  around, a group with a usable child is passed over.\<close>

lemma tolerance_wraps:
  "select_in_group (sample_urltest_state\<lparr>us_config := sample_urltest\<lparr>ob_tolerance_ms := Some (- 1)\<rparr>\<rparr>)
     (to_u32 (- 1)) [''a'', ''b''] = None"
proof -
  let ?st = "sample_urltest_state\<lparr>us_config := sample_urltest\<lparr>ob_tolerance_ms := Some (- 1)\<rparr>\<rparr>"
  have lat: "child_latency ?st c = (if c = ''a'' then Some 250 else if c = ''b'' then Some 100 else None)" for c
    by (auto simp: child_latency_def sample_urltest_state_def new_urltest_state_def child_tags_def outbound_groups_def
        sample_urltest_def make_outbound_def new_circuit_breaker_def breaker_state_def)
  show ?thesis
    by (simp add: select_in_group_def Let_def min_latency_def min_latency_step_def lat within_tolerance_def to_u32_def
        min_max_u32)
qed

end
