(* ===== verification/Netlink.thy ===== *)
theory Netlink
  imports Prelude
begin

text \<open>
  The routing data exchanged with the kernel (\<^verbatim>\<open>src/routing/netlink.hpp\<close>). The netlink operations are
  virtual functions in the code; here they are a record of functions on a kernel state of any type, each
  returning a result or an exception together with the new kernel state. What the proofs assume of a
  kernel is stated as predicates over such records, and a small simulated kernel satisfies them.
\<close>

section \<open>Effects\<close>

text \<open>An operation on a state that may throw; the state after a throw is kept.\<close>

type_synonym ('s, 'a) eff = "'s \<Rightarrow> 'a result \<times> 's"

fun for_each :: "('a \<Rightarrow> ('s, unit) eff) \<Rightarrow> 'a list \<Rightarrow> ('s, unit) eff" where
  "for_each f [] s = (Inr (), s)"
| "for_each f (x # xs) s =
     (case f x s of (Inl e, s') \<Rightarrow> (Inl e, s') | (Inr u, s') \<Rightarrow> for_each f xs s')"

text \<open>A loop whose body cannot throw, or whose exceptions are caught and logged.\<close>

fun for_each_quiet :: "('a \<Rightarrow> 's \<Rightarrow> 's) \<Rightarrow> 'a list \<Rightarrow> 's \<Rightarrow> 's" where
  "for_each_quiet f [] s = s"
| "for_each_quiet f (x # xs) s = for_each_quiet f xs (f x s)"

lemma for_each_append:
  "for_each f (xs @ ys) s =
     (case for_each f xs s of (Inl e, s') \<Rightarrow> (Inl e, s') | (Inr u, s') \<Rightarrow> for_each f ys s')"
  by (induction xs arbitrary: s) (auto split: prod.splits sum.splits)

lemma for_each_invariant:
  assumes "P s" and "\<And>s x r s'. P s \<Longrightarrow> x \<in> set xs \<Longrightarrow> f x s = (r, s') \<Longrightarrow> P s'"
  shows "P (snd (for_each f xs s))"
  using assms
proof (induction xs arbitrary: s)
  case (Cons x xs)
  obtain r s1 where f: "f x s = (r, s1)" by (cases "f x s")
  have "P s1" by (rule Cons.prems(2) [OF Cons.prems(1) _ f]) simp
  then have "P (snd (for_each f xs s1))"
    by (rule Cons.IH) (rule Cons.prems(2), simp_all)
  with f \<open>P s1\<close> show ?case by (cases r) simp_all
qed simp

lemma for_each_quiet_invariant:
  assumes "P s" and "\<And>s x. P s \<Longrightarrow> x \<in> set xs \<Longrightarrow> P (f x s)"
  shows "P (for_each_quiet f xs s)"
  using assms
proof (induction xs arbitrary: s)
  case (Cons x xs)
  have "P (f x s)" by (rule Cons.prems(2) [OF Cons.prems(1)]) simp
  then have "P (for_each_quiet f xs (f x s))"
    by (rule Cons.IH) (rule Cons.prems(2), simp_all)
  then show ?case by simp
qed simp

lemma for_each_success_step:
  "for_each f (x # xs) s = (Inr (), s') \<longleftrightarrow> (\<exists>s1. f x s = (Inr (), s1) \<and> for_each f xs s1 = (Inr (), s'))"
  by (auto split: prod.splits sum.splits)

section \<open>Specifications\<close>

definition AF_INET :: int where "AF_INET = 2"
definition AF_INET6 :: int where "AF_INET6 = 10"

lemma af_values [simp]: "AF_INET \<noteq> 0" "AF_INET6 \<noteq> 0" "AF_INET \<noteq> AF_INET6" "AF_INET6 \<noteq> AF_INET"
  by (simp_all add: AF_INET_def AF_INET6_def)

datatype rule_action = RuleLookup | RuleUnreachable | RuleBlackhole

definition generated_route_protocol :: u8 where
  "generated_route_protocol = 186"

record route_spec =
  rs_destination :: string
  rs_table :: u32
  rs_interface :: "string option"
  rs_gateway :: "string option"
  rs_blackhole :: bool
  rs_unreachable :: bool
  rs_family :: int
  rs_metric :: u32
  rs_protocol :: u8

definition default_route_spec :: route_spec where
  "default_route_spec = \<lparr>rs_destination = [], rs_table = 0, rs_interface = None, rs_gateway = None,
     rs_blackhole = False, rs_unreachable = False, rs_family = 0, rs_metric = 0,
     rs_protocol = generated_route_protocol\<rparr>"

datatype add_result = Created | AlreadyPresent

record rule_spec =
  ru_fwmark :: u32
  ru_fwmask :: u32
  ru_table :: u32
  ru_priority :: u32
  ru_family :: int
  ru_action :: rule_action

definition default_rule_spec :: rule_spec where
  "default_rule_spec = \<lparr>ru_fwmark = 0, ru_fwmask = 0xFFFFFFFF, ru_table = 0, ru_priority = 0, ru_family = 0,
     ru_action = RuleLookup\<rparr>"

record dumped_route =
  dmp_destination :: string
  dmp_table :: u32
  dmp_interface :: "string option"
  dmp_gateway :: "string option"
  dmp_blackhole :: bool
  dmp_unreachable :: bool
  dmp_family :: int
  dmp_metric :: u32
  dmp_protocol :: u8

record dumped_rule =
  dmr_priority :: u32
  dmr_fwmark :: u32
  dmr_fwmask :: u32
  dmr_table :: u32
  dmr_family :: int
  dmr_action :: rule_action

text \<open>The operations of \<^verbatim>\<open>RouteNetlinkOperations\<close>, \<^verbatim>\<open>RuleNetlinkOperations\<close> and \<^verbatim>\<open>RoutingNetlinkOperations\<close>.\<close>

record 'k netlink_ops =
  op_add_route :: "route_spec \<Rightarrow> ('k, add_result) eff"
  op_delete_route :: "route_spec \<Rightarrow> ('k, unit) eff"
  op_add_rule :: "rule_spec \<Rightarrow> int \<Rightarrow> ('k, add_result) eff"
  op_delete_rule :: "rule_spec \<Rightarrow> int \<Rightarrow> ('k, unit) eff"
  op_dump_routes :: "u32 \<Rightarrow> ('k, dumped_route list) eff"
  op_dump_rules :: "('k, dumped_rule list) eff"

section \<open>What a kernel does\<close>

definition route_family :: "route_spec \<Rightarrow> int" where
  "route_family r =
     (if rs_family r \<noteq> 0 then rs_family r else if rs_destination r = ''default'' then AF_INET else 0)"

definition dumped_route_from_spec :: "route_spec \<Rightarrow> dumped_route" where
  "dumped_route_from_spec r =
     \<lparr>dmp_destination = rs_destination r, dmp_table = rs_table r, dmp_interface = rs_interface r,
      dmp_gateway = rs_gateway r, dmp_blackhole = rs_blackhole r, dmp_unreachable = rs_unreachable r,
      dmp_family = rs_family r, dmp_metric = rs_metric r, dmp_protocol = rs_protocol r\<rparr>"

definition route_spec_from_dump :: "dumped_route \<Rightarrow> route_spec" where
  "route_spec_from_dump r =
     \<lparr>rs_destination = dmp_destination r, rs_table = dmp_table r, rs_interface = dmp_interface r,
      rs_gateway = dmp_gateway r, rs_blackhole = dmp_blackhole r, rs_unreachable = dmp_unreachable r,
      rs_family = dmp_family r, rs_metric = dmp_metric r, rs_protocol = dmp_protocol r\<rparr>"

text \<open>The route a specification stands for in the kernel's table, the family detected.\<close>

definition kernel_route :: "route_spec \<Rightarrow> dumped_route" where
  "kernel_route r = (dumped_route_from_spec r)\<lparr>dmp_family := route_family r\<rparr>"

definition kernel_rule :: "rule_spec \<Rightarrow> int \<Rightarrow> dumped_rule" where
  "kernel_rule r family =
     \<lparr>dmr_priority = ru_priority r, dmr_fwmark = ru_fwmark r, dmr_fwmask = ru_fwmask r, dmr_table = ru_table r,
      dmr_family = family, dmr_action = ru_action r\<rparr>"

text \<open>
  The documented behaviour of the netlink operations: \<^verbatim>\<open>Created\<close> means the entry was absent and is now
  there, \<^verbatim>\<open>AlreadyPresent\<close> and an error change nothing, a deletion that succeeds removes exactly that entry.
  \<open>R\<close> and \<open>Q\<close> read the routes and the rules off a kernel state.
\<close>

definition route_kernel :: "'k netlink_ops \<Rightarrow> ('k \<Rightarrow> dumped_route set) \<Rightarrow> bool" where
  "route_kernel ops R \<longleftrightarrow>
     (\<forall>r k. case op_add_route ops r k of
              (Inr Created, k') \<Rightarrow> kernel_route r \<notin> R k \<and> R k' = insert (kernel_route r) (R k)
            | (_, k') \<Rightarrow> R k' = R k)
     \<and> (\<forall>r k. case op_delete_route ops r k of
              (Inr u, k') \<Rightarrow> R k' = R k - {kernel_route r}
            | (Inl e, k') \<Rightarrow> R k' = R k)"

definition rule_kernel :: "'k netlink_ops \<Rightarrow> ('k \<Rightarrow> dumped_rule set) \<Rightarrow> bool" where
  "rule_kernel ops Q \<longleftrightarrow>
     (\<forall>r f k. case op_add_rule ops r f k of
              (Inr Created, k') \<Rightarrow> kernel_rule r f \<notin> Q k \<and> Q k' = insert (kernel_rule r f) (Q k)
            | (Inr AlreadyPresent, k') \<Rightarrow> kernel_rule r f \<in> Q k \<and> Q k' = Q k
            | (Inl e, k') \<Rightarrow> Q k' = Q k)
     \<and> (\<forall>r f k. case op_delete_rule ops r f k of
              (Inr u, k') \<Rightarrow> Q k' = Q k - {kernel_rule r f}
            | (Inl e, k') \<Rightarrow> Q k' = Q k)"

section \<open>A simulated kernel\<close>

text \<open>Two lists; adding and deleting behave as documented and deleting an absent entry is an error.\<close>

type_synonym sim_kernel = "dumped_route list \<times> dumped_rule list"

definition sim_ops :: "sim_kernel netlink_ops" where
  "sim_ops =
     \<lparr>op_add_route = (\<lambda>r k. if kernel_route r \<in> set (fst k) then (Inr AlreadyPresent, k)
                           else (Inr Created, (fst k @ [kernel_route r], snd k))),
      op_delete_route = (\<lambda>r k. if kernel_route r \<in> set (fst k)
                              then (Inr (), (filter (\<lambda>x. x \<noteq> kernel_route r) (fst k), snd k))
                              else (Inl (NetlinkError ''no such route''), k)),
      op_add_rule = (\<lambda>r f k. if kernel_rule r f \<in> set (snd k) then (Inr AlreadyPresent, k)
                            else (Inr Created, (fst k, snd k @ [kernel_rule r f]))),
      op_delete_rule = (\<lambda>r f k. if kernel_rule r f \<in> set (snd k)
                               then (Inr (), (fst k, filter (\<lambda>x. x \<noteq> kernel_rule r f) (snd k)))
                               else (Inl (NetlinkError ''no such rule''), k)),
      op_dump_routes = (\<lambda>t k. (Inr (filter (\<lambda>r. dmp_table r = t) (fst k)), k)),
      op_dump_rules = (\<lambda>k. (Inr (snd k), k))\<rparr>"

lemma sim_route_kernel: "route_kernel sim_ops (set \<circ> fst)"
  by (auto simp: route_kernel_def sim_ops_def)

lemma sim_rule_kernel: "rule_kernel sim_ops (set \<circ> snd)"
  by (auto simp: rule_kernel_def sim_ops_def)

lemma kernel_route_from_dump [simp]: "dmp_family r \<noteq> 0 \<Longrightarrow> kernel_route (route_spec_from_dump r) = r"
  by (cases r) (simp add: kernel_route_def route_spec_from_dump_def dumped_route_from_spec_def route_family_def)

lemma kernel_route_eq_dumped: "rs_family r \<noteq> 0 \<Longrightarrow> kernel_route r = dumped_route_from_spec r"
  by (simp add: kernel_route_def dumped_route_from_spec_def route_family_def)

lemma kernel_route_table [simp]: "dmp_table (kernel_route r) = rs_table r"
  by (simp add: kernel_route_def dumped_route_from_spec_def)

lemma kernel_route_protocol [simp]: "dmp_protocol (kernel_route r) = rs_protocol r"
  by (simp add: kernel_route_def dumped_route_from_spec_def)

lemma kernel_route_family [simp]: "dmp_family (kernel_route r) = route_family r"
  by (simp add: kernel_route_def)

end
