(* ===== verification/Route_Table.thy ===== *)
theory Route_Table
  imports Netlink
begin

text \<open>
  The tracked route table and the policy rule manager (\<^verbatim>\<open>src/routing/route_table.cpp\<close>,
  \<^verbatim>\<open>src/routing/policy_rule.cpp\<close>). Both remember the complete desired state and, apart from it, the entries
  this process created and may delete. Their reconciliation is the same, so it is proved once for any
  tracker and interpreted for each.
\<close>

section \<open>Route table\<close>

record route_table =
  rt_dry_run :: bool
  rt_routes :: "route_spec list"
  rt_owned :: "route_spec list"

definition new_route_table :: "bool \<Rightarrow> route_table" where
  "new_route_table dry = \<lparr>rt_dry_run = dry, rt_routes = [], rt_owned = []\<rparr>"

definition routes_equal :: "route_spec \<Rightarrow> route_spec \<Rightarrow> bool" where
  "routes_equal a b \<longleftrightarrow>
     rs_destination a = rs_destination b \<and> rs_table a = rs_table b \<and> rs_interface a = rs_interface b
     \<and> rs_gateway a = rs_gateway b \<and> rs_blackhole a = rs_blackhole b \<and> rs_unreachable a = rs_unreachable b
     \<and> rs_family a = rs_family b \<and> rs_metric a = rs_metric b \<and> rs_protocol a = rs_protocol b"

lemma routes_equal_iff [simp]: "routes_equal a b \<longleftrightarrow> a = b"
  by (cases a; cases b) (auto simp: routes_equal_def)

text \<open>\<^verbatim>\<open>erase\<close> at the position that \<^verbatim>\<open>find_if\<close> returned.\<close>

fun erase_first :: "('a \<Rightarrow> bool) \<Rightarrow> 'a list \<Rightarrow> 'a list" where
  "erase_first p [] = []"
| "erase_first p (x # xs) = (if p x then xs else x # erase_first p xs)"

definition route_is_tracked :: "route_table \<Rightarrow> route_spec \<Rightarrow> bool" where
  "route_is_tracked rt spec = list_ex (\<lambda>r. routes_equal r spec) (rt_routes rt)"

definition route_add :: "'k netlink_ops \<Rightarrow> route_spec \<Rightarrow> (route_table \<times> 'k, unit) eff" where
  "route_add ops spec s =
     (case s of (rt, k) \<Rightarrow>
        (if route_is_tracked rt spec then (Inr (), s)
         else if rt_dry_run rt
         then (Inr (), (rt\<lparr>rt_routes := rt_routes rt @ [spec], rt_owned := rt_owned rt @ [spec]\<rparr>, k))
         else (case op_add_route ops spec k of
                 (Inl e, k') \<Rightarrow> (Inl e, (rt, k'))
               | (Inr res, k') \<Rightarrow>
                   (Inr (), (rt\<lparr>rt_routes := rt_routes rt @ [spec],
                                rt_owned := (if res = Created then rt_owned rt @ [spec] else rt_owned rt)\<rparr>, k')))))"

definition route_remove :: "'k netlink_ops \<Rightarrow> route_spec \<Rightarrow> route_table \<times> 'k \<Rightarrow> route_table \<times> 'k" where
  "route_remove ops spec s =
     (case s of (rt, k) \<Rightarrow>
        (if \<not> route_is_tracked rt spec then s
         else let owned = list_ex (\<lambda>r. routes_equal r spec) (rt_owned rt);
                  k' = (if \<not> rt_dry_run rt \<and> owned then snd (op_delete_route ops spec k) else k)
              in (rt\<lparr>rt_owned := erase_first (\<lambda>r. routes_equal r spec) (rt_owned rt),
                     rt_routes := erase_first (\<lambda>r. routes_equal r spec) (rt_routes rt)\<rparr>, k')))"

definition route_add_missing :: "'k netlink_ops \<Rightarrow> route_spec list \<Rightarrow> (route_table \<times> 'k, unit) eff" where
  "route_add_missing ops desired s = for_each (route_add ops) desired s"

definition route_remove_obsolete :: "'k netlink_ops \<Rightarrow> route_spec list \<Rightarrow> route_table \<times> 'k \<Rightarrow> route_table \<times> 'k" where
  "route_remove_obsolete ops desired s =
     for_each_quiet
       (\<lambda>route s. if list_ex (\<lambda>c. routes_equal route c) desired then s else route_remove ops route s)
       (rt_routes (fst s)) s"

definition route_reconcile :: "'k netlink_ops \<Rightarrow> route_spec list \<Rightarrow> (route_table \<times> 'k, unit) eff" where
  "route_reconcile ops desired s =
     (case route_add_missing ops desired s of
        (Inl e, s') \<Rightarrow> (Inl e, s')
      | (Inr u, s') \<Rightarrow> (Inr (), route_remove_obsolete ops desired s'))"

definition route_adopt_desired :: "route_spec list \<Rightarrow> route_table \<Rightarrow> route_table" where
  "route_adopt_desired desired rt = rt\<lparr>rt_routes := desired, rt_owned := []\<rparr>"

definition route_clear :: "'k netlink_ops \<Rightarrow> route_table \<times> 'k \<Rightarrow> route_table \<times> 'k" where
  "route_clear ops s =
     (case s of (rt, k) \<Rightarrow>
        (rt\<lparr>rt_owned := [], rt_routes := []\<rparr>,
         if rt_dry_run rt then k
         else for_each_quiet (\<lambda>r k. snd (op_delete_route ops r k)) (rev (rt_owned rt)) k))"

section \<open>Policy rules\<close>

record policy_rules =
  pm_dry_run :: bool
  pm_rules :: "rule_spec list"
  pm_owned :: "rule_spec list"

definition new_policy_rules :: "bool \<Rightarrow> policy_rules" where
  "new_policy_rules dry = \<lparr>pm_dry_run = dry, pm_rules = [], pm_owned = []\<rparr>"

definition rules_equal :: "rule_spec \<Rightarrow> rule_spec \<Rightarrow> bool" where
  "rules_equal a b \<longleftrightarrow>
     ru_fwmark a = ru_fwmark b \<and> ru_fwmask a = ru_fwmask b \<and> ru_table a = ru_table b
     \<and> ru_priority a = ru_priority b \<and> ru_family a = ru_family b \<and> ru_action a = ru_action b"

lemma rules_equal_iff [simp]: "rules_equal a b \<longleftrightarrow> a = b"
  by (cases a; cases b) (auto simp: rules_equal_def)

definition rule_is_tracked :: "policy_rules \<Rightarrow> rule_spec \<Rightarrow> bool" where
  "rule_is_tracked pm spec = list_ex (\<lambda>r. rules_equal r spec) (pm_rules pm)"

text \<open>The family loop of \<^verbatim>\<open>add\<close>: the rules created so far are returned in both cases.\<close>

fun add_families ::
  "'k netlink_ops \<Rightarrow> rule_spec \<Rightarrow> int list \<Rightarrow> rule_spec list \<Rightarrow> 'k \<Rightarrow> (cpp_error option \<times> rule_spec list) \<times> 'k" where
  "add_families ops spec [] owned k = ((None, owned), k)"
| "add_families ops spec (f # fs) owned k =
     (case op_add_rule ops spec f k of
        (Inl e, k') \<Rightarrow> ((Some e, owned), k')
      | (Inr Created, k') \<Rightarrow> add_families ops spec fs (owned @ [spec\<lparr>ru_family := f\<rparr>]) k'
      | (Inr AlreadyPresent, k') \<Rightarrow> add_families ops spec fs owned k')"

definition delete_quietly :: "'k netlink_ops \<Rightarrow> rule_spec \<Rightarrow> 'k \<Rightarrow> 'k" where
  "delete_quietly ops r k = snd (op_delete_rule ops r (ru_family r) k)"

definition rule_add :: "'k netlink_ops \<Rightarrow> rule_spec \<Rightarrow> (policy_rules \<times> 'k, unit) eff" where
  "rule_add ops spec s =
     (case s of (pm, k) \<Rightarrow>
        (if rule_is_tracked pm spec then (Inr (), s)
         else if pm_dry_run pm then (Inr (), (pm\<lparr>pm_rules := pm_rules pm @ [spec]\<rparr>, k))
         else let families = (if ru_family spec \<noteq> 0 then [ru_family spec] else [AF_INET, AF_INET6])
              in case add_families ops spec families [] k of
                   ((Some e, owned), k') \<Rightarrow> (Inl e, (pm, for_each_quiet (delete_quietly ops) (rev owned) k'))
                 | ((None, owned), k') \<Rightarrow>
                     (Inr (), (pm\<lparr>pm_owned := pm_owned pm @ owned, pm_rules := pm_rules pm @ [spec]\<rparr>, k'))))"

definition owned_by_spec :: "rule_spec \<Rightarrow> rule_spec \<Rightarrow> bool" where
  "owned_by_spec spec owned \<longleftrightarrow>
     rules_equal owned (spec\<lparr>ru_family := ru_family owned\<rparr>)
     \<and> (ru_family spec = 0 \<or> ru_family spec = ru_family owned)"

text \<open>The loop over \<^verbatim>\<open>owned_rules_\<close>; an exception leaves the entries not yet erased in place.\<close>

fun delete_owned :: "'k netlink_ops \<Rightarrow> rule_spec \<Rightarrow> rule_spec list \<Rightarrow> rule_spec list \<Rightarrow> 'k
  \<Rightarrow> (cpp_error option \<times> rule_spec list) \<times> 'k" where
  "delete_owned ops spec kept [] k = ((None, kept), k)"
| "delete_owned ops spec kept (r # rs) k =
     (if owned_by_spec spec r
      then (case op_delete_rule ops r (ru_family r) k of
              (Inl e, k') \<Rightarrow> ((Some e, kept @ r # rs), k')
            | (Inr u, k') \<Rightarrow> delete_owned ops spec kept rs k')
      else delete_owned ops spec (kept @ [r]) rs k)"

definition rule_remove :: "'k netlink_ops \<Rightarrow> rule_spec \<Rightarrow> (policy_rules \<times> 'k, unit) eff" where
  "rule_remove ops spec s =
     (case s of (pm, k) \<Rightarrow>
        (if \<not> rule_is_tracked pm spec then (Inr (), s)
         else if pm_dry_run pm
         then (Inr (), (pm\<lparr>pm_rules := erase_first (\<lambda>r. rules_equal r spec) (pm_rules pm)\<rparr>, k))
         else (case delete_owned ops spec [] (pm_owned pm) k of
                 ((Some e, owned), k') \<Rightarrow> (Inl e, (pm\<lparr>pm_owned := owned\<rparr>, k'))
               | ((None, owned), k') \<Rightarrow>
                   (Inr (), (pm\<lparr>pm_owned := owned,
                                pm_rules := erase_first (\<lambda>r. rules_equal r spec) (pm_rules pm)\<rparr>, k')))))"

definition rule_add_missing :: "'k netlink_ops \<Rightarrow> rule_spec list \<Rightarrow> (policy_rules \<times> 'k, unit) eff" where
  "rule_add_missing ops desired s = for_each (rule_add ops) desired s"

definition rule_remove_obsolete :: "'k netlink_ops \<Rightarrow> rule_spec list \<Rightarrow> (policy_rules \<times> 'k, unit) eff" where
  "rule_remove_obsolete ops desired s =
     for_each
       (\<lambda>rule s. if list_ex (\<lambda>c. rules_equal rule c) desired then (Inr (), s) else rule_remove ops rule s)
       (pm_rules (fst s)) s"

definition rule_reconcile :: "'k netlink_ops \<Rightarrow> rule_spec list \<Rightarrow> (policy_rules \<times> 'k, unit) eff" where
  "rule_reconcile ops desired s =
     (case rule_add_missing ops desired s of
        (Inl e, s') \<Rightarrow> (Inl e, s')
      | (Inr u, s') \<Rightarrow> rule_remove_obsolete ops desired s')"

definition rule_adopt_desired :: "rule_spec list \<Rightarrow> policy_rules \<Rightarrow> policy_rules" where
  "rule_adopt_desired desired pm = pm\<lparr>pm_rules := desired, pm_owned := []\<rparr>"

definition rule_clear :: "'k netlink_ops \<Rightarrow> policy_rules \<times> 'k \<Rightarrow> policy_rules \<times> 'k" where
  "rule_clear ops s =
     (case s of (pm, k) \<Rightarrow>
        (pm\<lparr>pm_owned := [], pm_rules := []\<rparr>,
         if pm_dry_run pm then k else for_each_quiet (delete_quietly ops) (rev (pm_owned pm)) k))"

section \<open>Trackers\<close>

text \<open>What the two managers share: adding tracks an entry once, removing untracks one copy of it.\<close>

locale tracker =
  fixes track_add :: "'a \<Rightarrow> ('s, unit) eff" and track_remove :: "'a \<Rightarrow> ('s, unit) eff"
    and tracked :: "'s \<Rightarrow> 'a list"
  assumes add_tracks: "track_add x s = (Inr (), s') \<Longrightarrow>
      tracked s' = (if x \<in> set (tracked s) then tracked s else tracked s @ [x])"
    and remove_untracks: "track_remove x s = (Inr (), s') \<Longrightarrow> tracked s' = remove1 x (tracked s)"
begin

lemma add_all:
  assumes "for_each track_add desired s = (Inr (), s')"
  shows "set (tracked s') = set (tracked s) \<union> set desired"
    and "distinct (tracked s) \<Longrightarrow> distinct (tracked s')"
  using assms
proof (induction desired arbitrary: s)
  case (Cons x xs)
  { case 1
    then obtain s1 where s1: "track_add x s = (Inr (), s1)" "for_each track_add xs s1 = (Inr (), s')"
      using for_each_success_step by metis
    from Cons.IH(1) [OF s1(2)] add_tracks [OF s1(1)] show ?case by auto
  next
    case 2
    then obtain s1 where s1: "track_add x s = (Inr (), s1)" "for_each track_add xs s1 = (Inr (), s')"
      using for_each_success_step by metis
    from Cons.IH(2) [OF _ s1(2)] add_tracks [OF s1(1)] 2(1) show ?case by auto
  }
qed simp_all

lemma remove_all:
  assumes "for_each (\<lambda>x s. if x \<in> set desired then (Inr (), s) else track_remove x s) xs s = (Inr (), s')"
  shows "mset (tracked s') = mset (tracked s) - mset (filter (\<lambda>x. x \<notin> set desired) xs)"
  using assms
proof (induction xs arbitrary: s)
  case (Cons x xs)
  from Cons.prems [unfolded for_each_success_step] obtain s1
    where s1: "(if x \<in> set desired then (Inr (), s) else track_remove x s) = (Inr (), s1)"
      and rest: "for_each (\<lambda>x s. if x \<in> set desired then (Inr (), s) else track_remove x s) xs s1 = (Inr (), s')"
    by blast
  show ?case
  proof (cases "x \<in> set desired")
    case True
    with s1 Cons.IH [OF rest] show ?thesis by simp
  next
    case False
    with s1 have "tracked s1 = remove1 x (tracked s)" by (simp add: remove_untracks)
    with False Cons.IH [OF rest] show ?thesis by simp
  qed
qed simp

lemma reconcile_tracks:
  assumes "for_each track_add desired s = (Inr (), s1)"
    and "for_each (\<lambda>x s. if x \<in> set desired then (Inr (), s) else track_remove x s) (tracked s1) s1 = (Inr (), s2)"
  shows "set (tracked s2) = set desired" and "distinct (tracked s) \<Longrightarrow> distinct (tracked s2)"
proof -
  have part: "mset (tracked s1) = mset (filter (\<lambda>x. x \<in> set desired) (tracked s1))
      + mset (filter (\<lambda>x. x \<notin> set desired) (tracked s1))"
    using multiset_partition [of "mset (tracked s1)" "\<lambda>x. x \<in> set desired"] by simp
  have eq: "mset (tracked s2) = mset (filter (\<lambda>x. x \<in> set desired) (tracked s1))"
    by (simp only: remove_all [OF assms(2)] part add_diff_cancel_right')
  show "set (tracked s2) = set desired"
    using mset_eq_setD [OF eq] add_all(1) [OF assms(1)] by auto
  show "distinct (tracked s) \<Longrightarrow> distinct (tracked s2)"
    using mset_eq_imp_distinct_iff [OF eq] add_all(2) [OF assms(1)] by simp
qed

end

lemma erase_first_eq [simp]: "erase_first (\<lambda>r. r = x) xs = remove1 x xs"
  by (induction xs) auto

lemma list_ex_mem [simp]: "list_ex (\<lambda>r. r = x) xs \<longleftrightarrow> x \<in> set xs" "list_ex (\<lambda>r. x = r) xs \<longleftrightarrow> x \<in> set xs"
  by (auto simp: list_ex_iff)

lemma for_each_quiet_total: "for_each (\<lambda>x s. (Inr (), f x s)) xs s = (Inr (), for_each_quiet f xs s)"
  by (induction xs arbitrary: s) auto

interpretation routes: tracker "route_add ops" "\<lambda>r s. (Inr (), route_remove ops r s)" "\<lambda>s. rt_routes (fst s)"
  for ops
  by unfold_locales
    (auto simp: route_add_def route_remove_def route_is_tracked_def Let_def remove1_idem
      split: prod.splits sum.splits if_splits)

interpretation rules: tracker "rule_add ops" "rule_remove ops" "\<lambda>s. pm_rules (fst s)"
  for ops
  by unfold_locales
    (auto simp: rule_add_def rule_remove_def rule_is_tracked_def Let_def remove1_idem
      split: prod.splits sum.splits if_splits option.splits)

lemma route_reconcile_steps:
  assumes "route_reconcile ops desired s = (Inr (), s2)"
  shows "\<exists>s1. for_each (route_add ops) desired s = (Inr (), s1)
    \<and> for_each (\<lambda>x s. if x \<in> set desired then (Inr (), s) else (Inr (), route_remove ops x s)) (rt_routes (fst s1)) s1
      = (Inr (), s2)"
proof -
  have "(\<lambda>x s. if x \<in> set desired then (Inr () :: unit result, s) else (Inr (), route_remove ops x s)) =
      (\<lambda>x s. (Inr (), if x \<in> set desired then s else route_remove ops x s))"
    by (auto simp: fun_eq_iff)
  with assms show ?thesis
    by (auto simp: route_reconcile_def route_add_missing_def route_remove_obsolete_def for_each_quiet_total
        split: prod.splits sum.splits)
qed

lemma rule_reconcile_steps:
  assumes "rule_reconcile ops desired s = (Inr (), s2)"
  shows "\<exists>s1. for_each (rule_add ops) desired s = (Inr (), s1)
    \<and> for_each (\<lambda>x s. if x \<in> set desired then (Inr (), s) else rule_remove ops x s) (pm_rules (fst s1)) s1 = (Inr (), s2)"
  using assms
  by (auto simp: rule_reconcile_def rule_add_missing_def rule_remove_obsolete_def split: prod.splits sum.splits)

lemma route_reconcile_tracks:
  assumes "route_reconcile ops desired s = (Inr (), s')"
  shows "set (rt_routes (fst s')) = set desired" and "distinct (rt_routes (fst s)) \<Longrightarrow> distinct (rt_routes (fst s'))"
proof -
  obtain s1 where s1: "for_each (route_add ops) desired s = (Inr (), s1)"
    "for_each (\<lambda>x s. if x \<in> set desired then (Inr (), s) else (Inr (), route_remove ops x s)) (rt_routes (fst s1)) s1
      = (Inr (), s')"
    using route_reconcile_steps [OF assms] by blast
  show "set (rt_routes (fst s')) = set desired" by (rule routes.reconcile_tracks(1) [OF s1])
  show "distinct (rt_routes (fst s)) \<Longrightarrow> distinct (rt_routes (fst s'))" by (rule routes.reconcile_tracks(2) [OF s1])
qed

lemma rule_reconcile_tracks:
  assumes "rule_reconcile ops desired s = (Inr (), s')"
  shows "set (pm_rules (fst s')) = set desired" and "distinct (pm_rules (fst s)) \<Longrightarrow> distinct (pm_rules (fst s'))"
proof -
  obtain s1 where s1: "for_each (rule_add ops) desired s = (Inr (), s1)"
    "for_each (\<lambda>x s. if x \<in> set desired then (Inr (), s) else rule_remove ops x s) (pm_rules (fst s1)) s1 = (Inr (), s')"
    using rule_reconcile_steps [OF assms] by blast
  show "set (pm_rules (fst s')) = set desired" by (rule rules.reconcile_tracks(1) [OF s1])
  show "distinct (pm_rules (fst s)) \<Longrightarrow> distinct (pm_rules (fst s'))" by (rule rules.reconcile_tracks(2) [OF s1])
qed

text \<open>C22. A reconciliation of the route table or of the policy rules that returns normally leaves exactly the
  desired entries tracked, whatever was tracked before and whatever the kernel answered; entries tracked once
  stay tracked once.\<close>

theorem reconcile_tracks_desired:
  "(route_reconcile ops droutes (rt, k) = (Inr (), (rt', k')) \<longrightarrow>
      set (rt_routes rt') = set droutes \<and> (distinct (rt_routes rt) \<longrightarrow> distinct (rt_routes rt')))
   \<and> (rule_reconcile ops drules (pm, k) = (Inr (), (pm', k')) \<longrightarrow>
      set (pm_rules pm') = set drules \<and> (distinct (pm_rules pm) \<longrightarrow> distinct (pm_rules pm')))"
  by (auto dest: route_reconcile_tracks rule_reconcile_tracks)

definition sample_route :: "u32 \<Rightarrow> route_spec" where
  "sample_route t = default_route_spec\<lparr>rs_destination := ''default'', rs_table := t, rs_family := AF_INET\<rparr>"

definition sample_rule :: "u32 \<Rightarrow> rule_spec" where
  "sample_rule m = default_rule_spec\<lparr>ru_fwmark := m, ru_table := 100, ru_priority := 1000\<rparr>"

lemmas tracker_eval = route_reconcile_def route_add_missing_def route_remove_obsolete_def route_add_def
  route_remove_def route_is_tracked_def rule_reconcile_def rule_add_missing_def rule_remove_obsolete_def rule_add_def
  rule_remove_def rule_is_tracked_def owned_by_spec_def new_route_table_def new_policy_rules_def sim_ops_def
  kernel_route_def kernel_rule_def dumped_route_from_spec_def route_family_def sample_route_def sample_rule_def
  default_route_spec_def default_rule_spec_def AF_INET_def AF_INET6_def Let_def

theorem reconcile_tracks_desired_witness:
  "\<exists>rt' pm' k1 k2.
     route_reconcile sim_ops [sample_route 100] (new_route_table False, ([], [])) = (Inr (), (rt', k1))
     \<and> set (rt_routes rt') = {sample_route 100}
     \<and> rule_reconcile sim_ops [sample_rule 1] (new_policy_rules False, ([], [])) = (Inr (), (pm', k2))
     \<and> set (pm_rules pm') = {sample_rule 1}"
proof -
  obtain rt' k1 where rt: "route_reconcile sim_ops [sample_route 100] (new_route_table False, ([], [])) = (Inr (), (rt', k1))"
    by (simp add: tracker_eval)
  obtain pm' k2 where pm: "rule_reconcile sim_ops [sample_rule 1] (new_policy_rules False, ([], [])) = (Inr (), (pm', k2))"
    by (simp add: tracker_eval)
  show ?thesis
    using rt pm reconcile_tracks_desired [of sim_ops "[sample_route 100]" "new_route_table False" "([], [])" rt' k1
        "[]" "new_policy_rules False"]
      reconcile_tracks_desired [of sim_ops "[]" "new_route_table False" "([], [])" rt' k2
        "[sample_rule 1]" "new_policy_rules False" pm']
    by auto
qed

section \<open>Entries that were there before\<close>

datatype rt_call =
    RtAdd route_spec | RtRemove route_spec | RtReconcile "route_spec list" | RtAddMissing "route_spec list"
  | RtRemoveObsolete "route_spec list" | RtAdopt "route_spec list" | RtClear

fun rt_step :: "'k netlink_ops \<Rightarrow> route_table \<times> 'k \<Rightarrow> rt_call \<Rightarrow> route_table \<times> 'k" where
  "rt_step ops s (RtAdd r) = snd (route_add ops r s)"
| "rt_step ops s (RtRemove r) = route_remove ops r s"
| "rt_step ops s (RtReconcile d) = snd (route_reconcile ops d s)"
| "rt_step ops s (RtAddMissing d) = snd (route_add_missing ops d s)"
| "rt_step ops s (RtRemoveObsolete d) = route_remove_obsolete ops d s"
| "rt_step ops s (RtAdopt d) = (route_adopt_desired d (fst s), snd s)"
| "rt_step ops s RtClear = route_clear ops s"

datatype pm_call =
    PmAdd rule_spec | PmRemove rule_spec | PmReconcile "rule_spec list" | PmAddMissing "rule_spec list"
  | PmRemoveObsolete "rule_spec list" | PmAdopt "rule_spec list" | PmClear

fun pm_step :: "'k netlink_ops \<Rightarrow> policy_rules \<times> 'k \<Rightarrow> pm_call \<Rightarrow> policy_rules \<times> 'k" where
  "pm_step ops s (PmAdd r) = snd (rule_add ops r s)"
| "pm_step ops s (PmRemove r) = snd (rule_remove ops r s)"
| "pm_step ops s (PmReconcile d) = snd (rule_reconcile ops d s)"
| "pm_step ops s (PmAddMissing d) = snd (rule_add_missing ops d s)"
| "pm_step ops s (PmRemoveObsolete d) = snd (rule_remove_obsolete ops d s)"
| "pm_step ops s (PmAdopt d) = (rule_adopt_desired d (fst s), snd s)"
| "pm_step ops s PmClear = rule_clear ops s"

text \<open>\<open>pre\<close> is still installed and none of it is marked as owned.\<close>

definition keeps_routes :: "dumped_route set \<Rightarrow> ('k \<Rightarrow> dumped_route set) \<Rightarrow> route_table \<times> 'k \<Rightarrow> bool" where
  "keeps_routes pre R s \<longleftrightarrow>
     pre \<subseteq> R (snd s) \<and> (\<not> rt_dry_run (fst s) \<longrightarrow> (\<forall>r \<in> set (rt_owned (fst s)). kernel_route r \<notin> pre))"

definition rule_entry :: "rule_spec \<Rightarrow> dumped_rule" where
  "rule_entry r = kernel_rule r (ru_family r)"

definition keeps_rules :: "dumped_rule set \<Rightarrow> ('k \<Rightarrow> dumped_rule set) \<Rightarrow> policy_rules \<times> 'k \<Rightarrow> bool" where
  "keeps_rules pre Q s \<longleftrightarrow> pre \<subseteq> Q (snd s) \<and> (\<forall>r \<in> set (pm_owned (fst s)). rule_entry r \<notin> pre)"

lemma op_add_route_cases:
  assumes "route_kernel ops R" and "op_add_route ops r k = (res, k')"
  shows "res = Inr Created \<and> kernel_route r \<notin> R k \<and> R k' = insert (kernel_route r) (R k)
    \<or> res \<noteq> Inr Created \<and> R k' = R k"
proof -
  have "case op_add_route ops r k of (Inr Created, k') \<Rightarrow> kernel_route r \<notin> R k \<and> R k' = insert (kernel_route r) (R k)
      | (_, k') \<Rightarrow> R k' = R k"
    using assms(1) by (simp add: route_kernel_def)
  with assms(2) show ?thesis by (auto split: sum.splits add_result.splits)
qed

lemma op_delete_route_cases:
  assumes "route_kernel ops R"
  shows "R (snd (op_delete_route ops r k)) = R k - {kernel_route r} \<or> R (snd (op_delete_route ops r k)) = R k"
proof -
  have "case op_delete_route ops r k of (Inr u, k') \<Rightarrow> R k' = R k - {kernel_route r} | (Inl e, k') \<Rightarrow> R k' = R k"
    using assms by (simp add: route_kernel_def)
  then show ?thesis by (cases "op_delete_route ops r k") (auto split: sum.splits)
qed

lemma route_add_keeps:
  assumes "route_kernel ops R" and "keeps_routes pre R s"
  shows "keeps_routes pre R (snd (route_add ops r s))"
proof (cases "op_add_route ops r (snd s)")
  case (Pair res k')
  from op_add_route_cases [OF assms(1) Pair] assms(2) Pair show ?thesis
    by (cases s; cases res) (auto simp: keeps_routes_def route_add_def)
qed

lemma route_remove_keeps:
  assumes "route_kernel ops R" and "keeps_routes pre R s"
  shows "keeps_routes pre R (route_remove ops r s)"
  using op_delete_route_cases [OF assms(1), of r "snd s"] assms(2)
  by (cases s) (auto simp: keeps_routes_def route_remove_def Let_def dest!: set_remove1_subset [THEN subsetD])

lemma delete_routes_keep:
  assumes "route_kernel ops R" and "pre \<subseteq> R k" and "\<forall>r \<in> set rs. kernel_route r \<notin> pre"
  shows "pre \<subseteq> R (for_each_quiet (\<lambda>r k. snd (op_delete_route ops r k)) rs k)"
proof (rule for_each_quiet_invariant [where P = "\<lambda>k. pre \<subseteq> R k"])
  fix k r
  assume "pre \<subseteq> R k" "r \<in> set rs"
  then show "pre \<subseteq> R (snd (op_delete_route ops r k))"
    using op_delete_route_cases [OF assms(1), of r k] assms(3) by auto
qed (rule assms(2))

lemma route_add_missing_keeps:
  assumes "route_kernel ops R" and "keeps_routes pre R s"
  shows "keeps_routes pre R (snd (route_add_missing ops d s))"
  unfolding route_add_missing_def
proof (rule for_each_invariant [where P = "keeps_routes pre R"])
  fix s x r s'
  assume "keeps_routes pre R s" "route_add ops x s = (r, s')"
  then show "keeps_routes pre R s'" using route_add_keeps [OF assms(1), of pre s x] by simp
qed (rule assms(2))

lemma route_remove_obsolete_keeps:
  assumes "route_kernel ops R" and "keeps_routes pre R s"
  shows "keeps_routes pre R (route_remove_obsolete ops d s)"
  unfolding route_remove_obsolete_def
  by (rule for_each_quiet_invariant [where P = "keeps_routes pre R"])
    (simp_all add: assms route_remove_keeps)

lemma rt_step_keeps:
  assumes "route_kernel ops R" and "keeps_routes pre R s"
  shows "keeps_routes pre R (rt_step ops s c)"
proof (cases c)
  case (RtReconcile d)
  obtain res s1 where add: "route_add_missing ops d s = (res, s1)" by (cases "route_add_missing ops d s")
  have "keeps_routes pre R s1" using route_add_missing_keeps [OF assms, of d] add by simp
  then show ?thesis
    using RtReconcile add route_remove_obsolete_keeps [OF assms(1), of pre s1 d]
    by (cases res) (simp_all add: route_reconcile_def)
next
  case RtClear
  then show ?thesis
    using assms delete_routes_keep [OF assms(1), of pre "snd s" "rev (rt_owned (fst s))"]
    by (cases s) (auto simp: keeps_routes_def route_clear_def)
next
  case (RtAdopt d)
  then show ?thesis using assms(2) by (simp add: keeps_routes_def route_adopt_desired_def)
qed (simp_all add: route_add_keeps [OF assms] route_remove_keeps [OF assms] route_add_missing_keeps [OF assms]
  route_remove_obsolete_keeps [OF assms])

text \<open>The same for the rules.\<close>

lemma op_add_rule_cases:
  assumes "rule_kernel ops Q" and "op_add_rule ops r f k = (res, k')"
  shows "res = Inr Created \<and> kernel_rule r f \<notin> Q k \<and> Q k' = insert (kernel_rule r f) (Q k)
    \<or> res = Inr AlreadyPresent \<and> kernel_rule r f \<in> Q k \<and> Q k' = Q k
    \<or> (\<exists>e. res = Inl e) \<and> Q k' = Q k"
proof -
  have "case op_add_rule ops r f k of
      (Inr Created, k') \<Rightarrow> kernel_rule r f \<notin> Q k \<and> Q k' = insert (kernel_rule r f) (Q k)
    | (Inr AlreadyPresent, k') \<Rightarrow> kernel_rule r f \<in> Q k \<and> Q k' = Q k
    | (Inl e, k') \<Rightarrow> Q k' = Q k"
    using assms(1) by (simp add: rule_kernel_def)
  with assms(2) show ?thesis by (auto split: sum.splits add_result.splits)
qed

lemma op_delete_rule_cases:
  assumes "rule_kernel ops Q" and "op_delete_rule ops r f k = (res, k')"
  shows "res = Inr () \<and> Q k' = Q k - {kernel_rule r f} \<or> (\<exists>e. res = Inl e) \<and> Q k' = Q k"
proof -
  have "case op_delete_rule ops r f k of (Inr u, k') \<Rightarrow> Q k' = Q k - {kernel_rule r f} | (Inl e, k') \<Rightarrow> Q k' = Q k"
    using assms(1) by (simp add: rule_kernel_def)
  with assms(2) show ?thesis by (auto split: sum.splits)
qed

lemma kernel_rule_concrete [simp]: "rule_entry (r\<lparr>ru_family := f\<rparr>) = kernel_rule r f"
  by (simp add: rule_entry_def kernel_rule_def)

text \<open>What the family loop has done when it ends: exactly the returned rules are new in the kernel.\<close>

lemma add_families_kernel:
  assumes "rule_kernel ops Q" and "add_families ops spec fs owned k = ((err, owned'), k')"
  shows "\<exists>new. owned' = owned @ new \<and> Q k' = Q k \<union> rule_entry ` set new \<and> rule_entry ` set new \<inter> Q k = {}"
  using assms(2)
proof (induction fs arbitrary: owned k)
  case Nil
  then show ?case by auto
next
  case (Cons f fs)
  obtain res k1 where add: "op_add_rule ops spec f k = (res, k1)" by (cases "op_add_rule ops spec f k")
  consider (created) "res = Inr Created" "kernel_rule spec f \<notin> Q k" "Q k1 = insert (kernel_rule spec f) (Q k)"
    | (present) "res = Inr AlreadyPresent" "Q k1 = Q k" | (failed) e where "res = Inl e" "Q k1 = Q k"
    using op_add_rule_cases [OF assms(1) add] by blast
  then show ?case
  proof cases
    case created
    let ?r = "spec\<lparr>ru_family := f\<rparr>"
    from Cons.prems add created(1) have "add_families ops spec fs (owned @ [?r]) k1 = ((err, owned'), k')" by simp
    from Cons.IH [OF this] obtain new where
      new: "owned' = (owned @ [?r]) @ new" "Q k' = Q k1 \<union> rule_entry ` set new" "rule_entry ` set new \<inter> Q k1 = {}"
      by blast
    have "owned' = owned @ (?r # new)" using new(1) by simp
    moreover have "Q k' = Q k \<union> rule_entry ` set (?r # new)" using new(2) created(3) by simp
    moreover have "rule_entry ` set (?r # new) \<inter> Q k = {}" using new(3) created(2,3) by auto
    ultimately show ?thesis by blast
  next
    case present
    from Cons.prems add present(1) have "add_families ops spec fs owned k1 = ((err, owned'), k')" by simp
    from Cons.IH [OF this] present(2) show ?thesis by simp
  next
    case failed
    from Cons.prems add failed show ?thesis by simp
  qed
qed

lemma delete_rules_keep:
  assumes "rule_kernel ops Q" and "pre \<subseteq> Q k" and "\<forall>r \<in> set rs. rule_entry r \<notin> pre"
  shows "pre \<subseteq> Q (for_each_quiet (delete_quietly ops) rs k)"
proof (rule for_each_quiet_invariant [where P = "\<lambda>k. pre \<subseteq> Q k"])
  fix k r
  assume k: "pre \<subseteq> Q k" "r \<in> set rs"
  obtain res k1 where d: "op_delete_rule ops r (ru_family r) k = (res, k1)" by (cases "op_delete_rule ops r (ru_family r) k")
  from op_delete_rule_cases [OF assms(1) d] k assms(3) d
  show "pre \<subseteq> Q (delete_quietly ops r k)" by (auto simp: delete_quietly_def rule_entry_def)
qed (rule assms(2))

lemma rule_add_keeps:
  assumes "rule_kernel ops Q" and "keeps_rules pre Q s"
  shows "keeps_rules pre Q (snd (rule_add ops r s))"
proof -
  obtain pm k where s: "s = (pm, k)" by (cases s)
  let ?fs = "if ru_family r \<noteq> 0 then [ru_family r] else [AF_INET, AF_INET6]"
  obtain err owned k' where loop: "add_families ops r ?fs [] k = ((err, owned), k')"
    by (metis prod.exhaust)
  from add_families_kernel [OF assms(1) loop] have Q: "Q k' = Q k \<union> rule_entry ` set owned"
    "rule_entry ` set owned \<inter> Q k = {}" by auto
  have pre: "pre \<subseteq> Q k" using assms(2) s by (simp add: keeps_rules_def)
  then have fresh: "\<forall>r \<in> set owned. rule_entry r \<notin> pre" "pre \<subseteq> Q k'" using Q by auto
  have roll: "pre \<subseteq> Q (for_each_quiet (delete_quietly ops) (rev owned) k')"
    by (rule delete_rules_keep [OF assms(1) fresh(2)]) (use fresh in auto)
  show ?thesis
    using assms(2) loop roll fresh
    by (cases err) (auto simp: s keeps_rules_def rule_add_def)
qed

lemma delete_owned_keeps:
  assumes "rule_kernel ops Q" and "delete_owned ops spec kept rs k = ((err, owned), k')"
    and "pre \<subseteq> Q k" and "\<forall>r \<in> set kept \<union> set rs. rule_entry r \<notin> pre"
  shows "pre \<subseteq> Q k' \<and> (\<forall>r \<in> set owned. rule_entry r \<notin> pre)"
  using assms(2-)
proof (induction rs arbitrary: kept k)
  case (Cons r rs)
  obtain res k1 where d: "op_delete_rule ops r (ru_family r) k = (res, k1)" by (cases "op_delete_rule ops r (ru_family r) k")
  have k1: "pre \<subseteq> Q k1"
    using op_delete_rule_cases [OF assms(1) d] Cons.prems by (auto simp: rule_entry_def)
  show ?case
  proof (cases "owned_by_spec spec r")
    case True
    show ?thesis
    proof (cases res)
      case (Inl e)
      with True d Cons.prems(1) have "owned = kept @ r # rs" "k' = k1" by auto
      with k1 Cons.prems(3) show ?thesis by simp
    next
      case (Inr u)
      with True d Cons.prems(1) have "delete_owned ops spec kept rs k1 = ((err, owned), k')" by simp
      from Cons.IH [OF this k1] Cons.prems(3) show ?thesis by simp
    qed
  next
    case False
    with Cons.prems(1) have "delete_owned ops spec (kept @ [r]) rs k = ((err, owned), k')" by simp
    from Cons.IH [OF this Cons.prems(2)] Cons.prems(3) show ?thesis by simp
  qed
qed simp

lemma rule_remove_keeps:
  assumes "rule_kernel ops Q" and "keeps_rules pre Q s"
  shows "keeps_rules pre Q (snd (rule_remove ops r s))"
proof -
  obtain pm k where s: "s = (pm, k)" by (cases s)
  obtain err owned k' where loop: "delete_owned ops r [] (pm_owned pm) k = ((err, owned), k')"
    by (metis prod.exhaust)
  from delete_owned_keeps [OF assms(1) loop, of pre] assms(2) s
  have "pre \<subseteq> Q k'" "\<forall>r \<in> set owned. rule_entry r \<notin> pre" by (auto simp: keeps_rules_def)
  with assms(2) loop show ?thesis by (cases err) (auto simp: s keeps_rules_def rule_remove_def)
qed

lemma rule_add_missing_keeps:
  assumes "rule_kernel ops Q" and "keeps_rules pre Q s"
  shows "keeps_rules pre Q (snd (rule_add_missing ops d s))"
  unfolding rule_add_missing_def
proof (rule for_each_invariant [where P = "keeps_rules pre Q"])
  fix s x r s'
  assume "keeps_rules pre Q s" "rule_add ops x s = (r, s')"
  then show "keeps_rules pre Q s'" using rule_add_keeps [OF assms(1), of pre s x] by simp
qed (rule assms(2))

lemma rule_remove_obsolete_keeps:
  assumes "rule_kernel ops Q" and "keeps_rules pre Q s"
  shows "keeps_rules pre Q (snd (rule_remove_obsolete ops d s))"
  unfolding rule_remove_obsolete_def
proof (rule for_each_invariant [where P = "keeps_rules pre Q"])
  fix s x r s'
  assume "keeps_rules pre Q s"
    "(if list_ex (\<lambda>c. rules_equal x c) d then (Inr (), s) else rule_remove ops x s) = (r, s')"
  then show "keeps_rules pre Q s'" using rule_remove_keeps [OF assms(1), of pre s x] by (auto split: if_splits)
qed (rule assms(2))

lemma pm_step_keeps:
  assumes "rule_kernel ops Q" and "keeps_rules pre Q s"
  shows "keeps_rules pre Q (pm_step ops s c)"
proof (cases c)
  case (PmReconcile d)
  obtain res s1 where add: "rule_add_missing ops d s = (res, s1)" by (cases "rule_add_missing ops d s")
  have "keeps_rules pre Q s1" using rule_add_missing_keeps [OF assms, of d] add by simp
  then show ?thesis
    using PmReconcile add rule_remove_obsolete_keeps [OF assms(1), of pre s1 d]
    by (cases res) (simp_all add: rule_reconcile_def)
next
  case PmClear
  then show ?thesis
    using assms delete_rules_keep [OF assms(1), of pre "snd s" "rev (pm_owned (fst s))"]
    by (cases s) (auto simp: keeps_rules_def rule_clear_def)
next
  case (PmAdopt d)
  then show ?thesis using assms(2) by (simp add: keeps_rules_def rule_adopt_desired_def)
qed (simp_all add: rule_add_keeps [OF assms] rule_remove_keeps [OF assms] rule_add_missing_keeps [OF assms]
  rule_remove_obsolete_keeps [OF assms])

text \<open>C6. No sequence of calls of the route table or of the policy rule manager, errors of the kernel and rollbacks
  included, ever removes a route or a rule that was installed before the manager was created: only entries it
  created itself are deleted.\<close>

theorem preexisting_entries_kept:
  assumes "route_kernel ops R" and "rule_kernel ops Q"
  shows "R k \<subseteq> R (snd (foldl (rt_step ops) (new_route_table dry, k) rcalls))
    \<and> Q k \<subseteq> Q (snd (foldl (pm_step ops) (new_policy_rules dry, k) pcalls))"
proof
  have "keeps_routes (R k) R (foldl (rt_step ops) s rcalls)" if "keeps_routes (R k) R s" for s
    using that by (induction rcalls arbitrary: s) (simp_all add: rt_step_keeps [OF assms(1)])
  then show "R k \<subseteq> R (snd (foldl (rt_step ops) (new_route_table dry, k) rcalls))"
    by (simp add: keeps_routes_def new_route_table_def)
  have "keeps_rules (Q k) Q (foldl (pm_step ops) s pcalls)" if "keeps_rules (Q k) Q s" for s
    using that by (induction pcalls arbitrary: s) (simp_all add: pm_step_keeps [OF assms(2)])
  then show "Q k \<subseteq> Q (snd (foldl (pm_step ops) (new_policy_rules dry, k) pcalls))"
    by (simp add: keeps_rules_def new_policy_rules_def)
qed

theorem preexisting_entries_kept_witness:
  "kernel_route (sample_route 100) \<in> set (fst (snd (foldl (rt_step sim_ops)
      (new_route_table False, ([kernel_route (sample_route 100)], [])) [RtAdd (sample_route 100), RtClear])))
   \<and> kernel_rule (sample_rule 1) 2 \<in> set (snd (snd (foldl (pm_step sim_ops)
      (new_policy_rules False, ([], [kernel_rule (sample_rule 1) 2])) [PmAdd (sample_rule 1), PmRemove (sample_rule 1)])))"
  using preexisting_entries_kept [OF sim_route_kernel sim_rule_kernel,
      of "([kernel_route (sample_route 100)], [])" False "[RtAdd (sample_route 100), RtClear]" "[]"]
    preexisting_entries_kept [OF sim_route_kernel sim_rule_kernel,
      of "([], [kernel_rule (sample_rule 1) 2])" False "[]" "[PmAdd (sample_rule 1), PmRemove (sample_rule 1)]"]
  by auto

section \<open>Rollback of a half-added rule\<close>

definition deletes_present :: "'k netlink_ops \<Rightarrow> ('k \<Rightarrow> dumped_rule set) \<Rightarrow> bool" where
  "deletes_present ops Q \<longleftrightarrow>
     (\<forall>r f k. kernel_rule r f \<in> Q k \<longrightarrow> (\<exists>k'. op_delete_rule ops r f k = (Inr (), k')))"

lemma delete_quietly_all:
  assumes "rule_kernel ops Q" and "deletes_present ops Q"
  shows "Q (for_each_quiet (delete_quietly ops) rs k) = Q k - rule_entry ` set rs"
proof (induction rs arbitrary: k)
  case (Cons r rs)
  obtain res k1 where d: "op_delete_rule ops r (ru_family r) k = (res, k1)" by (cases "op_delete_rule ops r (ru_family r) k")
  have "rule_entry r \<in> Q k \<Longrightarrow> res = Inr ()"
    using assms(2) d unfolding deletes_present_def rule_entry_def by fastforce
  with op_delete_rule_cases [OF assms(1) d] have "Q k1 = Q k - {rule_entry r}" by (auto simp: rule_entry_def)
  with d Cons.IH [of k1] show ?case by (auto simp: delete_quietly_def)
qed simp

lemma rule_add_failure:
  assumes "rule_kernel ops Q" and "deletes_present ops Q" and "rule_add ops spec (pm, k) = (Inl e, (pm', k'))"
  shows "pm' = pm \<and> Q k' = Q k"
proof -
  let ?fs = "if ru_family spec \<noteq> 0 then [ru_family spec] else [AF_INET, AF_INET6]"
  obtain err owned k1 where loop: "add_families ops spec ?fs [] k = ((err, owned), k1)"
    by (metis prod.exhaust)
  from add_families_kernel [OF assms(1) loop] have Q: "Q k1 = Q k \<union> rule_entry ` set owned"
    "rule_entry ` set owned \<inter> Q k = {}" by auto
  from assms(3) loop have "pm' = pm" and k': "k' = for_each_quiet (delete_quietly ops) (rev owned) k1"
    by (auto simp: rule_add_def Let_def split: if_splits option.splits)
  moreover have "Q k' = Q k" using delete_quietly_all [OF assms(1,2), of "rev owned" k1] Q k' by auto
  ultimately show ?thesis by simp
qed

text \<open>Adding a policy rule is all or nothing: if the kernel refuses one of the address families, the rules
  already added for the other family are taken back, the exception is passed on, and neither the tracked state
  nor the kernel's rules have changed.\<close>

theorem rule_add_atomic:
  assumes "rule_kernel ops Q" and "deletes_present ops Q" and "rule_add ops spec (pm, k) = (Inl e, (pm', k'))"
  shows "pm' = pm \<and> Q k' = Q k"
  using assms by (rule rule_add_failure)

text \<open>A kernel without IPv6 rules.\<close>

definition ipv4_only_ops :: "sim_kernel netlink_ops" where
  "ipv4_only_ops = sim_ops\<lparr>op_add_rule := (\<lambda>r f k. if f = AF_INET6 then (Inl (NetlinkError ''unsupported''), k)
     else op_add_rule sim_ops r f k)\<rparr>"

theorem rule_add_atomic_witness:
  "\<exists>e pm' k'. rule_add ipv4_only_ops (sample_rule 1) (new_policy_rules False, ([], [])) = (Inl e, (pm', k'))
     \<and> pm' = new_policy_rules False \<and> set (snd k') = {}"
proof -
  have "rule_kernel ipv4_only_ops (set \<circ> snd)" "deletes_present ipv4_only_ops (set \<circ> snd)"
    by (auto simp: rule_kernel_def deletes_present_def ipv4_only_ops_def sim_ops_def)
  moreover have "\<exists>e pm' k'. rule_add ipv4_only_ops (sample_rule 1) (new_policy_rules False, ([], [])) = (Inl e, (pm', k'))"
    by (simp add: tracker_eval ipv4_only_ops_def delete_quietly_def)
  ultimately show ?thesis
    using rule_add_atomic [of ipv4_only_ops "set \<circ> snd" "sample_rule 1" "new_policy_rules False" "([], [])"] by fastforce
qed

end
