(* ===== verification/Routing_Reconciler.thy ===== *)
theory Routing_Reconciler
  imports Netlink
begin

text \<open>
  The reconciler that compares the desired routes and policy rules with dumps of the kernel
  (\<^verbatim>\<open>src/routing/routing_reconciler.cpp\<close>). Routes are owned by their protocol number, rules by a
  mark and mask of the configuration.
\<close>

section \<open>Comparison\<close>

definition same_route :: "route_spec \<Rightarrow> dumped_route \<Rightarrow> bool \<Rightarrow> bool" where
  "same_route expected actual include_protocol \<longleftrightarrow>
     rs_destination expected = dmp_destination actual \<and> rs_table expected = dmp_table actual
     \<and> rs_interface expected = dmp_interface actual \<and> rs_gateway expected = dmp_gateway actual
     \<and> rs_blackhole expected = dmp_blackhole actual \<and> rs_unreachable expected = dmp_unreachable actual
     \<and> route_family expected = dmp_family actual \<and> rs_metric expected = dmp_metric actual
     \<and> (\<not> include_protocol \<or> rs_protocol expected = dmp_protocol actual)"

definition same_route_lookup_key :: "route_spec \<Rightarrow> dumped_route \<Rightarrow> bool" where
  "same_route_lookup_key expected actual \<longleftrightarrow>
     rs_destination expected = dmp_destination actual \<and> rs_table expected = dmp_table actual
     \<and> route_family expected = dmp_family actual"

definition same_rule :: "rule_spec \<Rightarrow> dumped_rule \<Rightarrow> bool" where
  "same_rule expected actual \<longleftrightarrow>
     ru_fwmark expected = dmr_fwmark actual \<and> ru_fwmask expected = dmr_fwmask actual
     \<and> ru_table expected = dmr_table actual \<and> ru_priority expected = dmr_priority actual
     \<and> ru_action expected = dmr_action actual
     \<and> (ru_family expected = 0 \<or> ru_family expected = dmr_family actual)"

definition rule_namespace_owned :: "dumped_rule \<Rightarrow> rule_spec list \<Rightarrow> bool" where
  "rule_namespace_owned actual desired =
     list_ex (\<lambda>expected. ru_fwmark expected \<noteq> 0 \<and> ru_fwmask expected \<noteq> 0
       \<and> ru_fwmark expected = dmr_fwmark actual \<and> ru_fwmask expected = dmr_fwmask actual) desired"

definition route_wanted :: "route_spec list \<Rightarrow> dumped_route \<Rightarrow> bool" where
  "route_wanted desired actual = list_ex (\<lambda>d. same_route d actual True) desired"

definition route_present :: "dumped_route list \<Rightarrow> route_spec \<Rightarrow> bool" where
  "route_present actual d = list_ex (\<lambda>a. same_route d a True) actual"

section \<open>Phases\<close>

fun dump_tables :: "'k netlink_ops \<Rightarrow> u32 list \<Rightarrow> dumped_route list \<Rightarrow> ('k, dumped_route list) eff" where
  "dump_tables ops [] acc k = (Inr acc, k)"
| "dump_tables ops (t # ts) acc k =
     (case op_dump_routes ops t k of (Inl e, k') \<Rightarrow> (Inl e, k') | (Inr rs, k') \<Rightarrow> dump_tables ops ts (acc @ rs) k')"

text \<open>The inner loop of the conflict check; \<^const>\<open>True\<close> is the throw.\<close>

fun foreign_conflict :: "route_spec \<Rightarrow> dumped_route list \<Rightarrow> bool" where
  "foreign_conflict desired [] = False"
| "foreign_conflict desired (actual # rest) =
     (if same_route desired actual True then False
      else if dmp_protocol actual \<noteq> generated_route_protocol \<and> same_route desired actual False then True
      else foreign_conflict desired rest)"

definition conflict_error :: "route_spec \<Rightarrow> cpp_error" where
  "conflict_error desired =
     NetlinkError (''Foreign route conflicts with desired route in table '' @ nat_to_string (unat (rs_table desired))
       @ ''; choose a different table_start'')"

text \<open>Deleting the generated fallbacks that share the lookup key of a route about to be added. The state is the
  list of routes kept so far.\<close>

fun replace_fallbacks ::
  "'k netlink_ops \<Rightarrow> route_spec list \<Rightarrow> route_spec \<Rightarrow> dumped_route list \<Rightarrow> dumped_route list
     \<Rightarrow> ('k, dumped_route list) eff" where
  "replace_fallbacks ops all desired kept [] k = (Inr kept, k)"
| "replace_fallbacks ops all desired kept (a # rest) k =
     (if dmp_protocol a = generated_route_protocol \<and> \<not> route_wanted all a \<and> same_route_lookup_key desired a
      then (case op_delete_route ops (route_spec_from_dump a) k of
              (Inl e, k') \<Rightarrow> (Inl e, k')
            | (Inr u, k') \<Rightarrow> replace_fallbacks ops all desired kept rest k')
      else replace_fallbacks ops all desired (kept @ [a]) rest k)"

definition install_route ::
  "'k netlink_ops \<Rightarrow> route_spec list \<Rightarrow> dumped_route list \<Rightarrow> route_spec \<Rightarrow> ('k, dumped_route list) eff" where
  "install_route ops all actual desired k =
     (if route_present actual desired then (Inr actual, k)
      else (case replace_fallbacks ops all desired [] actual k of
              (Inl e, k1) \<Rightarrow> (Inl e, k1)
            | (Inr actual1, k1) \<Rightarrow>
                (case op_add_route ops desired k1 of
                   (Inl e, k2) \<Rightarrow> (Inl e, k2)
                 | (Inr Created, k2) \<Rightarrow> (Inr (actual1 @ [dumped_route_from_spec desired]), k2)
                 | (Inr AlreadyPresent, k2) \<Rightarrow>
                     (case op_dump_routes ops (rs_table desired) k2 of
                        (Inl e, k3) \<Rightarrow> (Inl e, k3)
                      | (Inr refreshed, k3) \<Rightarrow>
                          (if route_present refreshed desired then (Inr actual1, k3)
                           else (Inl (NetlinkError (''kernel reported route already present but desired route is absent in table ''
                                   @ nat_to_string (unat (rs_table desired)))), k3))))))"

fun install_routes ::
  "'k netlink_ops \<Rightarrow> route_spec list \<Rightarrow> route_spec list \<Rightarrow> dumped_route list \<Rightarrow> ('k, dumped_route list) eff" where
  "install_routes ops all [] actual k = (Inr actual, k)"
| "install_routes ops all (d # ds) actual k =
     (case install_route ops all actual d k of
        (Inl e, k') \<Rightarrow> (Inl e, k')
      | (Inr actual', k') \<Rightarrow> install_routes ops all ds actual' k')"

definition prune_route :: "'k netlink_ops \<Rightarrow> route_spec list \<Rightarrow> dumped_route \<Rightarrow> ('k, unit) eff" where
  "prune_route ops desired actual k =
     (if dmp_protocol actual \<noteq> generated_route_protocol then (Inr (), k)
      else if \<not> route_wanted desired actual then op_delete_route ops (route_spec_from_dump actual) k
      else (Inr (), k))"

definition install_rule_family ::
  "'k netlink_ops \<Rightarrow> dumped_rule list \<Rightarrow> rule_spec \<times> int \<Rightarrow> ('k, unit) eff" where
  "install_rule_family ops actual df k =
     (case df of (desired, family) \<Rightarrow>
        (if ru_family desired \<noteq> 0 \<and> ru_family desired \<noteq> family then (Inr (), k)
         else if list_ex (\<lambda>a. same_rule desired a \<and> dmr_family a = family) actual then (Inr (), k)
         else (case op_add_rule ops desired family k of
                 (Inl e, k') \<Rightarrow> (Inl e, k') | (Inr r, k') \<Rightarrow> (Inr (), k'))))"

definition stale_rule :: "dumped_rule \<Rightarrow> rule_spec" where
  "stale_rule a = \<lparr>ru_fwmark = dmr_fwmark a, ru_fwmask = dmr_fwmask a, ru_table = dmr_table a,
     ru_priority = dmr_priority a, ru_family = dmr_family a, ru_action = dmr_action a\<rparr>"

definition prune_rule :: "'k netlink_ops \<Rightarrow> rule_spec list \<Rightarrow> dumped_rule \<Rightarrow> ('k, unit) eff" where
  "prune_rule ops desired actual k =
     (if \<not> rule_namespace_owned actual desired then (Inr (), k)
      else if \<not> list_ex (\<lambda>d. same_rule d actual) desired
      then op_delete_rule ops (stale_rule actual) (dmr_family actual) k
      else (Inr (), k))"

definition reconcile_routes :: "'k netlink_ops \<Rightarrow> route_spec list \<Rightarrow> ('k, unit) eff" where
  "reconcile_routes ops desired k =
     (case dump_tables ops (sort (remdups (map rs_table desired))) [] k of
        (Inl e, k1) \<Rightarrow> (Inl e, k1)
      | (Inr actual, k1) \<Rightarrow>
          (case find (\<lambda>d. foreign_conflict d actual) desired of
             Some d \<Rightarrow> (Inl (conflict_error d), k1)
           | None \<Rightarrow>
               (case install_routes ops desired desired actual k1 of
                  (Inl e, k2) \<Rightarrow> (Inl e, k2)
                | (Inr actual', k2) \<Rightarrow> for_each (prune_route ops desired) actual' k2)))"

definition reconcile_rules :: "'k netlink_ops \<Rightarrow> rule_spec list \<Rightarrow> ('k, unit) eff" where
  "reconcile_rules ops desired k =
     (case op_dump_rules ops k of
        (Inl e, k1) \<Rightarrow> (Inl e, k1)
      | (Inr actual, k1) \<Rightarrow>
          (case for_each (install_rule_family ops actual)
                  (concat (map (\<lambda>d. [(d, AF_INET), (d, AF_INET6)]) desired)) k1 of
             (Inl e, k2) \<Rightarrow> (Inl e, k2)
           | (Inr u, k2) \<Rightarrow> for_each (prune_rule ops desired) actual k2))"

definition reconcile :: "'k netlink_ops \<Rightarrow> route_spec list \<Rightarrow> rule_spec list \<Rightarrow> ('k, unit) eff" where
  "reconcile ops desired_routes desired_rules k =
     (case reconcile_routes ops desired_routes k of
        (Inl e, k') \<Rightarrow> (Inl e, k')
      | (Inr u, k') \<Rightarrow> reconcile_rules ops desired_rules k')"

section \<open>Kernels that can be inspected\<close>

text \<open>Beyond the contract of the single operations: operations on routes leave the rules alone and conversely,
  and a dump lists exactly what is installed.\<close>

definition inspectable_kernel ::
  "'k netlink_ops \<Rightarrow> ('k \<Rightarrow> dumped_route set) \<Rightarrow> ('k \<Rightarrow> dumped_rule set) \<Rightarrow> bool" where
  "inspectable_kernel ops R Q \<longleftrightarrow>
     route_kernel ops R \<and> rule_kernel ops Q
     \<and> (\<forall>r k. Q (snd (op_add_route ops r k)) = Q k \<and> Q (snd (op_delete_route ops r k)) = Q k)
     \<and> (\<forall>r f k. R (snd (op_add_rule ops r f k)) = R k \<and> R (snd (op_delete_rule ops r f k)) = R k)
     \<and> (\<forall>t k. R (snd (op_dump_routes ops t k)) = R k \<and> Q (snd (op_dump_routes ops t k)) = Q k
          \<and> (case fst (op_dump_routes ops t k) of Inl e \<Rightarrow> True | Inr rs \<Rightarrow> set rs = {r \<in> R k. dmp_table r = t}))
     \<and> (\<forall>k. R (snd (op_dump_rules ops k)) = R k \<and> Q (snd (op_dump_rules ops k)) = Q k
          \<and> (case fst (op_dump_rules ops k) of Inl e \<Rightarrow> True | Inr qs \<Rightarrow> set qs = Q k))"

lemma sim_inspectable: "inspectable_kernel sim_ops (set \<circ> fst) (set \<circ> snd)"
  using sim_route_kernel sim_rule_kernel
  by (auto simp: inspectable_kernel_def sim_ops_def)

text \<open>What the generator of desired routes guarantees.\<close>

definition generated_route :: "route_spec \<Rightarrow> bool" where
  "generated_route d \<longleftrightarrow> rs_family d \<noteq> 0 \<and> rs_protocol d = generated_route_protocol"

lemma same_route_iff [simp]: "same_route d a True \<longleftrightarrow> a = kernel_route d"
  by (cases a) (auto simp: same_route_def kernel_route_def dumped_route_from_spec_def)

lemma route_wanted_iff [simp]: "route_wanted desired a \<longleftrightarrow> a \<in> kernel_route ` set desired"
  by (auto simp: route_wanted_def list_ex_iff)

lemma route_present_iff [simp]: "route_present actual d \<longleftrightarrow> kernel_route d \<in> set actual"
  by (auto simp: route_present_def list_ex_iff)

lemma dump_routes_ok:
  assumes "inspectable_kernel ops R Q" and "op_dump_routes ops t k = (res, k')"
  shows "R k' = R k" "Q k' = Q k" "res = Inr rs \<Longrightarrow> set rs = {r \<in> R k. dmp_table r = t}"
proof -
  have "R (snd (op_dump_routes ops t k)) = R k \<and> Q (snd (op_dump_routes ops t k)) = Q k
      \<and> (case fst (op_dump_routes ops t k) of Inl e \<Rightarrow> True | Inr rs \<Rightarrow> set rs = {r \<in> R k. dmp_table r = t})"
    using assms(1) by (simp add: inspectable_kernel_def)
  with assms(2) show "R k' = R k" "Q k' = Q k" "res = Inr rs \<Longrightarrow> set rs = {r \<in> R k. dmp_table r = t}" by auto
qed

lemma delete_route_ok:
  assumes "inspectable_kernel ops R Q" and "op_delete_route ops r k = (Inr u, k')"
  shows "R k' = R k - {kernel_route r}" "Q k' = Q k"
proof -
  have "case op_delete_route ops r k of (Inr u, k') \<Rightarrow> R k' = R k - {kernel_route r} | (Inl e, k') \<Rightarrow> R k' = R k"
    and "Q (snd (op_delete_route ops r k)) = Q k"
    using assms(1) by (simp_all add: inspectable_kernel_def route_kernel_def)
  with assms(2) show "R k' = R k - {kernel_route r}" "Q k' = Q k" by auto
qed

lemma add_route_ok:
  assumes "inspectable_kernel ops R Q" and "op_add_route ops r k = (Inr res, k')"
  shows "R k' = (if res = Created then insert (kernel_route r) (R k) else R k)" "Q k' = Q k"
proof -
  have "case op_add_route ops r k of
      (Inr Created, k') \<Rightarrow> kernel_route r \<notin> R k \<and> R k' = insert (kernel_route r) (R k) | (_, k') \<Rightarrow> R k' = R k"
    and "Q (snd (op_add_route ops r k)) = Q k"
    using assms(1) by (simp_all add: inspectable_kernel_def route_kernel_def)
  with assms(2) show "R k' = (if res = Created then insert (kernel_route r) (R k) else R k)" "Q k' = Q k"
    by (auto split: add_result.splits)
qed

lemma add_rule_ok:
  assumes "inspectable_kernel ops R Q" and "op_add_rule ops r f k = (Inr res, k')"
  shows "Q k' = insert (kernel_rule r f) (Q k)" "R k' = R k"
proof -
  have "case op_add_rule ops r f k of
      (Inr Created, k') \<Rightarrow> kernel_rule r f \<notin> Q k \<and> Q k' = insert (kernel_rule r f) (Q k)
    | (Inr AlreadyPresent, k') \<Rightarrow> kernel_rule r f \<in> Q k \<and> Q k' = Q k
    | (Inl e, k') \<Rightarrow> Q k' = Q k" and "R (snd (op_add_rule ops r f k)) = R k"
    using assms(1) by (simp_all add: inspectable_kernel_def rule_kernel_def)
  with assms(2) show "Q k' = insert (kernel_rule r f) (Q k)" "R k' = R k"
    by (auto split: add_result.splits)
qed

lemma delete_rule_ok:
  assumes "inspectable_kernel ops R Q" and "op_delete_rule ops r f k = (Inr u, k')"
  shows "Q k' = Q k - {kernel_rule r f}" "R k' = R k"
proof -
  have "case op_delete_rule ops r f k of (Inr u, k') \<Rightarrow> Q k' = Q k - {kernel_rule r f} | (Inl e, k') \<Rightarrow> Q k' = Q k"
    and "R (snd (op_delete_rule ops r f k)) = R k"
    using assms(1) by (simp_all add: inspectable_kernel_def rule_kernel_def)
  with assms(2) show "Q k' = Q k - {kernel_rule r f}" "R k' = R k" by auto
qed

section \<open>Routes\<close>

lemma dump_tables_ok:
  assumes "inspectable_kernel ops R Q" and "dump_tables ops ts acc k = (res, k')"
  shows "R k' = R k" "Q k' = Q k" "res = Inr rs \<Longrightarrow> set rs = set acc \<union> {r \<in> R k. dmp_table r \<in> set ts}"
proof -
  have "R k' = R k \<and> Q k' = Q k \<and> (\<forall>rs. res = Inr rs \<longrightarrow> set rs = set acc \<union> {r \<in> R k. dmp_table r \<in> set ts})"
    using assms(2)
  proof (induction ts arbitrary: acc k)
    case (Cons t ts)
    obtain dres k1 where d: "op_dump_routes ops t k = (dres, k1)" by (cases "op_dump_routes ops t k")
    note dump = dump_routes_ok [OF assms(1) d]
    show ?case
    proof (cases dres)
      case (Inl e)
      with Cons.prems d dump show ?thesis by auto
    next
      case (Inr rs)
      with Cons.prems d have "dump_tables ops ts (acc @ rs) k1 = (res, k')" by simp
      from Cons.IH [OF this] dump Inr show ?thesis by auto
    qed
  qed auto
  then show "R k' = R k" "Q k' = Q k" "res = Inr rs \<Longrightarrow> set rs = set acc \<union> {r \<in> R k. dmp_table r \<in> set ts}" by auto
qed

definition fallback :: "route_spec list \<Rightarrow> route_spec \<Rightarrow> dumped_route \<Rightarrow> bool" where
  "fallback all desired a \<longleftrightarrow>
     dmp_protocol a = generated_route_protocol \<and> \<not> route_wanted all a \<and> same_route_lookup_key desired a"

lemma replace_fallbacks_ok:
  assumes "inspectable_kernel ops R Q" and "replace_fallbacks ops all d kept rest k = (Inr actual, k')"
    and "\<forall>a \<in> set rest. dmp_family a \<noteq> 0"
  shows "actual = kept @ filter (\<lambda>a. \<not> fallback all d a) rest \<and> R k' = R k - {a \<in> set rest. fallback all d a} \<and> Q k' = Q k"
  using assms(2,3)
proof (induction rest arbitrary: kept k)
  case (Cons a rest)
  show ?case
  proof (cases "fallback all d a")
    case True
    then have step: "replace_fallbacks ops all d kept (a # rest) k =
        (case op_delete_route ops (route_spec_from_dump a) k of (Inl e, k') \<Rightarrow> (Inl e, k')
         | (Inr u, k') \<Rightarrow> replace_fallbacks ops all d kept rest k')"
      by (simp add: fallback_def)
    with Cons.prems(1) obtain k1 where del: "op_delete_route ops (route_spec_from_dump a) k = (Inr (), k1)"
      and rest: "replace_fallbacks ops all d kept rest k1 = (Inr actual, k')"
      by (auto split: prod.splits sum.splits)
    from delete_route_ok [OF assms(1) del] Cons.prems(2) have "R k1 = R k - {a}" "Q k1 = Q k" by auto
    with Cons.IH [OF rest] Cons.prems(2) True show ?thesis by auto
  next
    case False
    then have "replace_fallbacks ops all d kept (a # rest) k = replace_fallbacks ops all d (kept @ [a]) rest k"
      by (auto simp: fallback_def)
    with Cons.IH [of "kept @ [a]" k] Cons.prems False show ?thesis by auto
  qed
qed simp

text \<open>The list of routes the reconciler believes in is the kernel's content of the tables \<open>T\<close>; routes outside its
  ownership are those of the start, \<open>F\<close>.\<close>

definition foreign_routes :: "u32 set \<Rightarrow> dumped_route set \<Rightarrow> dumped_route set" where
  "foreign_routes T rs = {r \<in> rs. dmp_protocol r \<noteq> generated_route_protocol \<or> dmp_table r \<notin> T}"

definition route_view :: "u32 set \<Rightarrow> dumped_route set \<Rightarrow> dumped_route list \<Rightarrow> dumped_route set \<Rightarrow> bool" where
  "route_view T F actual rs \<longleftrightarrow>
     set actual = {r \<in> rs. dmp_table r \<in> T} \<and> (\<forall>r \<in> rs. dmp_family r \<noteq> 0) \<and> foreign_routes T rs = F"

lemma install_route_ok:
  assumes kernel: "inspectable_kernel ops R Q" and d: "generated_route d" "rs_table d \<in> T"
    and view: "route_view T F actual (R k)" and run: "install_route ops all actual d k = (Inr actual', k')"
  shows "route_view T F actual' (R k')" "kernel_route d \<in> R k'" "Q k' = Q k"
    "R k \<inter> kernel_route ` set all \<subseteq> R k'"
proof -
  have "route_view T F actual' (R k') \<and> kernel_route d \<in> R k' \<and> Q k' = Q k \<and> R k \<inter> kernel_route ` set all \<subseteq> R k'"
  proof (cases "route_present actual d")
    case True
    with run view show ?thesis by (auto simp: install_route_def route_view_def)
  next
    case False
    from run False obtain actual1 k1 where
      repl: "replace_fallbacks ops all d [] actual k = (Inr actual1, k1)"
      by (auto simp: install_route_def split: prod.splits sum.splits)
    have "\<forall>a \<in> set actual. dmp_family a \<noteq> 0" using view by (auto simp: route_view_def)
    from replace_fallbacks_ok [OF kernel repl this] have actual1: "set actual1 = {a \<in> set actual. \<not> fallback all d a}"
      and k1: "R k1 = R k - {a \<in> set actual. fallback all d a}" "Q k1 = Q k" by auto
    have view1: "route_view T F actual1 (R k1)"
      using view actual1 k1(1) by (auto simp: route_view_def foreign_routes_def fallback_def)
    have kept: "R k \<inter> kernel_route ` set all \<subseteq> R k1" using k1(1) by (auto simp: fallback_def)
    have fam: "route_family d \<noteq> 0" "kernel_route d = dumped_route_from_spec d"
      using d(1) kernel_route_eq_dumped by (auto simp: generated_route_def route_family_def)
    from run False repl obtain res k2 where add: "op_add_route ops d k1 = (Inr res, k2)"
      by (auto simp: install_route_def split: prod.splits sum.splits)
    note added = add_route_ok [OF kernel add]
    show ?thesis
    proof (cases res)
      case Created
      with run False repl add have out: "actual' = actual1 @ [kernel_route d]" "k' = k2"
        by (auto simp: install_route_def fam(2))
      have "route_view T F actual' (R k')"
        using view1 added(1) Created out d fam(1)
        by (auto simp: route_view_def foreign_routes_def generated_route_def)
      with added Created out k1 kept show ?thesis by auto
    next
      case AlreadyPresent
      with run False repl add obtain refreshed where
        dump: "op_dump_routes ops (rs_table d) k2 = (Inr refreshed, k')" and "kernel_route d \<in> set refreshed"
        and out: "actual' = actual1"
        by (auto simp: install_route_def split: prod.splits sum.splits if_splits)
      with dump_routes_ok [OF kernel dump] added AlreadyPresent view1 k1 kept show ?thesis by auto
    qed
  qed
  then show "route_view T F actual' (R k')" "kernel_route d \<in> R k'" "Q k' = Q k"
    "R k \<inter> kernel_route ` set all \<subseteq> R k'" by auto
qed

lemma install_routes_ok:
  assumes "inspectable_kernel ops R Q" and "\<forall>d \<in> set ds. generated_route d \<and> rs_table d \<in> T"
    and "route_view T F actual (R k)" and "install_routes ops all ds actual k = (Inr actual', k')"
    and "set ds \<subseteq> set all"
  shows "route_view T F actual' (R k') \<and> Q k' = Q k \<and> kernel_route ` set ds \<subseteq> R k'
    \<and> R k \<inter> kernel_route ` set all \<subseteq> R k'"
  using assms(2-)
proof (induction ds arbitrary: actual k)
  case (Cons d ds)
  from Cons.prems(3) obtain actual1 k1 where
    step: "install_route ops all actual d k = (Inr actual1, k1)"
    and rest: "install_routes ops all ds actual1 k1 = (Inr actual', k')"
    by (auto split: prod.splits sum.splits)
  have "generated_route d" "rs_table d \<in> T" using Cons.prems(1) by auto
  note one = install_route_ok [OF assms(1) this Cons.prems(2) step]
  have "\<forall>d \<in> set ds. generated_route d \<and> rs_table d \<in> T" "set ds \<subseteq> set all" "d \<in> set all" using Cons.prems by auto
  with Cons.IH [OF _ one(1) rest] have
    "route_view T F actual' (R k')" "Q k' = Q k1" "kernel_route ` set ds \<subseteq> R k'" "R k1 \<inter> kernel_route ` set all \<subseteq> R k'"
    by auto
  moreover from this one(2,4) \<open>d \<in> set all\<close>
  have "kernel_route d \<in> R k'" "R k \<inter> kernel_route ` set all \<subseteq> R k'" by blast+
  ultimately show ?case using one(3) by simp
qed auto

lemma prune_routes_ok:
  assumes "inspectable_kernel ops R Q" and "for_each (prune_route ops desired) actual k = (Inr (), k')"
    and "\<forall>a \<in> set actual. dmp_family a \<noteq> 0"
  shows "R k' = R k - {a \<in> set actual. dmp_protocol a = generated_route_protocol \<and> a \<notin> kernel_route ` set desired}
    \<and> Q k' = Q k"
  using assms(2,3)
proof (induction actual arbitrary: k)
  case (Cons a actual)
  from Cons.prems(1) [unfolded for_each_success_step] obtain k1 where
    step: "prune_route ops desired a k = (Inr (), k1)" and rest: "for_each (prune_route ops desired) actual k1 = (Inr (), k')"
    by blast
  have "R k1 = R k - (if dmp_protocol a = generated_route_protocol \<and> a \<notin> kernel_route ` set desired then {a} else {})
      \<and> Q k1 = Q k"
    using step delete_route_ok [OF assms(1), of "route_spec_from_dump a" k "()" k1] Cons.prems(2)
    by (auto simp: prune_route_def split: if_splits)
  with Cons.IH [OF rest] Cons.prems(2) show ?case by (auto split: if_splits)
qed simp

lemma reconcile_routes_ok:
  assumes "inspectable_kernel ops R Q" and "\<forall>d \<in> set desired. generated_route d" and "\<forall>r \<in> R k. dmp_family r \<noteq> 0"
    and "reconcile_routes ops desired k = (Inr (), k')"
  shows "R k' = foreign_routes (rs_table ` set desired) (R k) \<union> kernel_route ` set desired" "Q k' = Q k"
proof -
  let ?T = "rs_table ` set desired"
  from assms(4) obtain actual k1 actual' k2 where
    dump: "dump_tables ops (sort (remdups (map rs_table desired))) [] k = (Inr actual, k1)"
    and inst: "install_routes ops desired desired actual k1 = (Inr actual', k2)"
    and prune: "for_each (prune_route ops desired) actual' k2 = (Inr (), k')"
    by (auto simp: reconcile_routes_def split: prod.splits sum.splits option.splits)
  have view: "route_view ?T (foreign_routes ?T (R k)) actual (R k1)"
    using dump_tables_ok [OF assms(1) dump] assms(3) by (auto simp: route_view_def)
  have gen: "\<forall>d \<in> set desired. generated_route d \<and> rs_table d \<in> ?T" using assms(2) by auto
  from install_routes_ok [OF assms(1) gen view inst]
  have view2: "route_view ?T (foreign_routes ?T (R k)) actual' (R k2)" and Q2: "Q k2 = Q k1"
    and all: "kernel_route ` set desired \<subseteq> R k2" by auto
  have "\<forall>a \<in> set actual'. dmp_family a \<noteq> 0" using view2 by (auto simp: route_view_def)
  from prune_routes_ok [OF assms(1) prune this] have
    k': "R k' = R k2 - {a \<in> set actual'. dmp_protocol a = generated_route_protocol \<and> a \<notin> kernel_route ` set desired}"
    "Q k' = Q k2" by auto
  show "Q k' = Q k" using k' Q2 dump_tables_ok(2) [OF assms(1) dump] by simp
  have "foreign_routes ?T (R k2) = foreign_routes ?T (R k)" "set actual' = {r \<in> R k2. dmp_table r \<in> ?T}"
    using view2 by (auto simp: route_view_def)
  then show "R k' = foreign_routes ?T (R k) \<union> kernel_route ` set desired"
    using k'(1) all by (auto simp: foreign_routes_def)
qed

section \<open>Rules\<close>

definition rule_families :: "rule_spec \<Rightarrow> int set" where
  "rule_families d = {f \<in> {AF_INET, AF_INET6}. ru_family d = 0 \<or> ru_family d = f}"

definition kernel_rules :: "rule_spec list \<Rightarrow> dumped_rule set" where
  "kernel_rules desired = {kernel_rule d f | d f. d \<in> set desired \<and> f \<in> rule_families d}"

definition rule_wanted :: "rule_spec list \<Rightarrow> dumped_rule \<Rightarrow> bool" where
  "rule_wanted desired q \<longleftrightarrow> (\<exists>d \<in> set desired. same_rule d q)"

lemma same_rule_family: "same_rule d a \<and> dmr_family a = f \<longleftrightarrow> a = kernel_rule d f \<and> (ru_family d = 0 \<or> ru_family d = f)"
  by (cases a) (auto simp: same_rule_def kernel_rule_def)

lemma kernel_rule_stale [simp]: "kernel_rule (stale_rule a) (dmr_family a) = a"
  by (cases a) (simp add: kernel_rule_def stale_rule_def)

lemma kernel_rules_wanted: "q \<in> kernel_rules desired \<Longrightarrow> rule_wanted desired q"
  by (auto simp: kernel_rules_def rule_families_def rule_wanted_def same_rule_def kernel_rule_def)

lemma install_rules_ok:
  assumes "inspectable_kernel ops R Q" and "for_each (install_rule_family ops actual) dfs k = (Inr (), k')"
    and "set actual \<subseteq> Q k" and "\<forall>(d, f) \<in> set dfs. f \<in> {AF_INET, AF_INET6}"
  shows "Q k' = Q k \<union> {kernel_rule d f | d f. (d, f) \<in> set dfs \<and> f \<in> rule_families d} \<and> R k' = R k"
  using assms(2-)
proof (induction dfs arbitrary: k)
  case (Cons df dfs)
  obtain d f where df: "df = (d, f)" by (cases df)
  from Cons.prems(1) [unfolded for_each_success_step] obtain k1 where
    step: "install_rule_family ops actual df k = (Inr (), k1)"
    and rest: "for_each (install_rule_family ops actual) dfs k1 = (Inr (), k')" by blast
  have f: "f \<in> {AF_INET, AF_INET6}" using Cons.prems(3) df by simp
  have one: "Q k1 = Q k \<union> (if f \<in> rule_families d then {kernel_rule d f} else {}) \<and> R k1 = R k"
  proof (cases "f \<in> rule_families d")
    case False
    with f have "ru_family d \<noteq> 0 \<and> ru_family d \<noteq> f" by (auto simp: rule_families_def)
    with step df False show ?thesis by (simp add: install_rule_family_def)
  next
    case True
    then have fam: "\<not> (ru_family d \<noteq> 0 \<and> ru_family d \<noteq> f)" by (auto simp: rule_families_def)
    show ?thesis
    proof (cases "kernel_rule d f \<in> set actual")
      case present: True
      then have "list_ex (\<lambda>a. same_rule d a \<and> dmr_family a = f) actual"
        using fam by (auto simp: list_ex_iff same_rule_family)
      with step df fam present Cons.prems(2) True show ?thesis by (auto simp: install_rule_family_def)
    next
      case absent: False
      then have "\<not> list_ex (\<lambda>a. same_rule d a \<and> dmr_family a = f) actual"
        by (auto simp: list_ex_iff same_rule_family)
      with step df fam obtain res where "op_add_rule ops d f k = (Inr res, k1)"
        by (auto simp: install_rule_family_def split: prod.splits sum.splits)
      from add_rule_ok [OF assms(1) this] True show ?thesis by auto
    qed
  qed
  have "set actual \<subseteq> Q k1" using Cons.prems(2) one by auto
  moreover have "\<forall>(d, f) \<in> set dfs. f \<in> {AF_INET, AF_INET6}" using Cons.prems(3) by simp
  ultimately have "Q k' = Q k1 \<union> {kernel_rule d f | d f. (d, f) \<in> set dfs \<and> f \<in> rule_families d} \<and> R k' = R k1"
    by (rule Cons.IH [OF rest])
  with one df show ?case by auto
qed simp

lemma prune_rules_ok:
  assumes "inspectable_kernel ops R Q" and "for_each (prune_rule ops desired) actual k = (Inr (), k')"
  shows "Q k' = Q k - {q \<in> set actual. rule_namespace_owned q desired \<and> \<not> rule_wanted desired q} \<and> R k' = R k"
  using assms(2)
proof (induction actual arbitrary: k)
  case (Cons a actual)
  from Cons.prems [unfolded for_each_success_step] obtain k1 where
    step: "prune_rule ops desired a k = (Inr (), k1)" and rest: "for_each (prune_rule ops desired) actual k1 = (Inr (), k')"
    by blast
  have "Q k1 = Q k - (if rule_namespace_owned a desired \<and> \<not> rule_wanted desired a then {a} else {}) \<and> R k1 = R k"
    using step delete_rule_ok [OF assms(1), of "stale_rule a" "dmr_family a" k "()" k1]
    by (auto simp: prune_rule_def rule_wanted_def list_ex_iff split: if_splits)
  with Cons.IH [OF rest] show ?case by (auto split: if_splits)
qed simp

lemma reconcile_rules_ok:
  assumes "inspectable_kernel ops R Q" and "reconcile_rules ops desired k = (Inr (), k')"
  shows "Q k' = {q \<in> Q k. rule_namespace_owned q desired \<longrightarrow> rule_wanted desired q} \<union> kernel_rules desired" "R k' = R k"
proof -
  let ?dfs = "concat (map (\<lambda>d. [(d, AF_INET), (d, AF_INET6)]) desired)"
  from assms(2) obtain actual k1 k2 where dump: "op_dump_rules ops k = (Inr actual, k1)"
    and inst: "for_each (install_rule_family ops actual) ?dfs k1 = (Inr (), k2)"
    and prune: "for_each (prune_rule ops desired) actual k2 = (Inr (), k')"
    by (auto simp: reconcile_rules_def split: prod.splits sum.splits)
  have "R (snd (op_dump_rules ops k)) = R k \<and> Q (snd (op_dump_rules ops k)) = Q k
      \<and> (case fst (op_dump_rules ops k) of Inl e \<Rightarrow> True | Inr qs \<Rightarrow> set qs = Q k)"
    using assms(1) by (simp add: inspectable_kernel_def)
  then have k1: "R k1 = R k" "Q k1 = Q k" "set actual = Q k" by (simp_all add: dump)
  have "{kernel_rule d f | d f. (d, f) \<in> set ?dfs \<and> f \<in> rule_families d} = kernel_rules desired"
    by (auto simp: kernel_rules_def rule_families_def)
  with install_rules_ok [OF assms(1) inst] k1 have k2: "Q k2 = Q k \<union> kernel_rules desired" "R k2 = R k" by auto
  from prune_rules_ok [OF assms(1) prune] k1(3) k2
  have k': "Q k' = (Q k \<union> kernel_rules desired) - {q \<in> Q k. rule_namespace_owned q desired \<and> \<not> rule_wanted desired q}"
    "R k' = R k" by auto
  show "R k' = R k" by (rule k'(2))
  show "Q k' = {q \<in> Q k. rule_namespace_owned q desired \<longrightarrow> rule_wanted desired q} \<union> kernel_rules desired"
    unfolding k'(1) using kernel_rules_wanted by blast
qed

lemma reconcile_ok:
  assumes "inspectable_kernel ops R Q" and "\<forall>d \<in> set droutes. generated_route d" and "\<forall>r \<in> R k. dmp_family r \<noteq> 0"
    and "reconcile ops droutes drules k = (Inr (), k')"
  shows "R k' = foreign_routes (rs_table ` set droutes) (R k) \<union> kernel_route ` set droutes
    \<and> Q k' = {q \<in> Q k. rule_namespace_owned q drules \<longrightarrow> rule_wanted drules q} \<union> kernel_rules drules"
proof -
  from assms(4) obtain k1 where routes: "reconcile_routes ops droutes k = (Inr (), k1)"
    and rules: "reconcile_rules ops drules k1 = (Inr (), k')"
    by (auto simp: reconcile_def split: prod.splits sum.splits)
  show ?thesis
    using reconcile_routes_ok [OF assms(1-3) routes] reconcile_rules_ok [OF assms(1) rules] by simp
qed


definition sample_desired_route :: route_spec where
  "sample_desired_route = default_route_spec\<lparr>rs_destination := ''default'', rs_table := 100, rs_family := AF_INET,
     rs_interface := Some ''wg0''\<rparr>"

definition sample_desired_rule :: rule_spec where
  "sample_desired_rule = default_rule_spec\<lparr>ru_fwmark := 65536, ru_table := 100, ru_priority := 1000\<rparr>"

lemmas reconcile_eval = reconcile_def reconcile_routes_def reconcile_rules_def install_route_def prune_route_def
  install_rule_family_def prune_rule_def rule_namespace_owned_def sim_ops_def kernel_route_def kernel_rule_def
  dumped_route_from_spec_def route_spec_from_dump_def route_family_def sample_desired_route_def
  sample_desired_rule_def default_route_spec_def default_rule_spec_def generated_route_protocol_def
  same_route_lookup_key_def same_route_def AF_INET_def AF_INET6_def


section \<open>Conflicts with foreign routes\<close>

lemma foreign_conflict_found:
  assumes "a \<in> set actual" and "dmp_protocol a \<noteq> generated_route_protocol" and "same_route d a False"
    and "kernel_route d \<notin> set actual"
  shows "foreign_conflict d actual"
  using assms by (induction actual) auto



end
