(* ===== verification/Config_Marks.thy ===== *)
theory Config_Marks
  imports Config_Types
begin

text \<open>
  The firewall marks of a configuration (\<^verbatim>\<open>src/config/config.cpp\<close>): parsing of \<^verbatim>\<open>fwmark.start\<close> and
  \<^verbatim>\<open>fwmark.mask\<close>, validation of the mask and the allocation of two marks to every routable outbound. All
  arithmetic is on 32-bit words.
\<close>

section \<open>Masks\<close>

definition config_space :: "char \<Rightarrow> bool" where
  "config_space c \<longleftrightarrow> c = CHR '' '' \<or> c = CHR 0x09 \<or> c = CHR 0x0A \<or> c = CHR 0x0D \<or> c = CHR 0x0C \<or> c = CHR 0x0B"

definition trim_copy :: "string \<Rightarrow> string" where
  "trim_copy v = trim_by config_space v"

definition lowest_bit :: "u32 \<Rightarrow> u32" where
  "lowest_bit m = m AND (NOT m + 1)"

definition normalized_fwmark_mask :: "u32 \<Rightarrow> u32" where
  "normalized_fwmark_mask m = m div lowest_bit m"

lemma drop_bit_less:
  fixes w :: u32
  assumes "w \<noteq> 0" and "0 < n"
  shows "unat (drop_bit n w) < unat w"
proof -
  have "unat (drop_bit n w) = unat w div 2 ^ n" by (subst unat_drop_bit_eq) (rule drop_bit_eq_div)
  moreover have "unat w div 2 ^ n < unat w"
    by (rule div_less_dividend) (use assms one_less_power [of "2 :: nat" n] in \<open>simp_all add: unat_gt_0\<close>)
  ultimately show ?thesis by simp
qed

text \<open>The loop of \<^verbatim>\<open>has_consecutive_full_f_nibbles\<close>.\<close>

function full_f_nibbles_loop :: "u32 \<Rightarrow> bool" where
  "full_f_nibbles_loop m =
     (if m = 0 then True
      else if m AND 0xF \<noteq> 0xF then False
      else full_f_nibbles_loop (drop_bit 4 m))"
  by pat_completeness auto
termination
  by (relation "measure unat") (auto simp: drop_bit_less)

declare full_f_nibbles_loop.simps [simp del]

definition has_consecutive_full_f_nibbles :: "u32 \<Rightarrow> bool" where
  "has_consecutive_full_f_nibbles m = (if m = 0 then False else full_f_nibbles_loop m)"

definition fwmark_mask_mark_capacity :: "u32 \<Rightarrow> u32" where
  "fwmark_mask_mark_capacity m = normalized_fwmark_mask m + 1"

text \<open>The loop that counts the trailing zero bits.\<close>

function bit_position :: "u32 \<Rightarrow> nat" where
  "bit_position tmp = (if tmp > 1 then Suc (bit_position (drop_bit 1 tmp)) else 0)"
  by pat_completeness auto
termination
  by (relation "measure unat") (auto intro!: drop_bit_less)

declare bit_position.simps [simp del]

text \<open>\<^verbatim>\<open>std::hex\<close> with a width of 8 and zero fill.\<close>

definition hex8 :: "u32 \<Rightarrow> string" where
  "hex8 w = (let h = hex_string (unat w) in replicate (8 - length h) CHR ''0'' @ h)"

definition validate_fwmark_mask :: "u32 \<Rightarrow> unit result" where
  "validate_fwmark_mask m =
     (if m = 0 then Inl (ConfigError ''fwmark.mask must not be zero'')
      else if bit_position (lowest_bit m) mod 4 \<noteq> 0
      then Inl (ConfigError (''fwmark.mask must be aligned to nibble boundaries ''
             @ ''(e.g. 0x000F0000, 0x00FF0000), got 0x'' @ hex8 m))
      else if \<not> has_consecutive_full_f_nibbles (normalized_fwmark_mask m)
      then Inl (ConfigError (''fwmark.mask must have one or more consecutive hex nibbles set to F ''
             @ ''(e.g. 0x000F0000, 0x00FF0000, 0x0FFF0000), got 0x'' @ hex8 m))
      else Inr ())"

text \<open>\<^verbatim>\<open>stoul\<close> on a text that was checked to be \<^verbatim>\<open>0x\<close> and hexadecimal digits: the result is a 64-bit
  \<^verbatim>\<open>unsigned long\<close>, larger values throw.\<close>

definition parse_fwmark_hex_or_throw :: "string option \<Rightarrow> u32 \<Rightarrow> string \<Rightarrow> u32 result" where
  "parse_fwmark_hex_or_throw raw default_value path =
     (case raw of
        None \<Rightarrow> Inr default_value
      | Some r \<Rightarrow>
          (let v = trim_copy r
           in if v = [] then Inl (ConfigError (path @ '' must not be empty''))
              else if length v < 3 \<or> v ! 0 \<noteq> CHR ''0'' \<or> (v ! 1 \<noteq> CHR ''x'' \<and> v ! 1 \<noteq> CHR ''X'')
              then Inl (ConfigError (path @ '' must be a hexadecimal string with 0x prefix''))
              else if \<not> list_all is_xdigit (drop 2 v)
              then Inl (ConfigError (path @ '' must contain only hexadecimal digits''))
              else if hex_value (drop 2 v) \<ge> 2 ^ 64
              then Inl (ConfigError (path @ '' must be a valid 32-bit hexadecimal value''))
              else if hex_value (drop 2 v) > 2 ^ 32 - 1
              then Inl (ConfigError (path @ '' must fit into 32 bits (max 0xFFFFFFFF)''))
              else Inr (of_nat (hex_value (drop 2 v)))))"

definition parse_fwmark_start_or_throw :: "fwmark_config \<Rightarrow> u32 result" where
  "parse_fwmark_start_or_throw fwc = parse_fwmark_hex_or_throw (fwm_start fwc) 0x00010000 ''fwmark.start''"

definition parse_fwmark_mask_or_throw :: "fwmark_config \<Rightarrow> u32 result" where
  "parse_fwmark_mask_or_throw fwc = parse_fwmark_hex_or_throw (fwm_mask fwc) 0x00FF0000 ''fwmark.mask''"

definition fwmark_start_value :: "fwmark_config \<Rightarrow> u32 result" where
  "fwmark_start_value fwc = parse_fwmark_start_or_throw fwc"

definition fwmark_mask_value :: "fwmark_config \<Rightarrow> u32 result" where
  "fwmark_mask_value fwc =
     (case parse_fwmark_mask_or_throw fwc of
        Inl e \<Rightarrow> Inl e
      | Inr m \<Rightarrow> (case validate_fwmark_mask m of Inl e \<Rightarrow> Inl e | Inr u \<Rightarrow> Inr m))"

section \<open>Allocation\<close>

definition internal_detour_mark_key :: "string \<Rightarrow> string" where
  "internal_detour_mark_key tag = ''__keen_pbr_internal_detour__:'' @ tag"

definition routable :: "outbound \<Rightarrow> bool" where
  "routable ob \<longleftrightarrow> ob_type ob = INTERFACE \<or> ob_type ob = TABLE \<or> ob_type ob = URLTEST"

record mark_state =
  ms_map :: "(string, u32) smap"
  ms_current :: u32
  ms_count :: u32

definition allocate_one :: "u32 \<Rightarrow> u32 \<Rightarrow> mark_state \<Rightarrow> outbound \<Rightarrow> mark_state result" where
  "allocate_one step max_marks st ob =
     (if ms_count st + 2 > max_marks
      then Inl (ConfigError (''Too many routable outbounds: maximum '' @ nat_to_string (unat max_marks)
             @ '' supported with current fwmark.mask''))
      else Inr \<lparr>ms_map = smap_put (internal_detour_mark_key (ob_tag ob)) (ms_current st + step)
                          (smap_put (ob_tag ob) (ms_current st) (ms_map st)),
                ms_current = ms_current st + step + step,
                ms_count = ms_count st + 2\<rparr>)"

definition allocate_outbound_marks :: "fwmark_config \<Rightarrow> outbound list \<Rightarrow> (string, u32) smap result" where
  "allocate_outbound_marks fwc outbounds =
     (case parse_fwmark_mask_or_throw fwc of
        Inl e \<Rightarrow> Inl e
      | Inr m \<Rightarrow>
          (case parse_fwmark_start_or_throw fwc of
             Inl e \<Rightarrow> Inl e
           | Inr start \<Rightarrow>
               (case validate_fwmark_mask m of
                  Inl e \<Rightarrow> Inl e
                | Inr u \<Rightarrow>
                    (case fold_result (allocate_one (lowest_bit m) (fwmark_mask_mark_capacity m))
                            \<lparr>ms_map = [], ms_current = start, ms_count = 0\<rparr>
                            (sort_key ob_tag (filter routable outbounds)) of
                       Inl e \<Rightarrow> Inl e
                     | Inr st \<Rightarrow> Inr (ms_map st)))))"

section \<open>The shape of a valid mask\<close>

lemma odd_and_minus: "(2 * q + 1) AND (- (2 * q + 1)) = (1 :: int)"
proof -
  have "(2 * q + 1) AND NOT (2 * q) = (1 :: int)"
  proof (rule bit_eqI)
    fix n
    have "bit (2 * q + 1) n \<and> \<not> bit (2 * q) n \<longleftrightarrow> bit (1 :: int) n"
      by (cases n) (simp_all add: bit_Suc bit_0)
    then show "bit ((2 * q + 1) AND NOT (2 * q)) n \<longleftrightarrow> bit (1 :: int) n"
      by (simp only: bit_and_iff bit_not_iff_eq) simp
  qed
  moreover have "NOT (2 * q) = - (2 * q + 1)" by (simp add: not_eq_complement)
  ultimately show ?thesis by simp
qed

lemma int_lowest_bit: "(2 ^ k * (2 * q + 1)) AND (- (2 ^ k * (2 * q + 1))) = (2 ^ k :: int)"
proof -
  have push: "push_bit k (2 * q + 1) = 2 ^ k * (2 * q + 1)" "push_bit k (- (2 * q + 1)) = - (2 ^ k * (2 * q + 1))"
    "push_bit k 1 = (2 ^ k :: int)"
    by (simp_all only: push_bit_eq_mult) (simp_all add: algebra_simps)
  have "push_bit k (2 * q + 1) AND push_bit k (- (2 * q + 1)) = push_bit k (1 :: int)"
    by (simp only: push_bit_and [symmetric] odd_and_minus)
  then show ?thesis unfolding push .
qed

lemma odd_decomposition: "0 < (m :: nat) \<Longrightarrow> \<exists>k q. m = 2 ^ k * (2 * q + 1)"
proof (induction m rule: less_induct)
  case (less m)
  show ?case
  proof (cases "even m")
    case True
    then obtain n where n: "m = 2 * n" by auto
    with less obtain k q where "n = 2 ^ k * (2 * q + 1)" by fastforce
    with n show ?thesis by (intro exI [of _ "Suc k"] exI [of _ q]) simp
  next
    case False
    then obtain q where "m = 2 * q + 1" by (auto elim!: oddE)
    then show ?thesis by (intro exI [of _ 0] exI [of _ q]) simp
  qed
qed

lemma lowest_bit_decomposed:
  assumes "unat m = 2 ^ k * (2 * q + 1)"
  shows "lowest_bit m = 2 ^ k" and "k < 32"
proof -
  have "2 ^ k * 1 \<le> 2 ^ k * (2 * q + 1)" by (rule mult_le_mono) simp_all
  then have "(2 :: nat) ^ k < 2 ^ 32" using unat_u32_less [of m] assms by simp
  then show "k < 32" by (simp only: power_strict_increasing_iff)
  have "m = of_nat (unat m)" by simp
  also have "\<dots> = word_of_int (2 ^ k * (2 * int q + 1))" unfolding assms by (simp add: distrib_left)
  finally have m: "m = word_of_int (2 ^ k * (2 * int q + 1))" .
  have "NOT m + 1 = - m" by (simp add: not_eq_complement)
  then have "lowest_bit m = m AND (- m)" by (simp add: lowest_bit_def)
  also have "\<dots> = word_of_int ((2 ^ k * (2 * int q + 1)) AND (- (2 ^ k * (2 * int q + 1))))"
    unfolding m by (simp only: of_int_and_eq of_int_minus)
  also have "\<dots> = 2 ^ k" by (simp only: int_lowest_bit of_int_power of_int_numeral)
  finally show "lowest_bit m = 2 ^ k" .
qed

lemma unat_drop_bit_u32: "unat (drop_bit n (w :: u32)) = unat w div 2 ^ n"
  by (subst unat_drop_bit_eq) (rule drop_bit_eq_div)

lemma bit_position_power: "unat w = 2 ^ k \<Longrightarrow> bit_position w = k"
proof (induction k arbitrary: w)
  case 0
  then have "\<not> 1 < w" by (simp add: word_less_nat_alt)
  then show ?case by (simp add: bit_position.simps [of w])
next
  case (Suc k)
  have "1 < unat w" unfolding Suc.prems by (rule one_less_power) simp_all
  then have "1 < w" by (simp add: word_less_nat_alt)
  moreover have "bit_position (drop_bit 1 w) = k"
    by (rule Suc.IH) (simp add: unat_drop_bit_u32 Suc.prems)
  ultimately show ?case by (simp add: bit_position.simps [of w])
qed

lemma unat_and_15: "unat (w AND 0xF :: u32) = unat w mod 16"
proof -
  have "w AND 0xF = take_bit 4 w" by (simp add: take_bit_eq_mask mask_eq_exp_minus_1)
  then have "unat (w AND 0xF) = take_bit 4 (unat w)" by (simp only: unsigned_take_bit_eq)
  then show ?thesis by (simp add: take_bit_eq_mod)
qed

lemma full_f_nibbles_shape:
  assumes "full_f_nibbles_loop w" and "w \<noteq> 0"
  shows "\<exists>r > 0. unat w + 1 = 16 ^ r"
  using assms
proof (induction w rule: full_f_nibbles_loop.induct)
  case (1 w)
  have low: "w AND 0xF = 0xF" and rest: "full_f_nibbles_loop (drop_bit 4 w)"
    using 1(2,3) by (simp_all add: full_f_nibbles_loop.simps [of w] split: if_splits)
  from low have m: "unat w mod 16 = 15" using unat_and_15 [of w] by simp
  have d: "unat (drop_bit 4 w) = unat w div 16" by (simp add: unat_drop_bit_u32)
  show ?case
  proof (cases "drop_bit 4 w = 0")
    case True
    then have "unat w div 16 = 0" using d by simp
    then have "unat w < 16" by (simp add: div_eq_0_iff)
    with m have "unat w + 1 = 16 ^ 1" by simp
    then show ?thesis by (intro exI [of _ 1]) simp
  next
    case False
    from 1(1) [OF 1(3) _ rest False] low obtain r where "unat w div 16 + 1 = 16 ^ r" unfolding d by auto
    moreover have "unat w = 16 * (unat w div 16) + 15" using m mult_div_mod_eq [of 16 "unat w"] by linarith
    ultimately have "unat w + 1 = 16 ^ Suc r" unfolding power_Suc by linarith
    then show ?thesis by blast
  qed
qed

text \<open>A mask that passes the validation is a block of whole nibbles: \<open>r\<close> nibbles of ones from bit \<open>k\<close> on.\<close>

definition nibble_mask :: "nat \<Rightarrow> nat \<Rightarrow> u32 \<Rightarrow> bool" where
  "nibble_mask k r m \<longleftrightarrow> 0 < r \<and> 4 dvd k \<and> k + 4 * r \<le> 32 \<and> unat m = 2 ^ k * (16 ^ r - 1)"

lemma valid_mask_shape:
  assumes "validate_fwmark_mask m = Inr ()"
  shows "\<exists>k r. nibble_mask k r m \<and> lowest_bit m = 2 ^ k \<and> unat (normalized_fwmark_mask m) = 16 ^ r - 1"
proof -
  have m0: "m \<noteq> 0" and pos: "bit_position (lowest_bit m) mod 4 = 0"
    and full: "has_consecutive_full_f_nibbles (normalized_fwmark_mask m)"
    using assms by (auto simp: validate_fwmark_mask_def split: if_splits)
  from m0 have "0 < unat m" by (simp add: unat_gt_0)
  then obtain k q where kq: "unat m = 2 ^ k * (2 * q + 1)" using odd_decomposition by blast
  note low = lowest_bit_decomposed [OF kq]
  have u: "unat (2 ^ k :: u32) = 2 ^ k" using unat_of_nat_u32 [of "2 ^ k"] power_strict_increasing [OF low(2), of "2 :: nat"] by simp
  have norm: "unat (normalized_fwmark_mask m) = 2 * q + 1"
    by (simp add: normalized_fwmark_mask_def low(1) unat_div u kq)
  from full have "normalized_fwmark_mask m \<noteq> 0" "full_f_nibbles_loop (normalized_fwmark_mask m)"
    by (auto simp: has_consecutive_full_f_nibbles_def split: if_splits)
  then obtain r where r: "0 < r" "2 * q + 1 + 1 = 16 ^ r" using full_f_nibbles_shape norm by metis
  have k: "4 dvd k" using pos bit_position_power [OF u] low(1) by auto
  have "2 ^ (k + 4 * r) = 2 ^ k * (16 :: nat) ^ r" by (simp add: power_add power_mult)
  also have "\<dots> \<le> 2 ^ k * (2 * (2 * q + 1))" using r(2) by (intro mult_le_mono) simp_all
  also have "\<dots> = 2 * unat m" using kq by simp
  also have "\<dots> < 2 ^ 33" using unat_u32_less [of m] by simp
  finally have "2 ^ (k + 4 * r) < (2 :: nat) ^ 33" .
  then have "k + 4 * r < 33" by (simp only: power_strict_increasing_iff)
  moreover have q: "2 * q + 1 = 16 ^ r - 1" using r(2) by simp
  then have "unat m = 2 ^ k * (16 ^ r - 1)" using kq by (simp only:)
  ultimately have "nibble_mask k r m" using r(1) k by (simp add: nibble_mask_def)
  then show ?thesis using low(1) norm unfolding q by blast
qed

section \<open>Distinct marks\<close>

text \<open>The bits of a mark that the mask lets through, as a number.\<close>

definition mark_field :: "nat \<Rightarrow> nat \<Rightarrow> u32 \<Rightarrow> nat" where
  "mark_field k r w = unat w div 2 ^ k mod 2 ^ (4 * r)"

lemma nibble_mask_push:
  assumes "nibble_mask k r m"
  shows "m = push_bit k (mask (4 * r))"
proof -
  have "unat m = 2 ^ k * (2 ^ (4 * r) - 1)" using assms by (simp add: nibble_mask_def power_mult)
  moreover have "m = of_nat (unat m)" by simp
  ultimately have "m = of_nat (2 ^ k * (2 ^ (4 * r) - 1))" by simp
  then show ?thesis by (simp add: push_bit_eq_mult mask_eq_exp_minus_1 of_nat_diff)
qed

lemma masked_equal_field:
  assumes "nibble_mask k r m" and "a AND m = b AND m"
  shows "mark_field k r a = mark_field k r b"
proof -
  have "take_bit (4 * r) (drop_bit k a) = take_bit (4 * r) (drop_bit k b)"
  proof (rule bit_eqI)
    fix n
    assume "possible_bit TYPE(u32) n"
    have "n < 4 * r \<Longrightarrow> k + n < 32" using assms(1) by (simp add: nibble_mask_def)
    moreover have "bit (a AND m) (k + n) = bit (b AND m) (k + n)" using assms(2) by simp
    ultimately show "bit (take_bit (4 * r) (drop_bit k a)) n = bit (take_bit (4 * r) (drop_bit k b)) n"
      unfolding nibble_mask_push [OF assms(1)]
      by (auto simp: bit_simps)
  qed
  then have "unat (take_bit (4 * r) (drop_bit k a)) = unat (take_bit (4 * r) (drop_bit k b))" by (rule arg_cong)
  then show ?thesis
    by (simp only: unsigned_take_bit_eq unat_drop_bit_u32) (simp only: mark_field_def take_bit_eq_mod)
qed

lemma mark_field_offset:
  assumes "k + 4 * r \<le> 32"
  shows "mark_field k r (start + of_nat i * 2 ^ k) = (unat start div 2 ^ k + i) mod 2 ^ (4 * r)"
proof -
  have w: "start + of_nat i * 2 ^ k = of_nat (unat start + i * 2 ^ k)" by simp
  have u: "unat (start + of_nat i * 2 ^ k) = take_bit 32 (unat start + i * 2 ^ k)"
    unfolding w unsigned_of_nat by simp
  have "mark_field k r (start + of_nat i * 2 ^ k)
      = take_bit (4 * r) (drop_bit k (take_bit 32 (unat start + i * 2 ^ k)))"
    unfolding mark_field_def u by (simp only: drop_bit_eq_div take_bit_eq_mod)
  also have "\<dots> = take_bit (4 * r) (drop_bit k (unat start + i * 2 ^ k))"
  proof -
    have "4 * r \<le> 32 - k" using assms by linarith
    then show ?thesis by (simp add: drop_bit_take_bit min_def)
  qed
  also have "\<dots> = (unat start div 2 ^ k + i) mod 2 ^ (4 * r)"
    by (simp only: drop_bit_eq_div take_bit_eq_mod) (simp add: add.commute)
  finally show ?thesis .
qed

lemma add_mod_inj:
  fixes n :: nat
  assumes "(a + i) mod n = (a + j) mod n" and "i < n" and "j < n"
  shows "i = j"
  using assms
proof (induction i j rule: linorder_wlog)
  case (le i j)
  then have "n dvd (a + j) - (a + i)" using mod_eq_dvd_iff_nat [of "a + i" "a + j" n] by simp
  then have "n dvd j - i" by simp
  moreover have "j - i < n" using le by linarith
  ultimately have "\<not> 0 < j - i" using nat_dvd_not_less [of "j - i" n] by blast
  then show ?case using le by linarith
next
  case (sym i j)
  then show ?case by simp
qed

lemma offsets_differ:
  assumes "nibble_mask k r m" and "i < 16 ^ r" and "j < 16 ^ r" and "i \<noteq> j"
  shows "(start + of_nat i * 2 ^ k) AND m \<noteq> (start + of_nat j * 2 ^ k) AND m"
proof
  assume eq: "(start + of_nat i * 2 ^ k) AND m = (start + of_nat j * 2 ^ k) AND m"
  have kr: "k + 4 * r \<le> 32" using assms(1) by (simp add: nibble_mask_def)
  have "(unat start div 2 ^ k + i) mod 2 ^ (4 * r) = (unat start div 2 ^ k + j) mod 2 ^ (4 * r)"
    using masked_equal_field [OF assms(1) eq] by (simp only: mark_field_offset [OF kr])
  moreover have "i < 2 ^ (4 * r)" "j < 2 ^ (4 * r)" using assms(2,3) by (simp_all add: power_mult)
  ultimately have "i = j" by (rule add_mod_inj)
  with assms(4) show False ..
qed

section \<open>The allocation loop\<close>

text \<open>After \<open>n\<close> outbounds: the next mark and the number of marks used, and every key holds the mark of an
  offset below \<open>2 * n\<close> of its own.\<close>

definition indexed :: "(nat \<Rightarrow> 'v) \<Rightarrow> nat \<Rightarrow> ('k \<rightharpoonup> 'v) \<Rightarrow> bool" where
  "indexed f n m \<longleftrightarrow>
     (\<exists>idx. inj_on idx (dom m) \<and> (\<forall>key v. m key = Some v \<longrightarrow> idx key < n \<and> v = f (idx key)))"

lemma inj_on_fresh:
  fixes n :: nat
  assumes "inj_on idx D" and "\<And>z. z \<in> D \<Longrightarrow> idx z < n"
  shows "inj_on (idx(a := n)) (insert a D)"
proof -
  have less: "(idx(a := n)) z < n" if "z \<in> insert a D" "z \<noteq> a" for z using assms(2) [of z] that by simp
  show ?thesis
  proof (rule inj_onI)
    fix x y
    assume xy: "x \<in> insert a D" "y \<in> insert a D" "(idx(a := n)) x = (idx(a := n)) y"
    show "x = y"
    proof (cases "x = a \<or> y = a")
      case True
      then show ?thesis using less [of x] less [of y] xy by (metis fun_upd_same less_irrefl)
    next
      case False
      then have "idx x = idx y" "x \<in> D" "y \<in> D" using xy by simp_all
      then show ?thesis by (rule inj_onD [OF assms(1)])
    qed
  qed
qed

lemma indexed_put:
  assumes "indexed f n m"
  shows "indexed f (Suc n) (m(a \<mapsto> f n))"
proof -
  obtain idx where inj: "inj_on idx (dom m)"
    and idx: "\<And>key v. m key = Some v \<Longrightarrow> idx key < n \<and> v = f (idx key)"
    using assms unfolding indexed_def by blast
  have "inj_on (idx(a := n)) (insert a (dom m))" by (rule inj_on_fresh [OF inj]) (use idx in blast)
  moreover have "(idx(a := n)) key < Suc n \<and> v = f ((idx(a := n)) key)" if "(m(a \<mapsto> f n)) key = Some v" for key v
  proof (cases "key = a")
    case False
    then have "m key = Some v" using that by simp
    note i = idx [OF this]
    show ?thesis using conjunct1 [OF i] conjunct2 [OF i] False by (simp only: fun_upd_other) simp
  qed (use that in simp)
  ultimately show ?thesis unfolding indexed_def by (intro exI [of _ "idx(a := n)"]) simp
qed

definition marks_inv :: "u32 \<Rightarrow> nat \<Rightarrow> nat \<Rightarrow> nat \<Rightarrow> mark_state \<Rightarrow> bool" where
  "marks_inv start k cap n st \<longleftrightarrow>
     ms_current st = start + of_nat (2 * n) * 2 ^ k \<and> ms_count st = of_nat (2 * n) \<and> 2 * n \<le> cap
   \<and> indexed (\<lambda>i. start + of_nat i * 2 ^ k) (2 * n) (map_of (ms_map st))"

lemma marks_inv_start: "marks_inv start k cap 0 \<lparr>ms_map = [], ms_current = start, ms_count = 0\<rparr>"
  by (simp add: marks_inv_def indexed_def)

lemma internal_key_differs [simp]: "internal_detour_mark_key tag \<noteq> tag"
proof
  assume "internal_detour_mark_key tag = tag"
  then have "length (internal_detour_mark_key tag) = length tag" by simp
  then show False by (simp add: internal_detour_mark_key_def)
qed

lemma allocate_one_inv:
  assumes "marks_inv start k (unat max_marks) n st" and "allocate_one (2 ^ k) max_marks st ob = Inr st'"
    and "unat max_marks \<le> 2 ^ 28"
  shows "marks_inv start k (unat max_marks) (Suc n) st'
    \<and> dom (map_of (ms_map st'))
      = {ob_tag ob, internal_detour_mark_key (ob_tag ob)} \<union> dom (map_of (ms_map st))"
proof -
  have cur: "ms_current st = start + of_nat (2 * n) * 2 ^ k" and cnt: "ms_count st = of_nat (2 * n)"
    and le: "2 * n \<le> unat max_marks"
    and idx: "indexed (\<lambda>i. start + of_nat i * 2 ^ k) (2 * n) (map_of (ms_map st))"
    using assms(1) by (auto simp: marks_inv_def)
  have room: "\<not> ms_count st + 2 > max_marks" and st':
    "st' = \<lparr>ms_map = smap_put (internal_detour_mark_key (ob_tag ob)) (ms_current st + 2 ^ k)
                       (smap_put (ob_tag ob) (ms_current st) (ms_map st)),
            ms_current = ms_current st + 2 ^ k + 2 ^ k, ms_count = ms_count st + 2\<rparr>"
    using assms(2) by (auto simp: allocate_one_def split: if_splits)
  have cnt2: "ms_count st + 2 = of_nat (2 * n + 2)" using cnt by simp
  have "unat (of_nat (2 * n + 2) :: u32) = 2 * n + 2"
    by (rule unat_of_nat_u32) (use le assms(3) in simp)
  then have "unat (ms_count st + 2) = 2 * n + 2" by (simp only: cnt2)
  then have cap: "2 * Suc n \<le> unat max_marks" using room by (simp add: word_less_nat_alt)
  let ?f = "\<lambda>i. start + of_nat i * 2 ^ k"
  have map: "map_of (ms_map st') = (map_of (ms_map st))(ob_tag ob \<mapsto> ?f (2 * n),
      internal_detour_mark_key (ob_tag ob) \<mapsto> ?f (Suc (2 * n)))"
    by (simp add: st' map_of_smap_put cur algebra_simps)
  have "indexed ?f (Suc (Suc (2 * n))) (map_of (ms_map st'))"
    unfolding map by (intro indexed_put idx)
  moreover have "ms_current st' = start + of_nat (2 * Suc n) * 2 ^ k" "ms_count st' = of_nat (2 * Suc n)"
    by (simp_all add: st' cur cnt algebra_simps)
  ultimately have "marks_inv start k (unat max_marks) (Suc n) st'" using cap by (simp add: marks_inv_def)
  then show ?thesis unfolding map by (auto simp: dom_def)
qed

lemma allocate_all_inv:
  assumes "fold_result (allocate_one (2 ^ k) max_marks) st obs = Inr st'"
    and "marks_inv start k (unat max_marks) n st" and "unat max_marks \<le> 2 ^ 28"
  shows "\<exists>n'. marks_inv start k (unat max_marks) n' st'
    \<and> dom (map_of (ms_map st')) = ob_tag ` set obs \<union> internal_detour_mark_key ` ob_tag ` set obs
        \<union> dom (map_of (ms_map st))"
  using assms
proof (induction obs arbitrary: st n)
  case Nil
  then show ?case by auto
next
  case (Cons ob obs)
  from Cons.prems(1) obtain st1 where st1: "allocate_one (2 ^ k) max_marks st ob = Inr st1"
    and rest: "fold_result (allocate_one (2 ^ k) max_marks) st1 obs = Inr st'"
    by (auto split: sum.splits)
  note one = allocate_one_inv [OF Cons.prems(2) st1 Cons.prems(3)]
  from Cons.IH [OF rest conjunct1 [OF one] Cons.prems(3)] obtain n' where
    "marks_inv start k (unat max_marks) n' st'"
    and "dom (map_of (ms_map st')) = ob_tag ` set obs \<union> internal_detour_mark_key ` ob_tag ` set obs
        \<union> dom (map_of (ms_map st1))" by blast
  then show ?case using conjunct2 [OF one] by (intro exI [of _ n']) auto
qed

lemma capacity_bound:
  assumes "nibble_mask k r m" and "unat (normalized_fwmark_mask m) = 16 ^ r - 1"
  shows "unat (fwmark_mask_mark_capacity m) \<le> 2 ^ 28 \<and> unat (fwmark_mask_mark_capacity m) \<le> 16 ^ r"
proof (cases "r \<le> 7")
  case True
  then have "(16 :: nat) ^ r \<le> 16 ^ 7" by (rule power_increasing) simp
  moreover have "unat (fwmark_mask_mark_capacity m) \<le> unat (normalized_fwmark_mask m) + 1"
    unfolding fwmark_mask_mark_capacity_def by (simp add: unat_word_ariths)
  ultimately show ?thesis using assms(2) by simp
next
  case False
  then have "r = 8" using assms(1) by (simp add: nibble_mask_def)
  then have "unat (normalized_fwmark_mask m) = unat (- 1 :: u32)"
    using assms(2) by (simp add: unsigned_minus_1_eq_mask mask_eq_exp_minus_1)
  then have "normalized_fwmark_mask m = - 1" by (rule unsigned_word_eqI)
  then show ?thesis by (simp add: fwmark_mask_mark_capacity_def)
qed

lemma allocation_marks:
  assumes "allocate_outbound_marks fwc outbounds = Inr marks"
  shows "\<exists>m. fwmark_mask_value fwc = Inr m
    \<and> dom (map_of marks) = (\<Union>ob \<in> set (filter routable outbounds). {ob_tag ob, internal_detour_mark_key (ob_tag ob)})
    \<and> (\<forall>a b x y. map_of marks a = Some x \<and> map_of marks b = Some y \<and> a \<noteq> b \<longrightarrow> x AND m \<noteq> y AND m)"
proof -
  let ?obs = "sort_key ob_tag (filter routable outbounds)"
  obtain m start st where m: "parse_fwmark_mask_or_throw fwc = Inr m" "validate_fwmark_mask m = Inr ()"
    and run: "fold_result (allocate_one (lowest_bit m) (fwmark_mask_mark_capacity m))
        \<lparr>ms_map = [], ms_current = start, ms_count = 0\<rparr> ?obs = Inr st" and marks: "marks = ms_map st"
    using assms by (auto simp: allocate_outbound_marks_def split: sum.splits)
  from valid_mask_shape [OF m(2)] obtain k r where mask: "nibble_mask k r m" and low: "lowest_bit m = 2 ^ k"
    and norm: "unat (normalized_fwmark_mask m) = 16 ^ r - 1" by blast
  have cap: "unat (fwmark_mask_mark_capacity m) \<le> 2 ^ 28" "unat (fwmark_mask_mark_capacity m) \<le> 16 ^ r"
    using capacity_bound [OF mask norm] by auto
  from allocate_all_inv [OF run [unfolded low] marks_inv_start cap(1)] obtain n where
    inv: "marks_inv start k (unat (fwmark_mask_mark_capacity m)) n st"
    and dom: "dom (map_of marks) = ob_tag ` set ?obs \<union> internal_detour_mark_key ` ob_tag ` set ?obs"
    unfolding marks by auto
  then obtain idx where inj: "inj_on idx (dom (map_of marks))" and le: "2 * n \<le> 16 ^ r"
    and idx: "\<And>key v. map_of marks key = Some v \<Longrightarrow> idx key < 2 * n \<and> v = start + of_nat (idx key) * 2 ^ k"
    using cap(2) unfolding marks_inv_def indexed_def marks by (meson order_trans)
  have "x AND m \<noteq> y AND m" if ab: "map_of marks a = Some x" "map_of marks b = Some y" "a \<noteq> b" for a b x y
  proof -
    have "idx a \<noteq> idx b" using inj ab by (auto dest: inj_onD)
    then show ?thesis using offsets_differ [OF mask, of "idx a" "idx b"] idx [OF ab(1)] idx [OF ab(2)] le by auto
  qed
  moreover have "fwmark_mask_value fwc = Inr m" using m by (simp add: fwmark_mask_value_def)
  ultimately show ?thesis using dom by (intro exI [of _ m]) auto
qed

text \<open>C18. Two marks of an allocation never agree under the mask: whenever allocation succeeds, every routable
  outbound and its internal detour have a mark, and the marks of different keys differ in the bits the mask
  selects, whatever the start value and even where the 32-bit sum wraps around.\<close>

theorem allocated_marks_distinct:
  assumes "allocate_outbound_marks fwc outbounds = Inr marks"
  shows "\<exists>m. fwmark_mask_value fwc = Inr m
    \<and> dom (map_of marks) = (\<Union>ob \<in> set (filter routable outbounds). {ob_tag ob, internal_detour_mark_key (ob_tag ob)})
    \<and> (\<forall>a b x y. map_of marks a = Some x \<and> map_of marks b = Some y \<and> a \<noteq> b \<longrightarrow> x AND m \<noteq> y AND m)"
  using assms by (rule allocation_marks)

lemma default_mask_valid: "validate_fwmark_mask 0x00FF0000 = Inr ()"
proof -
  have low: "lowest_bit 0x00FF0000 = 0x10000" by (simp add: lowest_bit_def)
  have "bit_position 0x10000 = 16" by (rule bit_position_power) simp
  moreover have "full_f_nibbles_loop 0xFF" by (simp add: full_f_nibbles_loop.simps drop_bit_eq_div)
  ultimately show ?thesis
    by (simp add: validate_fwmark_mask_def low normalized_fwmark_mask_def has_consecutive_full_f_nibbles_def)
qed

lemma default_capacity:
  "lowest_bit 0x00FF0000 = 0x10000" "fwmark_mask_mark_capacity 0x00FF0000 = 256"
  by (simp_all add: lowest_bit_def fwmark_mask_mark_capacity_def normalized_fwmark_mask_def)

definition default_fwmark :: fwmark_config where
  "default_fwmark = \<lparr>fwm_mask = None, fwm_start = None\<rparr>"

lemma default_marks: "parse_fwmark_mask_or_throw default_fwmark = Inr 0x00FF0000"
    "parse_fwmark_start_or_throw default_fwmark = Inr 0x00010000"
  by (simp_all add: default_fwmark_def parse_fwmark_mask_or_throw_def parse_fwmark_start_or_throw_def
      parse_fwmark_hex_or_throw_def)

theorem allocated_marks_distinct_witness:
  "\<exists>marks. allocate_outbound_marks default_fwmark [make_outbound ''vpn'' INTERFACE, make_outbound ''skip'' IGNORE] = Inr marks
    \<and> map_of marks ''vpn'' = Some 0x00010000
    \<and> map_of marks (internal_detour_mark_key ''vpn'') = Some 0x00020000
    \<and> dom (map_of marks) = {''vpn'', internal_detour_mark_key ''vpn''}"
proof -
  let ?obs = "[make_outbound ''vpn'' INTERFACE, make_outbound ''skip'' IGNORE]"
  have f: "filter routable ?obs = [make_outbound ''vpn'' INTERFACE]" by (simp add: routable_def make_outbound_def)
  have tag: "ob_tag (make_outbound ''vpn'' INTERFACE) = ''vpn''" by (simp add: make_outbound_def)
  let ?marks = "smap_put (internal_detour_mark_key ''vpn'') 0x00020000 (smap_put ''vpn'' (0x00010000 :: u32) [])"
  have run: "allocate_outbound_marks default_fwmark ?obs = Inr ?marks"
    unfolding allocate_outbound_marks_def f
    by (simp add: default_marks default_mask_valid default_capacity allocate_one_def tag del: smap_put.simps)
  have m: "map_of ?marks = [''vpn'' \<mapsto> 0x00010000, internal_detour_mark_key ''vpn'' \<mapsto> 0x00020000]"
    by (simp only: map_of_smap_put map_of.simps)
  have "dom (map_of ?marks) = (\<Union>ob \<in> set [make_outbound ''vpn'' INTERFACE]. {ob_tag ob, internal_detour_mark_key (ob_tag ob)})"
    using allocated_marks_distinct [OF run] unfolding f by (elim exE conjE)
  then have "dom (map_of ?marks) = {''vpn'', internal_detour_mark_key ''vpn''}" by (simp add: tag del: smap_put.simps)
  then show ?thesis using run by (intro exI [of _ ?marks] conjI) (simp_all only: m, simp_all add: internal_key_differs [symmetric] del: internal_key_differs)
qed

text \<open>A mask of eight full nibbles passes the validation, but its capacity wraps around to 0, so that no
  routable outbound at all is accepted with it.\<close>

lemma full_mask_has_no_capacity: "fwmark_mask_mark_capacity 0xFFFFFFFF = 0"
  by (simp add: fwmark_mask_mark_capacity_def normalized_fwmark_mask_def lowest_bit_def)

lemma full_mask_valid_but_unusable:
  "validate_fwmark_mask 0xFFFFFFFF = Inr ()
   \<and> (\<exists>e. allocate_one (lowest_bit 0xFFFFFFFF) (fwmark_mask_mark_capacity 0xFFFFFFFF)
            \<lparr>ms_map = [], ms_current = start, ms_count = 0\<rparr> ob = Inl e)"
proof -
  have low: "lowest_bit 0xFFFFFFFF = 1" by (simp add: lowest_bit_def)
  have "bit_position 1 = 0" by (simp add: bit_position.simps)
  moreover have "full_f_nibbles_loop 0xFFFFFFFF" by (simp add: full_f_nibbles_loop.simps drop_bit_eq_div)
  ultimately show ?thesis
    by (simp add: validate_fwmark_mask_def low normalized_fwmark_mask_def has_consecutive_full_f_nibbles_def
        full_mask_has_no_capacity allocate_one_def)
qed

end
