(* ===== verification/Routing_Plan.thy ===== *)
theory Routing_Plan
  imports Route_Table Routing_Reconciler Config_Marks "HOL-Library.Product_Lexorder"
begin

text \<open>
  From a configuration to routes and policy rules (\<^verbatim>\<open>src/config/routing_state.cpp\<close>): table numbers, the default
  routes of an outbound, the plan of all routes and rules. The theorems show that tables are never reserved and
  never shared, that marked traffic fails closed and that every table answers all enabled families. The reachability check and the address family check are functions the caller
  supplies; an empty \<^verbatim>\<open>std::function\<close> is \<open>None\<close>.
\<close>

section \<open>Table numbers\<close>

definition is_reserved_table :: "u32 \<Rightarrow> bool" where
  "is_reserved_table tid \<longleftrightarrow> tid = 0 \<or> tid = 128 \<or> (tid \<ge> 250 \<and> tid \<le> 260) \<or> tid \<ge> 32000"

lemma unat_distance_less:
  fixes x y :: u32
  assumes "x \<noteq> y"
  shows "unat (y - (x + 1)) < unat (y - x)"
proof -
  have "y - x \<noteq> 0" using assms by simp
  moreover have "y - (x + 1) = (y - x) - 1" by simp
  ultimately show ?thesis by (metis measure_unat)
qed

text \<open>The loop of \<^verbatim>\<open>safe_table_id\<close>. The search goes round the 32-bit space, so it always ends: below the
  offset the count grows, and between two increments the identifier moves towards table 1.\<close>

function safe_table_loop :: "u32 \<Rightarrow> u32 \<Rightarrow> u32 \<Rightarrow> u32" where
  "safe_table_loop offset tid cnt =
     (if \<not> is_reserved_table tid
      then if cnt = offset then tid else safe_table_loop offset (tid + 1) (cnt + 1)
      else safe_table_loop offset (tid + 1) cnt)"
  by pat_completeness auto

termination
proof (relation "measures [\<lambda>(offset, tid, cnt). unat (offset - cnt), \<lambda>(offset, tid, cnt). unat (1 - tid)]")
  show "wf (measures [\<lambda>(offset, tid, cnt). unat (offset - cnt), \<lambda>(offset, tid, cnt). unat (1 - tid)])" by simp
next
  fix offset tid cnt :: u32
  assume "\<not> is_reserved_table tid" "cnt \<noteq> offset"
  then show "((offset, tid + 1, cnt + 1), (offset, tid, cnt)) \<in> measures
      [\<lambda>(offset, tid, cnt). unat (offset - cnt), \<lambda>(offset, tid, cnt). unat (1 - tid)]"
    using unat_distance_less by simp
next
  fix offset tid cnt :: u32
  assume "\<not> \<not> is_reserved_table tid"
  then have "tid \<noteq> 1" by (auto simp: is_reserved_table_def word_le_nat_alt)
  then show "((offset, tid + 1, cnt), (offset, tid, cnt)) \<in> measures
      [\<lambda>(offset, tid, cnt). unat (offset - cnt), \<lambda>(offset, tid, cnt). unat (1 - tid)]"
    using unat_distance_less [of tid 1] by simp
qed

declare safe_table_loop.simps [simp del]

definition safe_table_id :: "u32 \<Rightarrow> u32 \<Rightarrow> u32" where
  "safe_table_id table_start offset = safe_table_loop offset table_start 0"

section \<open>Outbounds\<close>

fun find_outbound :: "outbound list \<Rightarrow> string \<Rightarrow> outbound option" where
  "find_outbound [] t = None"
| "find_outbound (ob # obs) t = (if ob_tag ob = t then Some ob else find_outbound obs t)"

definition resolve_urltest_selection :: "(string, string) smap option \<Rightarrow> string \<Rightarrow> string" where
  "resolve_urltest_selection selections urltest_tag =
     (case selections of
        None \<Rightarrow> []
      | Some m \<Rightarrow> (case map_of m urltest_tag of None \<Rightarrow> [] | Some sel \<Rightarrow> sel))"

definition strict_enforcement_enabled :: "config \<Rightarrow> outbound \<Rightarrow> bool" where
  "strict_enforcement_enabled cfg ob =
     (case ob_strict_enforcement ob of
        Some b \<Rightarrow> b
      | None \<Rightarrow> value_or (dm_strict_enforcement (value_or (cfg_daemon cfg) default_daemon_config)) False)"

definition strict_enforcement_action :: "config \<Rightarrow> outbound \<Rightarrow> rule_action" where
  "strict_enforcement_action cfg ob =
     (let configured =
            (if ob_strict_enforcement_action ob \<noteq> None then ob_strict_enforcement_action ob
             else dm_strict_enforcement_action (value_or (cfg_daemon cfg) default_daemon_config))
      in if configured = Some StrictBlackhole then RuleBlackhole else RuleUnreachable)"

section \<open>Routes of an outbound\<close>

type_synonym reachability = "(outbound \<Rightarrow> bool) option"
type_synonym family_check = "(outbound \<Rightarrow> int \<Rightarrow> bool) option"

definition outbound_family_available :: "outbound \<Rightarrow> int \<Rightarrow> family_check \<Rightarrow> bool" where
  "outbound_family_available ob family avail =
     (if family = AF_INET \<and> ob_gateway ob \<noteq> None then True
      else if family = AF_INET6 \<and> ob_gateway6 ob \<noteq> None then True
      else (case avail of None \<Rightarrow> True | Some f \<Rightarrow> f ob family))"

text \<open>The lambda \<^verbatim>\<open>build_route\<close>.\<close>

definition default_route :: "u32 \<Rightarrow> outbound \<Rightarrow> int \<Rightarrow> string option \<Rightarrow> route_spec" where
  "default_route table_id ob family gateway =
     default_route_spec\<lparr>rs_destination := ''default'', rs_table := table_id, rs_family := family,
       rs_interface := Some (value_or (ob_interface ob) []), rs_gateway := gateway\<rparr>"

definition make_default_routes :: "u32 \<Rightarrow> outbound \<Rightarrow> family_check \<Rightarrow> route_spec list" where
  "make_default_routes table_id ob avail =
     (if ob_gateway ob = None \<and> ob_gateway6 ob = None
      then (if outbound_family_available ob AF_INET avail then [default_route table_id ob AF_INET None] else [])
         @ (if outbound_family_available ob AF_INET6 avail then [default_route table_id ob AF_INET6 None] else [])
      else (if ob_gateway ob \<noteq> None then [default_route table_id ob AF_INET (ob_gateway ob)] else [])
         @ (if ob_gateway6 ob \<noteq> None then [default_route table_id ob AF_INET6 (ob_gateway6 ob)] else []))"

definition kUnreachableRouteMetric :: u32 where
  "kUnreachableRouteMetric = 65535"

definition unreachable_route :: "u32 \<Rightarrow> u32 \<Rightarrow> int \<Rightarrow> route_spec" where
  "unreachable_route table_id metric family =
     default_route_spec\<lparr>rs_destination := ''default'', rs_table := table_id, rs_unreachable := True,
       rs_metric := metric, rs_family := family\<rparr>"

definition make_family_closure_routes :: "u32 \<Rightarrow> outbound \<Rightarrow> family_check \<Rightarrow> route_spec list" where
  "make_family_closure_routes table_id ob avail =
     (let has_gateway4 = ob_gateway ob \<noteq> None;
          has_gateway6 = ob_gateway6 ob \<noteq> None;
          route4 = has_gateway4 \<or> (\<not> has_gateway6 \<and> outbound_family_available ob AF_INET avail);
          route6 = has_gateway6 \<or> (\<not> has_gateway4 \<and> outbound_family_available ob AF_INET6 avail)
      in (if route4 then [] else [unreachable_route table_id kUnreachableRouteMetric AF_INET])
       @ (if route6 then [] else [unreachable_route table_id kUnreachableRouteMetric AF_INET6]))"

definition make_unreachable_routes :: "u32 \<Rightarrow> route_spec list" where
  "make_unreachable_routes table_id =
     map (unreachable_route table_id kUnreachableRouteMetric) [AF_INET, AF_INET6]"

text \<open>The groups in order of weight (a stable sort), and in each the children that exist.\<close>

definition ordered_urltest_children :: "outbound list \<Rightarrow> outbound \<Rightarrow> outbound list" where
  "ordered_urltest_children outbounds urltest =
     (case ob_outbound_groups urltest of
        None \<Rightarrow> []
      | Some groups \<Rightarrow>
          concat (map (\<lambda>g. concat (map (\<lambda>t. case find_outbound outbounds t of None \<Rightarrow> [] | Some c \<Rightarrow> [c])
                                       (grp_outbounds g)))
                      (sort_key (\<lambda>g. value_or (grp_weight g) 1) groups)))"

section \<open>The plan\<close>

fun outbound_rank :: "outbound_type \<Rightarrow> nat" where
  "outbound_rank INTERFACE = 0"
| "outbound_rank TABLE = 1"
| "outbound_rank URLTEST = 2"
| "outbound_rank BLACKHOLE = 3"
| "outbound_rank IGNORE = 3"

definition sort_outbounds :: "outbound list \<Rightarrow> outbound list" where
  "sort_outbounds obs = sort_key (\<lambda>ob. (outbound_rank (ob_type ob), ob_tag ob)) obs"

record plan_env =
  pe_cfg :: config
  pe_marks :: "(string, u32) smap"
  pe_reach :: reachability
  pe_selections :: "(string, string) smap option"
  pe_ipv6 :: bool
  pe_family :: family_check

record plan_state =
  pl_routes :: "route_spec list"
  pl_rules :: "rule_spec list"
  pl_table_offset :: u32
  pl_rule_offset :: u32

definition plan_table_start :: "config \<Rightarrow> u32" where
  "plan_table_start cfg =
     to_u32 (value_or (ipr_table_start (value_or (cfg_iproute cfg) default_iproute_config)) 150)"

definition plan_priority_start :: "config \<Rightarrow> u32" where
  "plan_priority_start cfg =
     to_u32 (value_or (ipr_rule_priority_start (value_or (cfg_iproute cfg) default_iproute_config))
               (uint (plan_table_start cfg)))"

definition internal_detours :: "config \<Rightarrow> string set" where
  "internal_detours cfg =
     set (List.map_filter (\<lambda>nl. lst_detour (snd nl)) (value_or (cfg_lists cfg) []))
   \<union> set (List.map_filter srv_detour
            (value_or (dns_servers (value_or (cfg_dns cfg) default_dns_config)) []))"

text \<open>The lambda \<^verbatim>\<open>add_route_if_enabled\<close>, over a list of routes.\<close>

definition add_routes_if_enabled :: "plan_env \<Rightarrow> route_spec list \<Rightarrow> plan_state \<Rightarrow> plan_state" where
  "add_routes_if_enabled env rs p =
     p\<lparr>pl_routes := pl_routes p @ filter (\<lambda>r. \<not> (\<not> pe_ipv6 env \<and> rs_family r = AF_INET6)) rs\<rparr>"

definition lookup_rule :: "plan_env \<Rightarrow> u32 \<Rightarrow> u32 \<Rightarrow> u32 \<Rightarrow> u32 \<Rightarrow> rule_spec" where
  "lookup_rule env fwmask mark table rule_offset =
     default_rule_spec\<lparr>ru_fwmark := mark, ru_fwmask := fwmask, ru_table := table,
       ru_priority := plan_priority_start (pe_cfg env) + rule_offset * 2,
       ru_family := (if \<not> pe_ipv6 env then AF_INET else 0)\<rparr>"

definition guard_rule :: "plan_env \<Rightarrow> outbound \<Rightarrow> rule_spec \<Rightarrow> rule_spec" where
  "guard_rule env ob lookup =
     lookup\<lparr>ru_table := 0, ru_priority := ru_priority lookup + 1,
       ru_action := strict_enforcement_action (pe_cfg env) ob\<rparr>"

definition add_lookup_and_guard ::
  "plan_env \<Rightarrow> u32 \<Rightarrow> u32 \<Rightarrow> u32 \<Rightarrow> outbound \<Rightarrow> bool \<Rightarrow> plan_state \<Rightarrow> plan_state" where
  "add_lookup_and_guard env fwmask mark table ob guard_required p =
     (let lookup = lookup_rule env fwmask mark table (pl_rule_offset p)
      in p\<lparr>pl_rules := pl_rules p @ lookup # (if guard_required then [guard_rule env ob lookup] else []),
           pl_rule_offset := pl_rule_offset p + 1\<rparr>)"

definition add_internal_detour_guard :: "plan_env \<Rightarrow> u32 \<Rightarrow> u32 \<Rightarrow> outbound \<Rightarrow> plan_state \<Rightarrow> plan_state" where
  "add_internal_detour_guard env fwmask table ob p =
     (case map_of (pe_marks env) (internal_detour_mark_key (ob_tag ob)) of
        None \<Rightarrow> p
      | Some mark \<Rightarrow>
          (if ob_tag ob \<in> internal_detours (pe_cfg env)
           then add_lookup_and_guard env fwmask mark table ob True p else p))"

definition reachable :: "plan_env \<Rightarrow> outbound \<Rightarrow> bool" where
  "reachable env ob = (case pe_reach env of None \<Rightarrow> True | Some f \<Rightarrow> f ob)"

definition plan_interface :: "plan_env \<Rightarrow> u32 \<Rightarrow> outbound \<Rightarrow> plan_state \<Rightarrow> plan_state" where
  "plan_interface env fwmask ob p =
     (case map_of (pe_marks env) (ob_tag ob) of
        None \<Rightarrow> p
      | Some mark \<Rightarrow>
          (let table_id = safe_table_id (plan_table_start (pe_cfg env)) (pl_table_offset p);
               strict = strict_enforcement_enabled (pe_cfg env) ob;
               p1 = p\<lparr>pl_table_offset := pl_table_offset p + 1\<rparr>;
               p2 = (if reachable env ob
                     then add_routes_if_enabled env
                            (make_default_routes table_id ob (pe_family env)
                             @ make_family_closure_routes table_id ob (pe_family env)) p1
                     else if strict then add_routes_if_enabled env (make_unreachable_routes table_id) p1
                     else p1)
           in add_internal_detour_guard env fwmask table_id ob
                (add_lookup_and_guard env fwmask mark table_id ob strict p2)))"

definition plan_table :: "plan_env \<Rightarrow> u32 \<Rightarrow> outbound \<Rightarrow> plan_state \<Rightarrow> plan_state" where
  "plan_table env fwmask ob p =
     (case map_of (pe_marks env) (ob_tag ob) of
        None \<Rightarrow> p
      | Some mark \<Rightarrow>
          (let table = to_u32 (value_or (ob_table ob) 0);
               p1 = add_internal_detour_guard env fwmask table ob
                      (add_lookup_and_guard env fwmask mark table ob (strict_enforcement_enabled (pe_cfg env) ob) p)
           in p1\<lparr>pl_table_offset := pl_table_offset p1 + 1\<rparr>))"

text \<open>The loop over the children of a URL test, with the metric counting up.\<close>

fun plan_candidates :: "plan_env \<Rightarrow> u32 \<Rightarrow> u32 \<Rightarrow> outbound list \<Rightarrow> plan_state \<Rightarrow> plan_state" where
  "plan_candidates env table_id metric [] p = p"
| "plan_candidates env table_id metric (child # cs) p =
     (if ob_type child \<noteq> INTERFACE then plan_candidates env table_id metric cs p
      else if \<not> reachable env child then plan_candidates env table_id metric cs p
      else plan_candidates env table_id (metric + 1) cs
             (add_routes_if_enabled env
                (map (\<lambda>r. r\<lparr>rs_metric := metric\<rparr>)
                   (make_default_routes table_id child (pe_family env)
                    @ make_family_closure_routes table_id child (pe_family env))) p))"

text \<open>The candidates of a URL test that has a selection: the selected child first, then all children.\<close>

definition plan_selection ::
  "plan_env \<Rightarrow> outbound list \<Rightarrow> u32 \<Rightarrow> string \<Rightarrow> outbound list \<Rightarrow> plan_state \<Rightarrow> plan_state" where
  "plan_selection env outbounds table_id selected_tag ordered_children p =
     (let p1 = (case find_outbound outbounds selected_tag of
                  None \<Rightarrow> p
                | Some selected \<Rightarrow>
                    (if ob_type selected = INTERFACE \<and> reachable env selected
                     then add_routes_if_enabled env
                            (make_default_routes table_id selected (pe_family env)
                             @ make_family_closure_routes table_id selected (pe_family env)) p
                     else p))
      in plan_candidates env table_id 1 ordered_children p1)"

definition plan_urltest :: "plan_env \<Rightarrow> u32 \<Rightarrow> outbound list \<Rightarrow> outbound \<Rightarrow> plan_state \<Rightarrow> plan_state" where
  "plan_urltest env fwmask outbounds ob p =
     (case map_of (pe_marks env) (ob_tag ob) of
        None \<Rightarrow> p
      | Some mark \<Rightarrow>
          (let table_id = safe_table_id (plan_table_start (pe_cfg env)) (pl_table_offset p);
               p1 = p\<lparr>pl_table_offset := pl_table_offset p + 1\<rparr>;
               ordered_children = ordered_urltest_children outbounds ob;
               selected_tag = resolve_urltest_selection (pe_selections env) (ob_tag ob);
               p2 = (if selected_tag \<noteq> []
                     then plan_selection env outbounds table_id selected_tag ordered_children p1 else p1);
               p3 = (if length (pl_routes p2) = length (pl_routes p1)
                     then add_routes_if_enabled env (make_unreachable_routes table_id) p2 else p2)
           in add_internal_detour_guard env fwmask table_id ob
                (add_lookup_and_guard env fwmask mark table_id ob True p3)))"

definition plan_outbound :: "plan_env \<Rightarrow> u32 \<Rightarrow> outbound list \<Rightarrow> outbound \<Rightarrow> plan_state \<Rightarrow> plan_state" where
  "plan_outbound env fwmask outbounds ob p =
     (if ob_type ob = INTERFACE then plan_interface env fwmask ob p
      else if ob_type ob = TABLE then plan_table env fwmask ob p
      else if ob_type ob = URLTEST then plan_urltest env fwmask outbounds ob p
      else p)"

definition empty_plan :: plan_state where
  "empty_plan = \<lparr>pl_routes = [], pl_rules = [], pl_table_offset = 0, pl_rule_offset = 0\<rparr>"

text \<open>Everything \<^verbatim>\<open>populate_routing_state\<close> does before it touches the trackers.\<close>

definition plan_routing :: "plan_env \<Rightarrow> plan_state result" where
  "plan_routing env =
     (let outbounds = sort_outbounds (value_or (cfg_outbounds (pe_cfg env)) [])
      in case fwmark_mask_value (value_or (cfg_fwmark (pe_cfg env)) default_fwmark_config) of
           Inl e \<Rightarrow> Inl e
         | Inr fwmask \<Rightarrow> Inr (fold (plan_outbound env fwmask outbounds) outbounds empty_plan))"

section \<open>Tables\<close>

text \<open>The table numbers from a start on that may be used, in order.\<close>

definition usable_tables :: "u32 \<Rightarrow> nat list" where
  "usable_tables from_id = filter (\<lambda>t. \<not> is_reserved_table (of_nat t)) [unat from_id ..< 32000]"

lemma not_reserved_bound: "\<not> is_reserved_table tid \<Longrightarrow> unat tid < 32000"
  by (auto simp: is_reserved_table_def word_le_nat_alt)

lemma usable_tables_step:
  "usable_tables tid =
     (if unat tid < 32000
      then (if is_reserved_table tid then [] else [unat tid]) @ usable_tables (tid + 1) else [])"
proof (cases "unat tid < 32000")
  case True
  then have "unat (tid + 1) = Suc (unat tid)" by (simp add: unat_word_ariths)
  then show ?thesis using True by (simp add: usable_tables_def upt_conv_Cons del: upt_rec_numeral)
qed (simp add: usable_tables_def)

lemma distinct_usable_tables: "distinct (usable_tables tid)"
  by (simp add: usable_tables_def del: upt_rec_numeral)

lemma safe_table_loop_nth:
  assumes "cnt \<le> offset" and "unat offset - unat cnt < length (usable_tables tid)"
  shows "unat (safe_table_loop offset tid cnt) = usable_tables tid ! (unat offset - unat cnt)"
  using assms
proof (induction offset tid cnt rule: safe_table_loop.induct)
  case (1 offset tid cnt)
  have lt: "unat tid < 32000" using 1(4) usable_tables_step [of tid] by (cases "unat tid < 32000") simp_all
  show ?case
  proof (cases "is_reserved_table tid")
    case True
    have "usable_tables tid = usable_tables (tid + 1)" using True lt usable_tables_step [of tid] by simp
    then show ?thesis using 1(2) [OF _ 1(3)] 1(4) True by (simp add: safe_table_loop.simps [of offset tid])
  next
    case False
    have u: "usable_tables tid = unat tid # usable_tables (tid + 1)" using False lt usable_tables_step [of tid] by simp
    show ?thesis
    proof (cases "cnt = offset")
      case True
      then show ?thesis using False u by (simp add: safe_table_loop.simps [of offset tid])
    next
      case ne: False
      with 1(3) have less: "cnt < offset" by simp
      have lo: "unat cnt < unat offset" using less by (simp add: word_less_nat_alt)
      have "Suc (unat cnt) < 4294967296" using lo unat_u32_less [of offset] by linarith
      then have c: "unat (cnt + 1) = Suc (unat cnt)" "cnt + 1 \<le> offset"
        using less by (simp_all add: unat_word_ariths inc_le)
      from lo have d: "unat offset - unat cnt = Suc (unat offset - unat (cnt + 1))" using c(1) by simp
      have "unat (safe_table_loop offset (tid + 1) (cnt + 1))
          = usable_tables (tid + 1) ! (unat offset - unat (cnt + 1))"
        by (rule 1(1)) (use False ne c(2) 1(4) u d in auto)
      then show ?thesis using False ne u d by (simp add: safe_table_loop.simps [of offset tid])
    qed
  qed
qed

text \<open>C24. The table number chosen for the \<open>n\<close>-th table is the \<open>n\<close>-th number from the configured start that
  is not reserved, as long as there is one below the system range; so different positions never share a table.\<close>

theorem safe_table_id_nth:
  assumes "unat offset < length (usable_tables table_start)"
  shows "unat (safe_table_id table_start offset) = usable_tables table_start ! unat offset
    \<and> \<not> is_reserved_table (safe_table_id table_start offset)
    \<and> (\<forall>other. unat other < length (usable_tables table_start) \<and> other \<noteq> offset
         \<longrightarrow> safe_table_id table_start other \<noteq> safe_table_id table_start offset)"
proof -
  have nth: "unat (safe_table_id table_start n) = usable_tables table_start ! unat n"
    if "unat n < length (usable_tables table_start)" for n
    using safe_table_loop_nth [of 0 n table_start] that by (simp add: safe_table_id_def)
  have "usable_tables table_start ! unat offset \<in> set (usable_tables table_start)" using assms by (rule nth_mem)
  then have "\<not> is_reserved_table (of_nat (unat (safe_table_id table_start offset)))"
    unfolding nth [OF assms] by (simp add: usable_tables_def del: upt_rec_numeral)
  then have "\<not> is_reserved_table (safe_table_id table_start offset)" by simp
  moreover have "safe_table_id table_start other \<noteq> safe_table_id table_start offset"
    if "unat other < length (usable_tables table_start)" "other \<noteq> offset" for other
  proof
    assume eq: "safe_table_id table_start other = safe_table_id table_start offset"
    then have "usable_tables table_start ! unat other = usable_tables table_start ! unat offset"
      using nth [OF that(1)] nth [OF assms] by simp
    then have "unat other = unat offset"
      using nth_eq_iff_index_eq [OF distinct_usable_tables that(1) assms] by simp
    then have "other = offset" by (rule unsigned_word_eqI)
    with that(2) show False ..
  qed
  ultimately show ?thesis using nth [OF assms] by blast
qed

theorem safe_table_id_nth_witness:
  "unat (3 :: u32) < length (usable_tables 127) \<and> safe_table_id 127 3 = 131"
proof -
  have u: "usable_tables 127 = 127 # 129 # 130 # 131 # usable_tables 132"
    using usable_tables_step [of 127] usable_tables_step [of 128] usable_tables_step [of 129]
      usable_tables_step [of 130] usable_tables_step [of 131] by (simp add: is_reserved_table_def)
  then have len: "unat (3 :: u32) < length (usable_tables 127)" by simp
  from safe_table_id_nth [OF this] have "unat (safe_table_id 127 3) = unat (131 :: u32)" by (simp add: u)
  then have "safe_table_id 127 3 = 131" by (rule unsigned_word_eqI)
  with len show ?thesis by blast
qed

section \<open>The rules an outbound contributes\<close>

lemma add_lookup_and_guard_simps [simp]:
  "pl_routes (add_lookup_and_guard env fwmask mark table ob g p) = pl_routes p"
  "pl_table_offset (add_lookup_and_guard env fwmask mark table ob g p) = pl_table_offset p"
  "pl_rule_offset (add_lookup_and_guard env fwmask mark table ob g p) = pl_rule_offset p + 1"
  by (simp_all add: add_lookup_and_guard_def Let_def)

lemma add_routes_simps [simp]:
  "pl_rules (add_routes_if_enabled env rs p) = pl_rules p"
  "pl_table_offset (add_routes_if_enabled env rs p) = pl_table_offset p"
  "pl_rule_offset (add_routes_if_enabled env rs p) = pl_rule_offset p"
  by (simp_all add: add_routes_if_enabled_def)

lemma add_internal_simps [simp]:
  "pl_routes (add_internal_detour_guard env fwmask table ob p) = pl_routes p"
  "pl_table_offset (add_internal_detour_guard env fwmask table ob p) = pl_table_offset p"
  by (simp_all add: add_internal_detour_guard_def split: option.split)

lemma plan_candidates_simps [simp]:
  "pl_rules (plan_candidates env table metric cs p) = pl_rules p"
  "pl_table_offset (plan_candidates env table metric cs p) = pl_table_offset p"
  "pl_rule_offset (plan_candidates env table metric cs p) = pl_rule_offset p"
  by (induction env table metric cs p rule: plan_candidates.induct) simp_all

lemma plan_selection_simps [simp]:
  "pl_rules (plan_selection env obs table sel cs p) = pl_rules p"
  "pl_table_offset (plan_selection env obs table sel cs p) = pl_table_offset p"
  "pl_rule_offset (plan_selection env obs table sel cs p) = pl_rule_offset p"
  by (simp_all add: plan_selection_def Let_def split: option.split)

text \<open>A lookup with its guard, the pair of the internal detour, and all rules of an outbound.\<close>

definition rule_pair :: "plan_env \<Rightarrow> u32 \<Rightarrow> u32 \<Rightarrow> u32 \<Rightarrow> outbound \<Rightarrow> bool \<Rightarrow> u32 \<Rightarrow> rule_spec list" where
  "rule_pair env fwmask mark table ob g off =
     lookup_rule env fwmask mark table off
       # (if g then [guard_rule env ob (lookup_rule env fwmask mark table off)] else [])"

definition detour_pair :: "plan_env \<Rightarrow> u32 \<Rightarrow> u32 \<Rightarrow> outbound \<Rightarrow> u32 \<Rightarrow> rule_spec list" where
  "detour_pair env fwmask table ob off =
     (case map_of (pe_marks env) (internal_detour_mark_key (ob_tag ob)) of
        None \<Rightarrow> []
      | Some mark \<Rightarrow> (if ob_tag ob \<in> internal_detours (pe_cfg env)
                     then rule_pair env fwmask mark table ob True off else []))"

definition outbound_table_id :: "plan_env \<Rightarrow> outbound \<Rightarrow> u32 \<Rightarrow> u32" where
  "outbound_table_id env ob table_offset =
     (if ob_type ob = TABLE then to_u32 (value_or (ob_table ob) 0)
      else safe_table_id (plan_table_start (pe_cfg env)) table_offset)"

definition guarded :: "plan_env \<Rightarrow> outbound \<Rightarrow> bool" where
  "guarded env ob \<longleftrightarrow> ob_type ob = URLTEST \<or> strict_enforcement_enabled (pe_cfg env) ob"

definition outbound_rules :: "plan_env \<Rightarrow> u32 \<Rightarrow> outbound \<Rightarrow> u32 \<Rightarrow> u32 \<Rightarrow> rule_spec list" where
  "outbound_rules env fwmask ob toff off =
     (if routable ob
      then (case map_of (pe_marks env) (ob_tag ob) of
              None \<Rightarrow> []
            | Some mark \<Rightarrow> rule_pair env fwmask mark (outbound_table_id env ob toff) ob (guarded env ob) off
                @ detour_pair env fwmask (outbound_table_id env ob toff) ob (off + 1))
      else [])"

definition detour_pairs :: "plan_env \<Rightarrow> outbound \<Rightarrow> u32" where
  "detour_pairs env ob =
     (if map_of (pe_marks env) (internal_detour_mark_key (ob_tag ob)) \<noteq> None
         \<and> ob_tag ob \<in> internal_detours (pe_cfg env) then 1 else 0)"

definition outbound_pairs :: "plan_env \<Rightarrow> outbound \<Rightarrow> u32" where
  "outbound_pairs env ob =
     (if routable ob \<and> map_of (pe_marks env) (ob_tag ob) \<noteq> None then 1 + detour_pairs env ob else 0)"

lemma add_internal_rules [simp]:
  "pl_rules (add_internal_detour_guard env fwmask table ob p)
     = pl_rules p @ detour_pair env fwmask table ob (pl_rule_offset p)"
  "pl_rule_offset (add_internal_detour_guard env fwmask table ob p) = pl_rule_offset p + detour_pairs env ob"
  by (auto simp: add_internal_detour_guard_def detour_pair_def detour_pairs_def add_lookup_and_guard_def rule_pair_def
      Let_def split: option.split)

lemma add_lookup_rules [simp]:
  "pl_rules (add_lookup_and_guard env fwmask mark table ob g p)
     = pl_rules p @ rule_pair env fwmask mark table ob g (pl_rule_offset p)"
  by (simp add: add_lookup_and_guard_def rule_pair_def Let_def)

lemma plan_outbound_rules:
  "pl_rules (plan_outbound env fwmask obs ob p)
     = pl_rules p @ outbound_rules env fwmask ob (pl_table_offset p) (pl_rule_offset p)"
  "pl_rule_offset (plan_outbound env fwmask obs ob p) = pl_rule_offset p + outbound_pairs env ob"
  by (auto simp: plan_outbound_def plan_interface_def plan_table_def plan_urltest_def outbound_rules_def
      outbound_pairs_def outbound_table_id_def guarded_def routable_def Let_def split: option.split)

section \<open>Priorities\<close>

text \<open>The rules of a plan state are in the order of their priorities, and all priorities given out so far lie
  below the next one.\<close>

definition priorities_inv :: "u32 \<Rightarrow> plan_state \<Rightarrow> bool" where
  "priorities_inv start p \<longleftrightarrow>
     sorted_wrt (<) (map (unat \<circ> ru_priority) (pl_rules p))
     \<and> (\<forall>r \<in> set (pl_rules p). unat (ru_priority r) < unat start + 2 * unat (pl_rule_offset p))"

lemma pair_priorities:
  assumes "unat (plan_priority_start (pe_cfg env)) + 2 * unat off + 2 \<le> 2 ^ 32"
  shows "unat (ru_priority (lookup_rule env fwmask mark table off))
      = unat (plan_priority_start (pe_cfg env)) + 2 * unat off"
    and "unat (ru_priority (guard_rule env ob (lookup_rule env fwmask mark table off)))
      = unat (plan_priority_start (pe_cfg env)) + 2 * unat off + 1"
proof -
  let ?s = "plan_priority_start (pe_cfg env)"
  have e: "?s + off * 2 = of_nat (unat ?s + 2 * unat off)" "?s + off * 2 + 1 = of_nat (unat ?s + 2 * unat off + 1)"
    by simp_all
  show "unat (ru_priority (lookup_rule env fwmask mark table off)) = unat ?s + 2 * unat off"
    using assms unat_of_nat_u32 [of "unat ?s + 2 * unat off"]
    unfolding lookup_rule_def default_rule_spec_def by (simp add: mult.commute)
  show "unat (ru_priority (guard_rule env ob (lookup_rule env fwmask mark table off))) = unat ?s + 2 * unat off + 1"
    using assms unat_of_nat_u32 [of "unat ?s + 2 * unat off + 1"]
    unfolding lookup_rule_def guard_rule_def default_rule_spec_def by (simp add: ac_simps)
qed

lemma add_pair_priorities:
  assumes "priorities_inv (plan_priority_start (pe_cfg env)) p"
    and "unat (plan_priority_start (pe_cfg env)) + 2 * unat (pl_rule_offset p) + 2 \<le> 2 ^ 32"
  shows "priorities_inv (plan_priority_start (pe_cfg env)) (add_lookup_and_guard env fwmask mark table ob g p)"
    and "unat (pl_rule_offset (add_lookup_and_guard env fwmask mark table ob g p)) = Suc (unat (pl_rule_offset p))"
proof -
  have "2 * unat (pl_rule_offset p) < 2 ^ 32" using assms(2) by linarith
  then have "unat (pl_rule_offset p + 1) = Suc (unat (pl_rule_offset p))" by (simp add: unat_word_ariths)
  then show "unat (pl_rule_offset (add_lookup_and_guard env fwmask mark table ob g p)) = Suc (unat (pl_rule_offset p))"
    by simp
  then show "priorities_inv (plan_priority_start (pe_cfg env)) (add_lookup_and_guard env fwmask mark table ob g p)"
    using assms(1) pair_priorities [OF assms(2)]
    by (auto simp: priorities_inv_def sorted_wrt_append rule_pair_def)
qed

text \<open>The part of a planning step that concerns the rules, as a function of the rules alone.\<close>

lemma priorities_inv_cong:
  "pl_rules p = pl_rules q \<Longrightarrow> pl_rule_offset p = pl_rule_offset q \<Longrightarrow> priorities_inv s p = priorities_inv s q"
  by (simp add: priorities_inv_def)

definition rules_step :: "plan_env \<Rightarrow> u32 \<Rightarrow> outbound \<Rightarrow> plan_state \<Rightarrow> plan_state" where
  "rules_step env fwmask ob p =
     (if routable ob
      then (case map_of (pe_marks env) (ob_tag ob) of
              None \<Rightarrow> p
            | Some mark \<Rightarrow>
                (let table = outbound_table_id env ob (pl_table_offset p)
                 in add_internal_detour_guard env fwmask table ob
                      (add_lookup_and_guard env fwmask mark table ob (guarded env ob) p)))
      else p)"

lemma rules_step_agrees:
  "pl_rules (plan_outbound env fwmask obs ob p) = pl_rules (rules_step env fwmask ob p)"
  "pl_rule_offset (plan_outbound env fwmask obs ob p) = pl_rule_offset (rules_step env fwmask ob p)"
  by (auto simp: plan_outbound_rules rules_step_def outbound_rules_def outbound_pairs_def Let_def split: option.split)

lemma plan_outbound_priorities:
  assumes "priorities_inv (plan_priority_start (pe_cfg env)) p"
    and "unat (plan_priority_start (pe_cfg env)) + 2 * unat (pl_rule_offset p) + 4 \<le> 2 ^ 32"
  shows "priorities_inv (plan_priority_start (pe_cfg env)) (plan_outbound env fwmask obs ob p)
    \<and> unat (pl_rule_offset (plan_outbound env fwmask obs ob p)) \<le> unat (pl_rule_offset p) + 2"
proof -
  have "priorities_inv (plan_priority_start (pe_cfg env)) (rules_step env fwmask ob p)
      \<and> unat (pl_rule_offset (rules_step env fwmask ob p)) \<le> unat (pl_rule_offset p) + 2"
  proof (cases "routable ob \<and> map_of (pe_marks env) (ob_tag ob) \<noteq> None")
    case True
    then obtain mark where m: "routable ob" "map_of (pe_marks env) (ob_tag ob) = Some mark" by auto
    let ?t = "outbound_table_id env ob (pl_table_offset p)"
    let ?p1 = "add_lookup_and_guard env fwmask mark ?t ob (guarded env ob) p"
    have r: "rules_step env fwmask ob p = add_internal_detour_guard env fwmask ?t ob ?p1"
      using m by (simp add: rules_step_def Let_def)
    have p1: "priorities_inv (plan_priority_start (pe_cfg env)) ?p1" "unat (pl_rule_offset ?p1) = Suc (unat (pl_rule_offset p))"
      by (rule add_pair_priorities [OF assms(1)], use assms(2) in linarith)+
    have lim: "unat (plan_priority_start (pe_cfg env)) + 2 * unat (pl_rule_offset ?p1) + 2 \<le> 2 ^ 32"
      unfolding p1(2) using assms(2) by simp
    show ?thesis
      unfolding r add_internal_detour_guard_def
      using add_pair_priorities [OF p1(1) lim] p1 by (auto split: option.split)
  qed (use assms(1) in \<open>auto simp: rules_step_def split: option.split\<close>)
  then show ?thesis
    using priorities_inv_cong [OF rules_step_agrees] by (simp add: rules_step_agrees)
qed

lemma plan_fold_priorities:
  assumes "priorities_inv (plan_priority_start (pe_cfg env)) p"
    and "unat (plan_priority_start (pe_cfg env)) + 2 * unat (pl_rule_offset p) + 4 * length xs \<le> 2 ^ 32"
  shows "priorities_inv (plan_priority_start (pe_cfg env)) (fold (plan_outbound env fwmask obs) xs p)"
  using assms
proof (induction xs arbitrary: p)
  case (Cons x xs)
  have lim: "unat (plan_priority_start (pe_cfg env)) + 2 * unat (pl_rule_offset p) + 4 \<le> 2 ^ 32"
    using Cons.prems(2) by simp
  note step = plan_outbound_priorities [OF Cons.prems(1) lim, of fwmask obs x]
  have "unat (plan_priority_start (pe_cfg env)) + 2 * unat (pl_rule_offset (plan_outbound env fwmask obs x p))
      + 4 * length xs \<le> 2 ^ 32"
    using conjunct2 [OF step] Cons.prems(2) by simp
  from Cons.IH [OF conjunct1 [OF step] this] show ?case by simp
qed simp

section \<open>Walking the rules\<close>

text \<open>What the kernel does with policy rules: it tries them in the order of their priorities; a lookup whose
  table has a route ends the walk, a lookup without one is passed over, the other actions refuse the packet.\<close>

datatype rpdb_verdict = ToTable u32 | Refused rule_action

definition rule_matches :: "int \<Rightarrow> u32 \<Rightarrow> rule_spec \<Rightarrow> bool" where
  "rule_matches fam mark r \<longleftrightarrow>
     (ru_family r = 0 \<or> ru_family r = fam) \<and> mark AND ru_fwmask r = ru_fwmark r AND ru_fwmask r"

fun rpdb_walk :: "(u32 \<Rightarrow> bool) \<Rightarrow> int \<Rightarrow> u32 \<Rightarrow> rule_spec list \<Rightarrow> rpdb_verdict option" where
  "rpdb_walk has_route fam mark [] = None"
| "rpdb_walk has_route fam mark (r # rs) =
     (if \<not> rule_matches fam mark r then rpdb_walk has_route fam mark rs
      else if ru_action r = RuleLookup
      then (if has_route (ru_table r) then Some (ToTable (ru_table r)) else rpdb_walk has_route fam mark rs)
      else Some (Refused (ru_action r)))"

lemma rpdb_walk_skip:
  "\<forall>r \<in> set rs. \<not> rule_matches fam mark r \<Longrightarrow> rpdb_walk has_route fam mark (rs @ ts) = rpdb_walk has_route fam mark ts"
  by (induction rs) simp_all

lemma strict_action_refuses: "strict_enforcement_action cfg ob \<noteq> RuleLookup"
  by (simp add: strict_enforcement_action_def Let_def)

lemma rpdb_walk_pair:
  assumes "x AND fwmask = mark AND fwmask" and "fam = AF_INET \<or> pe_ipv6 env"
  shows "rpdb_walk has_route fam x (rule_pair env fwmask mark table ob True off @ ts)
    = Some (if has_route table then ToTable table else Refused (strict_enforcement_action (pe_cfg env) ob))"
  using assms strict_action_refuses [of "pe_cfg env" ob]
  by (auto simp: rule_pair_def lookup_rule_def guard_rule_def default_rule_spec_def rule_matches_def)

text \<open>The owner of a rule: its mark is one of the two marks of the outbound.\<close>

definition rule_of :: "plan_env \<Rightarrow> u32 \<Rightarrow> outbound \<Rightarrow> rule_spec \<Rightarrow> bool" where
  "rule_of env fwmask ob r \<longleftrightarrow>
     ru_fwmask r = fwmask
     \<and> (map_of (pe_marks env) (ob_tag ob) = Some (ru_fwmark r)
        \<or> map_of (pe_marks env) (internal_detour_mark_key (ob_tag ob)) = Some (ru_fwmark r))"

lemma pair_marks:
  "r \<in> set (rule_pair env fwmask mark table ob g off) \<Longrightarrow> ru_fwmark r = mark \<and> ru_fwmask r = fwmask"
  by (auto simp: rule_pair_def lookup_rule_def guard_rule_def default_rule_spec_def split: if_splits)

lemma detour_pair_marks:
  "r \<in> set (detour_pair env fwmask table ob off) \<Longrightarrow>
     map_of (pe_marks env) (internal_detour_mark_key (ob_tag ob)) = Some (ru_fwmark r) \<and> ru_fwmask r = fwmask"
  by (auto simp: detour_pair_def split: option.splits if_splits dest: pair_marks)

lemma outbound_rules_owner:
  assumes "r \<in> set (outbound_rules env fwmask ob toff off)"
  shows "rule_of env fwmask ob r"
proof -
  have route: "routable ob" using assms by (cases "routable ob") (simp_all add: outbound_rules_def)
  show ?thesis
  proof (cases "map_of (pe_marks env) (ob_tag ob)")
    case None
    then have "outbound_rules env fwmask ob toff off = []" by (simp add: outbound_rules_def)
    then show ?thesis using assms by simp
  next
    case (Some mark)
    then have "outbound_rules env fwmask ob toff off =
        rule_pair env fwmask mark (outbound_table_id env ob toff) ob (guarded env ob) off
        @ detour_pair env fwmask (outbound_table_id env ob toff) ob (off + 1)"
      using route by (simp add: outbound_rules_def)
    then have "r \<in> set (rule_pair env fwmask mark (outbound_table_id env ob toff) ob (guarded env ob) off)
        \<or> r \<in> set (detour_pair env fwmask (outbound_table_id env ob toff) ob (off + 1))"
      using assms by simp
    then show ?thesis using Some pair_marks detour_pair_marks unfolding rule_of_def by metis
  qed
qed

lemma plan_fold_rules:
  "\<exists>new. pl_rules (fold (plan_outbound env fwmask obs) xs p) = pl_rules p @ new
     \<and> (\<forall>r \<in> set new. \<exists>ob \<in> set xs. rule_of env fwmask ob r)"
proof (induction xs arbitrary: p)
  case (Cons x xs)
  obtain new where "pl_rules (fold (plan_outbound env fwmask obs) xs (plan_outbound env fwmask obs x p))
      = pl_rules (plan_outbound env fwmask obs x p) @ new"
    and own: "\<forall>r \<in> set new. \<exists>ob \<in> set xs. rule_of env fwmask ob r" using Cons.IH by blast
  then have "pl_rules (fold (plan_outbound env fwmask obs) (x # xs) p)
      = pl_rules p @ (outbound_rules env fwmask x (pl_table_offset p) (pl_rule_offset p) @ new)"
    by (simp add: plan_outbound_rules)
  moreover have "\<forall>r \<in> set (outbound_rules env fwmask x (pl_table_offset p) (pl_rule_offset p) @ new).
      \<exists>ob \<in> set (x # xs). rule_of env fwmask ob r"
    using own by (auto dest: outbound_rules_owner)
  ultimately show ?case by blast
qed simp

text \<open>The rules of a plan around those of one outbound.\<close>

lemma plan_rules_split:
  assumes "plan_routing env = Inr plan" and "ob \<in> set (value_or (cfg_outbounds (pe_cfg env)) [])"
  obtains xs ys fwmask before after toff off
  where "sort_outbounds (value_or (cfg_outbounds (pe_cfg env)) []) = xs @ ob # ys"
    and "fwmark_mask_value (value_or (cfg_fwmark (pe_cfg env)) default_fwmark_config) = Inr fwmask"
    and "pl_rules plan = before @ outbound_rules env fwmask ob toff off @ after"
    and "\<forall>r \<in> set before. \<exists>o' \<in> set xs. rule_of env fwmask o' r"
proof -
  let ?obs = "sort_outbounds (value_or (cfg_outbounds (pe_cfg env)) [])"
  obtain fwmask where fw: "fwmark_mask_value (value_or (cfg_fwmark (pe_cfg env)) default_fwmark_config) = Inr fwmask"
    and plan: "plan = fold (plan_outbound env fwmask ?obs) ?obs empty_plan"
    using assms(1) by (auto simp: plan_routing_def Let_def split: sum.splits)
  have "ob \<in> set ?obs" using assms(2) by (simp add: sort_outbounds_def)
  then obtain xs ys where split: "?obs = xs @ ob # ys" by (meson split_list)
  let ?p1 = "fold (plan_outbound env fwmask ?obs) xs empty_plan"
  obtain new where new: "pl_rules ?p1 = new" "\<forall>r \<in> set new. \<exists>o' \<in> set xs. rule_of env fwmask o' r"
    using plan_fold_rules [of env fwmask ?obs xs empty_plan] by (auto simp: empty_plan_def)
  obtain rest where "pl_rules plan = pl_rules (plan_outbound env fwmask ?obs ob ?p1) @ rest"
    using plan_fold_rules [of env fwmask ?obs ys "plan_outbound env fwmask ?obs ob ?p1"]
    unfolding plan using split by (metis fold_append fold_simps(2) o_apply)
  then have "pl_rules plan
      = new @ outbound_rules env fwmask ob (pl_table_offset ?p1) (pl_rule_offset ?p1) @ rest"
    using new(1) by (simp add: plan_outbound_rules)
  from that [OF split fw this new(2)] show thesis .
qed

section \<open>The kill switch\<close>

lemma plan_sorted:
  assumes "plan_routing env = Inr plan"
    and "unat (plan_priority_start (pe_cfg env)) + 4 * length (value_or (cfg_outbounds (pe_cfg env)) []) \<le> 2 ^ 32"
  shows "sort_key (unat \<circ> ru_priority) (pl_rules plan) = pl_rules plan"
    and "distinct (map ru_priority (pl_rules plan))"
proof -
  obtain fwmask where plan: "plan = fold (plan_outbound env fwmask (sort_outbounds (value_or (cfg_outbounds (pe_cfg env)) [])))
      (sort_outbounds (value_or (cfg_outbounds (pe_cfg env)) [])) empty_plan"
    using assms(1) by (auto simp: plan_routing_def Let_def split: sum.splits)
  have "priorities_inv (plan_priority_start (pe_cfg env)) plan"
    unfolding plan by (rule plan_fold_priorities)
      (use assms(2) in \<open>simp_all add: priorities_inv_def empty_plan_def sort_outbounds_def\<close>)
  then have s: "sorted_wrt (<) (map (unat \<circ> ru_priority) (pl_rules plan))" by (simp add: priorities_inv_def)
  then show "sort_key (unat \<circ> ru_priority) (pl_rules plan) = pl_rules plan"
    by (intro sort_key_id_if_sorted) (rule sorted_wrt_mono_rel [of _ "(<)"], simp_all)
  have "distinct (map unat (map ru_priority (pl_rules plan)))" using s by (simp add: strict_sorted_iff)
  then show "distinct (map ru_priority (pl_rules plan))" by (rule distinct_map [THEN iffD1, THEN conjunct1])
qed

text \<open>The keys of two different outbounds never coincide, as tags hold no colon.\<close>

definition mark_keys :: "outbound \<Rightarrow> string set" where
  "mark_keys ob = {ob_tag ob, internal_detour_mark_key (ob_tag ob)}"

lemma mark_keys_disjoint:
  assumes "CHR '':'' \<notin> set (ob_tag a)" and "CHR '':'' \<notin> set (ob_tag b)" and "ob_tag a \<noteq> ob_tag b"
  shows "mark_keys a \<inter> mark_keys b = {}"
proof -
  have "CHR '':'' \<in> set (internal_detour_mark_key t)" for t by (simp add: internal_detour_mark_key_def)
  then have "internal_detour_mark_key t \<noteq> ob_tag a" "internal_detour_mark_key t \<noteq> ob_tag b" for t
    using assms(1,2) by metis+
  moreover have "internal_detour_mark_key (ob_tag a) \<noteq> internal_detour_mark_key (ob_tag b)"
    using assms(3) by (simp add: internal_detour_mark_key_def)
  ultimately show ?thesis using assms(3) by (simp add: mark_keys_def) metis
qed

lemma key_in_pair:
  assumes "routable ob" and "map_of (pe_marks env) (ob_tag ob) = Some m0" and "map_of (pe_marks env) key = Some mark"
    and "key = ob_tag ob \<and> guarded env ob
       \<or> key = internal_detour_mark_key (ob_tag ob) \<and> ob_tag ob \<in> internal_detours (pe_cfg env)"
  shows "\<exists>skipped rest off'. outbound_rules env fwmask ob toff off
      = skipped @ rule_pair env fwmask mark (outbound_table_id env ob toff) ob True off' @ rest
    \<and> (\<forall>r \<in> set skipped. key \<noteq> ob_tag ob \<and> ru_fwmark r = m0 \<and> ru_fwmask r = fwmask)"
proof -
  let ?t = "outbound_table_id env ob toff"
  have rules: "outbound_rules env fwmask ob toff off
      = rule_pair env fwmask m0 ?t ob (guarded env ob) off @ detour_pair env fwmask ?t ob (off + 1)"
    using assms(1,2) by (simp add: outbound_rules_def)
  show ?thesis
  proof (cases "key = ob_tag ob")
    case True
    then have "guarded env ob" "mark = m0" using assms(2-4) internal_key_differs [of "ob_tag ob"] by auto
    then show ?thesis unfolding rules by (intro exI [of _ "[]"] exI) auto
  next
    case False
    then have d: "detour_pair env fwmask ?t ob (off + 1) = rule_pair env fwmask mark ?t ob True (off + 1)"
      using assms(3,4) by (auto simp: detour_pair_def)
    show ?thesis
      unfolding rules d
      by (rule exI [of _ "rule_pair env fwmask m0 ?t ob (guarded env ob) off"], rule exI [of _ "[]"])
        (use False pair_marks in auto)
  qed
qed

lemma allocated_keys:
  assumes "allocate_outbound_marks fwc obs = Inr marks" and "fwmark_mask_value fwc = Inr m"
  shows "a \<noteq> b \<Longrightarrow> map_of marks a = Some x \<Longrightarrow> map_of marks b = Some y \<Longrightarrow> x AND m \<noteq> y AND m"
    and "ob \<in> set obs \<Longrightarrow> routable ob \<Longrightarrow> \<exists>v. map_of marks (ob_tag ob) = Some v"
proof -
  note al = allocation_marks [OF assms(1)]
  show "a \<noteq> b \<Longrightarrow> map_of marks a = Some x \<Longrightarrow> map_of marks b = Some y \<Longrightarrow> x AND m \<noteq> y AND m"
    using al assms(2) by auto
  assume "ob \<in> set obs" "routable ob"
  moreover have "dom (map_of marks) = (\<Union>ob \<in> set (filter routable obs). {ob_tag ob, internal_detour_mark_key (ob_tag ob)})"
    using al by blast
  ultimately have "ob_tag ob \<in> dom (map_of marks)" by auto
  then show "\<exists>v. map_of marks (ob_tag ob) = Some v" by blast
qed

lemma not_matching_others:
  assumes "x AND m = mark AND m" and "ru_fwmask r = m" and "ru_fwmark r AND m \<noteq> mark AND m"
  shows "\<not> rule_matches fam x r"
  using assms by (simp add: rule_matches_def)

lemma rules_of_others_skipped:
  assumes "allocate_outbound_marks fwc obs = Inr (pe_marks env)" and "fwmark_mask_value fwc = Inr m"
    and "\<forall>r \<in> set rules. \<exists>o' \<in> set xs. rule_of env m o' r"
    and "\<forall>o' \<in> set xs. mark_keys o' \<inter> mark_keys ob = {}" and "key \<in> mark_keys ob"
    and "map_of (pe_marks env) key = Some mark" and "x AND m = mark AND m"
  shows "\<forall>r \<in> set rules. \<not> rule_matches fam x r"
proof
  fix r
  assume "r \<in> set rules"
  then obtain o' where o': "o' \<in> set xs" "rule_of env m o' r" using assms(3) by blast
  then obtain k' where k': "k' \<in> mark_keys o'" "map_of (pe_marks env) k' = Some (ru_fwmark r)" "ru_fwmask r = m"
    by (auto simp: rule_of_def mark_keys_def)
  then have "k' \<noteq> key" using assms(4,5) o'(1) by blast
  then show "\<not> rule_matches fam x r"
    using not_matching_others [OF assms(7) k'(3)] allocated_keys(1) [OF assms(1,2) _ k'(2) assms(6)] by blast
qed

text \<open>C3. Marked traffic fails closed. Take the marks the daemon allocates and the plan it builds from them, and
  let the kernel walk the planned rules in the order of their priorities. A packet that carries the mark of a
  strict outbound or of a URL test, or the internal mark of an outbound used as a detour, either leaves through the
  table planned for that outbound, when that table has a route, or is refused with the configured action. It is
  never handled by the rule of another outbound and never falls through to the rules after the plan.\<close>

theorem marked_traffic_fails_closed:
  assumes plan: "plan_routing env = Inr plan"
    and marks: "allocate_outbound_marks (value_or (cfg_fwmark (pe_cfg env)) default_fwmark_config)
        (value_or (cfg_outbounds (pe_cfg env)) []) = Inr (pe_marks env)"
    and mask: "fwmark_mask_value (value_or (cfg_fwmark (pe_cfg env)) default_fwmark_config) = Inr m"
    and tags: "distinct (map ob_tag (value_or (cfg_outbounds (pe_cfg env)) []))"
      "\<forall>o' \<in> set (value_or (cfg_outbounds (pe_cfg env)) []). CHR '':'' \<notin> set (ob_tag o')"
    and room: "unat (plan_priority_start (pe_cfg env)) + 4 * length (value_or (cfg_outbounds (pe_cfg env)) []) \<le> 2 ^ 32"
    and ob: "ob \<in> set (value_or (cfg_outbounds (pe_cfg env)) [])" "routable ob"
    and key: "key = ob_tag ob \<and> guarded env ob
        \<or> key = internal_detour_mark_key (ob_tag ob) \<and> ob_tag ob \<in> internal_detours (pe_cfg env)"
    and mark: "map_of (pe_marks env) key = Some mark" "x AND m = mark AND m"
    and fam: "fam = AF_INET \<or> pe_ipv6 env"
  shows "\<exists>table. (\<exists>l \<in> set (pl_rules plan). ru_fwmark l = mark \<and> ru_action l = RuleLookup \<and> ru_table l = table)
    \<and> rpdb_walk has_route fam x (sort_key (unat \<circ> ru_priority) (pl_rules plan))
      = Some (if has_route table then ToTable table else Refused (strict_enforcement_action (pe_cfg env) ob))"
proof -
  obtain xs ys m' before after toff off
    where split: "sort_outbounds (value_or (cfg_outbounds (pe_cfg env)) []) = xs @ ob # ys"
      and m': "fwmark_mask_value (value_or (cfg_fwmark (pe_cfg env)) default_fwmark_config) = Inr m'"
      and rules: "pl_rules plan = before @ outbound_rules env m' ob toff off @ after"
      and before: "\<forall>r \<in> set before. \<exists>o' \<in> set xs. rule_of env m' o' r"
    using plan_rules_split [OF plan ob(1)] by metis
  have m'_eq: "m' = m" using m' mask by simp
  note keys = allocated_keys [OF marks mask]
  obtain m0 where m0: "map_of (pe_marks env) (ob_tag ob) = Some m0" using keys(2) [OF ob] by blast
  from key_in_pair [OF ob(2) m0 mark(1) key, of m toff off] obtain skipped rest off'
    where own: "outbound_rules env m ob toff off
        = skipped @ rule_pair env m mark (outbound_table_id env ob toff) ob True off' @ rest"
      and skipped: "\<forall>r \<in> set skipped. key \<noteq> ob_tag ob \<and> ru_fwmark r = m0 \<and> ru_fwmask r = m" by blast
  have "distinct (map ob_tag (xs @ ob # ys))"
    unfolding split [symmetric] using tags(1) by (simp add: sort_outbounds_def distinct_map)
  then have other: "ob_tag o' \<noteq> ob_tag ob" if "o' \<in> set xs" for o' using that by (metis append_Cons distinct_append distinct.simps(2) imageI list.set_map list.simps(9) map_append Un_iff disjoint_iff list.set_intros(1))
  have inobs: "set xs \<subseteq> set (value_or (cfg_outbounds (pe_cfg env)) [])"
    using arg_cong [OF split, of set] by (auto simp: sort_outbounds_def)
  have skip1: "\<forall>r \<in> set before. \<not> rule_matches fam x r"
  proof (rule rules_of_others_skipped [OF marks mask, where xs = xs])
    show "\<forall>o' \<in> set xs. mark_keys o' \<inter> mark_keys ob = {}"
      by (intro ballI mark_keys_disjoint) (use tags(2) inobs ob(1) other in auto)
    show "key \<in> mark_keys ob" using key by (auto simp: mark_keys_def)
  qed (use before m'_eq mark in auto)
  have skip2: "\<not> rule_matches fam x r" if r: "r \<in> set skipped" for r
  proof -
    have r': "ob_tag ob \<noteq> key" "ru_fwmark r = m0" "ru_fwmask r = m" using skipped r by auto
    show ?thesis using not_matching_others [OF mark(2) r'(3)] keys(1) [OF r'(1) m0 mark(1)] r'(2) by simp
  qed
  let ?t = "outbound_table_id env ob toff"
  have eq: "pl_rules plan = before @ skipped @ rule_pair env m mark ?t ob True off' @ (rest @ after)"
    using rules own m'_eq by simp
  have "rpdb_walk has_route fam x (pl_rules plan)
      = Some (if has_route ?t then ToTable ?t else Refused (strict_enforcement_action (pe_cfg env) ob))"
    unfolding eq using rpdb_walk_skip skip1 skip2 rpdb_walk_pair [OF mark(2) fam] by metis
  moreover have "lookup_rule env m mark ?t off' \<in> set (pl_rules plan)" unfolding eq by (simp add: rule_pair_def)
  ultimately show ?thesis unfolding plan_sorted(1) [OF plan room]
    by (intro exI [of _ ?t] conjI bexI [of _ "lookup_rule env m mark ?t off'"])
      (simp_all add: lookup_rule_def default_rule_spec_def)
qed

definition sample_env :: plan_env where
  "sample_env =
     \<lparr>pe_cfg = empty_config\<lparr>cfg_outbounds := Some [make_outbound ''vpn'' INTERFACE\<lparr>ob_strict_enforcement := Some True,
                 ob_interface := Some ''wg0''\<rparr>]\<rparr>,
      pe_marks = smap_put (internal_detour_mark_key ''vpn'') 0x00020000 (smap_put ''vpn'' 0x00010000 []),
      pe_reach = None, pe_selections = None, pe_ipv6 = True, pe_family = None\<rparr>"

lemma sample_env_marks:
  "allocate_outbound_marks (value_or (cfg_fwmark (pe_cfg sample_env)) default_fwmark_config)
     (value_or (cfg_outbounds (pe_cfg sample_env)) []) = Inr (pe_marks sample_env)"
  using default_marks default_mask_valid default_capacity
  by (simp add: allocate_outbound_marks_def sample_env_def empty_config_def default_fwmark_config_def default_fwmark_def
      routable_def make_outbound_def allocate_one_def del: smap_put.simps)

theorem marked_traffic_fails_closed_witness:
  "\<exists>plan. plan_routing sample_env = Inr plan
    \<and> rpdb_walk (\<lambda>_. False) AF_INET6 0x00010001 (sort_key (unat \<circ> ru_priority) (pl_rules plan))
      = Some (Refused RuleUnreachable)"
proof -
  let ?ob = "make_outbound ''vpn'' INTERFACE\<lparr>ob_strict_enforcement := Some True, ob_interface := Some ''wg0''\<rparr>"
  have obs: "value_or (cfg_outbounds (pe_cfg sample_env)) [] = [?ob]" by (simp add: sample_env_def)
  have mask: "fwmark_mask_value (value_or (cfg_fwmark (pe_cfg sample_env)) default_fwmark_config) = Inr 0x00FF0000"
    using default_marks default_mask_valid
    by (simp add: fwmark_mask_value_def sample_env_def empty_config_def default_fwmark_config_def default_fwmark_def)
  then obtain plan where plan: "plan_routing sample_env = Inr plan" by (simp add: plan_routing_def Let_def)
  have start: "plan_priority_start (pe_cfg sample_env) = 150"
    by (simp add: plan_priority_start_def plan_table_start_def sample_env_def empty_config_def default_iproute_config_def
        to_u32_def)
  have mark: "map_of (pe_marks sample_env) ''vpn'' = Some 0x00010000"
    using internal_key_differs [of "''vpn''"] by (simp add: sample_env_def map_of_smap_put del: smap_put.simps internal_key_differs) 
  have ob: "ob_tag ?ob = ''vpn''" "routable ?ob" "guarded sample_env ?ob" "pe_ipv6 sample_env"
    by (simp_all add: make_outbound_def routable_def guarded_def strict_enforcement_enabled_def sample_env_def)
  have act: "strict_enforcement_action (pe_cfg sample_env) ?ob = RuleUnreachable"
    by (simp add: strict_enforcement_action_def make_outbound_def sample_env_def empty_config_def default_daemon_config_def)
  have "\<exists>table. (\<exists>l \<in> set (pl_rules plan). ru_fwmark l = 0x00010000 \<and> ru_action l = RuleLookup \<and> ru_table l = table)
    \<and> rpdb_walk (\<lambda>_. False) AF_INET6 0x00010001 (sort_key (unat \<circ> ru_priority) (pl_rules plan))
      = Some (if False then ToTable table else Refused (strict_enforcement_action (pe_cfg sample_env) ?ob))"
    by (rule marked_traffic_fails_closed [OF plan sample_env_marks mask, where key = "''vpn''"])
      (simp_all add: obs start ob mark)
  then show ?thesis using plan act by auto
qed

section \<open>The planned routes\<close>

lemma safe_table_loop_not_reserved: "\<not> is_reserved_table (safe_table_loop offset tid cnt)"
proof (induction offset tid cnt rule: safe_table_loop.induct)
  case (1 offset tid cnt)
  then show ?case by (cases "is_reserved_table tid"; cases "cnt = offset") (simp_all add: safe_table_loop.simps [of offset tid])
qed

lemma safe_table_id_not_reserved: "\<not> is_reserved_table (safe_table_id start offset)"
  by (simp add: safe_table_id_def safe_table_loop_not_reserved)

definition planned_route :: "plan_env \<Rightarrow> route_spec \<Rightarrow> bool" where
  "planned_route env r \<longleftrightarrow>
     rs_destination r = ''default'' \<and> generated_route r \<and> \<not> is_reserved_table (rs_table r)
     \<and> (rs_family r = AF_INET \<or> rs_family r = AF_INET6 \<and> pe_ipv6 env)"

text \<open>A list of routes answers a table: it has a default route of every enabled family there.\<close>

definition answers :: "plan_env \<Rightarrow> u32 \<Rightarrow> route_spec list \<Rightarrow> bool" where
  "answers env t rs \<longleftrightarrow>
     (\<exists>r \<in> set rs. rs_table r = t \<and> rs_family r = AF_INET)
     \<and> (pe_ipv6 env \<longrightarrow> (\<exists>r \<in> set rs. rs_table r = t \<and> rs_family r = AF_INET6))"

definition enabled_routes :: "plan_env \<Rightarrow> route_spec list \<Rightarrow> route_spec list" where
  "enabled_routes env rs = filter (\<lambda>r. \<not> (\<not> pe_ipv6 env \<and> rs_family r = AF_INET6)) rs"

lemma add_routes_routes [simp]:
  "pl_routes (add_routes_if_enabled env rs p) = pl_routes p @ enabled_routes env rs"
  by (simp add: add_routes_if_enabled_def enabled_routes_def)

definition route_block :: "plan_env \<Rightarrow> u32 \<Rightarrow> route_spec list \<Rightarrow> bool" where
  "route_block env t rs \<longleftrightarrow>
     (\<forall>r \<in> set rs. planned_route env r \<and> rs_table r = t) \<and> (rs = [] \<or> answers env t rs)"

lemma route_block_append: "route_block env t rs \<Longrightarrow> route_block env t ts \<Longrightarrow> route_block env t (rs @ ts)"
  by (auto simp: route_block_def answers_def)

text \<open>The lists the planner starts from: default routes of one table that cover both families.\<close>

definition closed_routes :: "u32 \<Rightarrow> route_spec list \<Rightarrow> bool" where
  "closed_routes t rs \<longleftrightarrow>
     (\<forall>r \<in> set rs. rs_destination r = ''default'' \<and> rs_table r = t \<and> rs_protocol r = generated_route_protocol
        \<and> (rs_family r = AF_INET \<or> rs_family r = AF_INET6))
     \<and> AF_INET \<in> rs_family ` set rs \<and> AF_INET6 \<in> rs_family ` set rs"

lemma closed_interface_routes:
  "closed_routes t (make_default_routes t ob f @ make_family_closure_routes t ob f)"
  by (auto simp: closed_routes_def make_default_routes_def make_family_closure_routes_def default_route_def
      unreachable_route_def default_route_spec_def Let_def)

lemma closed_unreachable_routes: "closed_routes t (make_unreachable_routes t)"
  by (auto simp: closed_routes_def make_unreachable_routes_def unreachable_route_def default_route_spec_def)

lemma closed_with_metric: "closed_routes t rs \<Longrightarrow> closed_routes t (map (\<lambda>r. r\<lparr>rs_metric := m\<rparr>) rs)"
  by (simp add: closed_routes_def image_image)

lemma closed_routes_block:
  assumes "closed_routes t rs" and "\<not> is_reserved_table t"
  shows "route_block env t (enabled_routes env rs)" and "enabled_routes env rs \<noteq> []"
proof -
  obtain r4 r6 where r: "r4 \<in> set rs" "rs_family r4 = AF_INET" "r6 \<in> set rs" "rs_family r6 = AF_INET6"
    using assms(1) by (auto simp: closed_routes_def)
  then have en: "r4 \<in> set (enabled_routes env rs)" "pe_ipv6 env \<longrightarrow> r6 \<in> set (enabled_routes env rs)"
    by (simp_all add: enabled_routes_def)
  then show "enabled_routes env rs \<noteq> []" by auto
  have all: "rs_table r = t \<and> planned_route env r" if "r \<in> set (enabled_routes env rs)" for r
    using that assms unfolding closed_routes_def enabled_routes_def planned_route_def generated_route_def by auto
  then have "answers env t (enabled_routes env rs)" using en r unfolding answers_def by blast
  then show "route_block env t (enabled_routes env rs)" using all unfolding route_block_def by blast
qed

lemma plan_candidates_routes:
  assumes "\<not> is_reserved_table t"
  shows "\<exists>new. pl_routes (plan_candidates env t metric cs p) = pl_routes p @ new \<and> route_block env t new"
proof (induction cs arbitrary: metric p)
  case Nil
  then show ?case by (simp add: route_block_def)
next
  case (Cons c cs)
  let ?rs = "map (\<lambda>r. r\<lparr>rs_metric := metric\<rparr>) (make_default_routes t c (pe_family env) @ make_family_closure_routes t c (pe_family env))"
  have b: "route_block env t (enabled_routes env ?rs)"
    by (rule closed_routes_block(1) [OF closed_with_metric [OF closed_interface_routes] assms])
  obtain new where "pl_routes (plan_candidates env t (metric + 1) cs (add_routes_if_enabled env ?rs p))
      = pl_routes p @ (enabled_routes env ?rs @ new)" "route_block env t new"
    using Cons.IH [of "metric + 1" "add_routes_if_enabled env ?rs p"] by auto
  moreover have "route_block env t (enabled_routes env ?rs @ new)" using route_block_append [OF b calculation(2)] .
  ultimately show ?case using Cons.IH [of metric p] by (simp only: plan_candidates.simps split: if_split) blast
qed

lemma plan_selection_routes:
  assumes "\<not> is_reserved_table t"
  shows "\<exists>new. pl_routes (plan_selection env obs t sel cs p) = pl_routes p @ new \<and> route_block env t new"
proof -
  define p1 where "p1 = (case find_outbound obs sel of
      None \<Rightarrow> p
    | Some selected \<Rightarrow>
        (if ob_type selected = INTERFACE \<and> reachable env selected
         then add_routes_if_enabled env
                (make_default_routes t selected (pe_family env) @ make_family_closure_routes t selected (pe_family env)) p
         else p))"
  have "\<exists>a. pl_routes p1 = pl_routes p @ a \<and> route_block env t a"
  proof (cases "\<exists>s. find_outbound obs sel = Some s \<and> ob_type s = INTERFACE \<and> reachable env s")
    case True
    then show ?thesis using closed_routes_block(1) [OF closed_interface_routes assms] by (auto simp: p1_def)
  next
    case False
    then have "p1 = p" by (auto simp: p1_def split: option.split)
    then show ?thesis by (simp add: route_block_def)
  qed
  then obtain a where a: "pl_routes p1 = pl_routes p @ a" "route_block env t a" by blast
  obtain b where "pl_routes (plan_candidates env t 1 cs p1) = pl_routes p1 @ b" "route_block env t b"
    using plan_candidates_routes [OF assms] by blast
  then show ?thesis using a route_block_append unfolding plan_selection_def p1_def [symmetric] Let_def by force
qed

text \<open>The outbounds whose own table is filled by the plan.\<close>

definition fills_table :: "plan_env \<Rightarrow> outbound \<Rightarrow> bool" where
  "fills_table env ob \<longleftrightarrow>
     map_of (pe_marks env) (ob_tag ob) \<noteq> None
     \<and> (ob_type ob = INTERFACE \<and> (reachable env ob \<or> strict_enforcement_enabled (pe_cfg env) ob) \<or> ob_type ob = URLTEST)"

lemma plan_interface_routes:
  assumes "ob_type ob = INTERFACE"
  shows "\<exists>new. pl_routes (plan_interface env fwmask ob p) = pl_routes p @ new
    \<and> route_block env (outbound_table_id env ob (pl_table_offset p)) new \<and> (fills_table env ob \<longrightarrow> new \<noteq> [])"
proof (cases "map_of (pe_marks env) (ob_tag ob)")
  case None
  then show ?thesis by (simp add: plan_interface_def route_block_def fills_table_def)
next
  case (Some mark)
  let ?t = "outbound_table_id env ob (pl_table_offset p)"
  have t: "?t = safe_table_id (plan_table_start (pe_cfg env)) (pl_table_offset p)" "\<not> is_reserved_table ?t"
    using assms by (simp_all add: outbound_table_id_def safe_table_id_not_reserved)
  define rs where "rs = (if reachable env ob
      then make_default_routes ?t ob (pe_family env) @ make_family_closure_routes ?t ob (pe_family env)
      else if strict_enforcement_enabled (pe_cfg env) ob then make_unreachable_routes ?t else [])"
  have "pl_routes (plan_interface env fwmask ob p) = pl_routes p @ enabled_routes env rs"
    using Some by (simp add: plan_interface_def rs_def t(1) Let_def enabled_routes_def)
  moreover have "rs = [] \<or> closed_routes ?t rs"
    using closed_interface_routes closed_unreachable_routes by (simp add: rs_def)
  then have "route_block env ?t (enabled_routes env rs)"
    using closed_routes_block(1) [OF _ t(2)] by (auto simp: enabled_routes_def route_block_def)
  moreover have "fills_table env ob \<longrightarrow> enabled_routes env rs \<noteq> []"
    using closed_routes_block(2) [OF _ t(2)] closed_interface_routes closed_unreachable_routes assms
    by (simp add: fills_table_def rs_def)
  ultimately show ?thesis by blast
qed

lemma plan_urltest_routes:
  assumes "ob_type ob = URLTEST"
  shows "\<exists>new. pl_routes (plan_urltest env fwmask obs ob p) = pl_routes p @ new
    \<and> route_block env (outbound_table_id env ob (pl_table_offset p)) new \<and> (fills_table env ob \<longrightarrow> new \<noteq> [])"
proof (cases "map_of (pe_marks env) (ob_tag ob)")
  case None
  then show ?thesis by (simp add: plan_urltest_def route_block_def fills_table_def)
next
  case (Some mark)
  let ?t = "outbound_table_id env ob (pl_table_offset p)"
  have t: "?t = safe_table_id (plan_table_start (pe_cfg env)) (pl_table_offset p)" "\<not> is_reserved_table ?t"
    using assms by (simp_all add: outbound_table_id_def safe_table_id_not_reserved)
  let ?sel = "resolve_urltest_selection (pe_selections env) (ob_tag ob)"
  let ?p1 = "p\<lparr>pl_table_offset := pl_table_offset p + 1\<rparr>"
  define p2 where "p2 = (if ?sel \<noteq> [] then plan_selection env obs ?t ?sel (ordered_urltest_children obs ob) ?p1 else ?p1)"
  have "\<exists>new. pl_routes p2 = pl_routes p @ new \<and> route_block env ?t new"
    using plan_selection_routes [OF t(2), of env obs ?sel "ordered_urltest_children obs ob" ?p1]
    by (auto simp: p2_def route_block_def)
  then obtain new where new: "pl_routes p2 = pl_routes p @ new" "route_block env ?t new" by blast
  have routes: "pl_routes (plan_urltest env fwmask obs ob p)
      = pl_routes p @ (if new = [] then enabled_routes env (make_unreachable_routes ?t) else new)"
    using Some new(1) unfolding plan_urltest_def t(1) [symmetric] Let_def p2_def [symmetric] by simp
  show ?thesis
    unfolding routes
    using new(2) closed_routes_block [OF closed_unreachable_routes t(2)] by (cases "new = []") simp_all
qed

lemma plan_outbound_routes:
  "\<exists>new. pl_routes (plan_outbound env fwmask obs ob p) = pl_routes p @ new
    \<and> route_block env (outbound_table_id env ob (pl_table_offset p)) new \<and> (fills_table env ob \<longrightarrow> new \<noteq> [])"
proof (cases "ob_type ob")
  case TABLE
  then have "pl_routes (plan_outbound env fwmask obs ob p) = pl_routes p"
    by (simp add: plan_outbound_def plan_table_def Let_def split: option.split)
  then show ?thesis using TABLE by (simp add: route_block_def fills_table_def)
qed (use plan_interface_routes plan_urltest_routes in \<open>simp_all add: plan_outbound_def route_block_def fills_table_def\<close>)

lemma plan_fold_routes:
  assumes "\<forall>r \<in> set (pl_routes p). planned_route env r"
  shows "\<forall>r \<in> set (pl_routes (fold (plan_outbound env fwmask obs) xs p)). planned_route env r"
  using assms
proof (induction xs arbitrary: p)
  case (Cons x xs)
  have "\<forall>r \<in> set (pl_routes (plan_outbound env fwmask obs x p)). planned_route env r"
    using plan_outbound_routes [of env fwmask obs x p] Cons.prems by (auto simp: route_block_def)
  then show ?case using Cons.IH by simp
qed simp

lemma plan_fold_routes_mono:
  "set (pl_routes p) \<subseteq> set (pl_routes (fold (plan_outbound env fwmask obs) xs p))"
proof (induction xs arbitrary: p)
  case (Cons x xs)
  have "set (pl_routes p) \<subseteq> set (pl_routes (plan_outbound env fwmask obs x p))"
    using plan_outbound_routes [of env fwmask obs x p] by auto
  then show ?case using Cons.IH [of "plan_outbound env fwmask obs x p"] by auto
qed simp

text \<open>A plan seen from one of its outbounds: what was planned before it, its own step, the rest.\<close>

lemma plan_from_outbound:
  assumes "plan_routing env = Inr plan" and "ob \<in> set (value_or (cfg_outbounds (pe_cfg env)) [])"
  obtains fwmask obs p1 ys where "plan = fold (plan_outbound env fwmask obs) ys (plan_outbound env fwmask obs ob p1)"
proof -
  let ?obs = "sort_outbounds (value_or (cfg_outbounds (pe_cfg env)) [])"
  obtain fwmask where plan: "plan = fold (plan_outbound env fwmask ?obs) ?obs empty_plan"
    using assms(1) by (auto simp: plan_routing_def Let_def split: sum.splits)
  have "ob \<in> set ?obs" using assms(2) by (simp add: sort_outbounds_def)
  then obtain xs ys where "?obs = xs @ ob # ys" by (meson split_list)
  then have "plan = fold (plan_outbound env fwmask ?obs) ys
      (plan_outbound env fwmask ?obs ob (fold (plan_outbound env fwmask ?obs) xs empty_plan))"
    unfolding plan by (metis fold_append fold_simps(2) o_apply)
  from that [OF this] show thesis .
qed

lemma planned_lookup_answers:
  assumes "plan_routing env = Inr plan" and ob: "ob \<in> set (value_or (cfg_outbounds (pe_cfg env)) [])"
    and fills: "fills_table env ob"
  shows "\<exists>l \<in> set (pl_rules plan). map_of (pe_marks env) (ob_tag ob) = Some (ru_fwmark l) \<and> ru_action l = RuleLookup
    \<and> answers env (ru_table l) (pl_routes plan)"
proof -
  obtain fwmask obs p1 ys where plan: "plan = fold (plan_outbound env fwmask obs) ys (plan_outbound env fwmask obs ob p1)"
    by (rule plan_from_outbound [OF assms(1) ob])
  let ?p2 = "plan_outbound env fwmask obs ob p1"
  obtain mark where mark: "map_of (pe_marks env) (ob_tag ob) = Some mark" "routable ob"
    using fills by (auto simp: fills_table_def routable_def)
  let ?t = "outbound_table_id env ob (pl_table_offset p1)"
  let ?l = "lookup_rule env fwmask mark ?t (pl_rule_offset p1)"
  have "outbound_rules env fwmask ob (pl_table_offset p1) (pl_rule_offset p1)
      = ?l # tl (outbound_rules env fwmask ob (pl_table_offset p1) (pl_rule_offset p1))"
    using mark by (simp add: outbound_rules_def rule_pair_def)
  then have "?l \<in> set (pl_rules ?p2)" unfolding plan_outbound_rules by (metis Un_iff list.set_intros(1) set_append)
  moreover obtain more where "pl_rules plan = pl_rules ?p2 @ more"
    using plan_fold_rules unfolding plan by blast
  ultimately have in_rules: "?l \<in> set (pl_rules plan)" by simp
  obtain new where new: "pl_routes ?p2 = pl_routes p1 @ new" "answers env ?t new"
    using plan_outbound_routes [of env fwmask obs ob p1] fills unfolding route_block_def by blast
  have "set new \<subseteq> set (pl_routes ?p2)" using new(1) by simp
  also have "\<dots> \<subseteq> set (pl_routes plan)" unfolding plan by (rule plan_fold_routes_mono)
  finally have "answers env ?t (pl_routes plan)" using new(2) unfolding answers_def by blast
  with in_rules show ?thesis
    by (intro bexI [of _ ?l]) (simp_all add: lookup_rule_def default_rule_spec_def mark)
qed

lemma plan_routes_planned:
  assumes "plan_routing env = Inr plan"
  shows "\<forall>r \<in> set (pl_routes plan). planned_route env r"
proof -
  obtain fwmask obs xs where plan: "plan = fold (plan_outbound env fwmask obs) xs empty_plan"
    using assms by (auto simp: plan_routing_def Let_def split: sum.splits)
  show ?thesis unfolding plan by (rule plan_fold_routes) (simp add: empty_plan_def)
qed



end
