(* ===== verification/Routing_Transaction.thy ===== *)
theory Routing_Transaction
  imports Routing_Plan
begin

text \<open>
  Installing a plan: the transaction of \<^verbatim>\<open>populate_routing_state\<close> with its rollback
  (\<^verbatim>\<open>src/config/routing_state.cpp\<close>), and \<^verbatim>\<open>Daemon::reconcile_static_routing\<close>
  (\<^verbatim>\<open>src/daemon/daemon_runtime.cpp\<close>), which plans with trackers in dry-run mode and hands the result to the
  routing reconciler.
\<close>

section \<open>The transaction\<close>

text \<open>The handler that rolls everything back: rules first, then routes.\<close>

definition rollback :: "'k netlink_ops \<Rightarrow> route_table \<Rightarrow> policy_rules \<Rightarrow> 'k \<Rightarrow> route_table \<times> policy_rules \<times> 'k" where
  "rollback ops rt pm k =
     (case rule_clear ops (pm, k) of (pm', k1) \<Rightarrow>
        (case route_clear ops (rt, k1) of (rt', k2) \<Rightarrow> (rt', pm', k2)))"

definition populate_routing_state ::
  "'k netlink_ops \<Rightarrow> plan_env \<Rightarrow> (route_table \<times> policy_rules \<times> 'k, unit) eff" where
  "populate_routing_state ops env s =
     (case s of (rt, pm, k) \<Rightarrow>
        (case plan_routing env of
           Inl e \<Rightarrow> (Inl e, s)
         | Inr plan \<Rightarrow>
             (case for_each (route_add ops) (pl_routes plan) (rt, k) of
                (Inl e, (rt1, k1)) \<Rightarrow> (Inl e, rollback ops rt1 pm k1)
              | (Inr u, (rt1, k1)) \<Rightarrow>
                  (case for_each (rule_add ops) (pl_rules plan) (pm, k1) of
                     (Inl e, (pm1, k2)) \<Rightarrow> (Inl e, rollback ops rt1 pm1 k2)
                   | (Inr u, (pm1, k2)) \<Rightarrow> (Inr (), (rt1, pm1, k2))))))"

section \<open>Static routing of the daemon\<close>

record dumped_interface =
  di_name :: string
  di_admin_up :: bool
  di_oper_state :: "string option"
  di_carrier :: "bool option"
  di_ipv4_addresses :: "string list"
  di_ipv6_addresses :: "string list"

text \<open>The address tests of \<^verbatim>\<open>netinet/in.h\<close> on the 16 bytes of an IPv6 address.\<close>

definition in6_is_unspecified :: "u8 list \<Rightarrow> bool" where
  "in6_is_unspecified a = list_all (\<lambda>b. b = 0) a"

definition in6_is_loopback :: "u8 list \<Rightarrow> bool" where
  "in6_is_loopback a = (list_all (\<lambda>b. b = 0) (take 15 a) \<and> drop 15 a = [1])"

definition in6_is_linklocal :: "u8 list \<Rightarrow> bool" where
  "in6_is_linklocal a = (a ! 0 = 0xFE \<and> a ! 1 AND 0xC0 = 0x80)"

definition interface_has_routed_ipv6 :: "(string \<Rightarrow> u8 list option) \<Rightarrow> dumped_interface \<Rightarrow> bool" where
  "interface_has_routed_ipv6 pton6 ifc =
     list_ex (\<lambda>cidr.
        (case pton6 (case split_first CHR ''/'' cidr of None \<Rightarrow> cidr | Some (a, b) \<Rightarrow> a) of
           None \<Rightarrow> False
         | Some parsed \<Rightarrow> \<not> in6_is_unspecified parsed \<and> \<not> in6_is_loopback parsed \<and> \<not> in6_is_linklocal parsed))
       (di_ipv6_addresses ifc)"

definition static_family_available ::
  "(string \<Rightarrow> u8 list option) \<Rightarrow> dumped_interface list \<Rightarrow> outbound \<Rightarrow> int \<Rightarrow> bool" where
  "static_family_available pton6 interfaces ob family =
     (if family = AF_INET then True
      else if family \<noteq> AF_INET6 \<or> ob_gateway6 ob \<noteq> None then True
      else (case find (\<lambda>i. di_name i = value_or (ob_interface ob) []) interfaces of
              None \<Rightarrow> False
            | Some i \<Rightarrow> interface_has_routed_ipv6 pton6 i))"

text \<open>\<^verbatim>\<open>Daemon::reconcile_static_routing\<close> after the interfaces have been dumped. The desired state is built by
  trackers in dry-run mode; only the reconciler touches the kernel, and the trackers of the daemon adopt the
  desired state once it has succeeded.\<close>

definition reconcile_static_routing ::
  "'k netlink_ops \<Rightarrow> plan_env \<Rightarrow> (route_table \<times> policy_rules \<times> 'k, unit) eff" where
  "reconcile_static_routing ops env s =
     (case s of (rt, pm, k) \<Rightarrow>
        (case populate_routing_state ops env (new_route_table True, new_policy_rules True, k) of
           (Inl e, (drt, dpm, k1)) \<Rightarrow> (Inl e, (rt, pm, k1))
         | (Inr u, (drt, dpm, k1)) \<Rightarrow>
             (case reconcile ops (rt_routes drt) (pm_rules dpm) k1 of
                (Inl e, k2) \<Rightarrow> (Inl e, (rt, pm, k2))
              | (Inr u, k2) \<Rightarrow>
                  (Inr (), (route_adopt_desired (rt_routes drt) rt, rule_adopt_desired (pm_rules dpm) pm, k2)))))"

section \<open>Rollback\<close>

text \<open>Deleting an entry that is there succeeds.\<close>

definition deletes_routes :: "'k netlink_ops \<Rightarrow> ('k \<Rightarrow> dumped_route set) \<Rightarrow> bool" where
  "deletes_routes ops R \<longleftrightarrow> (\<forall>r k. kernel_route r \<in> R k \<longrightarrow> (\<exists>k'. op_delete_route ops r k = (Inr (), k')))"

text \<open>The trackers hold exactly the entries that were added to the kernel since \<open>R0\<close> and \<open>Q0\<close>.\<close>

definition routes_added :: "dumped_route set \<Rightarrow> ('k \<Rightarrow> dumped_route set) \<Rightarrow> route_table \<times> 'k \<Rightarrow> bool" where
  "routes_added R0 R s \<longleftrightarrow>
     \<not> rt_dry_run (fst s) \<and> R (snd s) = R0 \<union> kernel_route ` set (rt_owned (fst s))
     \<and> (\<forall>r \<in> set (rt_owned (fst s)). kernel_route r \<notin> R0) \<and> set (rt_owned (fst s)) \<subseteq> set (rt_routes (fst s))"

definition rules_added :: "dumped_rule set \<Rightarrow> ('k \<Rightarrow> dumped_rule set) \<Rightarrow> policy_rules \<times> 'k \<Rightarrow> bool" where
  "rules_added Q0 Q s \<longleftrightarrow>
     \<not> pm_dry_run (fst s) \<and> Q (snd s) = Q0 \<union> rule_entry ` set (pm_owned (fst s))
     \<and> (\<forall>r \<in> set (pm_owned (fst s)). rule_entry r \<notin> Q0)"

lemma route_add_added:
  assumes "route_kernel ops R" and "routes_added R0 R s" and "route_add ops r s = (res, s')"
  shows "routes_added R0 R s'"
proof -
  obtain rt k where s: "s = (rt, k)" by (cases s)
  obtain ares k1 where add: "op_add_route ops r k = (ares, k1)" by (cases "op_add_route ops r k")
  show ?thesis
    using assms(2,3) op_add_route_cases [OF assms(1) add] add
    by (auto simp: s route_add_def routes_added_def split: if_splits sum.splits add_result.splits)
qed

lemma rule_add_added:
  assumes "rule_kernel ops Q" and "deletes_present ops Q" and "rules_added Q0 Q s" and "rule_add ops r s = (res, s')"
  shows "rules_added Q0 Q s'"
proof -
  obtain pm k where s: "s = (pm, k)" by (cases s)
  show ?thesis
  proof (cases res)
    case (Inl e)
    then show ?thesis
      using assms(3,4) rule_add_failure [OF assms(1,2), of r pm k e "fst s'" "snd s'"] by (simp add: s rules_added_def)
  next
    case (Inr u)
    let ?fs = "if ru_family r \<noteq> 0 then [ru_family r] else [AF_INET, AF_INET6]"
    obtain err owned k1 where loop: "add_families ops r ?fs [] k = ((err, owned), k1)" by (metis prod.exhaust)
    have "s' = s \<or> \<not> pm_dry_run pm \<and> snd s' = k1 \<and> pm_owned (fst s') = pm_owned pm @ owned \<and> \<not> pm_dry_run (fst s')"
      using assms(3,4) loop Inr
      by (auto simp: s rule_add_def rules_added_def Let_def simp del: add_families.simps split: if_splits option.splits)
    moreover have "Q k1 = Q k \<union> rule_entry ` set owned" "\<forall>r \<in> set owned. rule_entry r \<notin> Q k"
      using add_families_kernel [OF assms(1) loop] by auto
    ultimately show ?thesis using assms(3) unfolding s rules_added_def by (auto simp: image_Un)
  qed
qed

lemma route_clear_undoes:
  assumes "route_kernel ops R" and "deletes_routes ops R" and "routes_added R0 R (rt, k)"
  shows "R (snd (route_clear ops (rt, k))) = R0"
proof -
  have "R (for_each_quiet (\<lambda>r k. snd (op_delete_route ops r k)) rs k) = R k - kernel_route ` set rs" for rs k
  proof (induction rs arbitrary: k)
    case (Cons r rs)
    obtain res k1 where d: "op_delete_route ops r k = (res, k1)" by (cases "op_delete_route ops r k")
    have "kernel_route r \<in> R k \<Longrightarrow> res = Inr ()" using assms(2) d unfolding deletes_routes_def by fastforce
    moreover have "case op_delete_route ops r k of (Inr u, k') \<Rightarrow> R k' = R k - {kernel_route r} | (Inl e, k') \<Rightarrow> R k' = R k"
      using assms(1) by (simp add: route_kernel_def)
    ultimately have "R k1 = R k - {kernel_route r}" using d by (auto split: sum.splits)
    with d Cons.IH [of k1] show ?case by auto
  qed simp
  then show ?thesis using assms(3) by (auto simp: route_clear_def routes_added_def)
qed

lemma rule_clear_undoes:
  assumes "rule_kernel ops Q" and "deletes_present ops Q" and "rules_added Q0 Q (pm, k)"
  shows "Q (snd (rule_clear ops (pm, k))) = Q0"
  using assms(3) delete_quietly_all [OF assms(1,2), of "rev (pm_owned pm)" k] by (auto simp: rule_clear_def rules_added_def)

section \<open>All or nothing\<close>

text \<open>Operations on routes leave the rules alone, and conversely.\<close>

lemma route_ops_keep_rules:
  assumes "inspectable_kernel ops R Q"
  shows "Q (snd (snd (for_each (route_add ops) rs s))) = Q (snd s)" and "Q (snd (route_clear ops s)) = Q (snd s)"
proof -
  have op: "Q (snd (op_add_route ops r k)) = Q k" "Q (snd (op_delete_route ops r k)) = Q k" for r k
    using assms by (simp_all add: inspectable_kernel_def)
  have "Q (snd s') = Q (snd s)" if step: "route_add ops r s = (res, s')" for r s res s'
  proof -
    obtain rt k where s: "s = (rt, k)" by (cases s)
    have "snd s' = k \<or> snd s' = snd (op_add_route ops r k)"
      using step unfolding s route_add_def by (auto split: if_splits prod.splits sum.splits add_result.splits)
    then show ?thesis using op(1) s by (metis snd_conv)
  qed
  then show "Q (snd (snd (for_each (route_add ops) rs s))) = Q (snd s)"
    by (intro for_each_invariant [where P = "\<lambda>s'. Q (snd s') = Q (snd s)"]) auto
  have "Q (for_each_quiet (\<lambda>r k. snd (op_delete_route ops r k)) rs k) = Q k" for rs k
    by (rule for_each_quiet_invariant [where P = "\<lambda>k'. Q k' = Q k"]) (simp_all add: op(2))
  then show "Q (snd (route_clear ops s)) = Q (snd s)" by (cases s) (simp add: route_clear_def)
qed

lemma add_families_keep_routes:
  assumes "inspectable_kernel ops R Q"
  shows "R (snd (add_families ops r fs owned k)) = R k"
proof (induction fs arbitrary: owned k)
  case (Cons f fs)
  have "R (snd (op_add_rule ops r f k)) = R k" using assms by (simp add: inspectable_kernel_def)
  then show ?case using Cons.IH by (auto split: prod.splits sum.splits add_result.splits)
qed simp

lemma rule_ops_keep_routes:
  assumes "inspectable_kernel ops R Q"
  shows "R (snd (snd (for_each (rule_add ops) rs s))) = R (snd s)" and "R (snd (rule_clear ops s)) = R (snd s)"
proof -
  have del: "R (for_each_quiet (delete_quietly ops) rs k) = R k" for rs k
    using assms by (intro for_each_quiet_invariant [where P = "\<lambda>k'. R k' = R k"])
      (simp_all add: delete_quietly_def inspectable_kernel_def)
  have "R (snd s') = R (snd s)" if step: "rule_add ops r s = (res, s')" for r s res s'
  proof -
    obtain pm k where s: "s = (pm, k)" by (cases s)
    let ?fs = "if ru_family r \<noteq> 0 then [ru_family r] else [AF_INET, AF_INET6]"
    obtain err owned k1 where loop: "add_families ops r ?fs [] k = ((err, owned), k1)" by (metis prod.exhaust)
    have "snd s' = k \<or> snd s' = k1 \<or> snd s' = for_each_quiet (delete_quietly ops) (rev owned) k1"
      using step loop unfolding s rule_add_def by (auto simp: Let_def simp del: add_families.simps split: if_splits option.splits)
    moreover have "R k1 = R k" using add_families_keep_routes [OF assms, of r ?fs "[]" k] loop by simp
    ultimately show ?thesis using del s by (metis snd_conv)
  qed
  then show "R (snd (snd (for_each (rule_add ops) rs s))) = R (snd s)"
    by (intro for_each_invariant [where P = "\<lambda>s'. R (snd s') = R (snd s)"]) auto
  show "R (snd (rule_clear ops s)) = R (snd s)"
    using del by (cases s) (simp add: rule_clear_def)
qed

lemma rollback_undoes:
  assumes "inspectable_kernel ops R Q" and "deletes_routes ops R" and "deletes_present ops Q"
    and "routes_added R0 R (rt, k)" and "rules_added Q0 Q (pm, k)" and "rollback ops rt pm k = (rt', pm', k')"
  shows "R k' = R0 \<and> Q k' = Q0 \<and> rt_routes rt' = [] \<and> pm_rules pm' = []"
proof -
  have kernels: "route_kernel ops R" "rule_kernel ops Q" using assms(1) by (simp_all add: inspectable_kernel_def)
  obtain pm1 k1 where c1: "rule_clear ops (pm, k) = (pm1, k1)" by (cases "rule_clear ops (pm, k)")
  obtain rt1 k2 where c2: "route_clear ops (rt, k1) = (rt1, k2)" by (cases "route_clear ops (rt, k1)")
  have res: "rt' = rt1" "pm' = pm1" "k' = k2" using assms(6) c1 c2 by (simp_all add: rollback_def)
  have "R k1 = R k" using rule_ops_keep_routes(2) [OF assms(1), of "(pm, k)"] c1 by simp
  then have "routes_added R0 R (rt, k1)" using assms(4) by (simp add: routes_added_def)
  then have "R k2 = R0" using route_clear_undoes [OF kernels(1) assms(2)] c2 by fastforce
  moreover have "Q k2 = Q k1" using route_ops_keep_rules(2) [OF assms(1), of "(rt, k1)"] c2 by simp
  moreover have "Q k1 = Q0" using rule_clear_undoes [OF kernels(2) assms(3,5)] c1 by simp
  moreover have "rt_routes rt1 = []" "pm_rules pm1 = []" using c1 c2 by (auto simp: rule_clear_def route_clear_def)
  ultimately show ?thesis using res by simp
qed

lemma routes_phase:
  assumes "inspectable_kernel ops R Q" and "for_each (route_add ops) rs (new_route_table False, k) = (res, (rt1, k1))"
  shows "routes_added (R k) R (rt1, k1) \<and> Q k1 = Q k"
proof -
  have "routes_added (R k) R (snd (for_each (route_add ops) rs (new_route_table False, k)))"
  proof (rule for_each_invariant)
    show "routes_added (R k) R (new_route_table False, k)" by (simp add: routes_added_def new_route_table_def)
    have "route_kernel ops R" using assms(1) by (simp add: inspectable_kernel_def)
    then show "routes_added (R k) R s'" if "routes_added (R k) R s" "route_add ops x s = (r, s')" for s x r s'
      using route_add_added that by blast
  qed
  then show ?thesis using route_ops_keep_rules(1) [OF assms(1), of rs "(new_route_table False, k)"] assms(2) by simp
qed

lemma rules_phase:
  assumes "inspectable_kernel ops R Q" and "deletes_present ops Q"
    and "for_each (rule_add ops) rs (new_policy_rules False, k) = (res, (pm1, k1))"
  shows "rules_added (Q k) Q (pm1, k1) \<and> R k1 = R k"
proof -
  have "rules_added (Q k) Q (snd (for_each (rule_add ops) rs (new_policy_rules False, k)))"
  proof (rule for_each_invariant)
    show "rules_added (Q k) Q (new_policy_rules False, k)" by (simp add: rules_added_def new_policy_rules_def)
    have "rule_kernel ops Q" using assms(1) by (simp add: inspectable_kernel_def)
    then show "rules_added (Q k) Q s'" if "rules_added (Q k) Q s" "rule_add ops x s = (r, s')" for s x r s'
      using rule_add_added [OF _ assms(2)] that by blast
  qed
  then show ?thesis using rule_ops_keep_routes(1) [OF assms(1), of rs "(new_policy_rules False, k)"] assms(3) by simp
qed

text \<open>C5. Installing a plan is all or nothing. Started with empty trackers, \<^verbatim>\<open>populate_routing_state\<close> either
  throws, and then the routes and rules of the kernel are what they were and nothing is tracked, or it returns,
  and then exactly the planned routes and rules are tracked, nothing that was installed has been removed and only
  planned routes have been added.\<close>

theorem populate_all_or_nothing:
  assumes "inspectable_kernel ops R Q" and "deletes_routes ops R" and "deletes_present ops Q"
    and "populate_routing_state ops env (new_route_table False, new_policy_rules False, k) = (res, (rt', pm', k'))"
  shows "case res of
      Inl e \<Rightarrow> R k' = R k \<and> Q k' = Q k \<and> rt_routes rt' = [] \<and> pm_rules pm' = []
    | Inr u \<Rightarrow> (\<exists>plan. plan_routing env = Inr plan \<and> set (rt_routes rt') = set (pl_routes plan)
        \<and> set (pm_rules pm') = set (pl_rules plan) \<and> R k \<subseteq> R k' \<and> Q k \<subseteq> Q k'
        \<and> R k' \<subseteq> R k \<union> kernel_route ` set (pl_routes plan))"
proof (cases "plan_routing env")
  case (Inl e)
  then show ?thesis using assms(4) by (auto simp: populate_routing_state_def new_route_table_def new_policy_rules_def)
next
  case (Inr plan)
  obtain r1 rt1 k1 where p1: "for_each (route_add ops) (pl_routes plan) (new_route_table False, k) = (r1, (rt1, k1))"
    by (metis prod.exhaust)
  obtain r2 pm1 k2 where p2: "for_each (rule_add ops) (pl_rules plan) (new_policy_rules False, k1) = (r2, (pm1, k2))"
    by (metis prod.exhaust)
  have added1: "routes_added (R k) R (rt1, k1)" "Q k1 = Q k" using routes_phase [OF assms(1) p1] by auto
  have "R k2 = R k1" and rules2: "rules_added (Q k) Q (pm1, k2)"
    using rules_phase [OF assms(1,3) p2] added1(2) by auto
  then have routes2: "routes_added (R k) R (rt1, k2)" using added1(1) by (simp add: routes_added_def)
  show ?thesis
  proof (cases r1)
    case (Inl e)
    have "rules_added (Q k) Q (new_policy_rules False, k1)"
      using added1(2) by (simp add: rules_added_def new_policy_rules_def)
    from rollback_undoes [OF assms(1-3) added1(1) this] show ?thesis
      using assms(4) Inr p1 Inl by (auto simp: populate_routing_state_def)
  next
    case ok1: (Inr u)
    show ?thesis
    proof (cases r2)
      case (Inl e)
      from rollback_undoes [OF assms(1-3) routes2 rules2] show ?thesis
        using assms(4) Inr p1 ok1 p2 Inl by (auto simp: populate_routing_state_def)
    next
      case ok2: (Inr u)
      have res: "res = Inr ()" "rt' = rt1" "pm' = pm1" "k' = k2"
        using assms(4) Inr p1 ok1 p2 ok2 by (auto simp: populate_routing_state_def)
      have "set (rt_routes rt1) = set (pl_routes plan)" "set (pm_rules pm1) = set (pl_rules plan)"
        using routes.add_all(1) [of ops "pl_routes plan" "(new_route_table False, k)" "(rt1, k1)"] p1 ok1
          rules.add_all(1) [of ops "pl_rules plan" "(new_policy_rules False, k1)" "(pm1, k2)"] p2 ok2
        by (simp_all add: new_route_table_def new_policy_rules_def)
      then show ?thesis using res Inr routes2 rules2 by (auto simp: routes_added_def rules_added_def)
    qed
  qed
qed

lemma for_each_total:
  assumes "\<And>x s. fst (f x s) = Inr ()"
  shows "fst (for_each f xs s) = Inr ()"
proof (induction xs arbitrary: s)
  case (Cons x xs)
  then show ?case using assms [of x s] by (cases "f x s") auto
qed simp

lemma sim_adds_succeed:
  "fst (for_each (route_add sim_ops) rs s) = Inr ()" "fst (for_each (rule_add sim_ops) qs t) = Inr ()"
proof -
  show "fst (for_each (route_add sim_ops) rs s) = Inr ()"
    by (rule for_each_total) (auto simp: route_add_def sim_ops_def split: prod.splits)
  have fam: "\<exists>owned' k'. add_families sim_ops q fs owned k = ((None, owned'), k')" for q fs owned k
    by (induction fs arbitrary: owned k) (auto simp: sim_ops_def)
  have "fst (rule_add sim_ops q t) = Inr ()" for q t
  proof -
    obtain pm k where t: "t = (pm, k)" by (cases t)
    obtain owned' k' where "add_families sim_ops q (if ru_family q \<noteq> 0 then [ru_family q] else [AF_INET, AF_INET6]) [] k
        = ((None, owned'), k')" using fam by blast
    then show ?thesis by (simp add: t rule_add_def Let_def del: add_families.simps)
  qed
  then show "fst (for_each (rule_add sim_ops) qs t) = Inr ()" by (rule for_each_total)
qed

lemma sim_populate_succeeds:
  assumes "plan_routing env = Inr plan"
  shows "\<exists>s'. populate_routing_state sim_ops env (rt, pm, k) = (Inr (), s')"
proof -
  obtain r1 rt1 k1 where p1: "for_each (route_add sim_ops) (pl_routes plan) (rt, k) = (r1, (rt1, k1))"
    by (metis prod.exhaust)
  obtain r2 pm1 k2 where p2: "for_each (rule_add sim_ops) (pl_rules plan) (pm, k1) = (r2, (pm1, k2))"
    by (metis prod.exhaust)
  have "r1 = Inr ()" "r2 = Inr ()" using sim_adds_succeed p1 p2 by (metis fst_conv)+
  then show ?thesis using assms p1 p2 by (simp add: populate_routing_state_def)
qed

lemma sim_deletes: "deletes_routes sim_ops (set \<circ> fst)" "deletes_present sim_ops (set \<circ> snd)"
  by (auto simp: deletes_routes_def deletes_present_def sim_ops_def)

lemma sample_plan: "\<exists>plan. plan_routing sample_env = Inr plan"
  using default_marks default_mask_valid
  by (simp add: plan_routing_def fwmark_mask_value_def sample_env_def empty_config_def default_fwmark_config_def
      default_fwmark_def Let_def)

theorem populate_all_or_nothing_witness:
  "\<exists>rt' pm' k'. populate_routing_state sim_ops sample_env (new_route_table False, new_policy_rules False, ([], []))
      = (Inr (), (rt', pm', k'))
    \<and> (\<exists>plan. plan_routing sample_env = Inr plan \<and> set (rt_routes rt') = set (pl_routes plan))"
proof -
  obtain plan where "plan_routing sample_env = Inr plan" using sample_plan by blast
  then obtain rt' pm' k' where
    run: "populate_routing_state sim_ops sample_env (new_route_table False, new_policy_rules False, ([], [])) = (Inr (), (rt', pm', k'))"
    using sim_populate_succeeds by (metis prod.exhaust)
  from populate_all_or_nothing [OF sim_inspectable sim_deletes this] run show ?thesis by auto
qed

section \<open>The desired state in dry-run mode\<close>

lemma dry_adds:
  assumes "rt_dry_run rt" and "pm_dry_run pm"
  shows "\<exists>rt'. for_each (route_add ops) rs (rt, k) = (Inr (), (rt', k)) \<and> rt_dry_run rt'"
    and "\<exists>pm'. for_each (rule_add ops) qs (pm, k) = (Inr (), (pm', k)) \<and> pm_dry_run pm'"
proof -
  show "\<exists>rt'. for_each (route_add ops) rs (rt, k) = (Inr (), (rt', k)) \<and> rt_dry_run rt'"
    using assms(1) by (induction rs arbitrary: rt) (simp_all add: route_add_def)
  show "\<exists>pm'. for_each (rule_add ops) qs (pm, k) = (Inr (), (pm', k)) \<and> pm_dry_run pm'"
    using assms(2) by (induction qs arbitrary: pm) (simp_all add: rule_add_def)
qed

lemma dry_populate:
  assumes "plan_routing env = Inr plan"
  shows "\<exists>rt' pm'. populate_routing_state ops env (new_route_table True, new_policy_rules True, k) = (Inr (), (rt', pm', k))
    \<and> set (rt_routes rt') = set (pl_routes plan) \<and> set (pm_rules pm') = set (pl_rules plan)"
proof -
  have dry: "rt_dry_run (new_route_table True)" "pm_dry_run (new_policy_rules True)"
    by (simp_all add: new_route_table_def new_policy_rules_def)
  obtain rt' where r: "for_each (route_add ops) (pl_routes plan) (new_route_table True, k) = (Inr (), (rt', k))"
    using dry_adds(1) [OF dry, of ops "pl_routes plan" k] by blast
  obtain pm' where q: "for_each (rule_add ops) (pl_rules plan) (new_policy_rules True, k) = (Inr (), (pm', k))"
    using dry_adds(2) [OF dry, of ops "pl_rules plan" k] by blast
  have "set (rt_routes rt') = set (pl_routes plan)" "set (pm_rules pm') = set (pl_rules plan)"
    using routes.add_all(1) [OF r] rules.add_all(1) [OF q] by (simp_all add: new_route_table_def new_policy_rules_def)
  then show ?thesis using assms r q by (simp add: populate_routing_state_def)
qed

lemma rule_sets_cong:
  assumes "set a = set b"
  shows "kernel_rules a = kernel_rules b" "rule_wanted a = rule_wanted b" "rule_namespace_owned q a = rule_namespace_owned q b"
  using assms by (auto simp: kernel_rules_def rule_wanted_def rule_namespace_owned_def list_ex_iff fun_eq_iff)


definition sample_planned :: plan_state where
  "sample_planned =
     \<lparr>pl_routes = map (\<lambda>f. default_route_spec\<lparr>rs_destination := ''default'', rs_table := 150, rs_family := f,
          rs_interface := Some ''wg0''\<rparr>) [AF_INET, AF_INET6],
      pl_rules = [default_rule_spec\<lparr>ru_fwmark := 0x00010000, ru_fwmask := 0x00FF0000, ru_table := 150, ru_priority := 150\<rparr>,
        default_rule_spec\<lparr>ru_fwmark := 0x00010000, ru_fwmask := 0x00FF0000, ru_priority := 151, ru_action := RuleUnreachable\<rparr>],
      pl_table_offset = 1, pl_rule_offset = 1\<rparr>"

lemma sample_plan_eval: "plan_routing sample_env = Inr sample_planned"
proof -
  have mask: "fwmark_mask_value (value_or (cfg_fwmark (pe_cfg sample_env)) default_fwmark_config) = Inr 0x00FF0000"
    using default_marks default_mask_valid
    by (simp add: fwmark_mask_value_def sample_env_def empty_config_def default_fwmark_config_def default_fwmark_def)
  have mark: "map_of (pe_marks sample_env) ''vpn'' = Some 0x00010000"
    using internal_key_differs [of "''vpn''"]
    by (simp add: sample_env_def map_of_smap_put del: smap_put.simps internal_key_differs)
  have start: "plan_table_start (pe_cfg sample_env) = 150" "plan_priority_start (pe_cfg sample_env) = 150"
    by (simp_all add: plan_priority_start_def plan_table_start_def sample_env_def empty_config_def default_iproute_config_def
        to_u32_def)
  have table: "safe_table_id 150 0 = 150"
    by (simp add: safe_table_id_def safe_table_loop.simps [of 0 150 0] is_reserved_table_def)
  have detour: "internal_detours (pe_cfg sample_env) = {}"
    by (simp add: internal_detours_def sample_env_def empty_config_def default_dns_config_def map_filter_simps)
  let ?ob = "make_outbound ''vpn'' INTERFACE\<lparr>ob_strict_enforcement := Some True, ob_interface := Some ''wg0''\<rparr>"
  have obs: "value_or (cfg_outbounds (pe_cfg sample_env)) [] = [?ob]" by (simp add: sample_env_def)
  have ob: "ob_tag ?ob = ''vpn''" "ob_type ?ob = INTERFACE" "ob_gateway ?ob = None" "ob_gateway6 ?ob = None"
    by (simp_all add: make_outbound_def)
  have env: "pe_ipv6 sample_env" "pe_family sample_env = None" "pe_reach sample_env = None" by (simp_all add: sample_env_def)
  have strict: "strict_enforcement_enabled (pe_cfg sample_env) ?ob"
    "strict_enforcement_action (pe_cfg sample_env) ?ob = RuleUnreachable"
    by (simp_all add: strict_enforcement_enabled_def strict_enforcement_action_def make_outbound_def sample_env_def
        empty_config_def default_daemon_config_def)
  have "plan_outbound sample_env 0x00FF0000 [?ob] ?ob empty_plan = sample_planned"
    unfolding plan_outbound_def plan_interface_def add_internal_detour_guard_def ob mark start
    by (simp add: Let_def empty_plan_def table detour strict env reachable_def sample_planned_def add_lookup_and_guard_def
        add_routes_if_enabled_def make_default_routes_def make_family_closure_routes_def default_route_def ob
        outbound_family_available_def lookup_rule_def guard_rule_def start default_rule_spec_def default_route_spec_def
        split: option.split)
  then show ?thesis by (simp add: plan_routing_def mask obs sort_outbounds_def Let_def)
qed


end
