(* ===== verification/Reachability.thy ===== *)
theory Reachability
  imports Ip_Set Routing_Plan
begin

text \<open>
  What the daemon reads off the kernel's routes (\<^verbatim>\<open>src/config/routing_state.cpp\<close>): whether a gateway is covered by a
  route of an interface, whether an interface outbound is reachable, and which child of a URL test the routes of
  its table belong to. The address parser \<^verbatim>\<open>inet_pton\<close> and the interface queries of the system are arguments.
\<close>

section \<open>Prefixes\<close>

definition ipv4_prefix_contains :: "u32 \<Rightarrow> u32 \<Rightarrow> int \<Rightarrow> bool" where
  "ipv4_prefix_contains network candidate prefix_len =
     (if prefix_len \<le> 0 then True
      else let mask = (if prefix_len \<ge> 32 then 0xFFFFFFFF else push_bit (nat (32 - prefix_len)) (NOT 0))
           in network AND mask = candidate AND mask)"

text \<open>On the 16 bytes of an address; the code's \<^verbatim>\<open>memcmp\<close> compares the whole bytes of the prefix.\<close>

definition ipv6_prefix_contains :: "u8 list \<Rightarrow> u8 list \<Rightarrow> int \<Rightarrow> bool" where
  "ipv6_prefix_contains network candidate prefix_len =
     (if prefix_len \<le> 0 then True
      else let full_bytes = nat (prefix_len div 8); extra_bits = nat (prefix_len mod 8)
           in if full_bytes > 0 \<and> take full_bytes network \<noteq> take full_bytes candidate then False
              else if extra_bits = 0 then True
              else let mask = push_bit (8 - extra_bits) 0xFF
                   in (network ! full_bytes) AND mask = (candidate ! full_bytes) AND mask)"

definition route_contains_ip ::
  "(string \<Rightarrow> u32 option) \<Rightarrow> (string \<Rightarrow> u8 list option) \<Rightarrow> dumped_route \<Rightarrow> string \<Rightarrow> bool result" where
  "route_contains_ip pton4 pton6 route ip =
     (if dmp_destination route = ''default'' then Inr True
      else case split_first CHR ''/'' (dmp_destination route) of
        None \<Rightarrow> Inr (dmp_destination route = ip)
      | Some (network, len) \<Rightarrow>
          (case stoi len of
             Inl e \<Rightarrow> Inl e
           | Inr prefix_len \<Rightarrow>
               (let family = (if CHR '':'' \<in> set ip then AF_INET6 else AF_INET);
                    network_family = (if CHR '':'' \<in> set network then AF_INET6 else AF_INET)
                in if family \<noteq> network_family then Inr False
                   else if family = AF_INET
                   then Inr (case (pton4 network, pton4 ip) of
                               (Some n, Some c) \<Rightarrow> ipv4_prefix_contains n c prefix_len | _ \<Rightarrow> False)
                   else Inr (case (pton6 network, pton6 ip) of
                               (Some n, Some c) \<Rightarrow> ipv6_prefix_contains n c prefix_len | _ \<Rightarrow> False))))"

fun interface_has_gateway_route ::
  "(string \<Rightarrow> u32 option) \<Rightarrow> (string \<Rightarrow> u8 list option) \<Rightarrow> dumped_route list \<Rightarrow> string \<Rightarrow> string \<Rightarrow> bool result" where
  "interface_has_gateway_route pton4 pton6 [] iface gateway = Inr False"
| "interface_has_gateway_route pton4 pton6 (route # routes) iface gateway =
     (if dmp_blackhole route \<or> dmp_unreachable route
      then interface_has_gateway_route pton4 pton6 routes iface gateway
      else if dmp_interface route \<noteq> Some iface then interface_has_gateway_route pton4 pton6 routes iface gateway
      else (case route_contains_ip pton4 pton6 route gateway of
              Inl e \<Rightarrow> Inl e
            | Inr True \<Rightarrow> Inr True
            | Inr False \<Rightarrow> interface_has_gateway_route pton4 pton6 routes iface gateway))"

text \<open>The system queries of the reachability check: \<^verbatim>\<open>if_nametoindex\<close> and the \<^verbatim>\<open>IFF_UP\<close> flag.\<close>

record system_queries =
  sq_nametoindex :: "string \<Rightarrow> nat"
  sq_is_up :: "string \<Rightarrow> bool"
  sq_pton4 :: "string \<Rightarrow> u32 option"
  sq_pton6 :: "string \<Rightarrow> u8 list option"

definition gateway_reachable :: "system_queries \<Rightarrow> dumped_route list \<Rightarrow> string \<Rightarrow> string option \<Rightarrow> bool result" where
  "gateway_reachable sq routes iface gateway =
     (case gateway of
        None \<Rightarrow> Inr True
      | Some gw \<Rightarrow> interface_has_gateway_route (sq_pton4 sq) (sq_pton6 sq) routes iface gw)"

definition is_interface_outbound_reachable ::
  "'k netlink_ops \<Rightarrow> system_queries \<Rightarrow> outbound \<Rightarrow> ('k, bool) eff" where
  "is_interface_outbound_reachable ops sq ob k =
     (if ob_type ob \<noteq> INTERFACE then (Inr True, k)
      else let iface = value_or (ob_interface ob) []
           in if iface = [] \<or> sq_nametoindex sq iface = 0 then (Inr False, k)
              else if \<not> sq_is_up sq iface then (Inr False, k)
              else (case op_dump_routes ops 254 k of
                      (Inl e, k') \<Rightarrow> (Inl e, k')
                    | (Inr routes, k') \<Rightarrow>
                        (case gateway_reachable sq routes iface (ob_gateway ob) of
                           Inl e \<Rightarrow> (Inl e, k')
                         | Inr False \<Rightarrow> (Inr False, k')
                         | Inr True \<Rightarrow> (gateway_reachable sq routes iface (ob_gateway6 ob), k'))))"

section \<open>Recovering a selection\<close>

definition route_matches_outbound :: "dumped_route \<Rightarrow> outbound \<Rightarrow> bool" where
  "route_matches_outbound route ob =
     (if dmp_destination route \<noteq> ''default'' \<or> dmp_blackhole route \<or> dmp_unreachable route then False
      else if ob_type ob \<noteq> INTERFACE then False
      else if dmp_interface route \<noteq> ob_interface ob then False
      else if dmp_family route = AF_INET \<and> ob_gateway ob \<noteq> None then dmp_gateway route = ob_gateway ob
      else if dmp_family route = AF_INET6 \<and> ob_gateway6 ob \<noteq> None then dmp_gateway route = ob_gateway6 ob
      else dmp_gateway route = None)"

text \<open>The loop over the children: \<^const>\<open>None\<close> is the early \<^verbatim>\<open>return std::nullopt\<close> of an ambiguous route.\<close>

fun match_children :: "outbound list \<Rightarrow> dumped_route \<Rightarrow> string option \<Rightarrow> string list \<Rightarrow> string option option" where
  "match_children outbounds route route_tag [] = Some route_tag"
| "match_children outbounds route route_tag (child_tag # tags) =
     (if (case find_outbound outbounds child_tag of None \<Rightarrow> True | Some c \<Rightarrow> \<not> route_matches_outbound route c)
      then match_children outbounds route route_tag tags
      else if route_tag \<noteq> None \<and> route_tag \<noteq> Some child_tag then None
      else match_children outbounds route (Some child_tag) tags)"

definition urltest_child_tags :: "outbound \<Rightarrow> string list" where
  "urltest_child_tags urltest = concat (map grp_outbounds (value_or (ob_outbound_groups urltest) []))"

fun infer_loop :: "outbound list \<Rightarrow> outbound \<Rightarrow> string option \<Rightarrow> dumped_route list \<Rightarrow> string option" where
  "infer_loop outbounds urltest selected [] = selected"
| "infer_loop outbounds urltest selected (route # routes) =
     (if dmp_destination route \<noteq> ''default'' \<or> dmp_blackhole route \<or> dmp_unreachable route \<or> dmp_metric route \<noteq> 0
      then infer_loop outbounds urltest selected routes
      else (case match_children outbounds route None (urltest_child_tags urltest) of
              None \<Rightarrow> None
            | Some None \<Rightarrow> None
            | Some (Some route_tag) \<Rightarrow>
                (if selected \<noteq> None \<and> selected \<noteq> Some route_tag then None
                 else infer_loop outbounds urltest (Some route_tag) routes)))"

definition infer_urltest_selection_from_routes :: "outbound list \<Rightarrow> outbound \<Rightarrow> dumped_route list \<Rightarrow> string option" where
  "infer_urltest_selection_from_routes outbounds urltest routes = infer_loop outbounds urltest None routes"

section \<open>Prefix tests are exact\<close>

lemma byte_eq_bits: "x = y \<longleftrightarrow> (\<forall>j < 8. bit (x :: u8) (7 - j) = bit y (7 - j))"
proof
  assume b: "\<forall>j < 8. bit x (7 - j) = bit y (7 - j)"
  show "x = y"
  proof (rule bit_word_eqI)
    fix n
    assume "n < LENGTH(8)"
    then show "bit x n = bit y n" using b [rule_format, of "7 - n"] by simp
  qed
qed simp

lemma byte_mask_bits:
  assumes "e < 8"
  shows "x AND push_bit (8 - e) 0xFF = y AND push_bit (8 - e) 0xFF \<longleftrightarrow> (\<forall>j < e. bit (x :: u8) (7 - j) = bit y (7 - j))"
proof -
  have m: "bit (push_bit (8 - e) (0xFF :: u8)) n \<longleftrightarrow> n < 8 \<and> 8 - e \<le> n" for n
  proof -
    have "(0xFF :: u8) = mask 8" by (simp add: mask_eq_exp_minus_1)
    then have "bit (push_bit (8 - e) (0xFF :: u8)) n = bit (push_bit (8 - e) (mask 8 :: u8)) n" by simp
    then show ?thesis by (auto simp: bit_push_bit_iff bit_mask_iff possible_bit_word)
  qed
  show ?thesis
  proof
    assume eq: "x AND push_bit (8 - e) 0xFF = y AND push_bit (8 - e) 0xFF"
    show "\<forall>j < e. bit x (7 - j) = bit y (7 - j)"
    proof (intro allI impI)
      fix j
      assume "j < e"
      then have "8 - e \<le> 7 - j" "7 - j < 8" using assms by linarith+
      then have "bit (push_bit (8 - e) (0xFF :: u8)) (7 - j)" by (simp add: m)
      then show "bit x (7 - j) = bit y (7 - j)" using arg_cong [OF eq, of "\<lambda>w. bit w (7 - j)"] by (simp add: bit_and_iff)
    qed
  next
    assume b: "\<forall>j < e. bit x (7 - j) = bit y (7 - j)"
    show "x AND push_bit (8 - e) 0xFF = y AND push_bit (8 - e) 0xFF"
    proof (rule bit_word_eqI)
      fix n
      assume "n < LENGTH(8)"
      then show "bit (x AND push_bit (8 - e) 0xFF) n = bit (y AND push_bit (8 - e) 0xFF) n"
        using b [rule_format, of "7 - n"] assms by (auto simp: bit_and_iff m)
    qed
  qed
qed

lemma prefix_bits_eq_iff: "prefix_bits a n = prefix_bits b n \<longleftrightarrow> (\<forall>i < n. address_bit a i = address_bit b i)"
  by (auto simp: prefix_bits_def)

lemma whole_bytes_bits:
  assumes "f \<le> length a" and "f \<le> length b"
  shows "take f a = take f b \<longleftrightarrow> (\<forall>i < 8 * f. address_bit a i = address_bit b i)"
proof -
  have "take f a = take f b \<longleftrightarrow> (\<forall>k < f. a ! k = b ! k)" using assms by (auto simp: list_eq_iff_nth_eq)
  also have "\<dots> \<longleftrightarrow> (\<forall>k < f. \<forall>j < 8. address_bit a (8 * k + j) = address_bit b (8 * k + j))"
    by (simp add: byte_eq_bits address_bit_def)
  also have "\<dots> \<longleftrightarrow> (\<forall>i < 8 * f. address_bit a i = address_bit b i)"
  proof
    assume l: "\<forall>k < f. \<forall>j < 8. address_bit a (8 * k + j) = address_bit b (8 * k + j)"
    show "\<forall>i < 8 * f. address_bit a i = address_bit b i"
    proof (intro allI impI)
      fix i
      assume "i < 8 * f"
      then have "i div 8 < f" by (simp add: less_mult_imp_div_less mult.commute)
      then show "address_bit a i = address_bit b i" using l [rule_format, of "i div 8" "i mod 8"] by simp
    qed
  qed auto
  finally show ?thesis .
qed

lemma ipv6_prefix_contains_bits:
  assumes "length a = 16" and "length b = 16" and "0 \<le> n" and "n \<le> 128"
  shows "ipv6_prefix_contains a b n \<longleftrightarrow> prefix_bits a (nat n) = prefix_bits b (nat n)"
proof (cases "n = 0")
  case True
  then show ?thesis by (simp add: ipv6_prefix_contains_def prefix_bits_def)
next
  case False
  define f e where "f = nat (n div 8)" and "e = nat (n mod 8)"
  have n: "nat n = 8 * f + e" "e < 8" using assms(3) by (simp_all add: f_def e_def nat_div_distrib nat_mod_distrib)
  have f: "f \<le> 16" "0 < e \<longrightarrow> f < 16" using n assms(4) by linarith+
  have whole: "take f a = take f b \<longleftrightarrow> (\<forall>i < 8 * f. address_bit a i = address_bit b i)"
    using f assms(1,2) by (intro whole_bytes_bits) simp_all
  have part: "a ! f AND push_bit (8 - e) 0xFF = b ! f AND push_bit (8 - e) 0xFF
      \<longleftrightarrow> (\<forall>j < e. address_bit a (8 * f + j) = address_bit b (8 * f + j))"
    using n(2) by (simp add: byte_mask_bits address_bit_def)
  have "(\<forall>i < 8 * f + e. P i) \<longleftrightarrow> (\<forall>i < 8 * f. P i) \<and> (\<forall>j < e. P (8 * f + j))" for P
    by (auto simp: less_diff_conv dest: le_Suc_ex) (metis add_diff_inverse_nat nat_add_left_cancel_less)
  then have split: "prefix_bits a (nat n) = prefix_bits b (nat n) \<longleftrightarrow>
      (\<forall>i < 8 * f. address_bit a i = address_bit b i) \<and> (\<forall>j < e. address_bit a (8 * f + j) = address_bit b (8 * f + j))"
    unfolding prefix_bits_eq_iff n by simp
  have "ipv6_prefix_contains a b n \<longleftrightarrow>
      take f a = take f b \<and> (e = 0 \<or> a ! f AND push_bit (8 - e) 0xFF = b ! f AND push_bit (8 - e) 0xFF)"
    using False assms(3) by (auto simp: ipv6_prefix_contains_def f_def [symmetric] e_def [symmetric] Let_def)
  then show ?thesis using whole part split by auto
qed

lemma ipv4_prefix_contains_bits:
  assumes "0 \<le> n" and "n \<le> 32"
  shows "ipv4_prefix_contains a b n \<longleftrightarrow> (\<forall>i < nat n. bit a (31 - i) = bit b (31 - i))"
proof (cases "n = 0")
  case True
  then show ?thesis by (simp add: ipv4_prefix_contains_def)
next
  case False
  define m :: u32 where "m = (if n \<ge> 32 then 0xFFFFFFFF else push_bit (nat (32 - n)) (NOT 0))"
  have m: "m = push_bit (nat (32 - n)) (NOT 0)" using assms(2) by (auto simp: m_def)
  have bm: "bit m i \<longleftrightarrow> i < 32 \<and> nat (32 - n) \<le> i" for i
    unfolding m by (auto simp: bit_push_bit_iff bit_not_iff bit_mask_iff possible_bit_word)
  have "ipv4_prefix_contains a b n \<longleftrightarrow> a AND m = b AND m"
    using False assms(1) by (simp add: ipv4_prefix_contains_def m_def Let_def)
  also have "\<dots> \<longleftrightarrow> (\<forall>i < 32. nat (32 - n) \<le> i \<longrightarrow> bit a i = bit b i)"
    by (auto simp: bit_eq_iff bit_and_iff bm possible_bit_word)
  also have "\<dots> \<longleftrightarrow> (\<forall>i < nat n. bit a (31 - i) = bit b (31 - i))"
  proof
    assume l: "\<forall>i < nat n. bit a (31 - i) = bit b (31 - i)"
    show "\<forall>i < 32. nat (32 - n) \<le> i \<longrightarrow> bit a i = bit b i"
    proof (intro allI impI)
      fix i
      assume "i < 32" "nat (32 - n) \<le> i"
      then show "bit a i = bit b i" using l [rule_format, of "31 - i"] assms by auto
    qed
  qed (use assms in auto)
  finally show ?thesis .
qed

text \<open>The two prefix tests of the reachability check are exact: an address is accepted for a prefix of length
  \<open>n\<close> if and only if its first \<open>n\<close> bits, most significant first, are those of the network address, for every
  length up to 32 and up to 128 bits.\<close>

theorem prefix_tests_exact:
  "(0 \<le> n \<and> n \<le> 32 \<longrightarrow> (ipv4_prefix_contains a b n \<longleftrightarrow> (\<forall>i < nat n. bit a (31 - i) = bit b (31 - i))))
   \<and> (0 \<le> n \<and> n \<le> 128 \<and> length as = 16 \<and> length bs = 16 \<longrightarrow>
        (ipv6_prefix_contains as bs n \<longleftrightarrow> prefix_bits as (nat n) = prefix_bits bs (nat n)))"
  using ipv4_prefix_contains_bits ipv6_prefix_contains_bits by blast

theorem prefix_tests_exact_witness:
  "bit (0xC0A80100 :: u32) (31 - 23) = bit (0xC0A801FE :: u32) (31 - 23) \<and> ipv4_prefix_contains 0xC0A80100 0xC0A801FE 24
   \<and> prefix_bits (replicate 16 0) 128 \<noteq> prefix_bits (replicate 15 0 @ [1]) 128"
proof -
  have "ipv4_prefix_contains 0xC0A80100 0xC0A801FE 24" by (simp add: ipv4_prefix_contains_def Let_def mask_eq_exp_minus_1)
  moreover have "\<not> ipv6_prefix_contains (replicate 16 0) (replicate 15 0 @ [1]) 128"
    by (simp add: ipv6_prefix_contains_def numeral_eq_Suc)
  ultimately show ?thesis
    using prefix_tests_exact [where n = 24 and a = "0xC0A80100" and b = "0xC0A801FE"]
      prefix_tests_exact [where n = 128 and as = "replicate 16 0" and bs = "replicate 15 0 @ [1]"] by auto
qed

section \<open>The selection is recovered from the routes\<close>

text \<open>The routes a selection is read from.\<close>

definition selecting_route :: "dumped_route \<Rightarrow> bool" where
  "selecting_route r \<longleftrightarrow>
     dmp_destination r = ''default'' \<and> \<not> dmp_blackhole r \<and> \<not> dmp_unreachable r \<and> dmp_metric r = 0"

text \<open>The child a route belongs to.\<close>

definition child_matches :: "outbound list \<Rightarrow> dumped_route \<Rightarrow> string \<Rightarrow> bool" where
  "child_matches outbounds route t =
     (case find_outbound outbounds t of None \<Rightarrow> False | Some c \<Rightarrow> route_matches_outbound route c)"

definition matching_children :: "outbound list \<Rightarrow> outbound \<Rightarrow> dumped_route \<Rightarrow> string set" where
  "matching_children outbounds urltest route =
     {t \<in> set (urltest_child_tags urltest). child_matches outbounds route t}"

lemma match_children_Cons:
  "match_children outbounds route acc (t # tags) =
     (if \<not> child_matches outbounds route t then match_children outbounds route acc tags
      else if acc \<noteq> None \<and> acc \<noteq> Some t then None
      else match_children outbounds route (Some t) tags)"
  by (simp add: child_matches_def split: option.split)

lemma match_children_iff:
  "match_children outbounds route acc tags = Some (Some t)
   \<longleftrightarrow> set_option acc \<union> {x \<in> set tags. child_matches outbounds route x} = {t}"
proof (induction tags arbitrary: acc)
  case Nil
  then show ?case by (cases acc) auto
next
  case (Cons x tags)
  let ?M = "{y \<in> set tags. child_matches outbounds route y}"
  show ?case
  proof (cases "child_matches outbounds route x")
    case False
    then have "{y \<in> set (x # tags). child_matches outbounds route y} = ?M" by auto
    then show ?thesis using Cons.IH [of acc] False unfolding match_children_Cons by simp
  next
    case True
    then have ins: "{y \<in> set (x # tags). child_matches outbounds route y} = insert x ?M" by auto
    show ?thesis
    proof (cases "acc = None \<or> acc = Some x")
      case acc: True
      then have "set_option acc \<union> insert x ?M = set_option (Some x) \<union> ?M" by auto
      then show ?thesis using Cons.IH [of "Some x"] True acc unfolding match_children_Cons ins by auto
    next
      case acc: False
      then obtain y where "acc = Some y" "y \<noteq> x" by (cases acc) auto
      then show ?thesis using True acc unfolding match_children_Cons ins by auto
    qed
  qed
qed

lemma infer_loop_Cons:
  "infer_loop outbounds urltest selected (r # routes) =
     (if \<not> selecting_route r then infer_loop outbounds urltest selected routes
      else (case match_children outbounds r None (urltest_child_tags urltest) of
              Some (Some t) \<Rightarrow> (if selected \<noteq> None \<and> selected \<noteq> Some t then None
                               else infer_loop outbounds urltest (Some t) routes)
            | _ \<Rightarrow> None))"
  by (auto simp: selecting_route_def split: option.split)

lemma infer_loop_iff:
  "infer_loop outbounds urltest selected routes = Some tag
   \<longleftrightarrow> (selected = None \<or> selected = Some tag) \<and> (selected = None \<longrightarrow> (\<exists>r \<in> set routes. selecting_route r))
     \<and> (\<forall>r \<in> set routes. selecting_route r \<longrightarrow> matching_children outbounds urltest r = {tag})"
proof (induction routes arbitrary: selected)
  case Nil
  then show ?case by (cases selected) auto
next
  case (Cons r routes)
  show ?case
  proof (cases "selecting_route r")
    case False
    then show ?thesis using Cons.IH [of selected] unfolding infer_loop_Cons by simp
  next
    case True
    have m: "match_children outbounds r None (urltest_child_tags urltest) = Some (Some t)
        \<longleftrightarrow> matching_children outbounds urltest r = {t}" for t
      by (simp add: match_children_iff matching_children_def)
    show ?thesis
    proof (cases "matching_children outbounds urltest r = {tag}")
      case unique: True
      then have "match_children outbounds r None (urltest_child_tags urltest) = Some (Some tag)" using m by blast
      then show ?thesis using True unique Cons.IH [of "Some tag"] unfolding infer_loop_Cons by auto
    next
      case False
      then have "match_children outbounds r None (urltest_child_tags urltest) \<noteq> Some (Some tag)" using m by blast
      then have "infer_loop outbounds urltest selected (r # routes) \<noteq> Some tag"
        using True Cons.IH unfolding infer_loop_Cons by (auto split: option.split)
      then show ?thesis using True False by auto
    qed
  qed
qed



end
