(* ===== verification/Firewall_Rules.thy ===== *)
theory Firewall_Rules
  imports Port_Spec List_Parser Routing_Plan
begin

text \<open>
  From route rules to firewall rules: the criteria of a rule and the global prefilter
  (\<^verbatim>\<open>src/firewall/firewall.hpp\<close>), address selectors (\<^verbatim>\<open>src/config/addr_spec.hpp\<close>), the decision taken for an
  outbound (\<^verbatim>\<open>src/routing/target.{hpp,cpp}\<close>), the firewall state (\<^verbatim>\<open>src/routing/firewall_state.{hpp,cpp}\<close>), the
  rule states built from a configuration and their restriction to the sets that exist
  (\<^verbatim>\<open>src/config/routing_state.cpp\<close>), and the mark arithmetic and clean-up of
  \<^verbatim>\<open>src/runtime/conntrack_manager.{hpp,cpp}\<close>. The \<^verbatim>\<open>inet_pton\<close> tests are parameters.
\<close>

section \<open>Criteria and prefilter\<close>

datatype l4_proto = L4Any | L4Tcp | L4Udp | L4TcpUdp

fun l4_proto_name :: "l4_proto \<Rightarrow> string" where
  "l4_proto_name L4Any = ''''"
| "l4_proto_name L4Tcp = ''tcp''"
| "l4_proto_name L4Udp = ''udp''"
| "l4_proto_name L4TcpUdp = ''tcp/udp''"

record firewall_rule_criteria =
  fc_dst_set_name :: "string option"
  fc_dscp :: "u8 option"
  fc_proto :: l4_proto
  fc_src_port :: port_spec
  fc_dst_port :: port_spec
  fc_src_addr :: "string list"
  fc_dst_addr :: "string list"
  fc_negate_src_port :: bool
  fc_negate_dst_port :: bool
  fc_negate_src_addr :: bool
  fc_negate_dst_addr :: bool
  fc_apply_output :: bool

definition default_criteria :: firewall_rule_criteria where
  "default_criteria = \<lparr>fc_dst_set_name = None, fc_dscp = None, fc_proto = L4Any, fc_src_port = \<lparr>ranges = []\<rparr>,
     fc_dst_port = \<lparr>ranges = []\<rparr>, fc_src_addr = [], fc_dst_addr = [], fc_negate_src_port = False,
     fc_negate_dst_port = False, fc_negate_src_addr = False, fc_negate_dst_addr = False, fc_apply_output = False\<rparr>"

definition criteria_empty :: "firewall_rule_criteria \<Rightarrow> bool" where
  "criteria_empty c \<longleftrightarrow> fc_dst_set_name c = None \<and> fc_dscp c = None \<and> fc_proto c = L4Any
     \<and> ranges (fc_src_port c) = [] \<and> ranges (fc_dst_port c) = [] \<and> fc_src_addr c = [] \<and> fc_dst_addr c = []
     \<and> \<not> fc_apply_output c"

definition has_rule_selector :: "firewall_rule_criteria \<Rightarrow> bool" where
  "has_rule_selector c \<longleftrightarrow> fc_dst_set_name c \<noteq> None \<or> fc_dscp c \<noteq> None \<or> ranges (fc_src_port c) \<noteq> []
     \<or> ranges (fc_dst_port c) \<noteq> [] \<or> fc_src_addr c \<noteq> [] \<or> fc_dst_addr c \<noteq> []"

record firewall_global_prefilter =
  gp_inbound_interfaces :: "string list option"
  gp_skip_established_or_dnat :: bool
  gp_skip_marked_packets :: bool
  gp_restore_conntrack_mark :: bool
  gp_conntrack_mark_mask :: u32

definition default_prefilter :: firewall_global_prefilter where
  "default_prefilter = \<lparr>gp_inbound_interfaces = None, gp_skip_established_or_dnat = False,
     gp_skip_marked_packets = False, gp_restore_conntrack_mark = False, gp_conntrack_mark_mask = 0\<rparr>"

definition has_inbound_interfaces :: "firewall_global_prefilter \<Rightarrow> bool" where
  "has_inbound_interfaces p \<longleftrightarrow> (case gp_inbound_interfaces p of None \<Rightarrow> False | Some ifs \<Rightarrow> ifs \<noteq> [])"

definition prefilter_empty :: "firewall_global_prefilter \<Rightarrow> bool" where
  "prefilter_empty p \<longleftrightarrow> \<not> gp_skip_established_or_dnat p \<and> \<not> gp_skip_marked_packets p \<and> \<not> has_inbound_interfaces p"

datatype firewall_apply_mode = Destructive | PreserveSets | StaticSetsOnly

section \<open>Address selectors\<close>

record addr_spec =
  as_addrs :: "string list"
  as_negate :: bool

definition quoted :: "string \<Rightarrow> string" where
  "quoted s = [CHR 0x27] @ s @ [CHR 0x27]"

definition validate_cidr :: "(string \<Rightarrow> bool) \<Rightarrow> (string \<Rightarrow> bool) \<Rightarrow> string \<Rightarrow> unit result" where
  "validate_cidr pton4 pton6 cidr =
     (let ip_part = (case split_first CHR ''/'' cidr of None \<Rightarrow> cidr | Some (ip, p) \<Rightarrow> ip);
          is_v4 = pton4 (c_str ip_part);
          is_v6 = (\<not> is_v4 \<and> pton6 (c_str ip_part))
      in if \<not> is_v4 \<and> \<not> is_v6
         then Inl (InvalidArgument (''Invalid IP address in CIDR spec: '' @ quoted cidr))
         else (case split_first CHR ''/'' cidr of
                 None \<Rightarrow> Inr ()
               | Some (ip, prefix_str) \<Rightarrow>
                   (case from_chars_int prefix_str of
                      None \<Rightarrow> Inl (InvalidArgument (''Invalid prefix length in CIDR spec: '' @ quoted cidr))
                    | Some plen \<Rightarrow>
                        (if plen < 0 \<or> plen > (if is_v4 then 32 else 128)
                         then Inl (InvalidArgument (''Prefix length out of range in CIDR spec: '' @ quoted cidr))
                         else Inr ()))))"

definition addr_blank :: "char \<Rightarrow> bool" where
  "addr_blank c \<longleftrightarrow> c = CHR '' '' \<or> c = CHR 0x09"

definition parse_addr_token ::
  "(string \<Rightarrow> bool) \<Rightarrow> (string \<Rightarrow> bool) \<Rightarrow> string list \<Rightarrow> string \<Rightarrow> string list result" where
  "parse_addr_token pton4 pton6 addrs token =
     (let t = trim_by addr_blank token
      in if t = [] then Inr addrs
         else (case validate_cidr pton4 pton6 t of Inl e \<Rightarrow> Inl e | Inr u \<Rightarrow> Inr (addrs @ [t])))"

definition parse_addr_spec :: "(string \<Rightarrow> bool) \<Rightarrow> (string \<Rightarrow> bool) \<Rightarrow> string \<Rightarrow> addr_spec result" where
  "parse_addr_spec pton4 pton6 spec =
     (if spec = [] then Inr \<lparr>as_addrs = [], as_negate = False\<rparr>
      else let negate = (hd spec = CHR ''!'');
               body = (if negate then tl spec else spec)
           in (case fold_result (parse_addr_token pton4 pton6) [] (getline_tokens CHR '','' body) of
                 Inl e \<Rightarrow> Inl e
               | Inr addrs \<Rightarrow> Inr \<lparr>as_addrs = addrs, as_negate = negate\<rparr>))"

section \<open>Building the criteria of a rule\<close>

definition parse_rule_proto :: "string option \<Rightarrow> l4_proto result" where
  "parse_rule_proto proto =
     (case proto of
        None \<Rightarrow> Inr L4Any
      | Some p \<Rightarrow>
          (if p = [] then Inr L4Any
           else if p = ''tcp'' then Inr L4Tcp
           else if p = ''udp'' then Inr L4Udp
           else if p = ''tcp/udp'' then Inr L4TcpUdp
           else Inl (FirewallError (''Unsupported route rule protocol: '' @ p))))"

definition build_firewall_global_prefilter :: "config \<Rightarrow> firewall_global_prefilter" where
  "build_firewall_global_prefilter cfg =
     default_prefilter\<lparr>gp_skip_established_or_dnat := True,
       gp_skip_marked_packets := value_or (dm_skip_marked_packets (value_or (cfg_daemon cfg) default_daemon_config)) True,
       gp_inbound_interfaces :=
         (case rc_inbound_interfaces (value_or (cfg_route cfg) default_route_config) of
            None \<Rightarrow> None
          | Some ifs \<Rightarrow> (if ifs = [] then None else Some ifs))\<rparr>"

definition strip_neg :: "string \<Rightarrow> string \<times> bool" where
  "strip_neg value = (if value \<noteq> [] \<and> hd value = CHR ''!'' then (tl value, True) else (value, False))"

definition build_firewall_rule_criteria ::
  "(string \<Rightarrow> bool) \<Rightarrow> (string \<Rightarrow> bool) \<Rightarrow> route_rule \<Rightarrow> firewall_rule_criteria result" where
  "build_firewall_rule_criteria pton4 pton6 rule =
     (case parse_rule_proto (rr_proto rule) of Inl e \<Rightarrow> Inl e | Inr proto \<Rightarrow>
      case strip_neg (value_or (rr_src_port rule) []) of (sport, nsport) \<Rightarrow>
      case parse_port_spec sport of Inl e \<Rightarrow> Inl e | Inr src_port \<Rightarrow>
      case strip_neg (value_or (rr_dest_port rule) []) of (dport, ndport) \<Rightarrow>
      case parse_port_spec dport of Inl e \<Rightarrow> Inl e | Inr dst_port \<Rightarrow>
      case parse_addr_spec pton4 pton6 (value_or (rr_src_addr rule) []) of Inl e \<Rightarrow> Inl e | Inr src \<Rightarrow>
      case parse_addr_spec pton4 pton6 (value_or (rr_dest_addr rule) []) of Inl e \<Rightarrow> Inl e | Inr dst \<Rightarrow>
        Inr \<lparr>fc_dst_set_name = None, fc_dscp = map_option word_of_int (rr_dscp rule), fc_proto = proto,
             fc_src_port = src_port, fc_dst_port = dst_port, fc_src_addr = as_addrs src, fc_dst_addr = as_addrs dst,
             fc_negate_src_port = nsport, fc_negate_dst_port = ndport, fc_negate_src_addr = as_negate src,
             fc_negate_dst_addr = as_negate dst, fc_apply_output = False\<rparr>)"

section \<open>The decision for an outbound\<close>

record routing_decision =
  rd_outbound :: "outbound option"
  rd_is_skip :: bool
  rd_is_passthrough :: bool

definition decision_none :: routing_decision where
  "decision_none = \<lparr>rd_outbound = None, rd_is_skip = False, rd_is_passthrough = False\<rparr>"

definition decision_passthrough :: "outbound \<Rightarrow> routing_decision" where
  "decision_passthrough ob = decision_none\<lparr>rd_outbound := Some ob, rd_is_passthrough := True\<rparr>"

definition decision_route_to :: "outbound \<Rightarrow> routing_decision" where
  "decision_route_to ob = decision_none\<lparr>rd_outbound := Some ob\<rparr>"

fun find_outbound_by_tag :: "outbound list \<Rightarrow> string \<Rightarrow> outbound option" where
  "find_outbound_by_tag [] tag = None"
| "find_outbound_by_tag (ob # obs) tag = (if ob_tag ob = tag then Some ob else find_outbound_by_tag obs tag)"

definition resolve_route_action :: "string \<Rightarrow> outbound list \<Rightarrow> routing_decision" where
  "resolve_route_action outbound_tag outbounds =
     (case find_outbound_by_tag outbounds outbound_tag of
        None \<Rightarrow> decision_none
      | Some ob \<Rightarrow> (if ob_type ob = IGNORE then decision_passthrough ob else decision_route_to ob))"

section \<open>Rule states\<close>

datatype rule_action_type = ActMark | ActDrop | ActPass | ActSkip

record rule_state =
  rst_rule_index :: nat
  rst_list_names :: "string list"
  rst_set_names :: "string list"
  rst_outbound_tag :: string
  rst_action_type :: rule_action_type
  rst_fwmark :: u32
  rst_criteria :: firewall_rule_criteria

definition lists_map :: "config \<Rightarrow> (string, list_config) smap" where
  "lists_map cfg = value_or (cfg_lists cfg) []"

definition route_rules :: "config \<Rightarrow> route_rule list" where
  "route_rules cfg = value_or (rc_rules (value_or (cfg_route cfg) default_route_config)) []"

definition possible_set_names :: "config \<Rightarrow> string list \<Rightarrow> string list" where
  "possible_set_names cfg list_names =
     concat (map (\<lambda>n. case map_of (lists_map cfg) n of
                        None \<Rightarrow> []
                      | Some l \<Rightarrow> [''kpbr4_'' @ n, ''kpbr6_'' @ n, ''kpbr4d_'' @ n, ''kpbr6d_'' @ n]) list_names)"

definition base_rule_state :: "nat \<Rightarrow> route_rule \<Rightarrow> rule_action_type \<Rightarrow> rule_state" where
  "base_rule_state rule_idx rule act =
     \<lparr>rst_rule_index = rule_idx, rst_list_names = route_rule_lists rule, rst_set_names = [],
      rst_outbound_tag = rr_outbound rule, rst_action_type = act, rst_fwmark = 0, rst_criteria = default_criteria\<rparr>"

text \<open>The outbound whose mark a rule uses: the selected child of a URL test, if it is configured.\<close>

definition effective_outbound :: "(string, string) smap option \<Rightarrow> outbound list \<Rightarrow> outbound \<Rightarrow> string \<times> outbound" where
  "effective_outbound urltest_selections all_outbounds ob =
     (if ob_type ob = URLTEST
      then let selected = resolve_urltest_selection urltest_selections (ob_tag ob)
           in if selected \<noteq> []
              then (case find_outbound all_outbounds selected of
                      None \<Rightarrow> (ob_tag ob, ob)
                    | Some child \<Rightarrow> (selected, child))
              else (ob_tag ob, ob)
      else (ob_tag ob, ob))"

definition build_fw_rule_state ::
  "config \<Rightarrow> (string, u32) smap \<Rightarrow> (string, string) smap option \<Rightarrow> nat \<Rightarrow> route_rule \<Rightarrow> rule_state" where
  "build_fw_rule_state cfg marks urltest_selections rule_idx rule =
     (let all_outbounds = value_or (cfg_outbounds cfg) [];
          skip = base_rule_state rule_idx rule ActSkip;
          set_names = possible_set_names cfg (route_rule_lists rule)
      in if \<not> route_rule_enabled rule then skip
         else let decision = resolve_route_action (rr_outbound rule) all_outbounds
              in if rd_is_skip decision then skip
                 else (case rd_outbound decision of
                         None \<Rightarrow> skip
                       | Some ob \<Rightarrow>
                           (if rd_is_passthrough decision
                            then (base_rule_state rule_idx rule ActPass)\<lparr>rst_set_names := set_names\<rparr>
                            else (case effective_outbound urltest_selections all_outbounds ob of
                                    (effective_tag, effective_ob) \<Rightarrow>
                                      (if ob_type effective_ob = BLACKHOLE
                                       then (base_rule_state rule_idx rule ActDrop)\<lparr>rst_set_names := set_names\<rparr>
                                       else (base_rule_state rule_idx rule ActMark)
                                              \<lparr>rst_fwmark := (case map_of marks effective_tag of None \<Rightarrow> 0 | Some m \<Rightarrow> m),
                                               rst_set_names := set_names\<rparr>)))))"

definition build_fw_rule_states ::
  "config \<Rightarrow> (string, u32) smap \<Rightarrow> (string, string) smap option \<Rightarrow> rule_state list" where
  "build_fw_rule_states cfg marks urltest_selections =
     map (\<lambda>(rule_idx, rule). build_fw_rule_state cfg marks urltest_selections rule_idx rule)
       (List.enumerate 0 (route_rules cfg))"

section \<open>Restriction to the sets that exist\<close>

type_synonym usage_fn = "string \<Rightarrow> list_config \<Rightarrow> list_set_usage result"

text \<open>The lookup of a list in the usage cache, which calls the analysis once per list.\<close>

definition cached_usage ::
  "usage_fn \<Rightarrow> string \<Rightarrow> list_config \<Rightarrow> (string, list_set_usage) smap
     \<Rightarrow> (list_set_usage \<times> (string, list_set_usage) smap) result" where
  "cached_usage usage_fn list_name list_cfg cache =
     (case map_of cache list_name of
        Some u \<Rightarrow> Inr (u, cache)
      | None \<Rightarrow>
          (case usage_fn list_name list_cfg of
             Inl e \<Rightarrow> Inl e
           | Inr u \<Rightarrow> Inr (u, smap_emplace list_name u cache)))"

definition realized_names :: "bool \<Rightarrow> string \<Rightarrow> list_set_usage \<Rightarrow> string list" where
  "realized_names ipv6_enabled n u =
     (if has_static_entries u then [''kpbr4_'' @ n] @ (if ipv6_enabled then [''kpbr6_'' @ n] else []) else [])
     @ (if has_domain_entries u then [''kpbr4d_'' @ n] @ (if ipv6_enabled then [''kpbr6d_'' @ n] else []) else [])"

definition prune_list ::
  "config \<Rightarrow> usage_fn \<Rightarrow> bool \<Rightarrow> string list \<times> (string, list_set_usage) smap \<Rightarrow> string
     \<Rightarrow> (string list \<times> (string, list_set_usage) smap) result" where
  "prune_list cfg usage_fn ipv6_enabled s list_name =
     (case map_of (lists_map cfg) list_name of
        None \<Rightarrow> Inr s
      | Some list_cfg \<Rightarrow>
          (case cached_usage usage_fn list_name list_cfg (snd s) of
             Inl e \<Rightarrow> Inl e
           | Inr (u, cache) \<Rightarrow> Inr (fst s @ realized_names ipv6_enabled list_name u, cache)))"

definition prune_rule_state ::
  "(string \<Rightarrow> bool) \<Rightarrow> (string \<Rightarrow> bool) \<Rightarrow> config \<Rightarrow> usage_fn \<Rightarrow> bool
     \<Rightarrow> rule_state list \<times> (string, list_set_usage) smap \<Rightarrow> rule_state
     \<Rightarrow> (rule_state list \<times> (string, list_set_usage) smap) result" where
  "prune_rule_state pton4 pton6 cfg usage_fn ipv6_enabled s rs =
     (if rst_action_type rs = ActSkip then Inr (fst s @ [rs], snd s)
      else if rst_rule_index rs \<ge> length (route_rules cfg) then Inr (fst s @ [rs], snd s)
      else let rule = route_rules cfg ! rst_rule_index rs
           in (case build_firewall_rule_criteria pton4 pton6 rule of
                 Inl e \<Rightarrow> Inl e
               | Inr criteria \<Rightarrow>
                   (case fold_result (prune_list cfg usage_fn ipv6_enabled) ([], snd s) (route_rule_lists rule) of
                      Inl e \<Rightarrow> Inl e
                    | Inr (names, cache) \<Rightarrow>
                        Inr (fst s @ [rs\<lparr>rst_set_names := names, rst_criteria := criteria\<rparr>], cache))))"

definition prune_fw_rule_states_to_realized_sets ::
  "(string \<Rightarrow> bool) \<Rightarrow> (string \<Rightarrow> bool) \<Rightarrow> config \<Rightarrow> usage_fn \<Rightarrow> bool \<Rightarrow> rule_state list \<Rightarrow> rule_state list result" where
  "prune_fw_rule_states_to_realized_sets pton4 pton6 cfg usage_fn ipv6_enabled rule_states =
     map_sum id fst (fold_result (prune_rule_state pton4 pton6 cfg usage_fn ipv6_enabled) ([], []) rule_states)"

section \<open>Firewall state\<close>

record firewall_state =
  fs_outbound_marks :: "(string, u32) smap"
  fs_fwmark_mask :: u32
  fs_rules :: "rule_state list"
  fs_urltest_selections :: "(string, string) smap"

definition new_firewall_state :: firewall_state where
  "new_firewall_state = \<lparr>fs_outbound_marks = [], fs_fwmark_mask = 0xFFFFFFFF, fs_rules = [], fs_urltest_selections = []\<rparr>"

definition set_rules :: "rule_state list \<Rightarrow> firewall_state \<Rightarrow> firewall_state" where
  "set_rules rs fs = fs\<lparr>fs_rules := rs\<rparr>"

definition set_urltest_selection :: "string \<Rightarrow> string \<Rightarrow> firewall_state \<Rightarrow> firewall_state" where
  "set_urltest_selection urltest_tag child_tag fs =
     fs\<lparr>fs_urltest_selections := smap_put urltest_tag child_tag (fs_urltest_selections fs)\<rparr>"

definition set_outbound_marks :: "(string, u32) smap \<Rightarrow> firewall_state \<Rightarrow> firewall_state" where
  "set_outbound_marks marks fs = fs\<lparr>fs_outbound_marks := marks\<rparr>"

definition set_fwmark_mask :: "u32 \<Rightarrow> firewall_state \<Rightarrow> firewall_state" where
  "set_fwmark_mask m fs = fs\<lparr>fs_fwmark_mask := m\<rparr>"

definition resolve_effective_outbound :: "firewall_state \<Rightarrow> rule_state \<Rightarrow> string" where
  "resolve_effective_outbound fs rule =
     (case map_of (fs_urltest_selections fs) (rst_outbound_tag rule) of
        Some child \<Rightarrow> child
      | None \<Rightarrow> rst_outbound_tag rule)"

section \<open>Connection marks\<close>

record conntrack_policy =
  bypass_established_or_dnat :: bool

definition conntrack_reconcile :: "conntrack_policy \<Rightarrow> conntrack_policy \<Rightarrow> bool \<times> conntrack_policy" where
  "conntrack_reconcile desired active = (if active = desired then (False, active) else (True, desired))"

definition restore_original_mark :: "u32 \<Rightarrow> u32 \<Rightarrow> u32 \<Rightarrow> u32" where
  "restore_original_mark nfmark ctmark owned_mask = (nfmark AND NOT owned_mask) OR (ctmark AND owned_mask)"

definition save_selected_mark :: "u32 \<Rightarrow> u32 \<Rightarrow> u32 \<Rightarrow> u32" where
  "save_selected_mark ctmark nfmark owned_mask = (ctmark AND NOT owned_mask) OR (nfmark AND owned_mask)"

record command_result =
  cr_exit_code :: int
  cr_output :: string

definition mark_selector :: "u32 \<Rightarrow> u32 \<Rightarrow> string" where
  "mark_selector mark owned_mask = nat_to_string (unat mark) @ ''/'' @ nat_to_string (unat owned_mask)"

text \<open>One \<^verbatim>\<open>conntrack -D\<close> per address family. The runner is the parameter \<^verbatim>\<open>CommandRunner\<close> of the constructor;
  both families are tried, and a family in which nothing matched counts as clean.\<close>

definition delete_family ::
  "(string list \<Rightarrow> 'w \<Rightarrow> command_result \<times> 'w) \<Rightarrow> string \<Rightarrow> string \<Rightarrow> 'w \<Rightarrow> bool \<times> 'w" where
  "delete_family runner selector family w =
     (case runner [''conntrack'', ''-D'', ''-f'', family, ''--mark'', selector] w of
        (r, w') \<Rightarrow>
          (cr_exit_code r = 0
           \<or> cr_exit_code r = 1 \<and> sublist ''0 flow entries have been deleted'' (cr_output r), w'))"

definition delete_mark ::
  "(string list \<Rightarrow> 'w \<Rightarrow> command_result \<times> 'w) \<Rightarrow> u32 \<Rightarrow> u32 \<Rightarrow> 'w \<Rightarrow> bool \<times> 'w" where
  "delete_mark runner mark owned_mask w =
     (let selector = mark_selector mark owned_mask
      in case delete_family runner selector ''ipv4'' w of (ipv4, w1) \<Rightarrow>
         case delete_family runner selector ''ipv6'' w1 of (ipv6, w2) \<Rightarrow> (ipv4 \<and> ipv6, w2))"

section \<open>The usage cache is transparent\<close>

text \<open>The restriction of one rule state without a cache.\<close>

definition list_realized_names :: "config \<Rightarrow> usage_fn \<Rightarrow> bool \<Rightarrow> string \<Rightarrow> string list result" where
  "list_realized_names cfg usage_fn ipv6_enabled n =
     (case map_of (lists_map cfg) n of
        None \<Rightarrow> Inr []
      | Some l \<Rightarrow> map_sum id (realized_names ipv6_enabled n) (usage_fn n l))"

definition realized_rule_state ::
  "(string \<Rightarrow> bool) \<Rightarrow> (string \<Rightarrow> bool) \<Rightarrow> config \<Rightarrow> usage_fn \<Rightarrow> bool \<Rightarrow> rule_state \<Rightarrow> rule_state result" where
  "realized_rule_state pton4 pton6 cfg usage_fn ipv6_enabled rs =
     (if rst_action_type rs = ActSkip \<or> rst_rule_index rs \<ge> length (route_rules cfg) then Inr rs
      else let rule = route_rules cfg ! rst_rule_index rs
           in (case build_firewall_rule_criteria pton4 pton6 rule of
                 Inl e \<Rightarrow> Inl e
               | Inr c \<Rightarrow> map_sum id (\<lambda>names. rs\<lparr>rst_set_names := concat names, rst_criteria := c\<rparr>)
                             (map_result (list_realized_names cfg usage_fn ipv6_enabled) (route_rule_lists rule))))"

definition usage_cache_ok :: "config \<Rightarrow> usage_fn \<Rightarrow> (string, list_set_usage) smap \<Rightarrow> bool" where
  "usage_cache_ok cfg usage_fn cache \<longleftrightarrow>
     (\<forall>n u l. map_of cache n = Some u \<and> map_of (lists_map cfg) n = Some l \<longrightarrow> usage_fn n l = Inr u)"

lemma usage_cache_ok_Nil [simp]: "usage_cache_ok cfg usage_fn []"
  by (simp add: usage_cache_ok_def)

lemma cached_usage_ok:
  assumes "usage_cache_ok cfg usage_fn cache" and "map_of (lists_map cfg) n = Some l"
  shows "case usage_fn n l of
      Inl e \<Rightarrow> cached_usage usage_fn n l cache = Inl e
    | Inr u \<Rightarrow> (\<exists>cache'. cached_usage usage_fn n l cache = Inr (u, cache') \<and> usage_cache_ok cfg usage_fn cache')"
proof (cases "map_of cache n")
  case None
  then show ?thesis using assms
    by (auto simp: cached_usage_def usage_cache_ok_def map_of_smap_emplace split: sum.splits if_splits)
next
  case (Some u)
  then show ?thesis using assms by (auto simp: cached_usage_def usage_cache_ok_def)
qed

lemma prune_lists_uncached:
  assumes "usage_cache_ok cfg usage_fn cache"
  shows "case map_result (list_realized_names cfg usage_fn v6) ns of
      Inl e \<Rightarrow> fold_result (prune_list cfg usage_fn v6) (acc, cache) ns = Inl e
    | Inr names \<Rightarrow> (\<exists>cache'. fold_result (prune_list cfg usage_fn v6) (acc, cache) ns = Inr (acc @ concat names, cache')
        \<and> usage_cache_ok cfg usage_fn cache')"
  using assms
proof (induction ns arbitrary: acc cache)
  case Nil
  then show ?case by simp
next
  case (Cons n ns)
  show ?case
  proof (cases "map_of (lists_map cfg) n")
    case None
    then have "prune_list cfg usage_fn v6 (acc, cache) n = Inr (acc, cache)"
      "list_realized_names cfg usage_fn v6 n = Inr []"
      by (simp_all add: prune_list_def list_realized_names_def)
    then show ?thesis using Cons.IH [OF Cons.prems, of acc] by (simp split: sum.splits)
  next
    case (Some l)
    show ?thesis
    proof (cases "usage_fn n l")
      case (Inl e)
      then show ?thesis using cached_usage_ok [OF Cons.prems Some]
        by (simp add: Some prune_list_def list_realized_names_def)
    next
      case (Inr u)
      then obtain cache' where "cached_usage usage_fn n l cache = Inr (u, cache')" "usage_cache_ok cfg usage_fn cache'"
        using cached_usage_ok [OF Cons.prems Some] by auto
      then have "prune_list cfg usage_fn v6 (acc, cache) n = Inr (acc @ realized_names v6 n u, cache')"
        "list_realized_names cfg usage_fn v6 n = Inr (realized_names v6 n u)" "usage_cache_ok cfg usage_fn cache'"
        using Inr Some by (simp_all add: prune_list_def list_realized_names_def)
      then show ?thesis using Cons.IH [of cache' "acc @ realized_names v6 n u"] by (simp split: sum.splits)
    qed
  qed
qed

lemma prune_rule_state_uncached:
  assumes "usage_cache_ok cfg usage_fn cache"
  shows "case realized_rule_state pton4 pton6 cfg usage_fn v6 rs of
      Inl e \<Rightarrow> prune_rule_state pton4 pton6 cfg usage_fn v6 (acc, cache) rs = Inl e
    | Inr rs' \<Rightarrow> (\<exists>cache'. prune_rule_state pton4 pton6 cfg usage_fn v6 (acc, cache) rs = Inr (acc @ [rs'], cache')
        \<and> usage_cache_ok cfg usage_fn cache')"
proof -
  let ?lists = "route_rule_lists (route_rules cfg ! rst_rule_index rs)"
  let ?names = "map_result (list_realized_names cfg usage_fn v6) ?lists"
  let ?fold = "fold_result (prune_list cfg usage_fn v6) ([], cache) ?lists"
  have bad: "?fold = Inl e" if "?names = Inl e" for e
    using prune_lists_uncached [OF assms, of v6 "[]" ?lists] that by simp
  have good: "\<exists>cache'. ?fold = Inr (concat names, cache') \<and> usage_cache_ok cfg usage_fn cache'" if "?names = Inr names" for names
    using prune_lists_uncached [OF assms, of v6 "[]" ?lists] that by simp
  show ?thesis
  proof (cases ?names)
    case (Inl e)
    then show ?thesis using assms bad [OF Inl]
      by (auto simp: realized_rule_state_def prune_rule_state_def Let_def split: sum.splits)
  next
    case (Inr names)
    then show ?thesis using assms good [OF Inr]
      by (auto simp: realized_rule_state_def prune_rule_state_def Let_def split: sum.splits)
  qed
qed

text \<open>C31. Restricting the rule states to the sets that exist computes each list's usage at most once, and this cannot
  be observed: the result, errors included, is that of restricting each state on its own, where a state that is
  neither skipped nor out of range gets the criteria of its rule and exactly the set names of the lists that
  have static or domain entries, in the order of the rule.\<close>

theorem prune_uses_realized_sets:
  "prune_fw_rule_states_to_realized_sets pton4 pton6 cfg usage_fn v6 states
     = map_result (realized_rule_state pton4 pton6 cfg usage_fn v6) states"
proof -
  have "map_sum id fst (fold_result (prune_rule_state pton4 pton6 cfg usage_fn v6) (acc, cache) states)
      = map_sum id ((@) acc) (map_result (realized_rule_state pton4 pton6 cfg usage_fn v6) states)"
    if "usage_cache_ok cfg usage_fn cache" for acc cache
    using that
  proof (induction states arbitrary: acc cache)
    case Nil
    then show ?case by simp
  next
    case (Cons rs states)
    show ?case
    proof (cases "realized_rule_state pton4 pton6 cfg usage_fn v6 rs")
      case (Inl e)
      then show ?thesis using prune_rule_state_uncached [OF Cons.prems, of pton4 pton6 v6 acc rs] by simp
    next
      case (Inr rs')
      then obtain cache' where
        "prune_rule_state pton4 pton6 cfg usage_fn v6 (acc, cache) rs = Inr (acc @ [rs'], cache')"
        "usage_cache_ok cfg usage_fn cache'"
        using prune_rule_state_uncached [OF Cons.prems, of pton4 pton6 v6 acc rs] by auto
      then show ?thesis using Cons.IH [of cache' "acc @ [rs']"] Inr
        by (cases "map_result (realized_rule_state pton4 pton6 cfg usage_fn v6) states") auto
    qed
  qed
  from this [of "[]" "[]"] show ?thesis
    by (simp add: prune_fw_rule_states_to_realized_sets_def sum.map_ident_strong)
qed

section \<open>Connection marks keep foreign bits\<close>


section \<open>The clean-up after a URL test switch\<close>

lemma find_outbound_eq: "find_outbound_by_tag obs t = find_outbound obs t"
  by (induction obs) auto

lemma find_outbound_SomeD: "find_outbound obs t = Some ob \<Longrightarrow> ob \<in> set obs \<and> ob_tag ob = t"
  by (induction obs) (auto split: if_splits)

text \<open>A rule for a URL test marks with the mark of the selected child.\<close>

lemma urltest_rule_mark:
  assumes "route_rule_enabled rule"
    and "find_outbound (value_or (cfg_outbounds cfg) []) (rr_outbound rule) = Some ob" "ob_type ob = URLTEST"
    and "map_of sel (ob_tag ob) = Some child_tag" "child_tag \<noteq> []"
    and "find_outbound (value_or (cfg_outbounds cfg) []) child_tag = Some child" "ob_type child \<noteq> BLACKHOLE"
    and "map_of marks child_tag = Some child_mark"
  shows "rst_action_type (build_fw_rule_state cfg marks (Some sel) i rule) = ActMark"
    and "rst_fwmark (build_fw_rule_state cfg marks (Some sel) i rule) = child_mark"
  using assms
  by (simp_all add: build_fw_rule_state_def resolve_route_action_def find_outbound_eq decision_route_to_def
      decision_none_def effective_outbound_def resolve_urltest_selection_def base_rule_state_def Let_def)

text \<open>
  \<^verbatim>\<open>Daemon::handle_urltest_selection_change\<close> deletes the connections with the mark of the URL test itself. A
  flow classified by a rule for that URL test carries the mark of the child that was selected, which differs from
  it under the mask, so the clean-up does not select the flow.
\<close>

lemma switch_cleanup_misses_flows:
  assumes "route_rule_enabled rule"
    and "find_outbound (value_or (cfg_outbounds cfg) []) (rr_outbound rule) = Some ob" "ob_type ob = URLTEST"
    and "map_of sel (ob_tag ob) = Some child_tag" "child_tag \<noteq> []" "child_tag \<noteq> ob_tag ob"
    and "find_outbound (value_or (cfg_outbounds cfg) []) child_tag = Some child" "routable child"
    and "allocate_outbound_marks fwc (value_or (cfg_outbounds cfg) []) = Inr marks" "fwmark_mask_value fwc = Inr m"
    and "map_of marks (ob_tag ob) = Some urltest_mark"
  shows "save_selected_mark ct (rst_fwmark (build_fw_rule_state cfg marks (Some sel) i rule)) m AND m \<noteq> urltest_mark AND m"
proof -
  have child: "child \<in> set (value_or (cfg_outbounds cfg) [])" "ob_tag child = child_tag"
    using find_outbound_SomeD [OF assms(7)] by auto
  then obtain cm where cm: "map_of marks child_tag = Some cm"
    using allocated_keys(2) [OF assms(9,10), of child] assms(8) by auto
  have "ob_type child \<noteq> BLACKHOLE" using assms(8) by (auto simp: routable_def)
  then have "rst_fwmark (build_fw_rule_state cfg marks (Some sel) i rule) = cm"
    using urltest_rule_mark(2) [OF assms(1-5,7) _ cm] by blast
  moreover have "cm AND m \<noteq> urltest_mark AND m"
    using allocated_keys(1) [OF assms(9,10) assms(6) cm assms(11)] .
  moreover have "save_selected_mark ct cm m AND m = cm AND m"
    by (rule bit_word_eqI) (simp add: save_selected_mark_def bit_simps, blast)
  ultimately show ?thesis by simp
qed

end
