(* ===== verification/Dns_Server.thy ===== *)
theory Dns_Server
  imports Firewall_Rules
begin

text \<open>
  DNS server addresses (\<^verbatim>\<open>src/dns/dns_server.{hpp,cpp}\<close>) and the server registry
  (\<^verbatim>\<open>src/dns/dns_router.{hpp,cpp}\<close>). The \<^verbatim>\<open>inet_pton\<close> test for IPv6 is a parameter; the addresses of Keenetic
  servers come from an effect on a state of their own, the cache of \<^verbatim>\<open>src/dns/keenetic_dns.cpp\<close>.
\<close>

section \<open>Addresses\<close>

definition dns_address_error :: "string \<Rightarrow> string \<Rightarrow> cpp_error" where
  "dns_address_error address why = DnsError (''Invalid DNS server address: '' @ quoted address @ '' ('' @ why @ '')'')"

definition parse_dns_port_or_throw :: "string \<Rightarrow> string \<Rightarrow> u16 result" where
  "parse_dns_port_or_throw address port_str =
     (case from_chars_uint port_str of
        None \<Rightarrow> Inl (dns_address_error address ''non-numeric port'')
      | Some port \<Rightarrow>
          (if port < 1 \<or> port > 65535 then Inl (dns_address_error address ''port out of range 1-65535'')
           else Inr (of_nat port)))"

text \<open>The loop of \<^verbatim>\<open>is_valid_ipv4\<close>: the number of dots so far, the characters of the current octet and the rest.\<close>

definition dns_octet_ok :: "string \<Rightarrow> bool" where
  "dns_octet_ok octet \<longleftrightarrow> octet \<noteq> [] \<and> (case from_chars_uint octet of None \<Rightarrow> False | Some v \<Rightarrow> v \<le> 255)"

fun valid_ipv4_loop :: "nat \<Rightarrow> string \<Rightarrow> string \<Rightarrow> bool" where
  "valid_ipv4_loop dots octet [] \<longleftrightarrow> dns_octet_ok octet \<and> dots = 3"
| "valid_ipv4_loop dots octet (c # cs) \<longleftrightarrow>
     (if c = CHR ''.'' then dns_octet_ok octet \<and> valid_ipv4_loop (dots + 1) [] cs
      else is_digit c \<and> valid_ipv4_loop dots (octet @ [c]) cs)"

definition is_valid_ipv4 :: "string \<Rightarrow> bool" where
  "is_valid_ipv4 addr = valid_ipv4_loop 0 [] addr"

definition is_valid_ipv6 :: "(string \<Rightarrow> bool) \<Rightarrow> string \<Rightarrow> bool" where
  "is_valid_ipv6 pton6 addr \<longleftrightarrow> addr \<noteq> [] \<and> CHR 0x25 \<notin> set addr \<and> pton6 (c_str addr)"

definition is_valid_ip :: "(string \<Rightarrow> bool) \<Rightarrow> string \<Rightarrow> bool" where
  "is_valid_ip pton6 addr \<longleftrightarrow> is_valid_ipv4 addr \<or> is_valid_ipv6 pton6 addr"

record parsed_dns_address =
  pda_ip :: string
  pda_port :: u16

definition split_dns_address :: "string \<Rightarrow> (string \<times> u16) result" where
  "split_dns_address address =
     (if hd address = CHR ''[''
      then (case split_first CHR '']'' address of
              None \<Rightarrow> Inl (dns_address_error address (''missing closing '' @ quoted '']''))
            | Some (before, after) \<Rightarrow>
                (if after = [] then Inr (tl before, 53)
                 else if hd after \<noteq> CHR '':'' then Inl (dns_address_error address (''expected '' @ quoted '':'' @ '' after '' @ quoted '']''))
                 else map_sum id (Pair (tl before)) (parse_dns_port_or_throw address (tl after))))
      else if length (filter (\<lambda>c. c = CHR '':'') address) = 1
      then (case split_first CHR '':'' address of
              None \<Rightarrow> Inr (address, 53)
            | Some (before, after) \<Rightarrow> map_sum id (Pair before) (parse_dns_port_or_throw address after))
      else Inr (address, 53))"

definition parse_dns_address_str :: "(string \<Rightarrow> bool) \<Rightarrow> string \<Rightarrow> parsed_dns_address result" where
  "parse_dns_address_str pton6 address =
     (if address = [] then Inl (DnsError ''Invalid DNS server address: empty string'')
      else (case split_dns_address address of
              Inl e \<Rightarrow> Inl e
            | Inr (ip, port) \<Rightarrow>
                (if \<not> is_valid_ip pton6 ip
                 then Inl (dns_address_error address ''not a valid IPv4 or IPv6 address'')
                 else Inr \<lparr>pda_ip = ip, pda_port = port\<rparr>)))"

definition validate_dns_address :: "(string \<Rightarrow> bool) \<Rightarrow> string \<Rightarrow> unit result" where
  "validate_dns_address pton6 address = map_sum id (\<lambda>p. ()) (parse_dns_address_str pton6 address)"

record resolved_dns_server =
  rds_tag :: string
  rds_address :: string
  rds_detour :: "string option"
  rds_resolved_ip :: string
  rds_port :: u16

definition parse_dns_server :: "(string \<Rightarrow> bool) \<Rightarrow> string \<Rightarrow> string \<Rightarrow> string option \<Rightarrow> resolved_dns_server result" where
  "parse_dns_server pton6 tag address detour =
     map_sum id (\<lambda>p. \<lparr>rds_tag = tag, rds_address = address, rds_detour = detour, rds_resolved_ip = pda_ip p,
                      rds_port = pda_port p\<rparr>)
       (parse_dns_address_str pton6 address)"

section \<open>The registry\<close>

record dns_server_registry =
  reg_servers :: "(string, resolved_dns_server list) smap"
  reg_fallback_tags :: "string list"

definition push_server ::
  "string \<Rightarrow> resolved_dns_server \<Rightarrow> (string, resolved_dns_server list) smap \<Rightarrow> (string, resolved_dns_server list) smap" where
  "push_server tag server servers =
     smap_put tag ((case map_of servers tag of None \<Rightarrow> [] | Some l \<Rightarrow> l) @ [server]) servers"

definition register_addresses ::
  "(string \<Rightarrow> bool) \<Rightarrow> dns_server_config \<Rightarrow> (string, resolved_dns_server list) smap \<Rightarrow> string list
     \<Rightarrow> (string, resolved_dns_server list) smap result" where
  "register_addresses pton6 server =
     fold_result (\<lambda>servers address.
       map_sum id (\<lambda>s. push_server (srv_tag server) s servers) (parse_dns_server pton6 (srv_tag server) address (srv_detour server)))"

text \<open>One server of the configuration. \<open>resolve\<close> is \<^verbatim>\<open>resolve_keenetic_dns_addresses\<close>, with the cache it reads and
  updates as its state.\<close>

definition register_server ::
  "(string \<Rightarrow> bool) \<Rightarrow> ('c, string list) eff \<Rightarrow> dns_server_config
     \<Rightarrow> ((string, resolved_dns_server list) smap \<times> 'c, unit) eff" where
  "register_server pton6 resolve server s =
     (case value_or (srv_type server) DnsStatic of
        DnsKeenetic \<Rightarrow>
          (case resolve (snd s) of
             (Inl e, c) \<Rightarrow> (Inl e, (fst s, c))
           | (Inr addresses, c) \<Rightarrow>
               (case register_addresses pton6 server (fst s) addresses of
                  Inl e \<Rightarrow> (Inl e, (fst s, c))
                | Inr m \<Rightarrow> (Inr (), (m, c))))
      | DnsStatic \<Rightarrow>
          (case srv_address server of
             None \<Rightarrow> (Inl (DnsError (''DNS server '' @ quoted (srv_tag server) @ '' is missing address'')), s)
           | Some address \<Rightarrow>
               (case register_addresses pton6 server (fst s) [address] of
                  Inl e \<Rightarrow> (Inl e, s)
                | Inr m \<Rightarrow> (Inr (), (m, snd s)))))"

definition require_server :: "string \<Rightarrow> (string, resolved_dns_server list) smap \<Rightarrow> unit \<Rightarrow> string \<Rightarrow> unit result" where
  "require_server kind servers u tag =
     (if map_of servers tag = None then Inl (DnsError (kind @ quoted tag)) else Inr ())"

text \<open>The constructor. The cache keeps what the resolution did to it even when a later check throws.\<close>

definition dns_server_registry_new ::
  "(string \<Rightarrow> bool) \<Rightarrow> ('c, string list) eff \<Rightarrow> dns_config \<Rightarrow> ('c, dns_server_registry) eff" where
  "dns_server_registry_new pton6 resolve cfg c =
     (let fallback_tags = value_or (dns_fallback cfg) [];
          rule_tags = map dr_server (filter dns_rule_enabled (value_or (dns_rules cfg) []))
      in case for_each (register_server pton6 resolve) (value_or (dns_servers cfg) []) ([], c) of
           (Inl e, (servers, c')) \<Rightarrow> (Inl e, c')
         | (Inr u, (servers, c')) \<Rightarrow>
             (case fold_result (require_server ''DNS fallback server tag not found: '' servers) () fallback_tags of
                Inl e \<Rightarrow> (Inl e, c')
              | Inr u \<Rightarrow>
                  (case fold_result (require_server ''DNS rule references unknown server tag: '' servers) () rule_tags of
                     Inl e \<Rightarrow> (Inl e, c')
                   | Inr u \<Rightarrow> (Inr \<lparr>reg_servers = servers, reg_fallback_tags = fallback_tags\<rparr>, c'))))"

definition get_servers :: "dns_server_registry \<Rightarrow> string \<Rightarrow> resolved_dns_server list" where
  "get_servers reg tag = (case map_of (reg_servers reg) tag of None \<Rightarrow> [] | Some l \<Rightarrow> l)"

definition fallback_servers :: "dns_server_registry \<Rightarrow> resolved_dns_server list" where
  "fallback_servers reg = concat (map (get_servers reg) (reg_fallback_tags reg))"

section \<open>Address texts\<close>

lemma valid_ipv4_loop_chars: "valid_ipv4_loop d octet s \<Longrightarrow> list_all (\<lambda>c. c = CHR ''.'' \<or> is_digit c) s"
  by (induction d octet s rule: valid_ipv4_loop.induct) (auto split: if_splits)

lemma valid_ipv4_chars:
  assumes "is_valid_ipv4 ip"
  shows "CHR '':'' \<notin> set ip" "CHR ''['' \<notin> set ip" "CHR '']'' \<notin> set ip" "ip \<noteq> []"
proof -
  have "list_all (\<lambda>c. c = CHR ''.'' \<or> is_digit c) ip"
    using valid_ipv4_loop_chars assms unfolding is_valid_ipv4_def by blast
  then have c: "c \<notin> set ip" if "c \<noteq> CHR ''.''" "\<not> is_digit c" for c
    using that unfolding list_all_iff by blast
  show "CHR '':'' \<notin> set ip" "CHR ''['' \<notin> set ip" "CHR '']'' \<notin> set ip"
    by (rule c; simp add: is_digit_def)+
  show "ip \<noteq> []" using assms by (auto simp: is_valid_ipv4_def dns_octet_ok_def)
qed

lemma parse_dns_port_text:
  assumes "1 \<le> (p :: u16)"
  shows "parse_dns_port_or_throw address (nat_to_string (unat p)) = Inr p"
proof -
  have "\<not> 65535 < unat p" using unat_u16_less [of p] by linarith
  moreover have "0 < unat p" using assms by (simp add: word_le_nat_alt)
  ultimately show ?thesis
    by (simp add: parse_dns_port_or_throw_def from_chars_uint_def nat_to_string_nonempty dec_value_nat_to_string
        nat_to_string_digits list_all_iff)
qed

lemma parse_dns_port_bounds: "parse_dns_port_or_throw address t = Inr p \<Longrightarrow> 1 \<le> p"
  by (auto simp: parse_dns_port_or_throw_def word_le_nat_alt unat_of_nat split: option.splits if_splits)

lemma split_dns_address_port:
  assumes "split_dns_address address = Inr (ip, p)"
  shows "1 \<le> p"
proof -
  have "p = 53 \<or> (\<exists>t. parse_dns_port_or_throw address t = Inr p)"
    using assms by (auto simp: split_dns_address_def result_simps split: if_splits option.splits)
  then show ?thesis using parse_dns_port_bounds by (auto simp: word_le_nat_alt)
qed

lemma split_bracketed:
  assumes "CHR '']'' \<notin> set ip"
  shows "split_dns_address ([CHR ''[''] @ ip @ [CHR '']'']) = Inr (ip, 53)"
    and "1 \<le> p \<Longrightarrow> split_dns_address ([CHR ''[''] @ ip @ [CHR '']'', CHR '':''] @ nat_to_string (unat p)) = Inr (ip, p)"
proof -
  have "split_first CHR '']'' ((CHR ''['' # ip) @ CHR '']'' # rest) = Some (CHR ''['' # ip, rest)" for rest
    by (rule split_first_append) (use assms in simp)
  then have sf: "split_first CHR '']'' (CHR ''['' # ip @ CHR '']'' # rest) = Some (CHR ''['' # ip, rest)" for rest
    by simp
  show "split_dns_address ([CHR ''[''] @ ip @ [CHR '']'']) = Inr (ip, 53)"
    using sf [of "[]"] by (simp add: split_dns_address_def)
  show "1 \<le> p \<Longrightarrow> split_dns_address ([CHR ''[''] @ ip @ [CHR '']'', CHR '':''] @ nat_to_string (unat p)) = Inr (ip, p)"
    using sf [of "CHR '':'' # nat_to_string (unat p)"] by (simp add: split_dns_address_def parse_dns_port_text)
qed

lemma split_ipv4:
  assumes "is_valid_ipv4 ip"
  shows "split_dns_address ip = Inr (ip, 53)"
    and "1 \<le> p \<Longrightarrow> split_dns_address (ip @ [CHR '':''] @ nat_to_string (unat p)) = Inr (ip, p)"
proof -
  note chars = valid_ipv4_chars [OF assms]
  have hd: "hd (ip @ rest) \<noteq> CHR ''[''" for rest using chars(2,4) by (cases ip) auto
  have none: "filter (\<lambda>c. c = CHR '':'') ip = []" using chars(1) by (auto simp: filter_empty_conv)
  then show "split_dns_address ip = Inr (ip, 53)" using hd [of "[]"] by (simp add: split_dns_address_def)
  have "filter (\<lambda>c. c = CHR '':'') (nat_to_string (unat p)) = []"
    by (simp add: filter_empty_conv) (metis nat_to_string_digits punctuation_not_digit(2))
  moreover have "split_first CHR '':'' (ip @ CHR '':'' # rest) = Some (ip, rest)" for rest
    by (rule split_first_append [OF chars(1)])
  ultimately show "1 \<le> p \<Longrightarrow> split_dns_address (ip @ [CHR '':''] @ nat_to_string (unat p)) = Inr (ip, p)"
    using hd none by (simp add: split_dns_address_def parse_dns_port_text)
qed



section \<open>The registry resolves every tag it accepts\<close>

definition server_entry_ok :: "(string \<Rightarrow> bool) \<Rightarrow> string \<Rightarrow> resolved_dns_server \<Rightarrow> bool" where
  "server_entry_ok pton6 tag s \<longleftrightarrow> rds_tag s = tag \<and> is_valid_ip pton6 (rds_resolved_ip s) \<and> 1 \<le> rds_port s"

definition servers_ok :: "(string \<Rightarrow> bool) \<Rightarrow> (string, resolved_dns_server list) smap \<Rightarrow> bool" where
  "servers_ok pton6 m \<longleftrightarrow> (\<forall>tag l. map_of m tag = Some l \<longrightarrow> l \<noteq> [] \<and> list_all (server_entry_ok pton6 tag) l)"

lemma parse_dns_server_ok: "parse_dns_server pton6 tag address detour = Inr s \<Longrightarrow> server_entry_ok pton6 tag s"
  by (auto simp: parse_dns_server_def parse_dns_address_str_def server_entry_ok_def result_simps
      dest!: split_dns_address_port split: if_splits sum.splits)

lemma push_server_ok:
  assumes "servers_ok pton6 m" and "server_entry_ok pton6 tag s"
  shows "servers_ok pton6 (push_server tag s m)" and "dom (map_of (push_server tag s m)) = insert tag (dom (map_of m))"
  using assms by (auto simp: servers_ok_def push_server_def map_of_smap_put simp del: smap_put.simps
      split: option.splits if_splits)

lemma register_addresses_ok:
  assumes "register_addresses pton6 server m addresses = Inr m'" and "servers_ok pton6 m"
  shows "servers_ok pton6 m' \<and> dom (map_of m) \<subseteq> dom (map_of m') \<and> (addresses \<noteq> [] \<longrightarrow> srv_tag server \<in> dom (map_of m'))"
  using assms
proof (induction addresses arbitrary: m)
  case Nil
  then show ?case by (simp add: register_addresses_def)
next
  case (Cons a as)
  then obtain s where s: "parse_dns_server pton6 (srv_tag server) a (srv_detour server) = Inr s"
    and rest: "register_addresses pton6 server (push_server (srv_tag server) s m) as = Inr m'"
    by (auto simp: register_addresses_def result_simps split: sum.splits)
  note ok = push_server_ok [OF Cons.prems(2) parse_dns_server_ok [OF s]]
  show ?case using Cons.IH [OF rest ok(1)] ok(2) by blast
qed

text \<open>What the registry needs of the resolution of Keenetic servers: it gives at least one address or it throws.\<close>

locale dns_source =
  fixes resolve :: "('c, string list) eff"
  assumes resolved_nonempty: "resolve c = (Inr addresses, c') \<Longrightarrow> addresses \<noteq> []"
begin

lemma register_server_ok:
  assumes "register_server pton6 resolve server (m, c) = (Inr (), (m', c'))" and "servers_ok pton6 m"
  shows "servers_ok pton6 m' \<and> dom (map_of m) \<subseteq> dom (map_of m') \<and> srv_tag server \<in> dom (map_of m')"
proof -
  obtain addresses where "register_addresses pton6 server m addresses = Inr m'" "addresses \<noteq> []"
    using assms(1) by (auto simp: register_server_def dest: resolved_nonempty
        split: dns_server_type.splits option.splits sum.splits prod.splits)
  then show ?thesis using register_addresses_ok assms(2) by blast
qed

lemma register_servers_ok:
  assumes "for_each (register_server pton6 resolve) servers (m, c) = (Inr (), (m', c'))" and "servers_ok pton6 m"
  shows "servers_ok pton6 m' \<and> dom (map_of m) \<union> srv_tag ` set servers \<subseteq> dom (map_of m')"
  using assms
proof (induction servers arbitrary: m c)
  case Nil
  then show ?case by simp
next
  case (Cons server servers)
  then obtain m1 c1 where s1: "register_server pton6 resolve server (m, c) = (Inr (), (m1, c1))"
    and rest: "for_each (register_server pton6 resolve) servers (m1, c1) = (Inr (), (m', c'))"
    by (auto simp: for_each_success_step simp del: for_each.simps)
  note ok = register_server_ok [OF s1 Cons.prems(2)]
  show ?case using Cons.IH [OF rest] ok unfolding list.set image_insert by blast
qed

lemma registry_resolves:
  assumes "dns_server_registry_new pton6 resolve cfg c = (Inr reg, c')"
    and "tag \<in> set (value_or (dns_fallback cfg) []) \<union> srv_tag ` set (value_or (dns_servers cfg) [])
        \<union> dr_server ` set (filter dns_rule_enabled (value_or (dns_rules cfg) []))"
  shows "get_servers reg tag \<noteq> [] \<and> list_all (server_entry_ok pton6 tag) (get_servers reg tag)"
proof -
  let ?need = "\<lambda>kind servers. fold_result (require_server kind servers) ()"
  obtain servers where reg: "reg_servers reg = servers"
    and run: "for_each (register_server pton6 resolve) (value_or (dns_servers cfg) []) ([], c) = (Inr (), (servers, c'))"
    and fb: "\<exists>u. ?need ''DNS fallback server tag not found: '' servers (value_or (dns_fallback cfg) []) = Inr u"
    and ru: "\<exists>u. ?need ''DNS rule references unknown server tag: '' servers
        (map dr_server (filter dns_rule_enabled (value_or (dns_rules cfg) []))) = Inr u"
    using assms(1) by (auto simp: dns_server_registry_new_def Let_def split: prod.splits sum.splits)
  have need: "set tags \<subseteq> dom (map_of servers)" if "\<exists>u. ?need kind servers tags = Inr u" for kind tags
    using that by (induction tags) (auto simp: require_server_def split: if_splits)
  have "servers_ok pton6 []" by (simp add: servers_ok_def)
  then have ok: "servers_ok pton6 servers" "srv_tag ` set (value_or (dns_servers cfg) []) \<subseteq> dom (map_of servers)"
    using register_servers_ok [OF run] by auto
  have "tag \<in> dom (map_of servers)" using assms(2) ok(2) need [OF fb] need [OF ru] unfolding set_map by blast
  then show ?thesis using ok(1) by (auto simp: get_servers_def reg servers_ok_def)
qed

end

end
