(* ===== verification/Json.thy ===== *)
theory Json
  imports Prelude
begin

text \<open>
  The JSON values that the program builds and reads through \<^verbatim>\<open>nlohmann::json\<close>, and the conversions of that library the
  code relies on. Objects are association lists; the order of the members has no meaning and \<^verbatim>\<open>find\<close> returns the first
  member with a key. A number is an integer, or the bits of a \<^verbatim>\<open>double\<close>. A locale states what makes a pair of conversions a
  round trip and lifts it to optional values, vectors and maps.
\<close>

datatype json =
    JNull
  | JBool bool
  | JInt int
  | JFloat u64
  | JString string
  | JArray "json list"
  | JObject "(string \<times> json) list"

text \<open>\<^verbatim>\<open>find\<close>: on a value that is not an object it finds nothing.\<close>

fun json_find :: "string \<Rightarrow> json \<Rightarrow> json option" where
  "json_find key (JObject members) = map_of members key"
| "json_find key _ = None"

fun json_is_object :: "json \<Rightarrow> bool" where
  "json_is_object (JObject members) = True"
| "json_is_object _ = False"

fun json_string :: "json \<Rightarrow> string option" where
  "json_string (JString s) = Some s"
| "json_string _ = None"

fun json_elements :: "json \<Rightarrow> json list option" where
  "json_elements (JArray xs) = Some xs"
| "json_elements _ = None"

text \<open>\<^verbatim>\<open>value(key, default)\<close> for strings.\<close>

definition json_string_value :: "string \<Rightarrow> string \<Rightarrow> json \<Rightarrow> string" where
  "json_string_value key d j = (case json_find key j of Some (JString s) \<Rightarrow> s | _ \<Rightarrow> d)"

section \<open>Conversions to C++ types\<close>

fun json_type_name :: "json \<Rightarrow> string" where
  "json_type_name JNull = ''null''"
| "json_type_name (JBool b) = ''boolean''"
| "json_type_name (JInt i) = ''number''"
| "json_type_name (JFloat d) = ''number''"
| "json_type_name (JString s) = ''string''"
| "json_type_name (JArray xs) = ''array''"
| "json_type_name (JObject ms) = ''object''"

definition json_type_error :: "string \<Rightarrow> json \<Rightarrow> cpp_error" where
  "json_type_error expected j =
     JsonException (''[json.exception.type_error.302] type must be '' @ expected @ '', but is '' @ json_type_name j)"

text \<open>
  \<^verbatim>\<open>static_cast<int64_t>\<close> of a \<^verbatim>\<open>double\<close> drops the fraction; the value of a number that does not fit is not defined by the
  language.
\<close>

definition double_to_int64 :: "u64 \<Rightarrow> int" where
  "double_to_int64 d =
     (let e = unat (drop_bit 52 d AND 0x7FF);
          m = int (unat (d AND (2 ^ 52 - 1))) + 2 ^ 52;
          magnitude = (if e = 0 then 0 else if e < 1075 then m div 2 ^ (1075 - e) else m * 2 ^ (e - 1075));
          v = (if bit d 63 then - magnitude else magnitude)
      in to_i64 (if e < 0x7FF \<and> int64_ok v then v else undefined))"

fun get_bool :: "json \<Rightarrow> bool result" where
  "get_bool (JBool b) = Inr b"
| "get_bool j = Inl (json_type_error ''boolean'' j)"

fun get_int64 :: "json \<Rightarrow> int result" where
  "get_int64 (JInt i) = Inr (to_i64 i)"
| "get_int64 (JFloat d) = Inr (double_to_int64 d)"
| "get_int64 j = Inl (json_type_error ''number'' j)"

fun get_string :: "json \<Rightarrow> string result" where
  "get_string (JString s) = Inr s"
| "get_string j = Inl (json_type_error ''string'' j)"

definition get_vector :: "(json \<Rightarrow> 'a result) \<Rightarrow> json \<Rightarrow> 'a list result" where
  "get_vector dec j =
     (case j of JArray xs \<Rightarrow> map_result dec xs | _ \<Rightarrow> Inl (json_type_error ''array'' j))"

definition get_member :: "(json \<Rightarrow> 'a result) \<Rightarrow> (string, 'a) smap \<Rightarrow> string \<times> json \<Rightarrow> (string, 'a) smap result" where
  "get_member dec m kv = map_sum id (\<lambda>x. smap_put (fst kv) x m) (dec (snd kv))"

definition get_map :: "(json \<Rightarrow> 'a result) \<Rightarrow> json \<Rightarrow> (string, 'a) smap result" where
  "get_map dec j =
     (case j of
        JObject ms \<Rightarrow> fold_result (get_member dec) [] ms
      | _ \<Rightarrow> Inl (json_type_error ''object'' j))"

text \<open>\<^verbatim>\<open>j.at(key).get<T>()\<close>.\<close>

definition json_at :: "(json \<Rightarrow> 'a result) \<Rightarrow> json \<Rightarrow> string \<Rightarrow> 'a result" where
  "json_at dec j key =
     (case j of
        JObject ms \<Rightarrow>
          (case map_of ms key of
             Some v \<Rightarrow> dec v
           | None \<Rightarrow> Inl (JsonException (''[json.exception.out_of_range.403] key '' @ [CHR 0x27] @ key @ [CHR 0x27] @ '' not found'')))
      | _ \<Rightarrow> Inl (JsonException (''[json.exception.type_error.304] cannot use at() with '' @ json_type_name j)))"

text \<open>The deserializer of \<^verbatim>\<open>std::optional\<close>, and \<^verbatim>\<open>get_stack_optional\<close>: an absent member and \<^verbatim>\<open>null\<close> are no value.\<close>

definition get_optional :: "(json \<Rightarrow> 'a result) \<Rightarrow> json \<Rightarrow> 'a option result" where
  "get_optional dec j = (if j = JNull then Inr None else map_sum id Some (dec j))"

definition get_stack_optional :: "(json \<Rightarrow> 'a result) \<Rightarrow> json \<Rightarrow> string \<Rightarrow> 'a option result" where
  "get_stack_optional dec j key =
     (case json_find key j of
        None \<Rightarrow> Inr None
      | Some v \<Rightarrow> if v \<noteq> JNull then get_optional dec v else Inr None)"

section \<open>Conversions from C++ types\<close>

definition put_optional :: "('a \<Rightarrow> json) \<Rightarrow> 'a option \<Rightarrow> json" where
  "put_optional enc v = (case v of None \<Rightarrow> JNull | Some x \<Rightarrow> enc x)"

definition put_vector :: "('a \<Rightarrow> json) \<Rightarrow> 'a list \<Rightarrow> json" where
  "put_vector enc xs = JArray (map enc xs)"

definition put_map :: "('a \<Rightarrow> json) \<Rightarrow> (string, 'a) smap \<Rightarrow> json" where
  "put_map enc m = JObject (map (\<lambda>(k, x). (k, enc x)) m)"

section \<open>Round trips\<close>

text \<open>
  The contract of a type that can be stored: what is written for an admissible value is read back, is never \<^verbatim>\<open>null\<close>, so
  that it cannot be taken for an absent value, and every value that is read is admissible.
\<close>

locale json_codec =
  fixes enc :: "'a \<Rightarrow> json" and dec :: "json \<Rightarrow> 'a result" and ok :: "'a \<Rightarrow> bool"
  assumes dec_enc: "ok x \<Longrightarrow> dec (enc x) = Inr x"
    and enc_not_null: "enc x \<noteq> JNull"
    and dec_ok: "dec j = Inr x \<Longrightarrow> ok x"
begin

lemma optional_ok: "get_stack_optional dec j key = Inr v \<Longrightarrow> pred_option ok v"
  by (auto simp: get_stack_optional_def get_optional_def result_simps dec_ok split: option.splits if_splits)

lemma required_ok: "json_at dec j key = Inr x \<Longrightarrow> ok x"
  by (auto simp: json_at_def dec_ok split: json.splits option.splits)

lemma map_result_ok: "map_result dec js = Inr xs \<Longrightarrow> list_all ok xs"
  by (induction js arbitrary: xs) (auto simp: result_simps dec_ok split: sum.splits)

lemma get_map_ok:
  assumes "fold_result (get_member dec) m kvs = Inr m'" and "smap_wf m" "list_all (\<lambda>(k, x). ok x) m"
  shows "smap_wf m' \<and> list_all (\<lambda>(k, x). ok x) m'"
  using assms(1)
proof (rule fold_result_invariant [where P = "\<lambda>m. smap_wf m \<and> list_all (\<lambda>(k, x). ok x) m"])
  fix m kv m'
  assume m: "smap_wf m \<and> list_all (\<lambda>(k, x). ok x) m" and "get_member dec m kv = Inr m'"
  then obtain x where x: "dec (snd kv) = Inr x" "m' = smap_put (fst kv) x m" by (auto simp: get_member_def result_simps)
  have "list_all (\<lambda>(k, x). ok x) (smap_put (fst kv) x m)"
    using m [THEN conjunct2] dec_ok [OF x(1)] by (induction m) auto
  then show "smap_wf m' \<and> list_all (\<lambda>(k, x). ok x) m'" using m x(2) smap_put_wf by auto
qed (use assms in simp)

lemma optional_member:
  "pred_option ok v \<Longrightarrow> (if put_optional enc v \<noteq> JNull then get_optional dec (put_optional enc v) else Inr None) = Inr v"
  by (cases v) (simp_all add: get_optional_def put_optional_def enc_not_null dec_enc)

lemma map_result_map: "list_all ok xs \<Longrightarrow> map_result dec (map enc xs) = Inr xs"
  by (induction xs) (simp_all add: dec_enc)

lemma vector_codec: "json_codec (put_vector enc) (get_vector dec) (list_all ok)"
  by unfold_locales (auto simp: put_vector_def get_vector_def map_result_map map_result_ok split: json.splits)

lemma fold_get_member:
  assumes "sorted_wrt (<) (map fst (acc @ m))" and "list_all (\<lambda>(k, x). ok x) m"
  shows "fold_result (get_member dec) acc (map (\<lambda>(k, x). (k, enc x)) m) = Inr (acc @ m)"
  using assms
proof (induction m arbitrary: acc)
  case (Cons kx m)
  obtain k x where kx: "kx = (k, x)" by (cases kx)
  have "smap_put k x acc = acc @ [(k, x)]"
  proof -
    have "\<forall>k' \<in> set (map fst acc). k' < k" using Cons.prems(1) kx by (auto simp: sorted_wrt_append)
    then show ?thesis by (induction acc) auto
  qed
  with Cons kx show ?case by (simp add: get_member_def dec_enc)
qed simp

lemma map_codec: "json_codec (put_map enc) (get_map dec) (\<lambda>m. smap_wf m \<and> list_all (\<lambda>(k, x). ok x) m)"
proof
  fix j m assume "get_map dec j = Inr m"
  then obtain kvs where "fold_result (get_member dec) [] kvs = Inr m" by (auto simp: get_map_def split: json.splits)
  from get_map_ok [OF this] show "smap_wf m \<and> list_all (\<lambda>(k, x). ok x) m" by (simp add: smap_wf_def)
qed (simp_all add: put_map_def get_map_def smap_wf_def fold_get_member [of "[]", simplified])

end

interpretation json_bool: json_codec JBool get_bool "\<lambda>b. True"
  by unfold_locales simp_all

lemma to_i64_ok [simp]: "int64_ok (to_i64 i)"
  using sint_ge [of "word_of_int i :: u64"] sint_less [of "word_of_int i :: u64"] by (simp add: to_i64_def int64_ok_def)

lemma get_int64_ok: "get_int64 j = Inr i \<Longrightarrow> int64_ok i"
  by (cases j) (auto simp: double_to_int64_def Let_def)

interpretation json_int64: json_codec JInt get_int64 int64_ok
  by unfold_locales (simp_all add: get_int64_ok)

interpretation json_text: json_codec JString get_string "\<lambda>s. True"
  by unfold_locales simp_all

end
