(* ===== verification/Keenetic_Dns.thy ===== *)
theory Keenetic_Dns
  imports Dns_Server Json
begin

text \<open>
  The built-in DNS proxy of Keenetic routers (\<^verbatim>\<open>src/dns/keenetic_dns.{hpp,cpp}\<close>): reading the proxy configuration,
  choosing the servers, and the cache that survives failed fetches. The JSON parser of \<^verbatim>\<open>nlohmann::json\<close>, the HTTP
  fetch and the steady clock are parameters; the world they act on is the second part of the state. The cache
  provides the contract \<^verbatim>\<open>dns_source\<close> of the server registry.
\<close>

section \<open>Data\<close>

record keenetic_static_entry =
  kse_domain :: string
  kse_address :: string

record keenetic_upstream =
  kup_address :: string
  kup_kind :: string
  kup_target :: string

record keenetic_snapshot =
  ksn_addresses :: "string list"
  ksn_upstreams :: "keenetic_upstream list"
  ksn_static_entries :: "keenetic_static_entry list"

record keenetic_cache =
  kc_snapshot :: "keenetic_snapshot option"
  kc_fetched_at :: int

datatype keenetic_refresh_status = UNCHANGED | UPDATED | FETCH_FAILED_USED_CACHE | FETCH_FAILED_NO_CACHE

record keenetic_refresh_result =
  krr_status :: keenetic_refresh_status
  krr_addresses :: "string list"
  krr_error :: string

text \<open>Five minutes, in the nanoseconds of the steady clock.\<close>

definition kKeeneticDnsCacheTtl :: int where
  "kKeeneticDnsCacheTtl = 5 * 60 * 1000000000"

definition is_cache_fresh :: "keenetic_cache \<Rightarrow> int \<Rightarrow> bool" where
  "is_cache_fresh cache now \<longleftrightarrow> kc_snapshot cache \<noteq> None \<and> now - kc_fetched_at cache < kKeeneticDnsCacheTtl"

section \<open>Lines of the proxy configuration\<close>

definition keenetic_trim :: "string \<Rightarrow> string" where
  "keenetic_trim s = trim_by is_space s"

record parsed_server_line =
  psl_address :: string
  psl_has_specific_domains :: bool
  psl_is_encrypted :: bool
  psl_kind :: string
  psl_target :: string

definition empty_server_line :: parsed_server_line where
  "empty_server_line = \<lparr>psl_address = [], psl_has_specific_domains = False, psl_is_encrypted = False,
     psl_kind = [], psl_target = []\<rparr>"

text \<open>\<^verbatim>\<open>find_first_of(" \t")\<close> with the parts before and after.\<close>

definition split_blank :: "string \<Rightarrow> (string \<times> string) option" where
  "split_blank s = (case dropWhile (\<lambda>c. \<not> addr_blank c) s of
      [] \<Rightarrow> None
    | c # rest \<Rightarrow> Some (takeWhile (\<lambda>c. \<not> addr_blank c) s, rest))"

definition before_at :: "string \<Rightarrow> string" where
  "before_at s = (case split_first CHR ''@'' s of None \<Rightarrow> s | Some (a, b) \<Rightarrow> a)"

definition classify_server_comment :: "string \<Rightarrow> parsed_server_line \<Rightarrow> parsed_server_line" where
  "classify_server_comment comment parsed =
     (if prefix ''https://'' comment
      then parsed\<lparr>psl_is_encrypted := True, psl_kind := ''DoH'', psl_target := before_at comment\<rparr>
      else if prefix ''tls://'' comment
      then parsed\<lparr>psl_is_encrypted := True, psl_kind := ''DoT'', psl_target := before_at comment\<rparr>
      else if prefix ''tls.'' comment
      then parsed\<lparr>psl_is_encrypted := True, psl_kind := ''DoT'', psl_target := comment\<rparr>
      else (case split_first CHR ''@'' comment of
              Some (a, host) \<Rightarrow>
                (if \<not> sublist ''://'' comment
                 then parsed\<lparr>psl_is_encrypted := True, psl_kind := ''DoT'', psl_target := ''tls://'' @ host\<rparr>
                 else parsed\<lparr>psl_kind := ''Plain''\<rparr>)
            | None \<Rightarrow> parsed\<lparr>psl_kind := ''Plain''\<rparr>))"

definition parse_dns_server_line :: "string \<Rightarrow> parsed_server_line" where
  "parse_dns_server_line line =
     (if \<not> prefix ''dns_server = '' line then empty_server_line
      else let after_prefix = keenetic_trim (drop 13 line);
               (rest, comment) = (case split_first CHR ''#'' after_prefix of
                  None \<Rightarrow> (after_prefix, [])
                | Some (a, b) \<Rightarrow> (keenetic_trim a, keenetic_trim b))
           in if rest = [] then empty_server_line
              else let (address, scoped) = (case split_blank rest of
                         None \<Rightarrow> (keenetic_trim rest, False)
                       | Some (a, b) \<Rightarrow>
                           (keenetic_trim a, keenetic_trim b \<noteq> [] \<and> keenetic_trim b \<noteq> ''.''))
                   in if address = [] then empty_server_line
                      else classify_server_comment comment
                             (empty_server_line\<lparr>psl_address := address, psl_has_specific_domains := scoped\<rparr>))"

text \<open>The words that repeated \<^verbatim>\<open>>>\<close> reads from a string stream.\<close>

fun stream_words :: "string \<Rightarrow> string \<Rightarrow> string list" where
  "stream_words w [] = (if w = [] then [] else [w])"
| "stream_words w (c # cs) =
     (if is_space c then (if w = [] then stream_words [] cs else w # stream_words [] cs)
      else stream_words (w @ [c]) cs)"

text \<open>The domain and address of a static entry; a line that is not one, or has fewer than two words, gives \<^const>\<open>None\<close>,
  which the code represents by two empty strings.\<close>

definition parse_static_dns_line :: "string \<Rightarrow> keenetic_static_entry option" where
  "parse_static_dns_line line =
     (case (if prefix ''static_a = '' line then Some (keenetic_trim (drop 11 line))
            else if prefix ''static_aaaa = '' line then Some (keenetic_trim (drop 14 line))
            else None) of
        None \<Rightarrow> None
      | Some rest \<Rightarrow>
          (case stream_words [] rest of
             domain # address # others \<Rightarrow> Some \<lparr>kse_domain = domain, kse_address = address\<rparr>
           | _ \<Rightarrow> None))"

definition is_supported_static_dns_domain :: "string \<Rightarrow> bool" where
  "is_supported_static_dns_domain domain =
     (if domain = [] \<or> length domain > 255 then False
      else if domain = ''*'' then False
      else if length domain \<ge> 2 \<and> domain ! 0 = CHR ''*'' \<and> domain ! 1 = CHR ''.'' then length domain > 2
      else True)"

definition looks_like_ipv6_dns_server_address :: "string \<Rightarrow> bool" where
  "looks_like_ipv6_dns_server_address address =
     (if address = [] then False
      else if hd address = CHR ''['' then True
      else length (filter (\<lambda>c. c = CHR '':'') address) > 1)"

section \<open>The snapshot\<close>

definition keenetic_dns_snapshots_equal :: "keenetic_snapshot \<Rightarrow> keenetic_snapshot \<Rightarrow> bool" where
  "keenetic_dns_snapshots_equal l r \<longleftrightarrow>
     length (ksn_addresses l) = length (ksn_addresses r) \<and> length (ksn_upstreams l) = length (ksn_upstreams r)
     \<and> length (ksn_static_entries l) = length (ksn_static_entries r)
     \<and> list_all2 (=) (ksn_addresses l) (ksn_addresses r)
     \<and> list_all2 (\<lambda>a b. kup_address a = kup_address b \<and> kup_kind a = kup_kind b \<and> kup_target a = kup_target b)
         (ksn_upstreams l) (ksn_upstreams r)
     \<and> list_all2 (\<lambda>a b. kse_domain a = kse_domain b \<and> kse_address a = kse_address b)
         (ksn_static_entries l) (ksn_static_entries r)"

definition proxy_disabled_error :: cpp_error where
  "proxy_disabled_error = KeeneticDnsError
     (''Built-in DNS proxy appears disabled or has no unscoped '' @ quoted ''dns_server = ...''
      @ '' directives in System policy'')"

definition build_keenetic_dns_snapshot ::
  "parsed_server_line list \<Rightarrow> keenetic_static_entry list \<Rightarrow> keenetic_snapshot result" where
  "build_keenetic_dns_snapshot selected_servers static_entries =
     (if selected_servers = [] then Inl proxy_disabled_error
      else Inr \<lparr>ksn_addresses = map psl_address selected_servers,
                ksn_upstreams = map (\<lambda>s. \<lparr>kup_address = psl_address s, kup_kind = psl_kind s, kup_target = psl_target s\<rparr>)
                  selected_servers,
                ksn_static_entries = static_entries\<rparr>)"

definition collect_selected_keenetic_dns_servers ::
  "parsed_server_line list \<Rightarrow> parsed_server_line list \<Rightarrow> parsed_server_line list" where
  "collect_selected_keenetic_dns_servers plaintext encrypted = (if encrypted \<noteq> [] then encrypted else plaintext)"

record proxy_lines =
  pxl_plaintext :: "parsed_server_line list"
  pxl_encrypted :: "parsed_server_line list"
  pxl_static :: "keenetic_static_entry list"

text \<open>One line of the configuration of the System proxy.\<close>

definition read_proxy_line :: "(string \<Rightarrow> bool) \<Rightarrow> proxy_lines \<Rightarrow> string \<Rightarrow> proxy_lines result" where
  "read_proxy_line pton6 st line =
     (let trimmed = keenetic_trim line
      in case parse_static_dns_line trimmed of
           Some entry \<Rightarrow>
             (if \<not> is_supported_static_dns_domain (kse_domain entry) then Inr st
              else (case parse_dns_address_str pton6 (kse_address entry) of
                      Inl e \<Rightarrow> Inl (KeeneticDnsError (''RCI returned invalid static dns address ''
                                 @ quoted (kse_address entry) @ '': '' @ what e))
                    | Inr p \<Rightarrow> Inr (st\<lparr>pxl_static := pxl_static st @ [entry]\<rparr>)))
         | None \<Rightarrow>
             (let parsed = parse_dns_server_line trimmed
              in if psl_address parsed = [] then Inr st
                 else if looks_like_ipv6_dns_server_address (psl_address parsed) then Inr st
                 else (case parse_dns_address_str pton6 (psl_address parsed) of
                         Inl e \<Rightarrow> Inl (KeeneticDnsError (''RCI returned invalid dns_server address ''
                                    @ quoted (psl_address parsed) @ '': '' @ what e))
                       | Inr p \<Rightarrow>
                           (if psl_has_specific_domains parsed then Inr st
                            else if psl_is_encrypted parsed
                            then Inr (st\<lparr>pxl_encrypted := pxl_encrypted st @ [parsed]\<rparr>)
                            else Inr (st\<lparr>pxl_plaintext := pxl_plaintext st @ [parsed]\<rparr>)))))"

definition read_system_proxy :: "(string \<Rightarrow> bool) \<Rightarrow> string \<Rightarrow> keenetic_snapshot result" where
  "read_system_proxy pton6 text_cfg =
     (case fold_result (read_proxy_line pton6) \<lparr>pxl_plaintext = [], pxl_encrypted = [], pxl_static = []\<rparr>
             (getline_tokens CHR 0x0A text_cfg) of
        Inl e \<Rightarrow> Inl e
      | Inr st \<Rightarrow>
          (if pxl_plaintext st \<noteq> [] \<or> pxl_encrypted st \<noteq> []
           then build_keenetic_dns_snapshot
                  (collect_selected_keenetic_dns_servers (pxl_plaintext st) (pxl_encrypted st)) (pxl_static st)
           else Inl proxy_disabled_error))"

text \<open>The loop over the policies: only the first entry named System counts.\<close>

fun find_system_proxy :: "(string \<Rightarrow> bool) \<Rightarrow> json list \<Rightarrow> keenetic_snapshot result" where
  "find_system_proxy pton6 [] =
     Inl (KeeneticDnsError (''RCI response does not contain DNS proxy policy '' @ quoted ''System''
            @ '' (endpoint: /rci/show/dns-proxy)''))"
| "find_system_proxy pton6 (entry # entries) =
     (if \<not> json_is_object entry then find_system_proxy pton6 entries
      else (case Option.bind (json_find ''proxy-name'' entry) json_string of
              None \<Rightarrow> find_system_proxy pton6 entries
            | Some name \<Rightarrow>
                (if name \<noteq> ''System'' then find_system_proxy pton6 entries
                 else (case Option.bind (json_find ''proxy-config'' entry) json_string of
                         None \<Rightarrow> Inl (KeeneticDnsError (''RCI response has '' @ quoted ''System''
                                   @ '' DNS proxy but missing string field '' @ quoted ''proxy-config''))
                       | Some cfg \<Rightarrow> read_system_proxy pton6 cfg))))"

definition extract_keenetic_dns_snapshot_from_rci ::
  "(string \<Rightarrow> bool) \<Rightarrow> (string \<Rightarrow> string + json) \<Rightarrow> string \<Rightarrow> keenetic_snapshot result" where
  "extract_keenetic_dns_snapshot_from_rci pton6 parse_json response_body =
     (case parse_json response_body of
        Inl why \<Rightarrow> Inl (KeeneticDnsError (''Failed to parse RCI JSON response: '' @ why))
      | Inr doc \<Rightarrow>
          (case Option.bind (json_find ''proxy-status'' doc) json_elements of
             None \<Rightarrow> Inl (KeeneticDnsError (''RCI response missing '' @ quoted ''proxy-status''
                       @ '' array (endpoint: /rci/show/dns-proxy)''))
           | Some entries \<Rightarrow> find_system_proxy pton6 entries))"

section \<open>The cache\<close>

text \<open>The world outside the cache: the RCI endpoint, the clock and the JSON parser.\<close>

record 'w keenetic_env =
  ke_fetch :: "'w \<Rightarrow> string result \<times> 'w"
  ke_now :: "'w \<Rightarrow> int \<times> 'w"
  ke_parse_json :: "string \<Rightarrow> string + json"
  ke_pton6 :: "string \<Rightarrow> bool"

definition refresh_failed :: "keenetic_cache \<Rightarrow> string \<Rightarrow> keenetic_refresh_result" where
  "refresh_failed cache err =
     (case kc_snapshot cache of
        Some s \<Rightarrow> \<lparr>krr_status = FETCH_FAILED_USED_CACHE, krr_addresses = ksn_addresses s, krr_error = err\<rparr>
      | None \<Rightarrow> \<lparr>krr_status = FETCH_FAILED_NO_CACHE, krr_addresses = [], krr_error = err\<rparr>)"

text \<open>The build with \<^verbatim>\<open>USE_KEENETIC_API\<close>. Exceptions other than the two that are caught leave the function.\<close>

definition refresh_keenetic_dns_address_cache ::
  "'w keenetic_env \<Rightarrow> bool \<Rightarrow> (keenetic_cache \<times> 'w, keenetic_refresh_result) eff" where
  "refresh_keenetic_dns_address_cache env force_refresh s =
     (case s of (cache, w) \<Rightarrow>
      case ke_now env w of (now, w1) \<Rightarrow>
      case (\<not> force_refresh \<and> is_cache_fresh cache now, kc_snapshot cache) of
        (True, Some snap) \<Rightarrow>
          (Inr \<lparr>krr_status = UNCHANGED, krr_addresses = ksn_addresses snap, krr_error = []\<rparr>, (cache, w1))
      | _ \<Rightarrow>
          (case ke_fetch env w1 of (response, w2) \<Rightarrow>
           case (case response of
                   Inl e \<Rightarrow> Inl e
                 | Inr body \<Rightarrow> extract_keenetic_dns_snapshot_from_rci (ke_pton6 env) (ke_parse_json env) body) of
             Inr snapshot \<Rightarrow>
               (let changed = (case kc_snapshot cache of
                                 None \<Rightarrow> True
                               | Some old \<Rightarrow> \<not> keenetic_dns_snapshots_equal old snapshot)
                in (Inr \<lparr>krr_status = (if changed then UPDATED else UNCHANGED), krr_addresses = ksn_addresses snapshot,
                         krr_error = []\<rparr>, (\<lparr>kc_snapshot = Some snapshot, kc_fetched_at = now\<rparr>, w2)))
           | Inl (HttpError msg) \<Rightarrow>
               (Inr (refresh_failed cache (''Failed to query Keenetic RCI endpoint /rci/show/dns-proxy: '' @ msg)), (cache, w2))
           | Inl (KeeneticDnsError msg) \<Rightarrow> (Inr (refresh_failed cache msg), (cache, w2))
           | Inl e \<Rightarrow> (Inl e, (cache, w2))))"

definition resolve_keenetic_dns_addresses :: "'w keenetic_env \<Rightarrow> bool \<Rightarrow> (keenetic_cache \<times> 'w, string list) eff" where
  "resolve_keenetic_dns_addresses env force_refresh s =
     (case refresh_keenetic_dns_address_cache env force_refresh s of
        (Inl e, s') \<Rightarrow> (Inl e, s')
      | (Inr r, s') \<Rightarrow>
          (if krr_addresses r \<noteq> [] then (Inr (krr_addresses r), s') else (Inl (KeeneticDnsError (krr_error r)), s')))"

definition get_keenetic_static_dns_entries :: "keenetic_cache \<Rightarrow> keenetic_static_entry list" where
  "get_keenetic_static_dns_entries cache = (case kc_snapshot cache of None \<Rightarrow> [] | Some s \<Rightarrow> ksn_static_entries s)"

definition get_keenetic_dns_addresses :: "keenetic_cache \<Rightarrow> string list" where
  "get_keenetic_dns_addresses cache = (case kc_snapshot cache of None \<Rightarrow> [] | Some s \<Rightarrow> ksn_addresses s)"

definition get_keenetic_dns_upstreams :: "keenetic_cache \<Rightarrow> keenetic_upstream list" where
  "get_keenetic_dns_upstreams cache = (case kc_snapshot cache of None \<Rightarrow> [] | Some s \<Rightarrow> ksn_upstreams s)"

section \<open>Which servers are chosen\<close>

definition unscoped_server :: "parsed_server_line \<Rightarrow> bool" where
  "unscoped_server p \<longleftrightarrow> psl_address p \<noteq> [] \<and> \<not> looks_like_ipv6_dns_server_address (psl_address p)
     \<and> \<not> psl_has_specific_domains p"

text \<open>The IPv4 servers of a configuration that are not bound to particular domains, in order.\<close>

definition proxy_servers :: "string list \<Rightarrow> parsed_server_line list" where
  "proxy_servers lines = filter unscoped_server
     (map parse_dns_server_line (filter (\<lambda>l. parse_static_dns_line l = None) (map keenetic_trim lines)))"

definition valid_server :: "(string \<Rightarrow> bool) \<Rightarrow> parsed_server_line \<Rightarrow> bool" where
  "valid_server pton6 p \<longleftrightarrow> (\<exists>a. parse_dns_address_str pton6 (psl_address p) = Inr a)"

lemma read_proxy_line_servers:
  assumes "read_proxy_line pton6 st line = Inr st'"
  shows "pxl_encrypted st' = pxl_encrypted st @ filter psl_is_encrypted (proxy_servers [line])
    \<and> pxl_plaintext st' = pxl_plaintext st @ filter (\<lambda>p. \<not> psl_is_encrypted p) (proxy_servers [line])
    \<and> list_all (valid_server pton6) (proxy_servers [line])"
  using assms
  by (auto simp: read_proxy_line_def proxy_servers_def unscoped_server_def valid_server_def Let_def
      split: option.splits if_splits sum.splits)

lemma proxy_servers_Cons: "proxy_servers (l # ls) = proxy_servers [l] @ proxy_servers ls"
  by (simp add: proxy_servers_def)

lemma read_proxy_lines_servers:
  assumes "fold_result (read_proxy_line pton6) st lines = Inr st'"
  shows "pxl_encrypted st' = pxl_encrypted st @ filter psl_is_encrypted (proxy_servers lines)
    \<and> pxl_plaintext st' = pxl_plaintext st @ filter (\<lambda>p. \<not> psl_is_encrypted p) (proxy_servers lines)
    \<and> list_all (valid_server pton6) (proxy_servers lines)"
  using assms
proof (induction lines arbitrary: st)
  case Nil
  then show ?case by (simp add: proxy_servers_def)
next
  case (Cons l ls)
  then obtain st1 where one: "read_proxy_line pton6 st l = Inr st1"
    and rest: "fold_result (read_proxy_line pton6) st1 ls = Inr st'" by (auto split: sum.splits)
  show ?case using read_proxy_line_servers [OF one] Cons.IH [OF rest]
    by (simp add: proxy_servers_Cons [of l ls])
qed



section \<open>The cache survives failures\<close>

text \<open>C28. The cache of the router's DNS servers. The addresses a refresh reports are those of the cache it leaves; a
  snapshot once cached is only ever replaced by one read from a successful fetch, so that a failed fetch or an
  unusable answer keeps it; and while it is fresh no fetch is made unless it is forced.\<close>

theorem keenetic_cache_kept:
  assumes "ke_now env w = (now, w1)" and "ke_fetch env w1 = (response, w2)"
    and "refresh_keenetic_dns_address_cache env force_refresh (cache, w) = (res, (cache', w'))"
  shows "(\<forall>r. res = Inr r \<longrightarrow> krr_addresses r = get_keenetic_dns_addresses cache')
    \<and> (cache' = cache \<or> (\<exists>body snap. response = Inr body
         \<and> extract_keenetic_dns_snapshot_from_rci (ke_pton6 env) (ke_parse_json env) body = Inr snap
         \<and> cache' = \<lparr>kc_snapshot = Some snap, kc_fetched_at = now\<rparr>))
    \<and> (kc_snapshot cache \<noteq> None \<longrightarrow> kc_snapshot cache' \<noteq> None)
    \<and> (\<not> force_refresh \<and> is_cache_fresh cache now \<longrightarrow> cache' = cache \<and> w' = w1)"
  using assms
  by (auto simp: refresh_keenetic_dns_address_cache_def refresh_failed_def get_keenetic_dns_addresses_def Let_def
      is_cache_fresh_def split: bool.splits option.splits sum.splits cpp_error.splits if_splits)

text \<open>A router that does not answer, and a cache with one server.\<close>

definition unreachable_env :: "unit keenetic_env" where
  "unreachable_env = \<lparr>ke_fetch = \<lambda>w. (Inl (HttpError ''timeout''), w), ke_now = \<lambda>w. (0, w),
     ke_parse_json = \<lambda>s. Inl s, ke_pton6 = \<lambda>s. False\<rparr>"

definition sample_cache :: keenetic_cache where
  "sample_cache = \<lparr>kc_snapshot = Some \<lparr>ksn_addresses = [''9.9.9.9''], ksn_upstreams = [], ksn_static_entries = []\<rparr>,
     kc_fetched_at = 0\<rparr>"

theorem keenetic_cache_kept_witness:
  "\<exists>r. refresh_keenetic_dns_address_cache unreachable_env True (sample_cache, ()) = (Inr r, (sample_cache, ()))
     \<and> krr_status r = FETCH_FAILED_USED_CACHE \<and> krr_addresses r = [''9.9.9.9'']"
proof -
  obtain r where run: "refresh_keenetic_dns_address_cache unreachable_env True (sample_cache, ()) = (Inr r, (sample_cache, ()))"
    and "krr_status r = FETCH_FAILED_USED_CACHE"
    by (simp add: refresh_keenetic_dns_address_cache_def refresh_failed_def unreachable_env_def sample_cache_def)
  moreover have "krr_addresses r = get_keenetic_dns_addresses sample_cache"
    using keenetic_cache_kept [OF _ _ run] by (simp add: unreachable_env_def)
  ultimately show ?thesis by (simp add: get_keenetic_dns_addresses_def sample_cache_def)
qed

section \<open>The registry over the cache\<close>

lemma resolve_keenetic_nonempty:
  "resolve_keenetic_dns_addresses env force_refresh s = (Inr addresses, s') \<Longrightarrow> addresses \<noteq> []"
  by (auto simp: resolve_keenetic_dns_addresses_def split: prod.splits sum.splits if_splits)

interpretation keenetic_source: dns_source "resolve_keenetic_dns_addresses env force_refresh" for env force_refresh
  by unfold_locales (rule resolve_keenetic_nonempty)

text \<open>C26. A registry that could be built resolves every tag the configuration may ask for: each fallback tag, each tag
  of an enabled DNS rule and each configured server has at least one server, all of them with the tag, a valid
  address and a port other than 0.\<close>

theorem registry_resolves_tags:
  assumes "dns_server_registry_new pton6 (resolve_keenetic_dns_addresses env False) cfg c = (Inr reg, c')"
    and "tag \<in> set (value_or (dns_fallback cfg) []) \<union> srv_tag ` set (value_or (dns_servers cfg) [])
        \<union> dr_server ` set (filter dns_rule_enabled (value_or (dns_rules cfg) []))"
  shows "get_servers reg tag \<noteq> [] \<and> list_all (server_entry_ok pton6 tag) (get_servers reg tag)"
  using assms by (rule keenetic_source.registry_resolves)

theorem registry_resolves_tags_witness:
  "\<exists>reg. dns_server_registry_new (\<lambda>s. False) (resolve_keenetic_dns_addresses unreachable_env False)
       (default_dns_config\<lparr>dns_fallback := Some [''quad9''], dns_servers := Some
          [\<lparr>srv_address = None, srv_detour = None, srv_tag = ''quad9'', srv_type = Some DnsKeenetic\<rparr>]\<rparr>) (sample_cache, ())
       = (Inr reg, (sample_cache, ()))
     \<and> get_servers reg ''quad9'' \<noteq> [] \<and> list_all (server_entry_ok (\<lambda>s. False) ''quad9'') (get_servers reg ''quad9'')"
proof -
  let ?server = "\<lparr>srv_address = None, srv_detour = None, srv_tag = ''quad9'', srv_type = Some DnsKeenetic\<rparr>"
  let ?cfg = "default_dns_config\<lparr>dns_fallback := Some [''quad9''], dns_servers := Some [?server]\<rparr>"
  have valid: "is_valid_ipv4 ''9.9.9.9''"
    by (simp add: is_valid_ipv4_def dns_octet_ok_def from_chars_uint_def dec_value_def is_digit_def digit_val_def)
  then have "parse_dns_address_str (\<lambda>s. False) ''9.9.9.9'' = Inr \<lparr>pda_ip = ''9.9.9.9'', pda_port = 53\<rparr>"
    using split_ipv4(1) [OF valid] by (simp add: parse_dns_address_str_def is_valid_ip_def)
  moreover have "resolve_keenetic_dns_addresses unreachable_env False (sample_cache, ()) = (Inr [''9.9.9.9''], (sample_cache, ()))"
    by (simp add: resolve_keenetic_dns_addresses_def refresh_keenetic_dns_address_cache_def unreachable_env_def
        sample_cache_def is_cache_fresh_def kKeeneticDnsCacheTtl_def)
  ultimately obtain reg where reg: "dns_server_registry_new (\<lambda>s. False) (resolve_keenetic_dns_addresses unreachable_env False)
      ?cfg (sample_cache, ()) = (Inr reg, (sample_cache, ()))"
    by (simp add: dns_server_registry_new_def register_server_def register_addresses_def parse_dns_server_def
        push_server_def require_server_def default_dns_config_def)
  show ?thesis using reg registry_resolves_tags [OF reg, of "''quad9''"] by simp
qed

end
