(* ===== verification/Firewall_Interface.thy ===== *)
theory Firewall_Interface
  imports Dns_Server
begin

text \<open>
  The abstract class \<^verbatim>\<open>Firewall\<close> (\<^verbatim>\<open>src/firewall/firewall.hpp\<close>): the members every backend inherits, the table of
  virtual functions the runtime calls, and what a list of rules means for a packet. The meaning is the
  specification both sides are measured against: the runtime promises a list of rules, and a backend promises that
  the kernel treats packets as the list says.
\<close>

section \<open>Inherited members\<close>

record firewall_base =
  fb_global_prefilter :: firewall_global_prefilter
  fb_fwmark_mask :: u32
  fb_ipv6_enabled :: bool
  fb_clear_dynamic_sets_on_apply :: bool

definition default_static_set_name :: "string \<Rightarrow> int \<Rightarrow> string" where
  "default_static_set_name list_name family = (if family = AF_INET6 then ''kpbr6_'' else ''kpbr4_'') @ list_name"

definition default_dynamic_set_name :: "string \<Rightarrow> int \<Rightarrow> string" where
  "default_dynamic_set_name list_name family = (if family = AF_INET6 then ''kpbr6d_'' else ''kpbr4d_'') @ list_name"

section \<open>The virtual functions\<close>

text \<open>The setters of the base class are here too, so that the runtime can be stated over any backend. A batch loader
  is the pair of the set it fills and the entry it receives; its \<^verbatim>\<open>finish\<close> does nothing in either backend.\<close>

record 'f firewall_ops =
  fo_set_ipv6_enabled :: "bool \<Rightarrow> 'f \<Rightarrow> 'f"
  fo_set_clear_dynamic_sets :: "bool \<Rightarrow> 'f \<Rightarrow> 'f"
  fo_set_global_prefilter :: "firewall_global_prefilter \<Rightarrow> 'f \<Rightarrow> 'f"
  fo_set_fwmark_mask :: "u32 \<Rightarrow> 'f \<Rightarrow> 'f"
  fo_prepare_apply :: "firewall_apply_mode \<Rightarrow> 'f \<Rightarrow> 'f"
  fo_static_set_name :: "'f \<Rightarrow> string \<Rightarrow> int \<Rightarrow> string"
  fo_dynamic_set_name :: "'f \<Rightarrow> string \<Rightarrow> int \<Rightarrow> string"
  fo_create_ipset :: "string \<Rightarrow> int \<Rightarrow> u32 \<Rightarrow> 'f \<Rightarrow> 'f result"
  fo_create_mark_rule :: "u32 \<Rightarrow> firewall_rule_criteria \<Rightarrow> 'f \<Rightarrow> 'f"
  fo_create_drop_rule :: "firewall_rule_criteria \<Rightarrow> 'f \<Rightarrow> 'f"
  fo_create_pass_rule :: "firewall_rule_criteria \<Rightarrow> 'f \<Rightarrow> 'f"
  fo_create_batch_loader :: "string \<Rightarrow> 'f \<Rightarrow> 'f"
  fo_load_entry :: "string \<Rightarrow> entry_type \<Rightarrow> string \<Rightarrow> 'f \<Rightarrow> 'f result"
  fo_apply :: "firewall_apply_mode \<Rightarrow> ('f, unit) eff"

section \<open>Packets\<close>

text \<open>
  A packet as a rule sees it. The membership of its addresses in a prefix, written as in the rules by a base
  address and a length, and in the named sets of the kernel are part of the packet, as are its connection tracking
  data. A packet without a transport header has no ports.
\<close>

record packet =
  pk_ipv6 :: bool
  pk_iif :: string
  pk_proto :: string
  pk_sport :: "u16 option"
  pk_dport :: "u16 option"
  pk_dscp :: u8
  pk_src_in :: "string \<Rightarrow> int \<Rightarrow> bool"
  pk_dst_in :: "string \<Rightarrow> int \<Rightarrow> bool"
  pk_dst_set :: "string \<Rightarrow> bool"
  pk_mark :: u32
  pk_ctmark :: u32
  pk_ct_original :: bool
  pk_ct_dnat :: bool

section \<open>The meaning of criteria\<close>

definition is_ipv6_addr :: "string \<Rightarrow> bool" where
  "is_ipv6_addr addr \<longleftrightarrow> CHR '':'' \<in> set addr"

text \<open>The prefix a CIDR text denotes; a bare address is a prefix of full length.\<close>

definition cidr_prefix :: "string \<Rightarrow> (string \<times> int) option" where
  "cidr_prefix addr =
     (case split_first CHR ''/'' addr of
        None \<Rightarrow> Some (addr, if is_ipv6_addr addr then 128 else 32)
      | Some (base, len) \<Rightarrow> (case stoi len of Inl e \<Rightarrow> None | Inr n \<Rightarrow> Some (base, n)))"

definition in_cidr :: "(string \<Rightarrow> int \<Rightarrow> bool) \<Rightarrow> string \<Rightarrow> bool" where
  "in_cidr inside addr = (case cidr_prefix addr of None \<Rightarrow> False | Some (base, len) \<Rightarrow> inside base len)"

text \<open>An address selector looks at the addresses of the packet's own family and says nothing about a packet of a
  family it has no address of.\<close>

definition addr_selected :: "bool \<Rightarrow> string list \<Rightarrow> bool \<Rightarrow> (string \<Rightarrow> int \<Rightarrow> bool) \<Rightarrow> bool" where
  "addr_selected v6 addrs negate inside \<longleftrightarrow>
     addrs = [] \<or> (let own = filter (\<lambda>a. is_ipv6_addr a = v6) addrs in own \<noteq> [] \<and> negate \<noteq> list_ex (in_cidr inside) own)"

definition port_selected :: "port_spec \<Rightarrow> bool \<Rightarrow> u16 option \<Rightarrow> bool" where
  "port_selected spec negate port \<longleftrightarrow>
     ranges spec = [] \<or> (case port of None \<Rightarrow> False | Some p \<Rightarrow> negate \<noteq> port_spec_matches spec p)"

fun proto_selected :: "l4_proto \<Rightarrow> string \<Rightarrow> bool" where
  "proto_selected L4Any p \<longleftrightarrow> True"
| "proto_selected L4Tcp p \<longleftrightarrow> p = ''tcp''"
| "proto_selected L4Udp p \<longleftrightarrow> p = ''udp''"
| "proto_selected L4TcpUdp p \<longleftrightarrow> p = ''tcp'' \<or> p = ''udp''"

text \<open>\<open>set_v6\<close> tells the family of the named sets.\<close>

definition criteria_match :: "(string \<Rightarrow> bool) \<Rightarrow> firewall_rule_criteria \<Rightarrow> packet \<Rightarrow> bool" where
  "criteria_match set_v6 c p \<longleftrightarrow>
     (case fc_dst_set_name c of None \<Rightarrow> True | Some n \<Rightarrow> set_v6 n = pk_ipv6 p \<and> pk_dst_set p n)
     \<and> (case fc_dscp c of None \<Rightarrow> True | Some d \<Rightarrow> pk_dscp p = d)
     \<and> addr_selected (pk_ipv6 p) (fc_src_addr c) (fc_negate_src_addr c) (pk_src_in p)
     \<and> addr_selected (pk_ipv6 p) (fc_dst_addr c) (fc_negate_dst_addr c) (pk_dst_in p)
     \<and> proto_selected (fc_proto c) (pk_proto p)
     \<and> port_selected (fc_src_port c) (fc_negate_src_port c) (pk_sport p)
     \<and> port_selected (fc_dst_port c) (fc_negate_dst_port c) (pk_dport p)"

section \<open>The meaning of a list of rules\<close>

text \<open>What the three rule functions ask for. Rules that apply to locally generated packets form a list of their own.\<close>

datatype fw_action = FwMark u32 | FwDrop | FwPass

type_synonym fw_rule = "fw_action \<times> firewall_rule_criteria"

definition first_action :: "(string \<Rightarrow> bool) \<Rightarrow> fw_rule list \<Rightarrow> packet \<Rightarrow> fw_action option" where
  "first_action set_v6 rules p = map_option fst (find (\<lambda>(a, c). criteria_match set_v6 c p) rules)"

definition for_chain :: "bool \<Rightarrow> fw_rule list \<Rightarrow> fw_rule list" where
  "for_chain output rules = filter (\<lambda>(a, c). fc_apply_output c = output) rules"

text \<open>When the prefilter lets a packet through without looking at the rules; the first case restores the mark of
  the connection.\<close>

definition prefilter_restores :: "firewall_global_prefilter \<Rightarrow> packet \<Rightarrow> bool" where
  "prefilter_restores pf p \<longleftrightarrow> gp_restore_conntrack_mark pf \<and> gp_conntrack_mark_mask pf \<noteq> 0
     \<and> pk_ct_original p \<and> pk_ctmark p AND gp_conntrack_mark_mask pf \<noteq> 0"

definition prefilter_bypasses :: "firewall_global_prefilter \<Rightarrow> packet \<Rightarrow> bool" where
  "prefilter_bypasses pf p \<longleftrightarrow> gp_skip_established_or_dnat pf \<and> pk_ct_dnat p
     \<or> gp_skip_marked_packets pf \<and> pk_mark p \<noteq> 0
     \<or> (case gp_inbound_interfaces pf of None \<Rightarrow> False | Some ifs \<Rightarrow> ifs \<noteq> [] \<and> pk_iif p \<notin> set ifs)"

lemma first_action_simps [simp]:
  "first_action set_v6 [] p = None"
  "first_action set_v6 ((a, c) # rs) p = (if criteria_match set_v6 c p then Some a else first_action set_v6 rs p)"
  by (simp_all add: first_action_def)

lemma first_action_append:
  "first_action set_v6 (rs @ rs') p = (case first_action set_v6 rs p of None \<Rightarrow> first_action set_v6 rs' p | Some a \<Rightarrow> Some a)"
  by (induction rs) (auto simp: split_paired_all)

lemma for_chain_simps [simp]:
  "for_chain out [] = []"
  "for_chain out ((a, c) # rs) = (if fc_apply_output c = out then (a, c) # for_chain out rs else for_chain out rs)"
  by (simp_all add: for_chain_def)

lemma for_chain_append [simp]: "for_chain out (rs @ rs') = for_chain out rs @ for_chain out rs'"
  by (simp add: for_chain_def)

end
