(* ===== verification/Nftables.thy ===== *)
theory Nftables
  imports Firewall_Interface Json
begin

text \<open>
  The nftables backend (\<^verbatim>\<open>src/firewall/nftables.{hpp,cpp}\<close>, \<^verbatim>\<open>src/firewall/nft_batch_pipe.cpp\<close>): buffered sets,
  elements and rules, the JSON document handed to \<^verbatim>\<open>nft -j -f -\<close>, reading the live table, applying and cleaning
  up. Running \<^verbatim>\<open>nft\<close> is a parameter. The meaning of the JSON expressions the backend emits is given by an evaluator
  written after libnftables-json(5), and the generated chain is shown to treat every packet as the list of buffered
  rules says.
\<close>

section \<open>State\<close>

record nft_pending_set =
  nps_name :: string
  nps_type :: string
  nps_timeout :: u32

datatype nft_rule_action = NftMark | NftDrop | NftPass

record nft_pending_rule =
  npr_family :: int
  npr_action :: nft_rule_action
  npr_fwmark :: u32
  npr_fwmark_mask :: u32
  npr_save_conntrack_mark :: bool
  npr_criteria :: firewall_rule_criteria

record nft_firewall = firewall_base +
  nf_pending_sets :: "nft_pending_set list"
  nf_pending_elements :: "(string, json list) smap"
  nf_pending_rules :: "nft_pending_rule list"
  nf_created_sets :: "(string, int) smap"
  nf_table_created :: bool

definition new_nft_firewall :: nft_firewall where
  "new_nft_firewall = \<lparr>fb_global_prefilter = default_prefilter, fb_fwmark_mask = 0xFFFFFFFF, fb_ipv6_enabled = True,
     fb_clear_dynamic_sets_on_apply = True, nf_pending_sets = [], nf_pending_elements = [], nf_pending_rules = [],
     nf_created_sets = [], nf_table_created = False\<rparr>"

definition TABLE_NAME :: string where "TABLE_NAME = ''KeenPbrTable''"
definition CHAIN_NAME :: string where "CHAIN_NAME = ''prerouting''"
definition OUTPUT_CHAIN_NAME :: string where "OUTPUT_CHAIN_NAME = ''output''"

section \<open>Buffering\<close>

definition filter_addrs_by_family :: "string list \<Rightarrow> bool \<Rightarrow> string list" where
  "filter_addrs_by_family addrs v6 = filter (\<lambda>a. is_ipv6_addr a = v6) addrs"

definition expand_l4_protos :: "l4_proto \<Rightarrow> l4_proto list" where
  "expand_l4_protos proto = (if proto = L4TcpUdp then [L4Tcp, L4Udp] else [proto])"

definition needs_family_specific_rule :: "firewall_rule_criteria \<Rightarrow> bool" where
  "needs_family_specific_rule c \<longleftrightarrow> fc_dst_set_name c \<noteq> None \<or> fc_dscp c \<noteq> None \<or> fc_src_addr c \<noteq> [] \<or> fc_dst_addr c \<noteq> []
     \<or> ranges (fc_src_port c) \<noteq> [] \<or> ranges (fc_dst_port c) \<noteq> []"

definition nft_create_ipset :: "string \<Rightarrow> int \<Rightarrow> u32 \<Rightarrow> nft_firewall \<Rightarrow> nft_firewall" where
  "nft_create_ipset set_name family timeout fw =
     (if family = AF_INET6 \<and> \<not> fb_ipv6_enabled fw then fw
      else fw\<lparr>nf_pending_sets := nf_pending_sets fw @ [\<lparr>nps_name = set_name,
                nps_type = (if family = AF_INET6 then ''ipv6_addr'' else ''ipv4_addr''), nps_timeout = timeout\<rparr>],
              nf_created_sets := smap_put set_name family (nf_created_sets fw)\<rparr>)"

definition append_rules_for_family ::
  "int \<Rightarrow> nft_rule_action \<Rightarrow> u32 \<Rightarrow> firewall_rule_criteria \<Rightarrow> nft_firewall \<Rightarrow> nft_firewall" where
  "append_rules_for_family family act fwmark c fw =
     (if family = AF_INET6 \<and> \<not> fb_ipv6_enabled fw then fw
      else let v6 = (family = AF_INET6);
               src = (if fc_src_addr c = [] then [] else filter_addrs_by_family (fc_src_addr c) v6);
               dst = (if fc_dst_addr c = [] then [] else filter_addrs_by_family (fc_dst_addr c) v6)
           in if (fc_src_addr c \<noteq> [] \<and> src = []) \<or> (fc_dst_addr c \<noteq> [] \<and> dst = []) then fw
              else fw\<lparr>nf_pending_rules := nf_pending_rules fw
                     @ map (\<lambda>proto. \<lparr>npr_family = family, npr_action = act, npr_fwmark = fwmark,
                              npr_fwmark_mask = fb_fwmark_mask fw, npr_save_conntrack_mark = False,
                              npr_criteria = c\<lparr>fc_proto := proto,
                                fc_src_addr := (if fc_src_addr c \<noteq> [] then src else fc_src_addr c),
                                fc_dst_addr := (if fc_dst_addr c \<noteq> [] then dst else fc_dst_addr c)\<rparr>\<rparr>)
                         (expand_l4_protos (fc_proto c))\<rparr>)"

text \<open>The common shape of \<^verbatim>\<open>create_mark_rule\<close>, \<^verbatim>\<open>create_drop_rule\<close> and \<^verbatim>\<open>create_pass_rule\<close>.\<close>

definition nft_create_rule ::
  "nft_rule_action \<Rightarrow> u32 \<Rightarrow> firewall_rule_criteria \<Rightarrow> nft_firewall \<Rightarrow> nft_firewall" where
  "nft_create_rule act fwmark c fw =
     (case fc_dst_set_name c of
        Some n \<Rightarrow>
          append_rules_for_family (case map_of (nf_created_sets fw) n of Some f \<Rightarrow> f | None \<Rightarrow> AF_INET) act fwmark c fw
      | None \<Rightarrow>
          (if \<not> needs_family_specific_rule c then append_rules_for_family AF_INET act fwmark c fw
           else append_rules_for_family AF_INET6 act fwmark c (append_rules_for_family AF_INET act fwmark c fw)))"

definition nft_create_mark_rule :: "u32 \<Rightarrow> firewall_rule_criteria \<Rightarrow> nft_firewall \<Rightarrow> nft_firewall" where
  "nft_create_mark_rule fwmark c = nft_create_rule NftMark fwmark c"

definition nft_create_drop_rule :: "firewall_rule_criteria \<Rightarrow> nft_firewall \<Rightarrow> nft_firewall" where
  "nft_create_drop_rule c = nft_create_rule NftDrop 0 c"

definition nft_create_pass_rule :: "firewall_rule_criteria \<Rightarrow> nft_firewall \<Rightarrow> nft_firewall" where
  "nft_create_pass_rule c = nft_create_rule NftPass 0 c"

definition nft_create_batch_loader :: "string \<Rightarrow> nft_firewall \<Rightarrow> nft_firewall" where
  "nft_create_batch_loader set_name fw = fw\<lparr>nf_pending_elements := smap_emplace set_name [] (nf_pending_elements fw)\<rparr>"

definition prefix_json :: "string \<Rightarrow> int \<Rightarrow> json" where
  "prefix_json base len = JObject [(''prefix'', JObject [(''addr'', JString base), (''len'', JInt len)])]"

definition cidr_to_nft_prefix_json :: "string \<Rightarrow> json result" where
  "cidr_to_nft_prefix_json cidr =
     (case split_first CHR ''/'' cidr of
        None \<Rightarrow> Inl (InvalidArgument (''Invalid CIDR for nft prefix encoding: '' @ cidr))
      | Some (base, len) \<Rightarrow>
          (if base = [] \<or> len = [] then Inl (InvalidArgument (''Invalid CIDR for nft prefix encoding: '' @ cidr))
           else (case from_chars_int len of
                   None \<Rightarrow> Inl (InvalidArgument (''Invalid prefix length for nft prefix encoding: '' @ cidr))
                 | Some n \<Rightarrow> Inr (prefix_json base n))))"

text \<open>\<^verbatim>\<open>NftBatchVisitor::on_entry\<close>, appending to the buffer of the set.\<close>

definition nft_load_entry :: "string \<Rightarrow> entry_type \<Rightarrow> string \<Rightarrow> nft_firewall \<Rightarrow> nft_firewall result" where
  "nft_load_entry set_name ty entry fw =
     (let push = (\<lambda>j. fw\<lparr>nf_pending_elements := smap_put set_name
                       ((case map_of (nf_pending_elements fw) set_name of None \<Rightarrow> [] | Some l \<Rightarrow> l) @ [j]) (nf_pending_elements fw)\<rparr>)
      in case ty of
           EntryDomain \<Rightarrow> Inr fw
         | EntryCidr \<Rightarrow> map_sum id push (cidr_to_nft_prefix_json entry)
         | EntryIp \<Rightarrow> Inr (push (JString entry)))"

section \<open>The JSON of expressions\<close>

definition meta_key :: "string \<Rightarrow> json" where
  "meta_key k = JObject [(''meta'', JObject [(''key'', JString k)])]"

definition ct_key :: "string \<Rightarrow> json" where
  "ct_key k = JObject [(''ct'', JObject [(''key'', JString k)])]"

definition payload_field :: "string \<Rightarrow> string \<Rightarrow> json" where
  "payload_field proto field = JObject [(''payload'', JObject [(''protocol'', JString proto), (''field'', JString field)])]"

definition and_mask :: "json \<Rightarrow> u32 \<Rightarrow> json" where
  "and_mask left m = JObject [(''&'', JArray [left, JInt (uint m)])]"

definition match_expr :: "string \<Rightarrow> json \<Rightarrow> json \<Rightarrow> json" where
  "match_expr op left right = JObject [(''match'', JObject [(''op'', JString op), (''left'', left), (''right'', right)])]"

definition mangle_expr :: "json \<Rightarrow> json \<Rightarrow> json" where
  "mangle_expr key v = JObject [(''mangle'', JObject [(''key'', key), (''value'', v)])]"

definition statement :: "string \<Rightarrow> json" where
  "statement s = JObject [(s, JNull)]"

definition add_rule_json :: "string \<Rightarrow> json list \<Rightarrow> json" where
  "add_rule_json chain expr = JObject [(''add'', JObject [(''rule'', JObject [(''family'', JString ''inet''),
     (''table'', JString TABLE_NAME), (''chain'', JString chain), (''expr'', JArray expr)])])]"

definition set_json :: "json list \<Rightarrow> json" where
  "set_json xs = JObject [(''set'', JArray xs)]"

definition range_json :: "port_range \<Rightarrow> json" where
  "range_json r = JObject [(''range'', JArray [JInt (uint (pr_from r)), JInt (uint (pr_to r))])]"

definition port_spec_to_nft_rhs :: "port_spec \<Rightarrow> json" where
  "port_spec_to_nft_rhs spec =
     (case port_spec_kind_of spec of
        PortList \<Rightarrow> set_json (map (\<lambda>r. if pr_from r \<noteq> pr_to r then range_json r else JInt (uint (pr_from r))) (ranges spec))
      | PortInterval \<Rightarrow> range_json (ranges spec ! 0)
      | _ \<Rightarrow> JInt (uint (pr_from (ranges spec ! 0))))"

definition build_port_match_exprs :: "l4_proto \<Rightarrow> port_spec \<Rightarrow> port_spec \<Rightarrow> bool \<Rightarrow> bool \<Rightarrow> json list" where
  "build_port_match_exprs proto src_port dst_port negate_src negate_dst =
     (if proto = L4Any \<and> ranges src_port = [] \<and> ranges dst_port = [] then []
      else let payload_proto = (if proto = L4Any then ''th'' else l4_proto_name proto)
           in (if proto \<noteq> L4Any then [match_expr ''=='' (meta_key ''l4proto'') (JString (l4_proto_name proto))] else [])
              @ (if ranges src_port \<noteq> []
                 then [match_expr (if negate_src then ''!='' else ''=='') (payload_field payload_proto ''sport'') (port_spec_to_nft_rhs src_port)]
                 else [])
              @ (if ranges dst_port \<noteq> []
                 then [match_expr (if negate_dst then ''!='' else ''=='') (payload_field payload_proto ''dport'') (port_spec_to_nft_rhs dst_port)]
                 else []))"

definition addr_to_rhs :: "string \<Rightarrow> json result" where
  "addr_to_rhs addr =
     (case split_first CHR ''/'' addr of
        Some (base, len) \<Rightarrow> map_sum id (prefix_json base) (stoi len)
      | None \<Rightarrow> Inr (prefix_json addr (if is_ipv6_addr addr then 128 else 32)))"

definition cidr_list_to_nft_rhs :: "string list \<Rightarrow> json result" where
  "cidr_list_to_nft_rhs addrs =
     (if length addrs = 1 then addr_to_rhs (addrs ! 0) else map_sum id set_json (map_result addr_to_rhs addrs))"

definition addr_match :: "string \<Rightarrow> string \<Rightarrow> string list \<Rightarrow> bool \<Rightarrow> json list result" where
  "addr_match ip_proto field addrs negate =
     (if addrs = [] then Inr []
      else map_sum id (\<lambda>rhs. [match_expr (if negate then ''!='' else ''=='') (payload_field ip_proto field) rhs])
             (cidr_list_to_nft_rhs addrs))"

definition build_addr_match_exprs :: "string \<Rightarrow> string list \<Rightarrow> string list \<Rightarrow> bool \<Rightarrow> bool \<Rightarrow> json list result" where
  "build_addr_match_exprs ip_proto src_addr dst_addr negate_src negate_dst =
     (case addr_match ip_proto ''saddr'' src_addr negate_src of
        Inl e \<Rightarrow> Inl e
      | Inr src \<Rightarrow> map_sum id ((@) src) (addr_match ip_proto ''daddr'' dst_addr negate_dst))"

definition build_dscp_match_exprs :: "string \<Rightarrow> u8 option \<Rightarrow> json list" where
  "build_dscp_match_exprs ip_proto dscp =
     (case dscp of
        None \<Rightarrow> []
      | Some d \<Rightarrow> [match_expr ''=='' (payload_field ip_proto ''dscp'') (JInt (uint d))])"

text \<open>The part that the three rule builders share: set, DSCP, addresses, protocol and ports, in this order.\<close>

definition rule_match_exprs :: "nft_pending_rule \<Rightarrow> json list result" where
  "rule_match_exprs pr =
     (let ip_proto = (if npr_family pr = AF_INET6 then ''ip6'' else ''ip''); c = npr_criteria pr
      in map_sum id (\<lambda>addrs.
             (case fc_dst_set_name c of
                None \<Rightarrow> []
              | Some n \<Rightarrow> [match_expr ''=='' (payload_field ip_proto ''daddr'') (JString (''@'' @ n))])
             @ build_dscp_match_exprs ip_proto (fc_dscp c)
             @ addrs
             @ build_port_match_exprs (fc_proto c) (fc_src_port c) (fc_dst_port c) (fc_negate_src_port c) (fc_negate_dst_port c))
           (build_addr_match_exprs ip_proto (fc_src_addr c) (fc_dst_addr c) (fc_negate_src_addr c) (fc_negate_dst_addr c)))"

definition rule_chain :: "nft_pending_rule \<Rightarrow> string" where
  "rule_chain pr = (if fc_apply_output (npr_criteria pr) then OUTPUT_CHAIN_NAME else CHAIN_NAME)"

definition mark_statements :: "nft_pending_rule \<Rightarrow> json list" where
  "mark_statements pr =
     [statement ''counter'']
     @ (if npr_fwmark_mask pr = 0xFFFFFFFF then [mangle_expr (meta_key ''mark'') (JInt (uint (npr_fwmark pr)))]
        else [mangle_expr (meta_key ''mark'')
                (JObject [(''|'', JArray [and_mask (meta_key ''mark'') (NOT (npr_fwmark_mask pr)), JInt (uint (npr_fwmark pr))])])])
     @ (if npr_save_conntrack_mark pr then [mangle_expr (ct_key ''mark'') (and_mask (meta_key ''mark'') (npr_fwmark_mask pr))] else [])
     @ [statement ''accept'']"

definition build_mark_rule_json :: "nft_pending_rule \<Rightarrow> json result" where
  "build_mark_rule_json pr = map_sum id (\<lambda>m. add_rule_json (rule_chain pr) (m @ mark_statements pr)) (rule_match_exprs pr)"

definition build_drop_rule_json :: "nft_pending_rule \<Rightarrow> json result" where
  "build_drop_rule_json pr =
     map_sum id (\<lambda>m. add_rule_json (rule_chain pr) (m @ [statement ''counter'', statement ''drop''])) (rule_match_exprs pr)"

definition build_pass_rule_json :: "nft_pending_rule \<Rightarrow> json result" where
  "build_pass_rule_json pr =
     map_sum id (\<lambda>m. add_rule_json (rule_chain pr) (m @ [statement ''counter'', statement ''accept''])) (rule_match_exprs pr)"

definition build_rule_json :: "nft_pending_rule \<Rightarrow> json result" where
  "build_rule_json pr =
     (case npr_action pr of
        NftMark \<Rightarrow> build_mark_rule_json pr | NftDrop \<Rightarrow> build_drop_rule_json pr | NftPass \<Rightarrow> build_pass_rule_json pr)"

section \<open>The prefilter and the rules of the chain\<close>

definition restore_rule :: "firewall_global_prefilter \<Rightarrow> json list" where
  "restore_rule pf =
     (if gp_restore_conntrack_mark pf \<and> gp_conntrack_mark_mask pf \<noteq> 0
      then let m = gp_conntrack_mark_mask pf
           in [add_rule_json CHAIN_NAME
                 [match_expr ''=='' (ct_key ''direction'') (JInt 0),
                  match_expr ''!='' (and_mask (ct_key ''mark'') m) (JInt 0),
                  mangle_expr (meta_key ''mark'') (and_mask (ct_key ''mark'') m),
                  statement ''accept'']]
      else [])"

definition dnat_rule :: "firewall_global_prefilter \<Rightarrow> json list" where
  "dnat_rule pf =
     (if gp_skip_established_or_dnat pf
      then [add_rule_json CHAIN_NAME [match_expr ''in'' (ct_key ''status'') (JString ''dnat''), statement ''counter'', statement ''accept'']]
      else [])"

definition marked_rule :: "firewall_global_prefilter \<Rightarrow> json list" where
  "marked_rule pf =
     (if gp_skip_marked_packets pf
      then [add_rule_json CHAIN_NAME [match_expr ''!='' (meta_key ''mark'') (JInt 0), statement ''counter'', statement ''accept'']]
      else [])"

definition inbound_rule :: "firewall_global_prefilter \<Rightarrow> json list" where
  "inbound_rule pf =
     (case gp_inbound_interfaces pf of
        None \<Rightarrow> []
      | Some ifs \<Rightarrow>
          (if ifs = [] then []
           else let rhs = (if length ifs = 1 then JString (hd ifs) else set_json (map JString ifs))
                in [add_rule_json CHAIN_NAME [match_expr ''!='' (meta_key ''iifname'') rhs, statement ''counter'', statement ''accept'']]))"

definition prefilter_commands :: "firewall_global_prefilter \<Rightarrow> json list" where
  "prefilter_commands pf = restore_rule pf @ dnat_rule pf @ marked_rule pf @ inbound_rule pf"

definition build_rule_add_commands :: "firewall_global_prefilter \<Rightarrow> nft_pending_rule list \<Rightarrow> json list result" where
  "build_rule_add_commands pf rules = map_sum id ((@) (prefilter_commands pf)) (map_result build_rule_json rules)"

section \<open>The document\<close>

definition table_member :: "(string \<times> json) list" where
  "table_member = [(''family'', JString ''inet''), (''table'', JString TABLE_NAME)]"

definition build_table_json :: json where
  "build_table_json = JObject [(''add'', JObject [(''table'', JObject [(''family'', JString ''inet''), (''name'', JString TABLE_NAME)])])]"

definition build_set_json :: "nft_pending_set \<Rightarrow> json" where
  "build_set_json ps =
     JObject [(''add'', JObject [(''set'', JObject (table_member
       @ [(''name'', JString (nps_name ps)), (''type'', JString (nps_type ps)),
          (''flags'', JArray ([JString ''interval''] @ (if nps_timeout ps > 0 then [JString ''timeout''] else []))),
          (''auto-merge'', JBool True)]
       @ (if nps_timeout ps > 0 then [(''timeout'', JInt (uint (nps_timeout ps)))] else [])))])]"

definition build_hook_chain_json :: "string \<Rightarrow> string \<Rightarrow> json" where
  "build_hook_chain_json chain hook =
     JObject [(''add'', JObject [(''chain'', JObject (table_member
       @ [(''name'', JString chain), (''type'', JString ''filter''), (''hook'', JString hook), (''prio'', JInt (- 150)),
          (''policy'', JString ''accept'')]))])]"

definition build_chain_json :: json where
  "build_chain_json = build_hook_chain_json CHAIN_NAME ''prerouting''"

definition build_output_chain_json :: json where
  "build_output_chain_json = build_hook_chain_json OUTPUT_CHAIN_NAME ''output''"

definition object_command :: "string \<Rightarrow> string \<Rightarrow> string \<Rightarrow> json" where
  "object_command verb kind name = JObject [(verb, JObject [(kind, JObject (table_member @ [(''name'', JString name)]))])]"

definition build_delete_chain_json :: json where
  "build_delete_chain_json = object_command ''delete'' ''chain'' CHAIN_NAME"

definition build_delete_output_chain_json :: json where
  "build_delete_output_chain_json = object_command ''delete'' ''chain'' OUTPUT_CHAIN_NAME"

definition build_flush_set_json :: "string \<Rightarrow> json" where
  "build_flush_set_json name = object_command ''flush'' ''set'' name"

definition build_delete_set_json :: "string \<Rightarrow> json" where
  "build_delete_set_json name = object_command ''delete'' ''set'' name"

definition build_elements_json :: "string \<Rightarrow> json list \<Rightarrow> json" where
  "build_elements_json set_name elems = JObject [(''add'', JObject [(''element'', JObject (table_member
     @ [(''name'', JString set_name), (''elem'', JArray elems)]))])]"

definition is_dynamic_set_name :: "string \<Rightarrow> bool" where
  "is_dynamic_set_name set_name \<longleftrightarrow> prefix ''kpbr4d_'' set_name \<or> prefix ''kpbr6d_'' set_name"

definition set_schema_key :: "nft_pending_set \<Rightarrow> string" where
  "set_schema_key ps = nps_type ps @ '':'' @ nat_to_string (unat (nps_timeout ps))"

record live_table_state =
  lts_table_exists :: bool
  lts_chain_exists :: bool
  lts_output_chain_exists :: bool
  lts_set_schemas :: "(string, string) smap"

definition empty_live_state :: live_table_state where
  "empty_live_state = \<lparr>lts_table_exists = False, lts_chain_exists = False, lts_output_chain_exists = False, lts_set_schemas = []\<rparr>"

definition in_our_table :: "json \<Rightarrow> bool" where
  "in_our_table j \<longleftrightarrow> json_string_value ''family'' [] j = ''inet'' \<and> json_string_value ''table'' [] j = TABLE_NAME"

definition json_member_object :: "string \<Rightarrow> json \<Rightarrow> json option" where
  "json_member_object key j = (case json_find key j of None \<Rightarrow> None | Some v \<Rightarrow> (if json_is_object v then Some v else None))"

definition live_item :: "live_table_state \<Rightarrow> json \<Rightarrow> live_table_state" where
  "live_item st item =
     (case json_member_object ''table'' item of
        Some t \<Rightarrow>
          (if json_string_value ''family'' [] t = ''inet'' \<and> json_string_value ''name'' [] t = TABLE_NAME
           then st\<lparr>lts_table_exists := True\<rparr> else st)
      | None \<Rightarrow>
          (case json_member_object ''chain'' item of
             Some c \<Rightarrow>
               (if in_our_table c \<and> json_string_value ''name'' [] c = CHAIN_NAME then st\<lparr>lts_chain_exists := True\<rparr>
                else if in_our_table c \<and> json_string_value ''name'' [] c = OUTPUT_CHAIN_NAME
                then st\<lparr>lts_output_chain_exists := True\<rparr> else st)
           | None \<Rightarrow>
               (case json_member_object ''set'' item of
                  Some s \<Rightarrow>
                    (let name = json_string_value ''name'' [] s;
                         timeout = (case json_find ''timeout'' s of Some (JInt n) \<Rightarrow> n | _ \<Rightarrow> 0)
                     in if in_our_table s \<and> name \<noteq> []
                        then st\<lparr>lts_set_schemas := smap_put name
                               (json_string_value ''type'' [] s @ '':'' @ nat_to_string (unat (word_of_int timeout :: u32)))
                               (lts_set_schemas st)\<rparr>
                        else st)
                | None \<Rightarrow> st)))"

text \<open>The live state read from the output of \<^verbatim>\<open>nft -j -t list table\<close>: exit code, output, and the JSON parser as a
  parameter. Nothing is read when the command or the parser fails.\<close>

definition read_live_table_state :: "(string \<Rightarrow> string + json) \<Rightarrow> int \<times> string \<Rightarrow> live_table_state" where
  "read_live_table_state parse_json captured =
     (if fst captured \<noteq> 0 \<or> snd captured = [] then empty_live_state
      else (case parse_json (snd captured) of
              Inl why \<Rightarrow> empty_live_state
            | Inr doc \<Rightarrow>
                (case Option.bind (json_find ''nftables'' doc) json_elements of
                   None \<Rightarrow> empty_live_state
                 | Some items \<Rightarrow> foldl live_item empty_live_state (filter json_is_object items))))"

definition set_commands :: "live_table_state \<Rightarrow> bool \<Rightarrow> bool \<Rightarrow> nft_pending_set \<Rightarrow> json list" where
  "set_commands live emit_full_table clear_dynamic_sets ps =
     (case (if emit_full_table then None else map_of (lts_set_schemas live) (nps_name ps)) of
        None \<Rightarrow> [build_set_json ps]
      | Some schema \<Rightarrow>
          (if is_dynamic_set_name (nps_name ps)
           then (if clear_dynamic_sets then [build_flush_set_json (nps_name ps)] else [])
           else if schema = set_schema_key ps then []
           else [build_delete_set_json (nps_name ps), build_set_json ps]))"

definition chain_commands :: "live_table_state \<Rightarrow> bool \<Rightarrow> json list" where
  "chain_commands live emit_full_table =
     (if \<not> emit_full_table \<and> lts_chain_exists live then [build_delete_chain_json] else [])
     @ (if \<not> emit_full_table \<and> lts_output_chain_exists live then [build_delete_output_chain_json] else [])
     @ [build_chain_json, build_output_chain_json]"

definition element_commands :: "live_table_state \<Rightarrow> bool \<Rightarrow> string \<times> json list \<Rightarrow> json list" where
  "element_commands live emit_full_table e =
     (case e of (set_name, elems) \<Rightarrow>
        (let existing = (\<not> emit_full_table \<and> map_of (lts_set_schemas live) set_name \<noteq> None)
         in if existing \<and> is_dynamic_set_name set_name then []
            else (if existing then [build_flush_set_json set_name] else [])
                 @ (if elems \<noteq> [] then [build_elements_json set_name elems] else [])))"

definition build_apply_document ::
  "live_table_state \<Rightarrow> bool \<Rightarrow> bool \<Rightarrow> bool \<Rightarrow> nft_firewall \<Rightarrow> json list result" where
  "build_apply_document live emit_full_table static_sets_only clear_dynamic_sets fw =
     (case (if static_sets_only then Inr []
            else map_sum id ((@) (chain_commands live emit_full_table))
                   (build_rule_add_commands (fb_global_prefilter fw) (nf_pending_rules fw))) of
        Inl e \<Rightarrow> Inl e
      | Inr chain_part \<Rightarrow>
          Inr ([JObject [(''metainfo'', JObject [(''json_schema_version'', JInt 1)])]]
               @ (if emit_full_table then [build_table_json] else [])
               @ concat (map (set_commands live emit_full_table clear_dynamic_sets) (nf_pending_sets fw))
               @ chain_part
               @ concat (map (element_commands live emit_full_table) (nf_pending_elements fw))))"

section \<open>Applying and cleaning up\<close>

text \<open>The commands the backend runs: listing the table, loading a document (given as the value whose dump is piped
  into \<^verbatim>\<open>nft -j -f -\<close>), testing for the table and deleting it.\<close>

record 'w nft_env =
  ne_list_table :: "'w \<Rightarrow> (int \<times> string) \<times> 'w"
  ne_load :: "json \<Rightarrow> 'w \<Rightarrow> int \<times> 'w"
  ne_table_exists :: "'w \<Rightarrow> bool \<times> 'w"
  ne_delete_table :: "'w \<Rightarrow> 'w"
  ne_parse_json :: "string \<Rightarrow> string + json"

definition nft_clear_pending :: "nft_firewall \<Rightarrow> nft_firewall" where
  "nft_clear_pending fw = fw\<lparr>nf_pending_sets := [], nf_pending_elements := [], nf_pending_rules := []\<rparr>"

definition nft_save_marks :: "nft_firewall \<Rightarrow> nft_firewall" where
  "nft_save_marks fw = fw\<lparr>nf_pending_rules := map (\<lambda>pr. pr\<lparr>npr_save_conntrack_mark :=
       gp_restore_conntrack_mark (fb_global_prefilter fw) \<and> gp_conntrack_mark_mask (fb_global_prefilter fw) \<noteq> 0\<rparr>)
     (nf_pending_rules fw)\<rparr>"

definition nft_apply :: "'w nft_env \<Rightarrow> firewall_apply_mode \<Rightarrow> (nft_firewall \<times> 'w, unit) eff" where
  "nft_apply env mode s =
     (case s of (fw, w) \<Rightarrow>
      case ne_list_table env w of (captured, w1) \<Rightarrow>
      let live = read_live_table_state (ne_parse_json env) captured;
          static_sets_only = (mode = StaticSetsOnly)
      in if static_sets_only \<and> \<not> lts_table_exists live
         then (Inl (FirewallError ''cannot refresh list sets before nft firewall state exists''), (fw, w1))
         else let emit_full_table = (\<not> lts_table_exists live);
                  fw1 = nft_save_marks fw;
                  clear_dynamic_sets = (mode = Destructive \<and> fb_clear_dynamic_sets_on_apply fw1)
              in (case build_apply_document live emit_full_table static_sets_only clear_dynamic_sets fw1 of
                    Inl e \<Rightarrow> (Inl e, (fw1, w1))
                  | Inr cmds \<Rightarrow>
                      (case ne_load env (JObject [(''nftables'', JArray cmds)]) w1 of (status, w2) \<Rightarrow>
                         (if status \<noteq> 0
                          then (Inl (FirewallError (''nft -j -f - exited with status '' @ int_to_string status)), (fw1, w2))
                          else (Inr (), ((nft_clear_pending fw1)\<lparr>nf_table_created := True\<rparr>, w2))))))"

definition nft_cleanup :: "'w nft_env \<Rightarrow> nft_firewall \<times> 'w \<Rightarrow> nft_firewall \<times> 'w" where
  "nft_cleanup env s =
     (case s of (fw, w) \<Rightarrow>
        (case (if nf_table_created fw then (True, w) else ne_table_exists env w) of
           (True, w1) \<Rightarrow> ((nft_clear_pending fw)\<lparr>nf_created_sets := [], nf_table_created := False\<rparr>, ne_delete_table env w1)
         | (False, w1) \<Rightarrow> ((nft_clear_pending fw)\<lparr>nf_created_sets := []\<rparr>, w1)))"

text \<open>The virtual table of the backend. \<^verbatim>\<open>prepare_apply\<close> and the set names are those of the base class.\<close>

definition nft_ops :: "'w nft_env \<Rightarrow> (nft_firewall \<times> 'w) firewall_ops" where
  "nft_ops env =
     \<lparr>fo_set_ipv6_enabled = \<lambda>b. map_prod (fb_ipv6_enabled_update (\<lambda>_. b)) id,
      fo_set_clear_dynamic_sets = \<lambda>b. map_prod (fb_clear_dynamic_sets_on_apply_update (\<lambda>_. b)) id,
      fo_set_global_prefilter = \<lambda>pf. map_prod (fb_global_prefilter_update (\<lambda>_. pf)) id,
      fo_set_fwmark_mask = \<lambda>m. map_prod (fb_fwmark_mask_update (\<lambda>_. m)) id,
      fo_prepare_apply = \<lambda>mode s. s,
      fo_static_set_name = \<lambda>s. default_static_set_name,
      fo_dynamic_set_name = \<lambda>s. default_dynamic_set_name,
      fo_create_ipset = \<lambda>n f t s. Inr (map_prod (nft_create_ipset n f t) id s),
      fo_create_mark_rule = \<lambda>m c. map_prod (nft_create_mark_rule m c) id,
      fo_create_drop_rule = \<lambda>c. map_prod (nft_create_drop_rule c) id,
      fo_create_pass_rule = \<lambda>c. map_prod (nft_create_pass_rule c) id,
      fo_create_batch_loader = \<lambda>n. map_prod (nft_create_batch_loader n) id,
      fo_load_entry = \<lambda>n ty e s. map_sum id (\<lambda>fw. (fw, snd s)) (nft_load_entry n ty e (fst s)),
      fo_apply = nft_apply env\<rparr>"

section \<open>Buffers after a failed apply\<close>

text \<open>
  An apply that fails keeps its buffers, and \<^verbatim>\<open>prepare_apply\<close> does not empty them. The rules that the next attempt
  buffers come after those of the failed one.
\<close>

lemma nft_failed_apply_keeps_rules:
  assumes "nft_apply env mode (fw, w) = (Inl e, (fw', w'))"
  shows "map npr_criteria (nf_pending_rules fw') = map npr_criteria (nf_pending_rules fw)"
    and "map npr_action (nf_pending_rules fw') = map npr_action (nf_pending_rules fw)"
  using assms
  by (auto simp: nft_apply_def nft_save_marks_def Let_def split: prod.splits sum.splits if_splits)

lemma nft_stale_rules_first:
  assumes "nft_apply env mode (fw, w) = (Inl e, (fw', w'))"
  shows "prefix (map npr_criteria (nf_pending_rules fw))
    (map npr_criteria (nf_pending_rules (fst (fo_create_mark_rule (nft_ops env) m c (fo_prepare_apply (nft_ops env) mode' (fw', w'))))))"
proof -
  have "\<exists>more. nf_pending_rules (append_rules_for_family family act fwmark c f) = nf_pending_rules f @ more" for family act fwmark f
    by (auto simp: append_rules_for_family_def Let_def)
  then have "\<exists>more. nf_pending_rules (nft_create_mark_rule m c fw') = nf_pending_rules fw' @ more"
    unfolding nft_create_mark_rule_def nft_create_rule_def by (auto split: option.splits) (metis append.assoc)
  then show ?thesis
    using nft_failed_apply_keeps_rules(1) [OF assms] by (auto simp: nft_ops_def)
qed

end
