(* ===== verification/Nft_Semantics.thy ===== *)
theory Nft_Semantics
  imports Nftables
begin

text \<open>
  What the documents of the nftables backend mean, after libnftables-json(5): a rule is a list of expressions; a
  \<^verbatim>\<open>match\<close> that does not hold, or whose left side is not present in the packet, ends the rule; \<^verbatim>\<open>mangle\<close> sets the
  packet or connection mark; \<^verbatim>\<open>accept\<close> and \<^verbatim>\<open>drop\<close> end the chain, whose policy is to accept. The theorem of this
  theory is that the chain built from buffered rules gives each packet the verdict of the first buffered rule that
  selects it, after the prefilter.
\<close>

section \<open>Evaluation\<close>

datatype nft_value =
    NumValue int
  | StrValue string
  | FlagsValue "string list"
  | AddrValue "string \<Rightarrow> int \<Rightarrow> bool" "string \<Rightarrow> bool"

definition nft_ct :: "string \<Rightarrow> packet \<Rightarrow> nft_value option" where
  "nft_ct key p =
     (if key = ''direction'' then Some (NumValue (if pk_ct_original p then 0 else 1))
      else if key = ''mark'' then Some (NumValue (uint (pk_ctmark p)))
      else if key = ''status'' then Some (FlagsValue (if pk_ct_dnat p then [''dnat''] else []))
      else None)"

definition nft_meta :: "string \<Rightarrow> packet \<Rightarrow> nft_value option" where
  "nft_meta key p =
     (if key = ''mark'' then Some (NumValue (uint (pk_mark p)))
      else if key = ''iifname'' then Some (StrValue (pk_iif p))
      else if key = ''l4proto'' then Some (StrValue (pk_proto p))
      else None)"

definition nft_payload :: "string \<Rightarrow> string \<Rightarrow> packet \<Rightarrow> nft_value option" where
  "nft_payload proto field p =
     (if proto = ''ip'' \<or> proto = ''ip6''
      then if pk_ipv6 p \<noteq> (proto = ''ip6'') then None
           else if field = ''saddr'' then Some (AddrValue (pk_src_in p) (\<lambda>s. False))
           else if field = ''daddr'' then Some (AddrValue (pk_dst_in p) (pk_dst_set p))
           else if field = ''dscp'' then Some (NumValue (uint (pk_dscp p)))
           else None
      else if proto = ''th'' \<or> proto = pk_proto p
      then if field = ''sport'' then map_option (\<lambda>x. NumValue (uint x)) (pk_sport p)
           else if field = ''dport'' then map_option (\<lambda>x. NumValue (uint x)) (pk_dport p)
           else None
      else None)"

definition nft_base :: "json \<Rightarrow> packet \<Rightarrow> nft_value option" where
  "nft_base j p =
     (case json_find ''ct'' j of
        Some k \<Rightarrow> nft_ct (json_string_value ''key'' [] k) p
      | None \<Rightarrow>
          (case json_find ''meta'' j of
             Some k \<Rightarrow> nft_meta (json_string_value ''key'' [] k) p
           | None \<Rightarrow>
               (case json_find ''payload'' j of
                  Some k \<Rightarrow> nft_payload (json_string_value ''protocol'' [] k) (json_string_value ''field'' [] k) p
                | None \<Rightarrow> None)))"

definition nft_left :: "json \<Rightarrow> packet \<Rightarrow> nft_value option" where
  "nft_left j p =
     (case json_find ''&'' j of
        Some (JArray [l, JInt m]) \<Rightarrow> (case nft_base l p of Some (NumValue n) \<Rightarrow> Some (NumValue (n AND m)) | _ \<Rightarrow> None)
      | _ \<Rightarrow> nft_base j p)"

definition nft_atom :: "json \<Rightarrow> nft_value \<Rightarrow> bool" where
  "nft_atom j v =
     (case v of
        NumValue n \<Rightarrow>
          (case j of
             JInt m \<Rightarrow> n = m
           | _ \<Rightarrow> (case json_find ''range'' j of Some (JArray [JInt a, JInt b]) \<Rightarrow> a \<le> n \<and> n \<le> b | _ \<Rightarrow> False))
      | StrValue s \<Rightarrow> j = JString s
      | FlagsValue fs \<Rightarrow> (case j of JString s \<Rightarrow> s \<in> set fs | _ \<Rightarrow> False)
      | AddrValue inside in_set \<Rightarrow>
          (case j of
             JString s \<Rightarrow> s \<noteq> [] \<and> hd s = CHR ''@'' \<and> in_set (tl s)
           | _ \<Rightarrow> (case json_find ''prefix'' j of
                     Some q \<Rightarrow> (case (json_find ''addr'' q, json_find ''len'' q) of
                                 (Some (JString base), Some (JInt len)) \<Rightarrow> inside base len
                               | _ \<Rightarrow> False)
                   | None \<Rightarrow> False)))"

definition nft_right :: "json \<Rightarrow> nft_value \<Rightarrow> bool" where
  "nft_right j v =
     (case json_find ''set'' j of Some (JArray xs) \<Rightarrow> list_ex (\<lambda>x. nft_atom x v) xs | _ \<Rightarrow> nft_atom j v)"

definition nft_match :: "json \<Rightarrow> packet \<Rightarrow> bool" where
  "nft_match m p =
     (case (json_find ''left'' m, json_find ''right'' m) of
        (Some l, Some r) \<Rightarrow>
          (case nft_left l p of
             None \<Rightarrow> False
           | Some v \<Rightarrow> (if json_string_value ''op'' [] m = ''!='' then \<not> nft_right r v else nft_right r v))
      | _ \<Rightarrow> False)"

definition nft_number :: "json \<Rightarrow> packet \<Rightarrow> u32" where
  "nft_number j p =
     (case j of
        JInt n \<Rightarrow> word_of_int n
      | _ \<Rightarrow> (case nft_left j p of Some (NumValue n) \<Rightarrow> word_of_int n | _ \<Rightarrow> 0))"

definition nft_mangle_value :: "json \<Rightarrow> packet \<Rightarrow> u32" where
  "nft_mangle_value j p =
     (case json_find ''|'' j of
        Some (JArray [l, r]) \<Rightarrow> nft_number l p OR nft_number r p
      | _ \<Rightarrow> nft_number j p)"

definition nft_mangle :: "json \<Rightarrow> packet \<Rightarrow> packet" where
  "nft_mangle m p =
     (case (json_find ''key'' m, json_find ''value'' m) of
        (Some k, Some v) \<Rightarrow>
          (if json_find ''meta'' k \<noteq> None then p\<lparr>pk_mark := nft_mangle_value v p\<rparr>
           else if json_find ''ct'' k \<noteq> None then p\<lparr>pk_ctmark := nft_mangle_value v p\<rparr>
           else p)
      | _ \<Rightarrow> p)"

datatype nft_outcome = NftContinue packet | NftVerdict bool packet

fun nft_exprs :: "json list \<Rightarrow> packet \<Rightarrow> nft_outcome" where
  "nft_exprs [] p = NftContinue p"
| "nft_exprs (e # es) p =
     (case json_find ''match'' e of
        Some m \<Rightarrow> (if nft_match m p then nft_exprs es p else NftContinue p)
      | None \<Rightarrow>
          (case json_find ''mangle'' e of
             Some m \<Rightarrow> nft_exprs es (nft_mangle m p)
           | None \<Rightarrow>
               (if json_find ''accept'' e \<noteq> None then NftVerdict True p
                else if json_find ''drop'' e \<noteq> None then NftVerdict False p
                else nft_exprs es p)))"

text \<open>The verdict of a chain: whether the packet is accepted, and the packet with its marks.\<close>

fun nft_chain :: "json list list \<Rightarrow> packet \<Rightarrow> bool \<times> packet" where
  "nft_chain [] p = (True, p)"
| "nft_chain (r # rs) p =
     (case nft_exprs r p of NftContinue p' \<Rightarrow> nft_chain rs p' | NftVerdict accepted p' \<Rightarrow> (accepted, p'))"

definition rule_of_command :: "string \<Rightarrow> json \<Rightarrow> json list option" where
  "rule_of_command chain j =
     (case Option.bind (json_find ''add'' j) (json_find ''rule'') of
        None \<Rightarrow> None
      | Some r \<Rightarrow> (if json_string_value ''chain'' [] r = chain then Option.bind (json_find ''expr'' r) json_elements else None))"

definition chain_rules :: "string \<Rightarrow> json list \<Rightarrow> json list list" where
  "chain_rules chain cmds = List.map_filter (rule_of_command chain) cmds"

section \<open>Evaluation of the emitted expressions\<close>

lemma nft_base_simps [simp]:
  "nft_base (ct_key k) p = nft_ct k p"
  "nft_base (meta_key k) p = nft_meta k p"
  "nft_base (payload_field proto field) p = nft_payload proto field p"
  by (simp_all add: nft_base_def ct_key_def meta_key_def payload_field_def json_string_value_def)

lemma nft_left_simps [simp]:
  "nft_left (ct_key k) p = nft_ct k p"
  "nft_left (meta_key k) p = nft_meta k p"
  "nft_left (payload_field proto field) p = nft_payload proto field p"
  "nft_left (and_mask l m) p = (case nft_base l p of Some (NumValue n) \<Rightarrow> Some (NumValue (n AND uint m)) | _ \<Rightarrow> None)"
  by (simp_all add: nft_left_def ct_key_def meta_key_def payload_field_def and_mask_def)
    (simp_all add: nft_base_def json_string_value_def)

lemma nft_atom_simps [simp]:
  "nft_atom (JInt m) (NumValue n) \<longleftrightarrow> n = m"
  "nft_atom (range_json r) (NumValue n) \<longleftrightarrow> uint (pr_from r) \<le> n \<and> n \<le> uint (pr_to r)"
  "nft_atom (JString t) (StrValue s) \<longleftrightarrow> t = s"
  "nft_atom (JString t) (FlagsValue fs) \<longleftrightarrow> t \<in> set fs"
  "nft_atom (JString (CHR ''@'' # t)) (AddrValue inside in_set) \<longleftrightarrow> in_set t"
  "nft_atom (prefix_json base len) (AddrValue inside in_set) \<longleftrightarrow> inside base len"
  by (auto simp: nft_atom_def range_json_def prefix_json_def)

lemma nft_right_simps [simp]:
  "nft_right (JInt m) v = nft_atom (JInt m) v"
  "nft_right (JString t) v = nft_atom (JString t) v"
  "nft_right (range_json r) v = nft_atom (range_json r) v"
  "nft_right (prefix_json base len) v = nft_atom (prefix_json base len) v"
  "nft_right (set_json xs) v = list_ex (\<lambda>x. nft_atom x v) xs"
  by (simp_all add: nft_right_def range_json_def prefix_json_def set_json_def)

definition match_holds :: "string \<Rightarrow> json \<Rightarrow> json \<Rightarrow> packet \<Rightarrow> bool" where
  "match_holds op l r p =
     (case nft_left l p of None \<Rightarrow> False | Some v \<Rightarrow> (if op = ''!='' then \<not> nft_right r v else nft_right r v))"

lemma nft_match_simp:
  "nft_match (JObject [(''op'', JString op), (''left'', l), (''right'', r)]) p = match_holds op l r p"
  by (auto simp: nft_match_def match_holds_def json_string_value_def split: option.splits)

lemma nft_exprs_simps [simp]:
  "nft_exprs (match_expr op l r # es) p = (if match_holds op l r p then nft_exprs es p else NftContinue p)"
  "nft_exprs (mangle_expr (meta_key k) v # es) p = nft_exprs es (p\<lparr>pk_mark := nft_mangle_value v p\<rparr>)"
  "nft_exprs (mangle_expr (ct_key k) v # es) p = nft_exprs es (p\<lparr>pk_ctmark := nft_mangle_value v p\<rparr>)"
  "nft_exprs (statement ''counter'' # es) p = nft_exprs es p"
  "nft_exprs (statement ''accept'' # es) p = NftVerdict True p"
  "nft_exprs (statement ''drop'' # es) p = NftVerdict False p"
  by (simp_all add: match_expr_def mangle_expr_def statement_def nft_match_simp nft_mangle_def meta_key_def ct_key_def)

declare nft_exprs.simps(2) [simp del]

lemma nft_number_and_mask:
  "nft_number (and_mask l m) p = (case nft_base l p of Some (NumValue n) \<Rightarrow> word_of_int (n AND uint m) | _ \<Rightarrow> 0)"
proof -
  have "nft_number (and_mask l m) p = (case nft_left (and_mask l m) p of Some (NumValue n) \<Rightarrow> word_of_int n | _ \<Rightarrow> 0)"
    by (simp add: nft_number_def and_mask_def)
  then show ?thesis by (simp split: option.splits nft_value.splits)
qed

lemma word_of_int_and_uint: "word_of_int (uint (a :: u32) AND uint m) = a AND m"
  by (simp add: uint_and [symmetric])

lemma nft_mangle_simps [simp]:
  "nft_mangle_value (JInt (uint (m :: u32))) p = m"
  "nft_mangle_value (and_mask (meta_key ''mark'') m) p = pk_mark p AND m"
  "nft_mangle_value (and_mask (ct_key ''mark'') m) p = pk_ctmark p AND m"
  "nft_mangle_value (JObject [(''|'', JArray [and_mask (meta_key ''mark'') m, JInt (uint (n :: u32))])]) p = (pk_mark p AND m) OR n"
proof -
  have no_or: "json_find ''|'' (and_mask l m) = None" for l by (simp add: and_mask_def)
  show "nft_mangle_value (JInt (uint (m :: u32))) p = m" by (simp add: nft_mangle_value_def nft_number_def)
  show "nft_mangle_value (and_mask (meta_key ''mark'') m) p = pk_mark p AND m"
    "nft_mangle_value (and_mask (ct_key ''mark'') m) p = pk_ctmark p AND m"
    by (simp_all add: nft_mangle_value_def no_or nft_number_and_mask nft_meta_def nft_ct_def word_of_int_and_uint)
  show "nft_mangle_value (JObject [(''|'', JArray [and_mask (meta_key ''mark'') m, JInt (uint (n :: u32))])]) p
      = (pk_mark p AND m) OR n"
    by (simp add: nft_mangle_value_def nft_number_and_mask nft_meta_def word_of_int_and_uint) (simp add: nft_number_def)
qed

lemma rule_of_command_add [simp]:
  "rule_of_command chain (add_rule_json chain' es) = (if chain' = chain then Some es else None)"
  by (simp add: rule_of_command_def add_rule_json_def json_string_value_def)

lemma chain_rules_simps [simp]:
  "chain_rules chain [] = []"
  "chain_rules chain (c # cs) = (case rule_of_command chain c of None \<Rightarrow> chain_rules chain cs | Some r \<Rightarrow> r # chain_rules chain cs)"
  "chain_rules chain (cs @ cs') = chain_rules chain cs @ chain_rules chain cs'"
  by (simp_all add: chain_rules_def List.map_filter_def split: option.splits)

section \<open>Matching parts of a rule\<close>

text \<open>\<open>ms\<close> lets exactly the packets for which \<open>b\<close> holds go on to the rest of the rule, unchanged.\<close>

definition selects :: "json list \<Rightarrow> packet \<Rightarrow> bool \<Rightarrow> bool" where
  "selects ms p b \<longleftrightarrow> (\<forall>es. nft_exprs (ms @ es) p = (if b then nft_exprs es p else NftContinue p))"

lemma selects_Nil: "selects [] p True"
  by (simp add: selects_def)

lemma selects_append: "selects ms p b \<Longrightarrow> selects ms' p b' \<Longrightarrow> selects (ms @ ms') p (b \<and> b')"
  by (simp add: selects_def)

lemma selects_match: "selects [match_expr op l r] p (match_holds op l r p)"
  by (simp add: selects_def)

lemma selects_cong: "selects ms p b \<Longrightarrow> b = b' \<Longrightarrow> selects ms p b'"
  by simp

definition ip_proto_of :: "bool \<Rightarrow> string" where
  "ip_proto_of v6 = (if v6 then ''ip6'' else ''ip'')"

lemma nft_payload_ip [simp]:
  "nft_payload (ip_proto_of v6) ''saddr'' p = (if pk_ipv6 p = v6 then Some (AddrValue (pk_src_in p) (\<lambda>s. False)) else None)"
  "nft_payload (ip_proto_of v6) ''daddr'' p = (if pk_ipv6 p = v6 then Some (AddrValue (pk_dst_in p) (pk_dst_set p)) else None)"
  "nft_payload (ip_proto_of v6) ''dscp'' p = (if pk_ipv6 p = v6 then Some (NumValue (uint (pk_dscp p))) else None)"
  by (auto simp: nft_payload_def ip_proto_of_def)

lemma selects_set:
  "selects [match_expr ''=='' (payload_field (ip_proto_of v6) ''daddr'') (JString (''@'' @ n))] p
     (v6 = pk_ipv6 p \<and> pk_dst_set p n)"
  by (rule selects_cong [OF selects_match]) (auto simp: match_holds_def)

lemma selects_dscp:
  "selects (build_dscp_match_exprs (ip_proto_of v6) dscp) p
     (case dscp of None \<Rightarrow> True | Some d \<Rightarrow> v6 = pk_ipv6 p \<and> pk_dscp p = d)"
proof (cases dscp)
  case None
  then show ?thesis by (simp add: build_dscp_match_exprs_def selects_Nil)
next
  case (Some d)
  show ?thesis unfolding Some build_dscp_match_exprs_def option.case
    by (rule selects_cong [OF selects_match]) (auto simp: match_holds_def word_uint_eq_iff)
qed

lemma addr_to_rhs_atom:
  assumes "addr_to_rhs a = Inr j"
  shows "nft_atom j (AddrValue inside in_set) = in_cidr inside a" "nft_right j (AddrValue inside in_set) = in_cidr inside a"
  using assms
  by (auto simp: addr_to_rhs_def in_cidr_def cidr_prefix_def result_simps split: option.splits)

lemma map_result_atoms:
  "map_result addr_to_rhs addrs = Inr js \<Longrightarrow> list_ex (\<lambda>j. nft_atom j (AddrValue inside in_set)) js = list_ex (in_cidr inside) addrs"
proof (induction addrs arbitrary: js)
  case (Cons a addrs)
  then obtain j js' where "addr_to_rhs a = Inr j" "map_result addr_to_rhs addrs = Inr js'" "js = j # js'"
    by (auto simp: result_simps split: sum.splits)
  then show ?case using Cons.IH addr_to_rhs_atom(1) by simp
qed simp

lemma cidr_list_rhs:
  assumes "cidr_list_to_nft_rhs addrs = Inr rhs"
  shows "nft_right rhs (AddrValue inside in_set) = list_ex (in_cidr inside) addrs"
proof (cases "length addrs = 1")
  case True
  then obtain a where "addrs = [a]" by (cases addrs) auto
  then show ?thesis using assms addr_to_rhs_atom(2) by (simp add: cidr_list_to_nft_rhs_def)
next
  case False
  then show ?thesis using assms map_result_atoms by (auto simp: cidr_list_to_nft_rhs_def result_simps)
qed

lemma selects_addr:
  assumes "addr_match (ip_proto_of v6) field addrs negate = Inr ms"
    and "field = ''saddr'' \<and> inside = pk_src_in p \<or> field = ''daddr'' \<and> inside = pk_dst_in p"
  shows "selects ms p (addrs = [] \<or> v6 = pk_ipv6 p \<and> negate \<noteq> list_ex (in_cidr inside) addrs)"
proof (cases "addrs = []")
  case True
  then show ?thesis using assms by (simp add: addr_match_def selects_Nil)
next
  case False
  then obtain rhs where rhs: "cidr_list_to_nft_rhs addrs = Inr rhs"
    and ms: "ms = [match_expr (if negate then ''!='' else ''=='') (payload_field (ip_proto_of v6) field) rhs]"
    using assms(1) by (auto simp: addr_match_def result_simps)
  show ?thesis unfolding ms
    by (rule selects_cong [OF selects_match]) (use False assms(2) cidr_list_rhs [OF rhs] in \<open>auto simp: match_holds_def split: if_splits\<close>)
qed

lemma port_rhs:
  assumes "ranges spec \<noteq> []"
  shows "nft_right (port_spec_to_nft_rhs spec) (NumValue (uint x)) = port_spec_matches spec x"
proof -
  have between: "uint (pr_from r) \<le> uint x \<and> uint x \<le> uint (pr_to r) \<longleftrightarrow> pr_from r \<le> x \<and> x \<le> pr_to r" for r
    by (simp add: word_le_def)
  have point: "uint x = uint (pr_from r) \<longleftrightarrow> pr_from r \<le> x \<and> x \<le> pr_to r" if "pr_from r = pr_to r" for r
    using that by (auto simp: word_uint_eq_iff [symmetric])
  have one: "nft_atom (if pr_from r \<noteq> pr_to r then range_json r else JInt (uint (pr_from r))) (NumValue (uint x))
      = (pr_from r \<le> x \<and> x \<le> pr_to r)" for r
    using between [of r] point [of r] by simp
  obtain r rs where rs: "ranges spec = r # rs" using assms by (cases "ranges spec") auto
  show ?thesis
  proof (cases rs)
    case Nil
    then show ?thesis using one [of r] rs
      by (auto simp: port_spec_to_nft_rhs_def port_spec_kind_of_def port_spec_matches_def split: if_splits)
  next
    case (Cons r' rs')
    have "list_ex (\<lambda>j. nft_atom j (NumValue (uint x)))
        (map (\<lambda>r. if pr_from r \<noteq> pr_to r then range_json r else JInt (uint (pr_from r))) qs)
      = list_ex (\<lambda>r. pr_from r \<le> x \<and> x \<le> pr_to r) qs" for qs
      by (induction qs) (simp_all add: one split del: if_split)
    then show ?thesis using Cons rs
      by (simp only: port_spec_to_nft_rhs_def port_spec_kind_of_def port_spec_matches_def list.case port_spec_kind.case nft_right_simps)
  qed
qed

lemma selects_port_field:
  assumes "ranges spec \<noteq> []" and "proto = ''th'' \<or> proto = pk_proto p \<and> proto \<noteq> ''ip'' \<and> proto \<noteq> ''ip6''"
    and "field = ''sport'' \<and> port = pk_sport p \<or> field = ''dport'' \<and> port = pk_dport p"
  shows "match_holds (if negate then ''!='' else ''=='') (payload_field proto field) (port_spec_to_nft_rhs spec) p
    = port_selected spec negate port"
proof -
  have proto: "proto \<noteq> ''ip''" "proto \<noteq> ''ip6''" "proto = ''th'' \<or> proto = pk_proto p" using assms(2) by (elim disjE conjE; simp)+
  have "nft_payload proto field p = map_option (\<lambda>x. NumValue (uint x)) port"
    unfolding nft_payload_def using assms(3) by (elim disjE conjE) (simp_all only: proto if_True if_False simp_thms, simp_all)
  then show ?thesis using assms(1) port_rhs [OF assms(1)]
    by (cases port) (simp_all add: match_holds_def port_selected_def)
qed

lemma selects_ports:
  assumes "proto \<noteq> L4TcpUdp"
  shows "selects (build_port_match_exprs proto sp dp nsp ndp) p
    (proto_selected proto (pk_proto p) \<and> port_selected sp nsp (pk_sport p) \<and> port_selected dp ndp (pk_dport p))"
proof -
  let ?pp = "if proto = L4Any then ''th'' else l4_proto_name proto"
  let ?P = "(if proto \<noteq> L4Any then [match_expr ''=='' (meta_key ''l4proto'') (JString (l4_proto_name proto))] else [])"
  let ?F = "\<lambda>field spec negate. if ranges spec \<noteq> []
    then [match_expr (if negate then ''!='' else ''=='') (payload_field ?pp field) (port_spec_to_nft_rhs spec)] else []"
  have eq: "build_port_match_exprs proto sp dp nsp ndp = ?P @ ?F ''sport'' sp nsp @ ?F ''dport'' dp ndp"
    by (simp add: build_port_match_exprs_def Let_def)
  have "proto_selected proto (pk_proto p) = match_holds ''=='' (meta_key ''l4proto'') (JString (l4_proto_name proto)) p"
    if "proto \<noteq> L4Any"
    using that assms by (cases proto) (auto simp: match_holds_def nft_meta_def)
  then have P: "selects ?P p (proto_selected proto (pk_proto p))"
    using selects_match selects_Nil by (cases proto) auto
  have F: "selects (?F field spec negate) p (port_selected spec negate port)"
    if "proto_selected proto (pk_proto p)" "field = ''sport'' \<and> port = pk_sport p \<or> field = ''dport'' \<and> port = pk_dport p"
    for field spec negate port
  proof (cases "ranges spec = []")
    case True
    then show ?thesis by (simp add: selects_Nil port_selected_def)
  next
    case False
    have pp: "?pp = ''th'' \<or> ?pp = pk_proto p \<and> ?pp \<noteq> ''ip'' \<and> ?pp \<noteq> ''ip6''" using that(1) assms by (cases proto) auto
    have f: "?F field spec negate
        = [match_expr (if negate then ''!='' else ''=='') (payload_field ?pp field) (port_spec_to_nft_rhs spec)]"
      using False by simp
    show ?thesis unfolding f by (rule selects_cong [OF selects_match selects_port_field [OF False pp that(2)]])
  qed
  show ?thesis
  proof (cases "proto_selected proto (pk_proto p)")
    case True
    show ?thesis unfolding eq
      by (rule selects_append [OF P selects_append [OF F F]]) (use True in auto)
  next
    case False
    then show ?thesis using P unfolding eq selects_def by simp
  qed
qed

text \<open>Which packets a buffered rule selects: that of its criteria, for the family of the rule wherever a field of the
  network header is compared.\<close>

definition pending_match :: "nft_pending_rule \<Rightarrow> packet \<Rightarrow> bool" where
  "pending_match pr p \<longleftrightarrow>
     (let c = npr_criteria pr; own = ((npr_family pr = AF_INET6) = pk_ipv6 p)
      in (case fc_dst_set_name c of None \<Rightarrow> True | Some n \<Rightarrow> own \<and> pk_dst_set p n)
       \<and> (case fc_dscp c of None \<Rightarrow> True | Some d \<Rightarrow> own \<and> pk_dscp p = d)
       \<and> (fc_src_addr c = [] \<or> own \<and> fc_negate_src_addr c \<noteq> list_ex (in_cidr (pk_src_in p)) (fc_src_addr c))
       \<and> (fc_dst_addr c = [] \<or> own \<and> fc_negate_dst_addr c \<noteq> list_ex (in_cidr (pk_dst_in p)) (fc_dst_addr c))
       \<and> proto_selected (fc_proto c) (pk_proto p)
       \<and> port_selected (fc_src_port c) (fc_negate_src_port c) (pk_sport p)
       \<and> port_selected (fc_dst_port c) (fc_negate_dst_port c) (pk_dport p))"

lemma selects_rule:
  assumes "rule_match_exprs pr = Inr ms" and "fc_proto (npr_criteria pr) \<noteq> L4TcpUdp"
  shows "selects ms p (pending_match pr p)"
proof -
  let ?v6 = "npr_family pr = AF_INET6" and ?c = "npr_criteria pr"
  have proto: "(if npr_family pr = AF_INET6 then ''ip6'' else ''ip'') = ip_proto_of ?v6" by (simp add: ip_proto_of_def)
  obtain src dst where src: "addr_match (ip_proto_of ?v6) ''saddr'' (fc_src_addr ?c) (fc_negate_src_addr ?c) = Inr src"
    and dst: "addr_match (ip_proto_of ?v6) ''daddr'' (fc_dst_addr ?c) (fc_negate_dst_addr ?c) = Inr dst"
    and ms: "ms = (case fc_dst_set_name ?c of None \<Rightarrow> []
        | Some n \<Rightarrow> [match_expr ''=='' (payload_field (ip_proto_of ?v6) ''daddr'') (JString (''@'' @ n))])
      @ build_dscp_match_exprs (ip_proto_of ?v6) (fc_dscp ?c) @ (src @ dst)
      @ build_port_match_exprs (fc_proto ?c) (fc_src_port ?c) (fc_dst_port ?c) (fc_negate_src_port ?c) (fc_negate_dst_port ?c)"
    using assms(1) unfolding rule_match_exprs_def proto Let_def
    by (auto simp: build_addr_match_exprs_def result_simps split: sum.splits)
  have set: "selects (case fc_dst_set_name ?c of None \<Rightarrow> []
        | Some n \<Rightarrow> [match_expr ''=='' (payload_field (ip_proto_of ?v6) ''daddr'') (JString (''@'' @ n))]) p
      (case fc_dst_set_name ?c of None \<Rightarrow> True | Some n \<Rightarrow> ?v6 = pk_ipv6 p \<and> pk_dst_set p n)"
    using selects_set selects_Nil by (cases "fc_dst_set_name ?c") simp_all
  have addrs: "selects (src @ dst) p
      ((fc_src_addr ?c = [] \<or> ?v6 = pk_ipv6 p \<and> fc_negate_src_addr ?c \<noteq> list_ex (in_cidr (pk_src_in p)) (fc_src_addr ?c))
       \<and> (fc_dst_addr ?c = [] \<or> ?v6 = pk_ipv6 p \<and> fc_negate_dst_addr ?c \<noteq> list_ex (in_cidr (pk_dst_in p)) (fc_dst_addr ?c)))"
    by (rule selects_append [OF selects_addr [OF src] selects_addr [OF dst]]) simp_all
  show ?thesis unfolding ms
    by (rule selects_cong [OF selects_append [OF set selects_append [OF selects_dscp selects_append [OF addrs selects_ports [OF assms(2)]]]]])
      (simp add: pending_match_def Let_def)
qed

section \<open>The chain decides as the buffered rules say\<close>

definition marked_packet :: "nft_pending_rule \<Rightarrow> packet \<Rightarrow> packet" where
  "marked_packet pr p =
     (let m = (if npr_fwmark_mask pr = 0xFFFFFFFF then npr_fwmark pr else (pk_mark p AND NOT (npr_fwmark_mask pr)) OR npr_fwmark pr)
      in p\<lparr>pk_mark := m, pk_ctmark := (if npr_save_conntrack_mark pr then m AND npr_fwmark_mask pr else pk_ctmark p)\<rparr>)"

definition pending_result :: "nft_pending_rule \<Rightarrow> packet \<Rightarrow> bool \<times> packet" where
  "pending_result pr p = (case npr_action pr of NftMark \<Rightarrow> (True, marked_packet pr p) | NftDrop \<Rightarrow> (False, p) | NftPass \<Rightarrow> (True, p))"

lemma nft_exprs_mark: "nft_exprs (mark_statements pr) p = NftVerdict True (marked_packet pr p)"
  by (simp add: mark_statements_def marked_packet_def Let_def)

lemma nft_chain_rule:
  assumes "build_rule_json pr = Inr j" and "fc_proto (npr_criteria pr) \<noteq> L4TcpUdp"
  shows "nft_chain (chain_rules ch [j] @ rest) p
    = (if rule_chain pr = ch \<and> pending_match pr p then pending_result pr p else nft_chain rest p)"
proof -
  obtain ms es where ms: "rule_match_exprs pr = Inr ms" and j: "j = add_rule_json (rule_chain pr) (ms @ es)"
    and es: "nft_exprs es p = NftVerdict (fst (pending_result pr p)) (snd (pending_result pr p))"
    using assms(1)
    by (auto simp: build_rule_json_def build_mark_rule_json_def build_drop_rule_json_def build_pass_rule_json_def
        pending_result_def nft_exprs_mark result_simps split: nft_rule_action.splits)
  show ?thesis using selects_rule [OF ms assms(2), of p] es by (simp add: j selects_def)
qed

lemma nft_chain_rules:
  assumes "map_result build_rule_json rules = Inr js" and "list_all (\<lambda>pr. fc_proto (npr_criteria pr) \<noteq> L4TcpUdp) rules"
  shows "nft_chain (chain_rules ch js) p
    = (case find (\<lambda>pr. rule_chain pr = ch \<and> pending_match pr p) rules of None \<Rightarrow> (True, p) | Some pr \<Rightarrow> pending_result pr p)"
  using assms
proof (induction rules arbitrary: js)
  case (Cons pr rules)
  then obtain j js' where j: "build_rule_json pr = Inr j" and js: "map_result build_rule_json rules = Inr js'" "js = j # js'"
    by (auto simp: result_simps split: sum.splits)
  have "nft_chain (chain_rules ch [j] @ chain_rules ch js') p
      = (if rule_chain pr = ch \<and> pending_match pr p then pending_result pr p else nft_chain (chain_rules ch js') p)"
    by (rule nft_chain_rule [OF j]) (use Cons.prems in simp)
  moreover have "chain_rules ch js = chain_rules ch [j] @ chain_rules ch js'"
    unfolding js(2) using chain_rules_simps(3) [of ch "[j]" js'] by simp
  ultimately show ?case using Cons.IH [OF js(1)] Cons.prems by simp
qed simp

lemma chain_names [simp]: "CHAIN_NAME \<noteq> OUTPUT_CHAIN_NAME" "OUTPUT_CHAIN_NAME \<noteq> CHAIN_NAME"
  by (simp_all add: CHAIN_NAME_def OUTPUT_CHAIN_NAME_def)

lemma nft_restore_rule:
  "nft_chain (chain_rules CHAIN_NAME (restore_rule pf) @ rest) p
     = (if prefilter_restores pf p then (True, p\<lparr>pk_mark := pk_ctmark p AND gp_conntrack_mark_mask pf\<rparr>) else nft_chain rest p)"
proof -
  have nz: "uint (pk_ctmark p) AND uint m = 0 \<longleftrightarrow> pk_ctmark p AND m = 0" for m
    by (metis uint_and uint_0_iff)
  show ?thesis
    by (auto simp: restore_rule_def Let_def prefilter_restores_def match_holds_def nft_ct_def nz)
qed

lemma nft_dnat_rule:
  "nft_chain (chain_rules CHAIN_NAME (dnat_rule pf) @ rest) p
     = (if gp_skip_established_or_dnat pf \<and> pk_ct_dnat p then (True, p) else nft_chain rest p)"
  by (auto simp: dnat_rule_def match_holds_def nft_ct_def)

lemma nft_marked_rule:
  "nft_chain (chain_rules CHAIN_NAME (marked_rule pf) @ rest) p
     = (if gp_skip_marked_packets pf \<and> pk_mark p \<noteq> 0 then (True, p) else nft_chain rest p)"
  by (auto simp: marked_rule_def match_holds_def nft_meta_def uint_0_iff)

lemma nft_inbound_rule:
  "nft_chain (chain_rules CHAIN_NAME (inbound_rule pf) @ rest) p
     = (if (case gp_inbound_interfaces pf of None \<Rightarrow> False | Some ifs \<Rightarrow> ifs \<noteq> [] \<and> pk_iif p \<notin> set ifs)
        then (True, p) else nft_chain rest p)"
proof (cases "gp_inbound_interfaces pf")
  case None
  then show ?thesis by (simp add: inbound_rule_def)
next
  case (Some ifs)
  show ?thesis
  proof (cases "\<exists>i. ifs = [i]")
    case True
    then show ?thesis using Some by (auto simp: inbound_rule_def match_holds_def nft_meta_def)
  next
    case False
    then have "length ifs \<noteq> 1" by (cases ifs) auto
    moreover have "list_ex (\<lambda>j. nft_atom j (StrValue x)) (map JString ifs) = (x \<in> set ifs)" for x
      by (auto simp: list_ex_iff)
    ultimately show ?thesis using Some by (auto simp: inbound_rule_def Let_def match_holds_def nft_meta_def)
  qed
qed

lemma prefilter_only_prerouting: "chain_rules OUTPUT_CHAIN_NAME (prefilter_commands pf) = []"
  by (simp add: prefilter_commands_def restore_rule_def dnat_rule_def marked_rule_def inbound_rule_def Let_def split: option.splits)

text \<open>The verdict of the two chains on a packet.\<close>

definition prerouting_verdict :: "firewall_global_prefilter \<Rightarrow> nft_pending_rule list \<Rightarrow> packet \<Rightarrow> bool \<times> packet" where
  "prerouting_verdict pf rules p =
     (if prefilter_restores pf p then (True, p\<lparr>pk_mark := pk_ctmark p AND gp_conntrack_mark_mask pf\<rparr>)
      else if prefilter_bypasses pf p then (True, p)
      else (case find (\<lambda>pr. \<not> fc_apply_output (npr_criteria pr) \<and> pending_match pr p) rules of
              None \<Rightarrow> (True, p) | Some pr \<Rightarrow> pending_result pr p))"

definition output_verdict :: "nft_pending_rule list \<Rightarrow> packet \<Rightarrow> bool \<times> packet" where
  "output_verdict rules p =
     (case find (\<lambda>pr. fc_apply_output (npr_criteria pr) \<and> pending_match pr p) rules of
        None \<Rightarrow> (True, p) | Some pr \<Rightarrow> pending_result pr p)"

lemma nft_commands_verdict:
  assumes "build_rule_add_commands pf rules = Inr cmds" and "list_all (\<lambda>pr. fc_proto (npr_criteria pr) \<noteq> L4TcpUdp) rules"
  shows "nft_chain (chain_rules CHAIN_NAME cmds) p = prerouting_verdict pf rules p"
    and "nft_chain (chain_rules OUTPUT_CHAIN_NAME cmds) p = output_verdict rules p"
proof -
  obtain js where js: "map_result build_rule_json rules = Inr js" and cmds: "cmds = prefilter_commands pf @ js"
    using assms(1) by (auto simp: build_rule_add_commands_def result_simps)
  have chain: "(rule_chain pr = CHAIN_NAME) = (\<not> fc_apply_output (npr_criteria pr))"
    "(rule_chain pr = OUTPUT_CHAIN_NAME) = fc_apply_output (npr_criteria pr)" for pr
    by (simp_all add: rule_chain_def)
  show "nft_chain (chain_rules OUTPUT_CHAIN_NAME cmds) p = output_verdict rules p"
    unfolding cmds chain_rules_simps prefilter_only_prerouting
    by (simp add: nft_chain_rules [OF js assms(2)] output_verdict_def chain)
  have "nft_chain (chain_rules CHAIN_NAME cmds) p
      = nft_chain (chain_rules CHAIN_NAME (restore_rule pf) @ chain_rules CHAIN_NAME (dnat_rule pf)
          @ chain_rules CHAIN_NAME (marked_rule pf) @ chain_rules CHAIN_NAME (inbound_rule pf) @ chain_rules CHAIN_NAME js) p"
    by (simp add: cmds prefilter_commands_def)
  then show "nft_chain (chain_rules CHAIN_NAME cmds) p = prerouting_verdict pf rules p"
    unfolding nft_restore_rule nft_dnat_rule nft_marked_rule nft_inbound_rule nft_chain_rules [OF js assms(2)] chain
    by (auto simp: prerouting_verdict_def prefilter_bypasses_def)
qed

section \<open>What a document does to the chains\<close>

text \<open>The chains of the table as the kernel holds them, and the effect of the commands: deleting a chain, adding one
  (which keeps a chain that exists) and appending a rule. The other commands of a document leave the chains alone.\<close>

type_synonym nft_chains = "string \<Rightarrow> json list list option"

definition nft_command :: "nft_chains \<Rightarrow> json \<Rightarrow> nft_chains" where
  "nft_command K j =
     (case Option.bind (json_find ''delete'' j) (json_find ''chain'') of
        Some c \<Rightarrow> K(json_string_value ''name'' [] c := None)
      | None \<Rightarrow>
          (case Option.bind (json_find ''add'' j) (json_find ''chain'') of
             Some c \<Rightarrow> K(json_string_value ''name'' [] c := Some (value_or (K (json_string_value ''name'' [] c)) []))
           | None \<Rightarrow>
               (case Option.bind (json_find ''add'' j) (json_find ''rule'') of
                  Some r \<Rightarrow>
                    K(json_string_value ''chain'' [] r := Some (value_or (K (json_string_value ''chain'' [] r)) []
                        @ [value_or (Option.bind (json_find ''expr'' r) json_elements) []]))
                | None \<Rightarrow> K)))"

definition nft_load :: "nft_chains \<Rightarrow> json list \<Rightarrow> nft_chains" where
  "nft_load K cmds = foldl nft_command K cmds"

lemma nft_load_simps [simp]:
  "nft_load K [] = K" "nft_load K (j # js) = nft_load (nft_command K j) js" "nft_load K (js @ js') = nft_load (nft_load K js) js'"
  by (simp_all add: nft_load_def)

lemma nft_command_simps [simp]:
  "nft_command K (JObject [(''metainfo'', m)]) = K"
  "nft_command K build_table_json = K"
  "nft_command K (build_set_json ps) = K"
  "nft_command K (build_flush_set_json n) = K"
  "nft_command K (build_delete_set_json n) = K"
  "nft_command K (build_elements_json n es) = K"
  "nft_command K build_delete_chain_json = K(CHAIN_NAME := None)"
  "nft_command K build_delete_output_chain_json = K(OUTPUT_CHAIN_NAME := None)"
  "nft_command K build_chain_json = K(CHAIN_NAME := Some (value_or (K CHAIN_NAME) []))"
  "nft_command K build_output_chain_json = K(OUTPUT_CHAIN_NAME := Some (value_or (K OUTPUT_CHAIN_NAME) []))"
  "nft_command K (add_rule_json ch es) = K(ch := Some (value_or (K ch) [] @ [es]))"
  by (simp_all add: nft_command_def build_table_json_def build_set_json_def build_flush_set_json_def build_delete_set_json_def
      build_elements_json_def build_delete_chain_json_def build_delete_output_chain_json_def build_chain_json_def
      build_output_chain_json_def build_hook_chain_json_def object_command_def add_rule_json_def table_member_def json_string_value_def)

lemma nft_load_sets [simp]: "nft_load K (concat (map (set_commands live full clear) sets)) = K"
  by (induction sets) (auto simp: set_commands_def split: option.splits)

lemma nft_load_elements [simp]: "nft_load K (concat (map (element_commands live full) els)) = K"
  by (induction els) (auto simp: element_commands_def Let_def)

text \<open>Documents append rules only by \<^verbatim>\<open>add rule\<close>.\<close>

definition is_rule_command :: "json \<Rightarrow> bool" where
  "is_rule_command j \<longleftrightarrow> (\<exists>ch es. j = add_rule_json ch es)"

lemma is_rule_command_add [simp]: "is_rule_command (add_rule_json ch es)"
  by (auto simp: is_rule_command_def)

lemma nft_load_rules:
  assumes "list_all is_rule_command cmds" and "K ch = Some rs"
  shows "nft_load K cmds ch = Some (rs @ chain_rules ch cmds)"
  using assms
proof (induction cmds arbitrary: K rs)
  case (Cons j cmds)
  then obtain ch' es where j: "j = add_rule_json ch' es" by (auto simp: is_rule_command_def)
  have "nft_command K j ch = Some (if ch' = ch then rs @ [es] else rs)" using Cons.prems(2) by (auto simp: j)
  with Cons.IH [of "nft_command K j" "if ch' = ch then rs @ [es] else rs"] Cons.prems(1)
  have "nft_load (nft_command K j) cmds ch = Some ((if ch' = ch then rs @ [es] else rs) @ chain_rules ch cmds)" by simp
  moreover have "chain_rules ch (j # cmds) = (if ch' = ch then [es] else []) @ chain_rules ch cmds" by (simp add: j)
  ultimately show ?case by (simp only: nft_load_simps) simp
qed simp

lemma rule_commands:
  assumes "build_rule_add_commands pf rules = Inr cmds"
  shows "list_all is_rule_command cmds"
proof -
  obtain js where js: "map_result build_rule_json rules = Inr js" and cmds: "cmds = prefilter_commands pf @ js"
    using assms by (auto simp: build_rule_add_commands_def result_simps)
  have "list_all is_rule_command js" using js
  proof (induction rules arbitrary: js)
    case (Cons pr rules)
    then obtain j js' where j: "build_rule_json pr = Inr j" and js': "map_result build_rule_json rules = Inr js'" "js = j # js'"
      by (auto simp: result_simps split: sum.splits)
    have "is_rule_command j" using j
      by (auto simp: build_rule_json_def build_mark_rule_json_def build_drop_rule_json_def build_pass_rule_json_def result_simps
          split: nft_rule_action.splits)
    then show ?case using Cons.IH [OF js'(1)] js'(2) by simp
  qed simp
  moreover have "list_all is_rule_command (prefilter_commands pf)"
    by (simp add: prefilter_commands_def restore_rule_def dnat_rule_def marked_rule_def inbound_rule_def Let_def split: option.splits)
  ultimately show ?thesis by (simp add: cmds)
qed

text \<open>The listing tells the truth about the two chains; a table that is not there has none.\<close>

definition chains_listed :: "live_table_state \<Rightarrow> nft_chains \<Rightarrow> bool" where
  "chains_listed live K \<longleftrightarrow> (K CHAIN_NAME \<noteq> None \<longrightarrow> lts_table_exists live \<and> lts_chain_exists live)
     \<and> (K OUTPUT_CHAIN_NAME \<noteq> None \<longrightarrow> lts_table_exists live \<and> lts_output_chain_exists live)"

lemma document_chains:
  assumes "build_apply_document live (\<not> lts_table_exists live) False clear fw = Inr cmds" and "chains_listed live K"
    and "list_all (\<lambda>pr. fc_proto (npr_criteria pr) \<noteq> L4TcpUdp) (nf_pending_rules fw)"
  shows "\<exists>pre out. nft_load K cmds CHAIN_NAME = Some pre \<and> nft_load K cmds OUTPUT_CHAIN_NAME = Some out
    \<and> (\<forall>p. nft_chain pre p = prerouting_verdict (fb_global_prefilter fw) (nf_pending_rules fw) p)
    \<and> (\<forall>p. nft_chain out p = output_verdict (nf_pending_rules fw) p)"
proof -
  let ?full = "\<not> lts_table_exists live"
  obtain rules where rules: "build_rule_add_commands (fb_global_prefilter fw) (nf_pending_rules fw) = Inr rules"
    and cmds: "cmds = [JObject [(''metainfo'', JObject [(''json_schema_version'', JInt 1)])]]
      @ (if ?full then [build_table_json] else []) @ concat (map (set_commands live ?full clear) (nf_pending_sets fw))
      @ (chain_commands live ?full @ rules) @ concat (map (element_commands live ?full) (nf_pending_elements fw))"
    using assms(1) by (auto simp: build_apply_document_def result_simps split: sum.splits)
  let ?K = "nft_load K (chain_commands live ?full)"
  have K: "?K CHAIN_NAME = Some []" "?K OUTPUT_CHAIN_NAME = Some []"
    using assms(2) by (auto simp: chain_commands_def chains_listed_def)
  have load: "nft_load K cmds = nft_load ?K rules" by (simp add: cmds)
  have "nft_load K cmds CHAIN_NAME = Some (chain_rules CHAIN_NAME rules)"
    "nft_load K cmds OUTPUT_CHAIN_NAME = Some (chain_rules OUTPUT_CHAIN_NAME rules)"
    unfolding load using nft_load_rules [OF rule_commands [OF rules]] K by auto
  then show ?thesis using nft_commands_verdict [OF rules assms(3)] by auto
qed

end
