(* ===== verification/List_Entries.thy ===== *)
theory List_Entries
  imports List_Parser
begin

text \<open>
  The entries of a list do not depend on who visits them. A visitor that only records is enough to know what any
  other visitor of \<^verbatim>\<open>ListStreamer::stream_list\<close> is given: the two passes the firewall makes over a list, one to
  learn which sets it needs and one to fill them, see the same entries.
\<close>

definition record_entry :: "(entry_type \<times> string) list visitor" where
  "record_entry es ty e = Inr (es @ [(ty, e)])"

definition list_entries ::
  "(string \<Rightarrow> bool) \<Rightarrow> (string \<Rightarrow> opened_file) \<Rightarrow> cache_view \<Rightarrow> nat \<Rightarrow> string \<Rightarrow> list_config
     \<Rightarrow> (entry_type \<times> string) list result" where
  "list_entries pton6 open_file cache max_size name cfg =
     map_sum id fst (stream_list pton6 record_entry open_file cache max_size (\<lambda>v n. v) name cfg [])"

text \<open>A state of the streaming loop beside the state of the recording one.\<close>

definition recorded :: "'v visitor \<Rightarrow> 'v \<Rightarrow> 'v line_state \<Rightarrow> (entry_type \<times> string) list line_state \<Rightarrow> bool" where
  "recorded vis v0 st r \<longleftrightarrow> visit_entries vis v0 (ls_visitor r) = Inr (ls_visitor st)
     \<and> ls_context r = ls_context st \<and> ls_log r = ls_log st"

lemma visit_entries_append:
  "visit_entries vis v (es @ fs) = (case visit_entries vis v es of Inl e \<Rightarrow> Inl e | Inr v' \<Rightarrow> visit_entries vis v' fs)"
  by (simp add: visit_entries_def fold_result_append split: sum.splits)

lemma visit_entries_single: "visit_entries vis v [(ty, e)] = vis v ty e"
  by (simp add: visit_entries_def split: sum.splits)

lemma parse_line_recorded:
  assumes "recorded vis v0 st r" and "parse_line pton6 vis line src n st = Inr st'"
  shows "\<exists>r'. parse_line pton6 record_entry line src n r = Inr r' \<and> recorded vis v0 st' r'"
proof (cases "trim line = [] \<or> hd (trim line) = CHR ''#''")
  case True
  then show ?thesis using assms by (auto simp: parse_line_def Let_def)
next
  case False
  show ?thesis
  proof (cases "entry_class pton6 (trim line)")
    case None
    then show ?thesis using assms False
      by (auto simp: parse_line_def classify_entry_def Let_def recorded_def split: if_splits option.splits)
  next
    case (Some te)
    obtain ty e where te: "te = (ty, e)" by (cases te)
    obtain v' where "vis (ls_visitor st) ty e = Inr v'" "st' = st\<lparr>ls_visitor := v'\<rparr>"
      using assms(2) False Some te by (auto simp: parse_line_def classify_entry_def Let_def split: sum.splits)
    then show ?thesis using assms(1) False Some te
      by (simp add: parse_line_def classify_entry_def Let_def record_entry_def recorded_def visit_entries_append
          visit_entries_single)
  qed
qed

lemma stream_lines_recorded:
  assumes "recorded vis v0 st r" and "stream_lines pton6 vis src n ls st = Inr st'"
  shows "\<exists>r'. stream_lines pton6 record_entry src n ls r = Inr r' \<and> recorded vis v0 st' r'"
  using assms
proof (induction ls arbitrary: n st r)
  case (Cons l ls)
  then obtain st1 where st1: "parse_line pton6 vis l src (Suc n) st = Inr st1" "stream_lines pton6 vis src (Suc n) ls st1 = Inr st'"
    by (auto split: sum.splits)
  obtain r1 where "parse_line pton6 record_entry l src (Suc n) r = Inr r1" "recorded vis v0 st1 r1"
    using parse_line_recorded [OF Cons.prems(1) st1(1)] by blast
  then show ?case using Cons.IH [OF _ st1(2)] by auto
qed simp

lemma stream_byte_simps:
  "stream_byte pton6 vis path (line, n, st) CHR 0x0A
     = (case parse_line pton6 vis line path n st of Inl e \<Rightarrow> Inl e | Inr st' \<Rightarrow> Inr ([], Suc n, st'))"
  "c \<noteq> CHR 0x0A \<Longrightarrow> length line < 4096 \<Longrightarrow> stream_byte pton6 vis path (line, n, st) c = Inr (line @ [c], n, st)"
  "c \<noteq> CHR 0x0A \<Longrightarrow> \<not> length line < 4096 \<Longrightarrow> \<exists>e. stream_byte pton6 vis path (line, n, st) c = Inl e"
  by (simp_all add: stream_byte_def)

lemma stream_bytes_recorded:
  assumes "recorded vis v0 st r" and "fold_result (stream_byte pton6 vis path) (line, n, st) bs = Inr (line', n', st')"
  shows "\<exists>r'. fold_result (stream_byte pton6 record_entry path) (line, n, r) bs = Inr (line', n', r') \<and> recorded vis v0 st' r'"
  using assms
proof (induction bs arbitrary: line n st r)
  case (Cons b bs)
  show ?case
  proof (cases "b = CHR 0x0A")
    case True
    then obtain st1 where st1: "parse_line pton6 vis line path n st = Inr st1"
      "fold_result (stream_byte pton6 vis path) ([], Suc n, st1) bs = Inr (line', n', st')"
      using Cons.prems(2) by (auto simp: stream_byte_simps(1) split: sum.splits)
    obtain r1 where "parse_line pton6 record_entry line path n r = Inr r1" "recorded vis v0 st1 r1"
      using parse_line_recorded [OF Cons.prems(1) st1(1)] by blast
    then show ?thesis using Cons.IH [OF _ st1(2)] True by (simp add: stream_byte_simps(1))
  next
    case False
    then have len: "length line < 4096"
      using Cons.prems(2) stream_byte_simps(3) [OF False, of line pton6 vis path n st] by (cases "length line < 4096") auto
    then have "fold_result (stream_byte pton6 vis path) (line @ [b], n, st) bs = Inr (line', n', st')"
      using Cons.prems(2) by (simp add: stream_byte_simps(2) [OF False])
    then show ?thesis using Cons.IH [OF Cons.prems(1)] len by (simp add: stream_byte_simps(2) [OF False])
  qed
qed simp

lemma stream_reads_recorded:
  assumes "recorded vis v0 st r" and "stream_reads pton6 vis path max_size t (line, n, st) rs = Inr (line', n', st')"
  shows "\<exists>r'. stream_reads pton6 record_entry path max_size t (line, n, r) rs = Inr (line', n', r') \<and> recorded vis v0 st' r'"
  using assms
proof (induction rs arbitrary: t line n st r)
  case (Cons rd rs)
  show ?case
  proof (cases rd)
    case (ReadBytes bytes)
    show ?thesis
    proof (cases "bytes = []")
      case True
      then show ?thesis using Cons.prems ReadBytes by simp
    next
      case False
      then obtain l1 n1 st1 where f: "fold_result (stream_byte pton6 vis path) (line, n, st) bytes = Inr (l1, n1, st1)"
        and small: "\<not> t + length bytes > max_size"
        and go: "stream_reads pton6 vis path max_size (t + length bytes) (l1, n1, st1) rs = Inr (line', n', st')"
        using Cons.prems(2) ReadBytes by (auto split: sum.splits if_splits)
      obtain r1 where "fold_result (stream_byte pton6 record_entry path) (line, n, r) bytes = Inr (l1, n1, r1)" "recorded vis v0 st1 r1"
        using stream_bytes_recorded [OF Cons.prems(1) f] by blast
      then show ?thesis using Cons.IH [OF _ go] ReadBytes False small by simp
    qed
  next
    case ReadInterrupted
    then show ?thesis using Cons.IH [OF Cons.prems(1)] Cons.prems(2) by simp
  next
    case (ReadFailed err)
    then show ?thesis using Cons.prems(2) by simp
  qed
qed simp

lemma stream_file_recorded:
  assumes "visit_entries vis v0 es = Inr v" and "stream_file pton6 vis open_file max_size path lg v = Inr st"
  shows "\<exists>r. stream_file pton6 record_entry open_file max_size path lg es = Inr r
    \<and> visit_entries vis v0 (ls_visitor r) = Inr (ls_visitor st) \<and> ls_log r = ls_log st"
proof -
  obtain sz reads where opened: "open_file path = OpenedFile True sz reads" "\<not> (sz < 0 \<or> sz > int max_size)"
    using assms(2) by (auto simp: stream_file_def split: opened_file.splits if_splits)
  obtain line n st1 where reads: "stream_reads pton6 vis path max_size 0 ([], 1, fresh_line_state lg v) reads = Inr (line, n, st1)"
    and last: "(if line \<noteq> [] then parse_line pton6 vis line path n st1 else Inr st1) = Inr st"
    using assms(2) opened by (auto simp: stream_file_def split: sum.splits)
  have "recorded vis v0 (fresh_line_state lg v) (fresh_line_state lg es)"
    using assms(1) by (simp add: recorded_def fresh_line_state_def)
  then obtain r1 where r1: "stream_reads pton6 record_entry path max_size 0 ([], 1, fresh_line_state lg es) reads = Inr (line, n, r1)"
    "recorded vis v0 st1 r1"
    using stream_reads_recorded [OF _ reads] by blast
  have "\<exists>r. (if line \<noteq> [] then parse_line pton6 record_entry line path n r1 else Inr r1) = Inr r \<and> recorded vis v0 st r"
    using parse_line_recorded [OF r1(2)] last r1(2) by (cases "line = []") auto
  then show ?thesis using opened r1(1) by (auto simp: stream_file_def recorded_def)
qed

lemma stream_optional_recorded:
  assumes "visit_entries vis v0 es = Inr v" and "stream_optional_file pton6 vis open_file max_size path lg (v, log) = Inr (v', log')"
  shows "\<exists>es'. stream_optional_file pton6 record_entry open_file max_size path lg (es, log) = Inr (es', log')
    \<and> visit_entries vis v0 es' = Inr v'"
proof (cases path)
  case None
  then show ?thesis using assms by (simp add: stream_optional_file_def)
next
  case (Some p)
  then obtain st where st: "stream_file pton6 vis open_file max_size p lg v = Inr st" "v' = ls_visitor st" "log' = log @ ls_log st"
    using assms(2) by (auto simp: stream_optional_file_def split: sum.splits)
  then show ?thesis using stream_file_recorded [OF assms(1) st(1)] Some by (auto simp: stream_optional_file_def)
qed

lemma stream_list_visits:
  assumes "stream_list pton6 vis open_file cache max_size (\<lambda>v n. v) name cfg v = Inr (v', log)"
  shows "\<exists>es. list_entries pton6 open_file cache max_size name cfg = Inr es \<and> visit_entries vis v es = Inr v'"
proof -
  let ?cached = "if lst_url cfg \<noteq> None \<and> cv_has_cache cache name then Some (cv_cache_path cache name) else None"
  obtain v1 l1 v2 l2 st where
    s1: "stream_optional_file pton6 vis open_file max_size ?cached False (v, []) = Inr (v1, l1)" and
    s2: "stream_optional_file pton6 vis open_file max_size (lst_file cfg) True (v1, l1) = Inr (v2, l2)" and
    s3: "stream_lines pton6 vis (''inline list '' @ [CHR 0x27] @ name @ [CHR 0x27]) 0
           (value_or (lst_ip_cidrs cfg) [] @ value_or (lst_domains cfg) []) (fresh_line_state True v2) = Inr st" and
    v': "v' = ls_visitor st"
    using assms unfolding stream_list_def stream_all_sources_def
    by (auto simp del: stream_lines.simps split: sum.splits)
  have "visit_entries vis v [] = Inr v" by (simp add: visit_entries_def)
  then obtain e1 where e1: "stream_optional_file pton6 record_entry open_file max_size ?cached False ([], []) = Inr (e1, l1)"
    "visit_entries vis v e1 = Inr v1"
    using stream_optional_recorded [OF _ s1] by blast
  obtain e2 where e2: "stream_optional_file pton6 record_entry open_file max_size (lst_file cfg) True (e1, l1) = Inr (e2, l2)"
    "visit_entries vis v e2 = Inr v2"
    using stream_optional_recorded [OF e1(2) s2] by blast
  have "recorded vis v (fresh_line_state True v2) (fresh_line_state True e2)"
    using e2(2) by (simp add: recorded_def fresh_line_state_def)
  from stream_lines_recorded [OF this s3] obtain r where
    "stream_lines pton6 record_entry (''inline list '' @ [CHR 0x27] @ name @ [CHR 0x27]) 0
       (value_or (lst_ip_cidrs cfg) [] @ value_or (lst_domains cfg) []) (fresh_line_state True e2) = Inr r"
    "visit_entries vis v (ls_visitor r) = Inr (ls_visitor st)"
    by (auto simp: recorded_def)
  then show ?thesis using e1(1) e2(1) v'
    unfolding list_entries_def stream_list_def stream_all_sources_def by (auto simp del: stream_lines.simps)
qed

text \<open>What the usage analysis finds, in terms of the entries.\<close>

lemma visit_counter:
  "visit_entries entry_counter_on_entry ec es = Inr ec' \<Longrightarrow>
     ec_ips ec' = ec_ips ec + length (filter (\<lambda>(t, e). t = EntryIp) es)
     \<and> ec_cidrs ec' = ec_cidrs ec + length (filter (\<lambda>(t, e). t = EntryCidr) es)
     \<and> ec_domains ec' = ec_domains ec + length (filter (\<lambda>(t, e). t = EntryDomain) es)"
proof (induction es arbitrary: ec)
  case (Cons x es)
  obtain t e where x: "x = (t, e)" by (cases x)
  show ?case using Cons.IH [of "case entry_counter_on_entry ec t e of Inr ec1 \<Rightarrow> ec1"] Cons.prems
    by (cases t) (auto simp: visit_entries_def entry_counter_on_entry_def x)
qed (simp add: visit_entries_def)

lemma usage_of_entries:
  assumes "analyze_list_set_usage pton6 open_file cache max_size name cfg = Inr u"
  shows "\<exists>es. list_entries pton6 open_file cache max_size name cfg = Inr es
    \<and> has_static_entries u = (\<exists>(t, e) \<in> set es. t \<noteq> EntryDomain) \<and> has_domain_entries u = (\<exists>(t, e) \<in> set es. t = EntryDomain)"
proof -
  obtain counter log where s: "stream_list pton6 entry_counter_on_entry open_file cache max_size (\<lambda>v n. v) name cfg entry_counter_init
      = Inr (counter, log)"
    and u: "has_static_entries u = (ec_ips counter > 0 \<or> ec_cidrs counter > 0)" "has_domain_entries u = (ec_domains counter > 0)"
    using assms by (auto simp: analyze_list_set_usage_def Let_def split: sum.splits)
  obtain es where es: "list_entries pton6 open_file cache max_size name cfg = Inr es"
    "visit_entries entry_counter_on_entry entry_counter_init es = Inr counter"
    using stream_list_visits [OF s] by blast
  have "(t \<noteq> EntryDomain) = (t = EntryIp \<or> t = EntryCidr)" for t by (cases t) auto
  then show ?thesis using es(1) visit_counter [OF es(2)] u
    by (auto simp: entry_counter_init_def filter_empty_conv)
qed

end
