(* ===== verification/Firewall_Runtime.thy ===== *)
theory Firewall_Runtime
  imports Nft_Semantics Keenetic_Dns List_Entries
begin

text \<open>
  \<^verbatim>\<open>apply_runtime_firewall\<close> (\<^verbatim>\<open>src/firewall/firewall_runtime.cpp\<close>): the rules of a configuration handed to a
  backend through its virtual functions, and the IPv6 decision it starts with (\<^verbatim>\<open>src/util/ipv6_support.cpp\<close>,
  \<^verbatim>\<open>src/util/firewall_backend_utils.cpp\<close>). The contract of a backend is the locale \<open>firewall_backend\<close>: the rules
  it buffers stand for the list of rules it was asked for. The runtime is proved once against the contract; the
  nftables backend provides it. What a backend holds after an exception inside the runtime is not modelled, except
  for the final \<^verbatim>\<open>apply\<close>.
\<close>

section \<open>The IPv6 decision\<close>

datatype firewall_backend_kind = KindIptables | KindNftables

datatype ipv6_reason = Ipv6Enabled | Ipv6DisabledByConfig | Ipv6UnsupportedBySystem

text \<open>The probes: which commands exist, whether an IPv6 socket opens, and whether each backend takes IPv6 rules.\<close>

record ipv6_probes =
  ip_command_exists :: "firewall_backend_kind \<Rightarrow> bool"
  ip_system_supported :: bool
  ip_backend_supported :: "firewall_backend_kind \<Rightarrow> bool"

definition detect_firewall_backend :: "(firewall_backend_kind \<Rightarrow> bool) \<Rightarrow> firewall_backend_kind result" where
  "detect_firewall_backend command_exists =
     (if command_exists KindNftables then Inr KindNftables
      else if command_exists KindIptables then Inr KindIptables
      else Inl (FirewallError ''No supported firewall backend found (need nft or iptables)''))"

definition resolve_firewall_backend ::
  "(firewall_backend_kind \<Rightarrow> bool) \<Rightarrow> daemon_firewall_backend \<Rightarrow> firewall_backend_kind result" where
  "resolve_firewall_backend command_exists pref =
     (case pref of
        BackendAuto \<Rightarrow> detect_firewall_backend command_exists
      | BackendIptables \<Rightarrow>
          (if \<not> command_exists KindIptables then Inl (FirewallError ''iptables backend requested but iptables not found'')
           else Inr KindIptables)
      | BackendNftables \<Rightarrow>
          (if \<not> command_exists KindNftables then Inl (FirewallError ''nftables backend requested but nft not found'')
           else Inr KindNftables))"

definition firewall_backend_preference :: "config \<Rightarrow> daemon_firewall_backend" where
  "firewall_backend_preference cfg =
     value_or (dm_firewall_backend (value_or (cfg_daemon cfg) default_daemon_config)) BackendAuto"

definition firewall_ipv6_supported :: "ipv6_probes \<Rightarrow> config \<Rightarrow> bool" where
  "firewall_ipv6_supported probes cfg =
     (case resolve_firewall_backend (ip_command_exists probes) (firewall_backend_preference cfg) of
        Inl e \<Rightarrow> True
      | Inr kind \<Rightarrow> ip_backend_supported probes kind)"

definition resolve_ipv6_support :: "ipv6_probes \<Rightarrow> config \<Rightarrow> bool \<times> ipv6_reason" where
  "resolve_ipv6_support probes cfg =
     (if (case cfg_daemon cfg of None \<Rightarrow> False | Some d \<Rightarrow> dm_ipv6_enabled d = Some False)
      then (False, Ipv6DisabledByConfig)
      else if \<not> ip_system_supported probes \<or> \<not> firewall_ipv6_supported probes cfg
      then (False, Ipv6UnsupportedBySystem)
      else (True, Ipv6Enabled))"

section \<open>One list of a rule\<close>

text \<open>What the runtime reads: the address parsers and the files behind \<^verbatim>\<open>ListStreamer\<close>.\<close>

record runtime_env =
  re_pton4 :: "string \<Rightarrow> bool"
  re_pton6 :: "string \<Rightarrow> bool"
  re_open_file :: "string \<Rightarrow> opened_file"
  re_cache :: cache_view
  re_max_file_size :: nat
  re_probes :: ipv6_probes

definition runtime_usage :: "runtime_env \<Rightarrow> usage_fn" where
  "runtime_usage env = analyze_list_set_usage (re_pton6 env) (re_open_file env) (re_cache env) (re_max_file_size env)"

definition state_action :: "rule_state \<Rightarrow> fw_action option" where
  "state_action rs =
     (case rst_action_type rs of
        ActDrop \<Rightarrow> Some FwDrop
      | ActPass \<Rightarrow> Some FwPass
      | ActMark \<Rightarrow> (if rst_fwmark rs \<noteq> 0 then Some (FwMark (rst_fwmark rs)) else None)
      | ActSkip \<Rightarrow> None)"

definition create_action_rule :: "'f firewall_ops \<Rightarrow> fw_action \<Rightarrow> firewall_rule_criteria \<Rightarrow> 'f \<Rightarrow> 'f" where
  "create_action_rule ops a c =
     (case a of
        FwDrop \<Rightarrow> fo_create_drop_rule ops c
      | FwPass \<Rightarrow> fo_create_pass_rule ops c
      | FwMark m \<Rightarrow> fo_create_mark_rule ops m c)"

definition apply_rule ::
  "'f firewall_ops \<Rightarrow> rule_state \<Rightarrow> firewall_rule_criteria \<Rightarrow> string option \<Rightarrow> 'f \<Rightarrow> 'f" where
  "apply_rule ops rs criteria dst_set_name f =
     (case state_action rs of
        None \<Rightarrow> f
      | Some a \<Rightarrow> create_action_rule ops a (criteria\<lparr>fc_dst_set_name := dst_set_name\<rparr>) f)"

definition splitter_on_entry :: "'f firewall_ops \<Rightarrow> string \<Rightarrow> string option \<Rightarrow> 'f visitor" where
  "splitter_on_entry ops loader4 loader6 f ty entry =
     (if ty = EntryDomain then Inr f
      else if CHR '':'' \<in> set entry
      then (case loader6 of None \<Rightarrow> Inr f | Some n \<Rightarrow> fo_load_entry ops n ty entry f)
      else fo_load_entry ops loader4 ty entry f)"

definition create_set_pair :: "'f firewall_ops \<Rightarrow> bool \<Rightarrow> string \<Rightarrow> string \<Rightarrow> u32 \<Rightarrow> 'f \<Rightarrow> 'f result" where
  "create_set_pair ops v6 n4 n6 timeout f =
     (case fo_create_ipset ops n4 AF_INET timeout f of
        Inl e \<Rightarrow> Inl e
      | Inr f1 \<Rightarrow> (if v6 then fo_create_ipset ops n6 AF_INET6 timeout f1 else Inr f1))"

definition load_static_entries ::
  "'f firewall_ops \<Rightarrow> runtime_env \<Rightarrow> bool \<Rightarrow> string \<Rightarrow> list_config \<Rightarrow> string \<Rightarrow> string \<Rightarrow> 'f \<Rightarrow> 'f result" where
  "load_static_entries ops env v6 list_name list_cfg n4 n6 f =
     (let f1 = fo_create_batch_loader ops n4 f;
          f2 = (if v6 then fo_create_batch_loader ops n6 f1 else f1)
      in map_sum id fst (stream_list (re_pton6 env) (splitter_on_entry ops n4 (if v6 then Some n6 else None))
           (re_open_file env) (re_cache env) (re_max_file_size env) (\<lambda>v n. v) list_name list_cfg f2))"

definition set_pair :: "bool \<Rightarrow> string \<Rightarrow> string \<Rightarrow> string list" where
  "set_pair v6 n4 n6 = [n4] @ (if v6 then [n6] else [])"

text \<open>The sets of one list, filled, and their names in the order in which the rule refers to them.\<close>

definition create_list_sets ::
  "'f firewall_ops \<Rightarrow> runtime_env \<Rightarrow> bool \<Rightarrow> string \<Rightarrow> list_config \<Rightarrow> list_set_usage \<Rightarrow> 'f \<Rightarrow> (string list \<times> 'f) result" where
  "create_list_sets ops env v6 list_name list_cfg usage f =
     (let set4 = fo_static_set_name ops f list_name AF_INET; set6 = fo_static_set_name ops f list_name AF_INET6;
          set4d = fo_dynamic_set_name ops f list_name AF_INET; set6d = fo_dynamic_set_name ops f list_name AF_INET6
      in case (if has_static_entries usage
               then (case create_set_pair ops v6 set4 set6 0 f of
                       Inl e \<Rightarrow> Inl e
                     | Inr f1 \<Rightarrow> load_static_entries ops env v6 list_name list_cfg set4 set6 f1)
               else Inr f) of
           Inl e \<Rightarrow> Inl e
         | Inr f2 \<Rightarrow>
             (case (if has_domain_entries usage then create_set_pair ops v6 set4d set6d (dynamic_timeout usage) f2
                    else Inr f2) of
                Inl e \<Rightarrow> Inl e
              | Inr f3 \<Rightarrow> Inr ((if has_static_entries usage then set_pair v6 set4 set6 else [])
                               @ (if has_domain_entries usage then set_pair v6 set4d set6d else []), f3)))"

section \<open>One rule\<close>

type_synonym 'f list_loop = "string list \<times> (string, list_set_usage) smap \<times> 'f"

definition runtime_list ::
  "'f firewall_ops \<Rightarrow> runtime_env \<Rightarrow> config \<Rightarrow> bool \<Rightarrow> rule_state \<Rightarrow> firewall_rule_criteria
     \<Rightarrow> 'f list_loop \<Rightarrow> string \<Rightarrow> 'f list_loop result" where
  "runtime_list ops env cfg v6 rs criteria s list_name =
     (case s of (names, cache, f) \<Rightarrow>
      case map_of (lists_map cfg) list_name of
        None \<Rightarrow> Inr s
      | Some list_cfg \<Rightarrow>
          (case cached_usage (runtime_usage env) list_name list_cfg cache of
             Inl e \<Rightarrow> Inl e
           | Inr (usage, cache') \<Rightarrow>
               (case create_list_sets ops env v6 list_name list_cfg usage f of
                  Inl e \<Rightarrow> Inl e
                | Inr (created, f1) \<Rightarrow>
                    Inr (names @ created, cache', for_each_quiet (\<lambda>n. apply_rule ops rs criteria (Some n)) created f1))))"

definition runtime_rule ::
  "'f firewall_ops \<Rightarrow> runtime_env \<Rightarrow> config \<Rightarrow> bool
     \<Rightarrow> rule_state list \<times> (string, list_set_usage) smap \<times> 'f \<Rightarrow> route_rule \<times> rule_state
     \<Rightarrow> (rule_state list \<times> (string, list_set_usage) smap \<times> 'f) result" where
  "runtime_rule ops env cfg v6 s x =
     (case s of (acc, cache, f) \<Rightarrow>
      case x of (rule, rs) \<Rightarrow>
      if rst_action_type rs = ActSkip then Inr (acc @ [rs], cache, f)
      else (case build_firewall_rule_criteria (re_pton4 env) (re_pton6 env) rule of
              Inl e \<Rightarrow> Inl e
            | Inr criteria \<Rightarrow>
                (case fold_result (runtime_list ops env cfg v6 rs criteria) ([], cache, f) (route_rule_lists rule) of
                   Inl e \<Rightarrow> Inl e
                 | Inr (names, cache', f1) \<Rightarrow>
                     Inr (acc @ [rs\<lparr>rst_set_names := names, rst_criteria := criteria\<rparr>], cache',
                          if names = [] \<and> has_rule_selector criteria then apply_rule ops rs criteria None f1 else f1))))"

section \<open>DNS detours\<close>

definition detour_criteria :: "resolved_dns_server \<Rightarrow> firewall_rule_criteria result" where
  "detour_criteria s =
     (case parse_port_spec (nat_to_string (unat (rds_port s))) of
        Inl e \<Rightarrow> Inl e
      | Inr port \<Rightarrow> Inr (default_criteria\<lparr>fc_proto := L4TcpUdp, fc_dst_port := port, fc_dst_addr := [rds_resolved_ip s],
                           fc_apply_output := True\<rparr>))"

definition detour_tag :: "outbound \<Rightarrow> string" where
  "detour_tag ob = (if ob_type ob = URLTEST then ob_tag ob else internal_detour_mark_key (ob_tag ob))"

definition detour_mark :: "config \<Rightarrow> (string, u32) smap \<Rightarrow> dns_server_config \<Rightarrow> u32 option" where
  "detour_mark cfg marks server =
     (case srv_detour server of
        None \<Rightarrow> None
      | Some tag \<Rightarrow>
          (case find_outbound_by_tag (value_or (cfg_outbounds cfg) []) tag of
             None \<Rightarrow> None
           | Some ob \<Rightarrow> map_of marks (detour_tag ob)))"

definition create_detour_rule :: "'f firewall_ops \<Rightarrow> u32 \<Rightarrow> 'f \<Rightarrow> resolved_dns_server \<Rightarrow> 'f result" where
  "create_detour_rule ops m f s = map_sum id (\<lambda>c. fo_create_mark_rule ops m c f) (detour_criteria s)"

definition runtime_detour ::
  "'f firewall_ops \<Rightarrow> config \<Rightarrow> (string, u32) smap \<Rightarrow> dns_server_registry \<Rightarrow> 'f \<Rightarrow> dns_server_config \<Rightarrow> 'f result" where
  "runtime_detour ops cfg marks reg f server =
     (case detour_mark cfg marks server of
        None \<Rightarrow> Inr f
      | Some m \<Rightarrow>
          (if get_servers reg (srv_tag server) = []
           then Inl (FirewallError (''DNS server tag not found during detour setup: '' @ srv_tag server))
           else fold_result (create_detour_rule ops m) f
                  (get_servers reg (srv_tag server))))"

definition runtime_detours ::
  "'f firewall_ops \<Rightarrow> runtime_env \<Rightarrow> ('c, string list) eff \<Rightarrow> config \<Rightarrow> (string, u32) smap \<Rightarrow> 'f \<Rightarrow> 'c \<Rightarrow> ('f \<times> 'c) result" where
  "runtime_detours ops env resolve cfg marks f c =
     (case cfg_dns cfg of
        None \<Rightarrow> Inr (f, c)
      | Some dns \<Rightarrow>
          (case dns_server_registry_new (re_pton6 env) resolve dns c of
             (Inl e, c') \<Rightarrow> Inl e
           | (Inr reg, c') \<Rightarrow>
               map_sum id (\<lambda>f'. (f', c')) (fold_result (runtime_detour ops cfg marks reg) f (value_or (dns_servers dns) []))))"

section \<open>The whole runtime\<close>

definition runtime_prefilter :: "config \<Rightarrow> u32 \<Rightarrow> firewall_global_prefilter" where
  "runtime_prefilter cfg fwmask =
     (build_firewall_global_prefilter cfg)\<lparr>gp_restore_conntrack_mark := True, gp_conntrack_mark_mask := fwmask\<rparr>"

definition runtime_begin ::
  "'f firewall_ops \<Rightarrow> config \<Rightarrow> bool \<Rightarrow> firewall_apply_mode \<Rightarrow> u32 \<Rightarrow> 'f \<Rightarrow> 'f" where
  "runtime_begin ops cfg v6 mode fwmask f =
     fo_set_fwmark_mask ops fwmask (fo_set_global_prefilter ops (runtime_prefilter cfg fwmask) (fo_prepare_apply ops mode
       (fo_set_clear_dynamic_sets ops
          (value_or (dm_clear_dynamic_sets_on_apply (value_or (cfg_daemon cfg) default_daemon_config)) True)
          (fo_set_ipv6_enabled ops v6 f))))"

text \<open>Everything up to the final \<^verbatim>\<open>apply\<close>.\<close>

definition queue_runtime_firewall ::
  "'f firewall_ops \<Rightarrow> runtime_env \<Rightarrow> ('c, string list) eff \<Rightarrow> config \<Rightarrow> (string, u32) smap \<Rightarrow> (string, string) smap
     \<Rightarrow> firewall_apply_mode \<Rightarrow> 'f \<Rightarrow> 'c \<Rightarrow> (rule_state list \<times> 'f \<times> 'c) result" where
  "queue_runtime_firewall ops env resolve cfg marks sel mode f c =
     (let states = build_fw_rule_states cfg marks (Some sel);
          v6 = fst (resolve_ipv6_support (re_probes env) cfg)
      in case fwmark_mask_value (value_or (cfg_fwmark cfg) default_fwmark_config) of
           Inl e \<Rightarrow> Inl e
         | Inr fwmask \<Rightarrow>
             (case fold_result (runtime_rule ops env cfg v6) ([], [], runtime_begin ops cfg v6 mode fwmask f)
                     (zip (route_rules cfg) states) of
                Inl e \<Rightarrow> Inl e
              | Inr (realized, cache, f1) \<Rightarrow>
                  (case runtime_detours ops env resolve cfg marks f1 c of
                     Inl e \<Rightarrow> Inl e
                   | Inr (f2, c') \<Rightarrow> Inr (realized, f2, c'))))"

definition apply_runtime_firewall ::
  "'f firewall_ops \<Rightarrow> runtime_env \<Rightarrow> ('c, string list) eff \<Rightarrow> config \<Rightarrow> (string, u32) smap \<Rightarrow> (string, string) smap
     \<Rightarrow> firewall_apply_mode \<Rightarrow> 'f \<Rightarrow> 'c \<Rightarrow> (rule_state list \<times> 'f \<times> 'c) result" where
  "apply_runtime_firewall ops env resolve cfg marks sel mode f c =
     (case queue_runtime_firewall ops env resolve cfg marks sel mode f c of
        Inl e \<Rightarrow> Inl e
      | Inr (states, f1, c1) \<Rightarrow>
          (case fo_apply ops mode f1 of
             (Inl e, f2) \<Rightarrow> Inl e
           | (Inr u, f2) \<Rightarrow> Inr (states, f2, c1)))"

section \<open>What a rule state stands for\<close>

text \<open>The rules of a realised state: one for each of its sets, or one without a set when it has none but selects
  something. The rules for the sets of a list, and those of the DNS servers behind a detour.\<close>

definition name_rules :: "rule_state \<Rightarrow> firewall_rule_criteria \<Rightarrow> string list \<Rightarrow> fw_rule list" where
  "name_rules rs c names =
     (case state_action rs of None \<Rightarrow> [] | Some a \<Rightarrow> map (\<lambda>n. (a, c\<lparr>fc_dst_set_name := Some n\<rparr>)) names)"

definition state_rules :: "rule_state \<Rightarrow> fw_rule list" where
  "state_rules rs =
     (if rst_set_names rs \<noteq> [] then name_rules rs (rst_criteria rs) (rst_set_names rs)
      else if has_rule_selector (rst_criteria rs)
      then (case state_action rs of None \<Rightarrow> [] | Some a \<Rightarrow> [(a, rst_criteria rs)])
      else [])"

lemma name_rules_append: "name_rules rs c (ns @ ms) = name_rules rs c ns @ name_rules rs c ms"
  by (simp add: name_rules_def split: option.splits)

lemma criteria_without_set:
  assumes "build_firewall_rule_criteria pton4 pton6 rule = Inr c"
  shows "fc_dst_set_name c = None" "\<not> fc_apply_output c" "c\<lparr>fc_dst_set_name := None\<rparr> = c"
  using assms by (auto simp: build_firewall_rule_criteria_def split: sum.splits prod.splits)

text \<open>The rules of the DNS servers behind a detour: both transports, the address and port of the server, for packets
  the router itself sends.\<close>

definition dns_criteria :: "resolved_dns_server \<Rightarrow> firewall_rule_criteria" where
  "dns_criteria s = default_criteria\<lparr>fc_proto := L4TcpUdp,
     fc_dst_port := \<lparr>ranges = [PortRange (rds_port s) (rds_port s)]\<rparr>, fc_dst_addr := [rds_resolved_ip s],
     fc_apply_output := True\<rparr>"

definition detour_rules :: "config \<Rightarrow> (string, u32) smap \<Rightarrow> dns_server_registry \<Rightarrow> dns_server_config list \<Rightarrow> fw_rule list" where
  "detour_rules cfg marks reg servers =
     concat (map (\<lambda>server. case detour_mark cfg marks server of
                             None \<Rightarrow> []
                           | Some m \<Rightarrow> map (\<lambda>s. (FwMark m, dns_criteria s)) (get_servers reg (srv_tag server))) servers)"

definition runtime_detour_rules ::
  "runtime_env \<Rightarrow> ('c, string list) eff \<Rightarrow> config \<Rightarrow> (string, u32) smap \<Rightarrow> 'c \<Rightarrow> fw_rule list" where
  "runtime_detour_rules env resolve cfg marks c =
     (case cfg_dns cfg of
        None \<Rightarrow> []
      | Some dns \<Rightarrow>
          (case fst (dns_server_registry_new (re_pton6 env) resolve dns c) of
             Inl e \<Rightarrow> []
           | Inr reg \<Rightarrow> detour_rules cfg marks reg (value_or (dns_servers dns) [])))"

lemma single_port_text:
  assumes "1 \<le> (p :: u16)"
  shows "parse_port_spec (nat_to_string (unat p)) = Inr \<lparr>ranges = [PortRange p p]\<rparr>"
  using parse_ranges_to_string [of "\<lparr>ranges = [PortRange p p]\<rparr>" "CHR ''-''"] assms
  by (simp add: port_spec_wf_def port_range_wf_def range_to_string_def)

lemma detour_criteria_dns:
  assumes "detour_criteria s = Inr c"
  shows "c = dns_criteria s"
proof (cases "rds_port s = 0")
  case True
  have "\<exists>e. parse_port_spec ''0'' = Inl e" by (simp add: port_spec_eval)
  then show ?thesis using assms True by (auto simp: detour_criteria_def nat_to_string.simps)
next
  case False
  then have "1 \<le> rds_port s" by (simp add: word_le_nat_alt Suc_le_eq unat_gt_0)
  then show ?thesis using assms by (simp add: detour_criteria_def single_port_text dns_criteria_def)
qed

section \<open>The contract of a backend\<close>

text \<open>What a backend has been asked for since the runtime began.\<close>

record requested =
  rq_v6 :: bool
  rq_prefilter :: firewall_global_prefilter
  rq_mask :: u32
  rq_sets :: "string set"
  rq_rules :: "fw_rule list"

definition set_requested :: "string \<Rightarrow> requested \<Rightarrow> requested" where
  "set_requested n q = q\<lparr>rq_sets := insert n (rq_sets q)\<rparr>"

definition rule_requested :: "fw_rule \<Rightarrow> requested \<Rightarrow> requested" where
  "rule_requested r q = q\<lparr>rq_rules := rq_rules q @ [r]\<rparr>"

lemma requested_simps [simp]:
  "rq_v6 (set_requested n q) = rq_v6 q" "rq_v6 (rule_requested r q) = rq_v6 q"
  "rq_prefilter (set_requested n q) = rq_prefilter q" "rq_prefilter (rule_requested r q) = rq_prefilter q"
  "rq_mask (set_requested n q) = rq_mask q" "rq_mask (rule_requested r q) = rq_mask q"
  "rq_sets (set_requested n q) = insert n (rq_sets q)" "rq_sets (rule_requested r q) = rq_sets q"
  "rq_rules (set_requested n q) = rq_rules q" "rq_rules (rule_requested r q) = rq_rules q @ [r]"
  by (simp_all add: set_requested_def rule_requested_def)

text \<open>
  \<open>buffers q f\<close> says that \<open>f\<close> buffers what \<open>q\<close> asks for. Each function of the backend has its effect on \<open>q\<close>; a
  rule may only refer to sets that have been declared, and a set has the family its name tells.
\<close>

locale firewall_backend =
  fixes ops :: "'f firewall_ops" and buffers :: "requested \<Rightarrow> 'f \<Rightarrow> bool" and idle :: "'f \<Rightarrow> bool"
    and set_v6 :: "string \<Rightarrow> bool"
  assumes begins: "idle f \<Longrightarrow>
      buffers \<lparr>rq_v6 = v6, rq_prefilter = pf, rq_mask = m, rq_sets = {}, rq_rules = []\<rparr>
        (fo_set_fwmark_mask ops m (fo_set_global_prefilter ops pf (fo_prepare_apply ops mode
          (fo_set_clear_dynamic_sets ops b (fo_set_ipv6_enabled ops v6 f)))))"
    and set_names: "set_v6 (fo_static_set_name ops f n AF_INET6)" "\<not> set_v6 (fo_static_set_name ops f n AF_INET)"
      "set_v6 (fo_dynamic_set_name ops f n AF_INET6)" "\<not> set_v6 (fo_dynamic_set_name ops f n AF_INET)"
    and creates_set: "buffers q f \<Longrightarrow> fo_create_ipset ops n family t f = Inr f' \<Longrightarrow> set_v6 n = (family = AF_INET6)
      \<Longrightarrow> family = AF_INET \<or> family = AF_INET6 \<and> rq_v6 q \<Longrightarrow> buffers (set_requested n q) f'"
    and creates_loader: "buffers q f \<Longrightarrow> buffers q (fo_create_batch_loader ops n f)"
    and loads_entry: "buffers q f \<Longrightarrow> fo_load_entry ops n ty e f = Inr f' \<Longrightarrow> buffers q f'"
    and creates_rule: "buffers q f \<Longrightarrow> (\<And>n. fc_dst_set_name c = Some n \<Longrightarrow> n \<in> rq_sets q)
      \<Longrightarrow> buffers (rule_requested (a, c) q) (create_action_rule ops a c f)"
begin

lemma begin_requests:
  "idle f \<Longrightarrow> buffers \<lparr>rq_v6 = v6, rq_prefilter = runtime_prefilter cfg m, rq_mask = m, rq_sets = {}, rq_rules = []\<rparr>
     (runtime_begin ops cfg v6 mode m f)"
  unfolding runtime_begin_def by (rule begins)

lemma splitter_keeps:
  assumes "buffers q f" and "splitter_on_entry ops n4 n6 f ty e = Inr f'"
  shows "buffers q f'"
  using assms loads_entry by (auto simp: splitter_on_entry_def split: if_splits option.splits)

lemma loading_keeps:
  assumes "buffers q f" and "load_static_entries ops env v6 name cfg n4 n6 f = Inr f'"
  shows "buffers q f'"
proof -
  let ?f2 = "if v6 then fo_create_batch_loader ops n6 (fo_create_batch_loader ops n4 f) else fo_create_batch_loader ops n4 f"
  have f2: "buffers q ?f2" using assms(1) creates_loader by simp
  obtain log where s: "stream_list (re_pton6 env) (splitter_on_entry ops n4 (if v6 then Some n6 else None)) (re_open_file env)
      (re_cache env) (re_max_file_size env) (\<lambda>v n. v) name cfg ?f2 = Inr (f', log)"
    using assms(2) by (auto simp: load_static_entries_def Let_def result_simps)
  from stream_list_visits [OF this] obtain es where
    "visit_entries (splitter_on_entry ops n4 (if v6 then Some n6 else None)) ?f2 es = Inr f'"
    by blast
  then show ?thesis unfolding visit_entries_def
    by (rule fold_result_invariant) (use f2 splitter_keeps in auto)
qed

lemma set_pair_requested:
  assumes "buffers q f" and "create_set_pair ops (rq_v6 q) n4 n6 t f = Inr f'" and "\<not> set_v6 n4" "set_v6 n6"
  shows "\<exists>q'. buffers q' f' \<and> q' = q\<lparr>rq_sets := rq_sets q \<union> set (set_pair (rq_v6 q) n4 n6)\<rparr>"
proof -
  obtain f1 where f1: "fo_create_ipset ops n4 AF_INET t f = Inr f1"
    and f': "(if rq_v6 q then fo_create_ipset ops n6 AF_INET6 t f1 else Inr f1) = Inr f'"
    using assms(2) by (auto simp: create_set_pair_def split: sum.splits)
  have q1: "buffers (set_requested n4 q) f1"
    by (rule creates_set [OF assms(1) f1]) (use assms(3) in \<open>simp_all add: AF_INET_def AF_INET6_def\<close>)
  show ?thesis
  proof (cases "rq_v6 q")
    case True
    then have "fo_create_ipset ops n6 AF_INET6 t f1 = Inr f'" using f' by simp
    from creates_set [OF q1 this] have "buffers (set_requested n6 (set_requested n4 q)) f'" using True assms(4) by simp
    then show ?thesis using True by (simp add: set_requested_def set_pair_def Un_commute insert_commute)
  next
    case False
    then show ?thesis using q1 f' by (simp add: set_requested_def set_pair_def)
  qed
qed

lemma list_sets_requested:
  assumes "buffers q f" and "create_list_sets ops env (rq_v6 q) name cfg u f = Inr (created, f')"
  shows "buffers (q\<lparr>rq_sets := rq_sets q \<union> set created\<rparr>) f'"
proof -
  let ?set4 = "fo_static_set_name ops f name AF_INET" and ?set6 = "fo_static_set_name ops f name AF_INET6"
  let ?set4d = "fo_dynamic_set_name ops f name AF_INET" and ?set6d = "fo_dynamic_set_name ops f name AF_INET6"
  let ?static = "if has_static_entries u then set_pair (rq_v6 q) ?set4 ?set6 else []"
  let ?dynamic = "if has_domain_entries u then set_pair (rq_v6 q) ?set4d ?set6d else []"
  let ?q1 = "q\<lparr>rq_sets := rq_sets q \<union> set ?static\<rparr>"
  obtain f2 where
    f2: "(if has_static_entries u
          then (case create_set_pair ops (rq_v6 q) ?set4 ?set6 0 f of
                  Inl e \<Rightarrow> Inl e | Inr f1 \<Rightarrow> load_static_entries ops env (rq_v6 q) name cfg ?set4 ?set6 f1)
          else Inr f) = Inr f2"
    and f3: "(if has_domain_entries u then create_set_pair ops (rq_v6 q) ?set4d ?set6d (dynamic_timeout u) f2 else Inr f2) = Inr f'"
    and created: "created = ?static @ ?dynamic"
    using assms(2) unfolding create_list_sets_def Let_def by (auto split: sum.splits)
  have q1: "buffers ?q1 f2"
  proof (cases "has_static_entries u")
    case True
    then obtain f1 where f1: "create_set_pair ops (rq_v6 q) ?set4 ?set6 0 f = Inr f1"
      and load: "load_static_entries ops env (rq_v6 q) name cfg ?set4 ?set6 f1 = Inr f2"
      using f2 by (auto split: sum.splits)
    show ?thesis using loading_keeps [OF _ load] set_pair_requested [OF assms(1) f1 set_names(2,1)] True by simp
  next
    case False
    then show ?thesis using f2 assms(1) by simp
  qed
  show ?thesis
  proof (cases "has_domain_entries u")
    case True
    then have "create_set_pair ops (rq_v6 ?q1) ?set4d ?set6d (dynamic_timeout u) f2 = Inr f'" using f3 by simp
    from set_pair_requested [OF q1 this set_names(4,3)] show ?thesis using True by (simp add: created Un_assoc)
  next
    case False
    then show ?thesis using f3 q1 by (simp add: created)
  qed
qed

lemma apply_rule_requested:
  assumes "buffers q f" and "\<And>n. name = Some n \<Longrightarrow> n \<in> rq_sets q"
  shows "buffers (q\<lparr>rq_rules := rq_rules q @ (case state_action rs of None \<Rightarrow> [] | Some a \<Rightarrow> [(a, c\<lparr>fc_dst_set_name := name\<rparr>)])\<rparr>)
    (apply_rule ops rs c name f)"
proof (cases "state_action rs")
  case None
  then show ?thesis using assms(1) by (simp add: apply_rule_def)
next
  case (Some a)
  have "buffers (rule_requested (a, c\<lparr>fc_dst_set_name := name\<rparr>) q) (create_action_rule ops a (c\<lparr>fc_dst_set_name := name\<rparr>) f)"
    by (rule creates_rule [OF assms(1)]) (use assms(2) in simp)
  then show ?thesis using Some by (simp add: apply_rule_def rule_requested_def)
qed

lemma name_rules_requested:
  assumes "buffers q f" and "set names \<subseteq> rq_sets q"
  shows "buffers (q\<lparr>rq_rules := rq_rules q @ name_rules rs c names\<rparr>)
    (for_each_quiet (\<lambda>n. apply_rule ops rs c (Some n)) names f)"
  using assms
proof (induction names arbitrary: q f)
  case Nil
  then show ?case by (simp add: name_rules_def split: option.splits)
next
  case (Cons n names)
  let ?r = "case state_action rs of None \<Rightarrow> [] | Some a \<Rightarrow> [(a, c\<lparr>fc_dst_set_name := Some n\<rparr>)]"
  have "buffers (q\<lparr>rq_rules := rq_rules q @ ?r\<rparr>) (apply_rule ops rs c (Some n) f)"
    by (rule apply_rule_requested [OF Cons.prems(1)]) (use Cons.prems(2) in auto)
  from Cons.IH [OF this] Cons.prems(2)
  show ?case by (simp add: name_rules_def split: option.splits)
qed

lemma lists_requested:
  assumes "buffers q f" and "fold_result (runtime_list ops env cfg (rq_v6 q) rs c) (names, cache, f) ns = Inr (names', cache', f')"
  shows "\<exists>new S. names' = names @ new \<and> buffers (q\<lparr>rq_sets := S, rq_rules := rq_rules q @ name_rules rs c new\<rparr>) f'"
  using assms
proof (induction ns arbitrary: q names cache f)
  case Nil
  then have "names' = names @ [] \<and> buffers (q\<lparr>rq_sets := rq_sets q, rq_rules := rq_rules q @ name_rules rs c []\<rparr>) f'"
    by (simp add: name_rules_def split: option.splits)
  then show ?case by blast
next
  case (Cons n ns)
  show ?case
  proof (cases "map_of (lists_map cfg) n")
    case None
    then show ?thesis using Cons.IH [OF Cons.prems(1)] Cons.prems(2) by (simp add: runtime_list_def)
  next
    case (Some list_cfg)
    obtain s1 where s1: "runtime_list ops env cfg (rq_v6 q) rs c (names, cache, f) n = Inr s1"
      "fold_result (runtime_list ops env cfg (rq_v6 q) rs c) s1 ns = Inr (names', cache', f')"
      using Cons.prems(2) by (auto split: sum.splits)
    then obtain u cache1 created f1 where
      created: "create_list_sets ops env (rq_v6 q) n list_cfg u f = Inr (created, f1)" and
      rest: "fold_result (runtime_list ops env cfg (rq_v6 q) rs c)
        (names @ created, cache1, for_each_quiet (\<lambda>n. apply_rule ops rs c (Some n)) created f1) ns = Inr (names', cache', f')"
      using Some by (auto simp: runtime_list_def [of ops env cfg "rq_v6 q" rs c "(names, cache, f)" n] split: sum.splits)
    let ?q1 = "q\<lparr>rq_sets := rq_sets q \<union> set created\<rparr>"
    let ?q2 = "?q1\<lparr>rq_rules := rq_rules ?q1 @ name_rules rs c created\<rparr>"
    have "buffers ?q1 f1" by (rule list_sets_requested [OF Cons.prems(1) created])
    then have "buffers ?q2 (for_each_quiet (\<lambda>n. apply_rule ops rs c (Some n)) created f1)"
      by (rule name_rules_requested) simp
    from Cons.IH [OF this, of "names @ created" cache1] rest obtain new S where "names' = (names @ created) @ new"
      "buffers (?q2\<lparr>rq_sets := S, rq_rules := rq_rules ?q2 @ name_rules rs c new\<rparr>) f'"
      by auto
    then have "names' = names @ (created @ new)
        \<and> buffers (q\<lparr>rq_sets := S, rq_rules := rq_rules q @ name_rules rs c (created @ new)\<rparr>) f'"
      by (simp add: name_rules_append)
    then show ?thesis by blast
  qed
qed

lemma rule_requests:
  assumes "buffers q f" and "runtime_rule ops env cfg (rq_v6 q) (acc, cache, f) x = Inr (acc', cache', f')"
  shows "\<exists>rs S. acc' = acc @ [rs] \<and> buffers (q\<lparr>rq_sets := S, rq_rules := rq_rules q @ state_rules rs\<rparr>) f'"
proof (cases "rst_action_type (snd x) = ActSkip")
  case True
  then have "state_rules (snd x) = []" "acc' = acc @ [snd x]" "f' = f"
    using assms(2) by (auto simp: runtime_rule_def state_rules_def name_rules_def state_action_def split: prod.splits)
  then have "acc' = acc @ [snd x] \<and> buffers (q\<lparr>rq_sets := rq_sets q, rq_rules := rq_rules q @ state_rules (snd x)\<rparr>) f'"
    using assms(1) by simp
  then show ?thesis by blast
next
  case False
  obtain rule rs where x: "x = (rule, rs)" by (cases x)
  obtain c names f1 where c: "build_firewall_rule_criteria (re_pton4 env) (re_pton6 env) rule = Inr c"
    and lists: "fold_result (runtime_list ops env cfg (rq_v6 q) rs c) ([], cache, f) (route_rule_lists rule) = Inr (names, cache', f1)"
    and acc': "acc' = acc @ [rs\<lparr>rst_set_names := names, rst_criteria := c\<rparr>]"
    and f': "f' = (if names = [] \<and> has_rule_selector c then apply_rule ops rs c None f1 else f1)"
    using assms(2) False x by (auto simp: runtime_rule_def split: sum.splits prod.splits)
  let ?rs = "rs\<lparr>rst_set_names := names, rst_criteria := c\<rparr>"
  obtain S where q1: "buffers (q\<lparr>rq_sets := S, rq_rules := rq_rules q @ name_rules rs c names\<rparr>) f1"
    using lists_requested [OF assms(1) lists] by auto
  have act: "state_action ?rs = state_action rs" by (simp add: state_action_def split: rule_action_type.split)
  have "buffers (q\<lparr>rq_sets := S, rq_rules := rq_rules q @ state_rules ?rs\<rparr>) f'"
  proof (cases "names = [] \<and> has_rule_selector c")
    case True
    then show ?thesis using apply_rule_requested [OF q1, of None c rs] f' act
      by (simp add: state_rules_def name_rules_def criteria_without_set(3) [OF c] split: option.splits)
  next
    case False
    then show ?thesis using q1 f' act by (auto simp: state_rules_def name_rules_def split: option.splits)
  qed
  then show ?thesis using acc' by blast
qed

lemma rules_request:
  assumes "buffers q f" and "fold_result (runtime_rule ops env cfg (rq_v6 q)) (acc, cache, f) xs = Inr (acc', cache', f')"
  shows "\<exists>new S. acc' = acc @ new \<and> buffers (q\<lparr>rq_sets := S, rq_rules := rq_rules q @ concat (map state_rules new)\<rparr>) f'"
  using assms
proof (induction xs arbitrary: q acc cache f)
  case Nil
  then have "acc' = acc @ [] \<and> buffers (q\<lparr>rq_sets := rq_sets q, rq_rules := rq_rules q @ concat (map state_rules [])\<rparr>) f'"
    by simp
  then show ?case by blast
next
  case (Cons x xs)
  then obtain acc1 cache1 f1 where x: "runtime_rule ops env cfg (rq_v6 q) (acc, cache, f) x = Inr (acc1, cache1, f1)"
    and xs: "fold_result (runtime_rule ops env cfg (rq_v6 q)) (acc1, cache1, f1) xs = Inr (acc', cache', f')"
    by (auto split: sum.splits)
  obtain rs S where rs: "acc1 = acc @ [rs]" "buffers (q\<lparr>rq_sets := S, rq_rules := rq_rules q @ state_rules rs\<rparr>) f1"
    using rule_requests [OF Cons.prems(1) x] by blast
  obtain new S' where "acc' = acc1 @ new"
    "buffers (q\<lparr>rq_sets := S', rq_rules := (rq_rules q @ state_rules rs) @ concat (map state_rules new)\<rparr>) f'"
    using Cons.IH [OF rs(2), of acc1 cache1] xs by auto
  then have "acc' = acc @ (rs # new) \<and> buffers (q\<lparr>rq_sets := S', rq_rules := rq_rules q @ concat (map state_rules (rs # new))\<rparr>) f'"
    using rs(1) by simp
  then show ?case by blast
qed

lemma detour_servers_request:
  assumes "buffers q f"
    and "fold_result (create_detour_rule ops m) f servers = Inr f'"
  shows "buffers (q\<lparr>rq_rules := rq_rules q @ map (\<lambda>s. (FwMark m, dns_criteria s)) servers\<rparr>) f'"
  using assms
proof (induction servers arbitrary: q f)
  case (Cons s servers)
  then obtain c where c: "detour_criteria s = Inr c"
    and rest: "fold_result (create_detour_rule ops m)
      (fo_create_mark_rule ops m c f) servers = Inr f'"
    by (cases "detour_criteria s") (auto simp: create_detour_rule_def [of ops m f s] split: sum.splits)
  have "buffers (rule_requested (FwMark m, c) q) (create_action_rule ops (FwMark m) c f)"
    by (rule creates_rule [OF Cons.prems(1)]) (simp add: detour_criteria_dns [OF c] dns_criteria_def default_criteria_def)
  from Cons.IH [OF this] rest show ?case
    by (simp add: create_action_rule_def rule_requested_def detour_criteria_dns [OF c])
qed simp

lemma detours_request:
  assumes "buffers q f" and "fold_result (runtime_detour ops cfg marks reg) f servers = Inr f'"
  shows "buffers (q\<lparr>rq_rules := rq_rules q @ detour_rules cfg marks reg servers\<rparr>) f'"
  using assms
proof (induction servers arbitrary: q f)
  case Nil
  then show ?case by (simp add: detour_rules_def)
next
  case (Cons server servers)
  then obtain f1 where f1: "runtime_detour ops cfg marks reg f server = Inr f1"
    and rest: "fold_result (runtime_detour ops cfg marks reg) f1 servers = Inr f'"
    by (auto split: sum.splits)
  have "buffers (q\<lparr>rq_rules := rq_rules q @ detour_rules cfg marks reg [server]\<rparr>) f1"
  proof (cases "detour_mark cfg marks server")
    case None
    then show ?thesis using Cons.prems(1) f1 by (simp add: runtime_detour_def detour_rules_def)
  next
    case (Some m)
    then have "fold_result (create_detour_rule ops m) f
        (get_servers reg (srv_tag server)) = Inr f1"
      using f1 by (auto simp: runtime_detour_def split: if_splits)
    from detour_servers_request [OF Cons.prems(1) this] show ?thesis using Some by (simp add: detour_rules_def)
  qed
  from Cons.IH [OF this rest] show ?case by (simp add: detour_rules_def)
qed

lemma runtime_requests:
  assumes "idle f" and "fwmark_mask_value (value_or (cfg_fwmark cfg) default_fwmark_config) = Inr m"
    and "queue_runtime_firewall ops env resolve cfg marks sel mode f c = Inr (states, f', c')"
  shows "\<exists>S. buffers \<lparr>rq_v6 = fst (resolve_ipv6_support (re_probes env) cfg), rq_prefilter = runtime_prefilter cfg m,
      rq_mask = m, rq_sets = S,
      rq_rules = concat (map state_rules states) @ runtime_detour_rules env resolve cfg marks c\<rparr> f'"
proof -
  let ?v6 = "fst (resolve_ipv6_support (re_probes env) cfg)"
  let ?q = "\<lparr>rq_v6 = ?v6, rq_prefilter = runtime_prefilter cfg m, rq_mask = m, rq_sets = {}, rq_rules = []\<rparr>"
  obtain cache f1 where
    loop: "fold_result (runtime_rule ops env cfg ?v6) ([], [], runtime_begin ops cfg ?v6 mode m f)
        (zip (route_rules cfg) (build_fw_rule_states cfg marks (Some sel))) = Inr (states, cache, f1)"
    and detours: "runtime_detours ops env resolve cfg marks f1 c = Inr (f', c')"
    using assms(2,3) by (auto simp: queue_runtime_firewall_def Let_def split: sum.splits)
  have "buffers ?q (runtime_begin ops cfg ?v6 mode m f)" by (rule begin_requests [OF assms(1)])
  from rules_request [OF this, of env cfg "[]" "[]" _ states cache f1] loop obtain S where
    q1: "buffers (?q\<lparr>rq_sets := S, rq_rules := concat (map state_rules states)\<rparr>) f1"
    by auto
  show ?thesis
  proof (cases "cfg_dns cfg")
    case None
    then show ?thesis using q1 detours by (auto simp: runtime_detours_def runtime_detour_rules_def)
  next
    case (Some dns)
    then obtain reg where reg: "fst (dns_server_registry_new (re_pton6 env) resolve dns c) = Inr reg"
      and fold: "fold_result (runtime_detour ops cfg marks reg) f1 (value_or (dns_servers dns) []) = Inr f'"
      using detours by (auto simp: runtime_detours_def result_simps split: prod.splits sum.splits)
    from detours_request [OF q1 fold] show ?thesis using Some reg by (auto simp: runtime_detour_rules_def)
  qed
qed

end

section \<open>The states the runtime returns\<close>

text \<open>A backend with the set names of the base class returns the states that \<^verbatim>\<open>keen-pbr status\<close> computes on its own
  by \<^verbatim>\<open>prune_fw_rule_states_to_realized_sets\<close>.\<close>

locale plain_set_names =
  fixes ops :: "'f firewall_ops"
  assumes plain_names: "fo_static_set_name ops f n family = default_static_set_name n family"
    "fo_dynamic_set_name ops f n family = default_dynamic_set_name n family"
begin

lemma created_names:
  assumes "create_list_sets ops env v6 n cfg u f = Inr (created, f')"
  shows "created = realized_names v6 n u"
  using assms
  by (auto simp: create_list_sets_def Let_def plain_names realized_names_def set_pair_def default_static_set_name_def
      default_dynamic_set_name_def AF_INET_def AF_INET6_def split: sum.splits if_splits)

lemma runtime_list_prunes:
  assumes "runtime_list ops env cfg v6 rs c (names, cache, f) n = Inr (names', cache', f')"
  shows "prune_list cfg (runtime_usage env) v6 (names, cache) n = Inr (names', cache')"
  using assms by (auto simp: runtime_list_def prune_list_def dest: created_names split: option.splits sum.splits)

lemma runtime_lists_prune:
  assumes "fold_result (runtime_list ops env cfg v6 rs c) (names, cache, f) ns = Inr (names', cache', f')"
  shows "fold_result (prune_list cfg (runtime_usage env) v6) (names, cache) ns = Inr (names', cache')"
  using assms
proof (induction ns arbitrary: names cache f)
  case (Cons n ns)
  then obtain names1 cache1 f1 where n: "runtime_list ops env cfg v6 rs c (names, cache, f) n = Inr (names1, cache1, f1)"
    and rest: "fold_result (runtime_list ops env cfg v6 rs c) (names1, cache1, f1) ns = Inr (names', cache', f')"
    by (auto split: sum.splits)
  show ?case using runtime_list_prunes [OF n] Cons.IH [OF rest] by simp
qed simp

lemma runtime_rule_prunes:
  assumes "runtime_rule ops env cfg v6 (acc, cache, f) (rule, rs) = Inr (acc', cache', f')"
    and "rst_rule_index rs < length (route_rules cfg)" "route_rules cfg ! rst_rule_index rs = rule"
  shows "prune_rule_state (re_pton4 env) (re_pton6 env) cfg (runtime_usage env) v6 (acc, cache) rs = Inr (acc', cache')"
  using assms by (auto simp: runtime_rule_def prune_rule_state_def Let_def dest: runtime_lists_prune split: sum.splits if_splits)

lemma runtime_rules_prune:
  assumes "fold_result (runtime_rule ops env cfg v6) (acc, cache, f) xs = Inr (acc', cache', f')"
    and "\<And>rule rs. (rule, rs) \<in> set xs \<Longrightarrow> rst_rule_index rs < length (route_rules cfg) \<and> route_rules cfg ! rst_rule_index rs = rule"
  shows "fold_result (prune_rule_state (re_pton4 env) (re_pton6 env) cfg (runtime_usage env) v6) (acc, cache) (map snd xs)
    = Inr (acc', cache')"
  using assms
proof (induction xs arbitrary: acc cache f)
  case (Cons x xs)
  obtain rule rs where x: "x = (rule, rs)" by (cases x)
  obtain acc1 cache1 f1 where x1: "runtime_rule ops env cfg v6 (acc, cache, f) (rule, rs) = Inr (acc1, cache1, f1)"
    and rest: "fold_result (runtime_rule ops env cfg v6) (acc1, cache1, f1) xs = Inr (acc', cache', f')"
    using Cons.prems(1) x by (auto split: sum.splits)
  have "prune_rule_state (re_pton4 env) (re_pton6 env) cfg (runtime_usage env) v6 (acc, cache) rs = Inr (acc1, cache1)"
    by (rule runtime_rule_prunes [OF x1]) (use Cons.prems(2) [of rule rs] x in auto)
  moreover have "fold_result (prune_rule_state (re_pton4 env) (re_pton6 env) cfg (runtime_usage env) v6) (acc1, cache1) (map snd xs)
      = Inr (acc', cache')"
    by (rule Cons.IH [OF rest]) (use Cons.prems(2) in auto)
  ultimately show ?case using x by simp
qed simp

lemma runtime_states_pruned:
  assumes "queue_runtime_firewall ops env resolve cfg marks sel mode f c = Inr (states, f', c')"
  shows "prune_fw_rule_states_to_realized_sets (re_pton4 env) (re_pton6 env) cfg (runtime_usage env)
      (fst (resolve_ipv6_support (re_probes env) cfg)) (build_fw_rule_states cfg marks (Some sel)) = Inr states"
proof -
  let ?v6 = "fst (resolve_ipv6_support (re_probes env) cfg)" and ?states = "build_fw_rule_states cfg marks (Some sel)"
  obtain m cache f1 where
    loop: "fold_result (runtime_rule ops env cfg ?v6) ([], [], runtime_begin ops cfg ?v6 mode m f) (zip (route_rules cfg) ?states)
      = Inr (states, cache, f1)"
    using assms by (auto simp: queue_runtime_firewall_def Let_def split: sum.splits)
  have len: "length ?states = length (route_rules cfg)" by (simp add: build_fw_rule_states_def)
  have index: "rst_rule_index (?states ! i) = i" if "i < length (route_rules cfg)" for i
    using that by (simp add: build_fw_rule_states_def nth_enumerate_eq build_fw_rule_state_def base_rule_state_def Let_def
        split: option.split prod.split)
  have "fold_result (prune_rule_state (re_pton4 env) (re_pton6 env) cfg (runtime_usage env) ?v6) ([], [])
      (map snd (zip (route_rules cfg) ?states)) = Inr (states, cache)"
    by (rule runtime_rules_prune [OF loop]) (auto simp: set_zip len index)
  then show ?thesis by (simp add: prune_fw_rule_states_to_realized_sets_def len)
qed

end

section \<open>Invariants of the queue\<close>

text \<open>
  A property of the backend that holds when the runtime begins and that each call keeps, holds when everything is
  queued. The set names are fixed while it holds: \<open>N\<close> for the static and \<open>D\<close> for the dynamic sets. Sets are
  created under these names only, and only static sets are filled.
\<close>

locale queue_invariant =
  fixes ops :: "'f firewall_ops" and P :: "'f \<Rightarrow> bool" and N D :: "string \<Rightarrow> int \<Rightarrow> string"
  assumes fixed_names: "P f \<Longrightarrow> fo_static_set_name ops f n family = N n family"
      "P f \<Longrightarrow> fo_dynamic_set_name ops f n family = D n family"
    and keeps_static: "P f \<Longrightarrow> family = AF_INET \<or> family = AF_INET6 \<Longrightarrow> fo_create_ipset ops (N n family) family t f = Inr f' \<Longrightarrow> P f'"
    and keeps_dynamic: "P f \<Longrightarrow> family = AF_INET \<or> family = AF_INET6 \<Longrightarrow> fo_create_ipset ops (D n family) family t f = Inr f' \<Longrightarrow> P f'"
    and keeps_loader: "P f \<Longrightarrow> family = AF_INET \<or> family = AF_INET6 \<Longrightarrow> P (fo_create_batch_loader ops (N n family) f)"
    and keeps_entry: "P f \<Longrightarrow> family = AF_INET \<or> family = AF_INET6 \<Longrightarrow> fo_load_entry ops (N n family) ty e f = Inr f' \<Longrightarrow> P f'"
    and keeps_rule: "P f \<Longrightarrow> P (create_action_rule ops a c f)"
begin

lemma pair_keeps:
  "P f \<Longrightarrow> create_set_pair ops v6 (N n AF_INET) (N n AF_INET6) t f = Inr f' \<Longrightarrow> P f'"
  "P f \<Longrightarrow> create_set_pair ops v6 (D n AF_INET) (D n AF_INET6) t f = Inr f' \<Longrightarrow> P f'"
  by (auto simp: create_set_pair_def split: sum.splits if_splits intro: keeps_static keeps_dynamic)

lemma load_keeps:
  assumes "P f" and "load_static_entries ops env v6 name cfg (N n AF_INET) (N n AF_INET6) f = Inr f'"
  shows "P f'"
proof -
  let ?n4 = "N n AF_INET" and ?n6 = "if v6 then Some (N n AF_INET6) else None"
  let ?f2 = "if v6 then fo_create_batch_loader ops (N n AF_INET6) (fo_create_batch_loader ops ?n4 f) else fo_create_batch_loader ops ?n4 f"
  have f2: "P ?f2" using assms(1) by (auto intro: keeps_loader)
  obtain log where "stream_list (re_pton6 env) (splitter_on_entry ops ?n4 ?n6) (re_open_file env)
      (re_cache env) (re_max_file_size env) (\<lambda>v n. v) name cfg ?f2 = Inr (f', log)"
    using assms(2) by (auto simp: load_static_entries_def Let_def result_simps)
  from stream_list_visits [OF this] obtain es where "visit_entries (splitter_on_entry ops ?n4 ?n6) ?f2 es = Inr f'"
    by blast
  moreover have "P g'" if "P g" "splitter_on_entry ops ?n4 ?n6 g ty e = Inr g'" for g ty e g'
    using that keeps_entry [of g AF_INET n ty e g'] keeps_entry [of g AF_INET6 n ty e g'] by (auto simp: splitter_on_entry_def split: if_splits)
  ultimately show ?thesis unfolding visit_entries_def by - (erule fold_result_invariant, use f2 in auto)
qed

lemma list_keeps:
  assumes "P f" and "runtime_list ops env cfg v6 rs c (names, cache, f) n = Inr (names', cache', f')"
  shows "P f'"
proof (cases "map_of (lists_map cfg) n")
  case None
  then show ?thesis using assms by (simp add: runtime_list_def)
next
  case (Some list_cfg)
  then obtain u created f1 where sets: "create_list_sets ops env v6 n list_cfg u f = Inr (created, f1)"
    and f': "f' = for_each_quiet (\<lambda>n. apply_rule ops rs c (Some n)) created f1"
    using assms(2) by (auto simp: runtime_list_def split: sum.splits)
  have "P f1" using sets assms(1)
    by (auto simp: create_list_sets_def Let_def fixed_names [OF assms(1)] dest: pair_keeps load_keeps split: sum.splits if_splits)
      (blast dest: pair_keeps load_keeps)
  moreover have "P (apply_rule ops rs c nm g)" if "P g" for nm g
    using that keeps_rule by (simp add: apply_rule_def split: option.splits)
  ultimately show ?thesis unfolding f' by (rule for_each_quiet_invariant)
qed

lemma rule_keeps:
  assumes "P f" and "runtime_rule ops env cfg v6 (acc, cache, f) x = Inr (acc', cache', f')"
  shows "P f'"
proof (cases "rst_action_type (snd x) = ActSkip")
  case True
  then show ?thesis using assms by (auto simp: runtime_rule_def split: prod.splits)
next
  case False
  obtain rule rs where x: "x = (rule, rs)" by (cases x)
  obtain c names cache1 f1 where
    lists: "fold_result (runtime_list ops env cfg v6 rs c) ([], cache, f) (route_rule_lists rule) = Inr (names, cache1, f1)"
    and f': "f' = (if names = [] \<and> has_rule_selector c then apply_rule ops rs c None f1 else f1)"
    using assms(2) False x by (auto simp: runtime_rule_def split: sum.splits prod.splits)
  have "(\<lambda>s. P (snd (snd s))) (names, cache1, f1)"
    by (rule fold_result_invariant [OF lists]) (use assms(1) list_keeps in auto)
  then show ?thesis using keeps_rule by (auto simp: f' apply_rule_def split: option.splits)
qed

lemma queue_keeps:
  assumes "\<And>v6 m. P (runtime_begin ops cfg v6 mode m f)"
    and "queue_runtime_firewall ops env resolve cfg marks sel mode f c = Inr (states, f', c')"
  shows "P f'"
proof -
  obtain m v6 cache f1 where
    loop: "fold_result (runtime_rule ops env cfg v6) ([], [], runtime_begin ops cfg v6 mode m f)
        (zip (route_rules cfg) (build_fw_rule_states cfg marks (Some sel))) = Inr (states, cache, f1)"
    and detours: "runtime_detours ops env resolve cfg marks f1 c = Inr (f', c')"
    using assms(2) by (auto simp: queue_runtime_firewall_def Let_def split: sum.splits)
  have "(\<lambda>s. P (snd (snd s))) (states, cache, f1)"
    by (rule fold_result_invariant [OF loop]) (use assms(1) rule_keeps in auto)
  then have f1: "P f1" by simp
  have rule: "P (fo_create_mark_rule ops m c g)" if "P g" for m c g
    using keeps_rule [OF that, of "FwMark m"] by (simp add: create_action_rule_def)
  have "P g'" if "P g" "create_detour_rule ops m g s = Inr g'" for g m s g'
    using that rule by (auto simp: create_detour_rule_def result_simps)
  then have "P g'" if "P g" "runtime_detour ops cfg marks reg g server = Inr g'" for reg g server g'
    using that by (auto simp: runtime_detour_def elim: fold_result_invariant split: option.splits if_splits)
  then have "P g'" if "P g" "fold_result (runtime_detour ops cfg marks reg) g servers = Inr g'" for reg g servers g'
    using that by (auto elim: fold_result_invariant)
  then show ?thesis using detours f1 by (auto simp: runtime_detours_def result_simps split: option.splits prod.splits sum.splits)
qed

end

end
