(* ===== verification/Nft_Runtime.thy ===== *)
theory Nft_Runtime
  imports Firewall_Runtime
begin

text \<open>
  The runtime on the nftables backend. The backend keeps the contract \<open>firewall_backend\<close>: each call appends rules
  whose first match is the first match of the rules asked for. Together with the meaning of its documents this gives
  the verdict of the kernel on a packet in terms of the configuration, the states the runtime reports and the
  elements of the sets it fills. A small configuration is run at the end.
\<close>

interpretation nft_names: plain_set_names "nft_ops env" for env
  by unfold_locales (simp_all add: nft_ops_def)

section \<open>The nftables backend keeps the contract\<close>

definition pending_action :: "nft_pending_rule \<Rightarrow> fw_action" where
  "pending_action pr = (case npr_action pr of NftMark \<Rightarrow> FwMark (npr_fwmark pr) | NftDrop \<Rightarrow> FwDrop | NftPass \<Rightarrow> FwPass)"

definition nft_decides :: "nft_pending_rule list \<Rightarrow> bool \<Rightarrow> packet \<Rightarrow> fw_action option" where
  "nft_decides prs out p = map_option pending_action (find (\<lambda>pr. fc_apply_output (npr_criteria pr) = out \<and> pending_match pr p) prs)"

lemma nft_decides_simps [simp]:
  "nft_decides [] out p = None"
  "nft_decides (pr # prs) out p
     = (if fc_apply_output (npr_criteria pr) = out \<and> pending_match pr p then Some (pending_action pr) else nft_decides prs out p)"
  by (simp_all add: nft_decides_def)

lemma nft_decides_append:
  "nft_decides (prs @ prs') out p = (case nft_decides prs out p of None \<Rightarrow> nft_decides prs' out p | Some a \<Rightarrow> Some a)"
  by (induction prs) auto

text \<open>The packets of which the rules of one family are a match.\<close>

definition family_match :: "bool \<Rightarrow> firewall_rule_criteria \<Rightarrow> packet \<Rightarrow> bool" where
  "family_match v6 c p \<longleftrightarrow>
     (let own = (v6 = pk_ipv6 p)
      in (case fc_dst_set_name c of None \<Rightarrow> True | Some n \<Rightarrow> own \<and> pk_dst_set p n)
       \<and> (case fc_dscp c of None \<Rightarrow> True | Some d \<Rightarrow> own \<and> pk_dscp p = d)
       \<and> (fc_src_addr c = [] \<or> own \<and> addr_selected v6 (fc_src_addr c) (fc_negate_src_addr c) (pk_src_in p))
       \<and> (fc_dst_addr c = [] \<or> own \<and> addr_selected v6 (fc_dst_addr c) (fc_negate_dst_addr c) (pk_dst_in p))
       \<and> proto_selected (fc_proto c) (pk_proto p)
       \<and> port_selected (fc_src_port c) (fc_negate_src_port c) (pk_sport p)
       \<and> port_selected (fc_dst_port c) (fc_negate_dst_port c) (pk_dport p))"

definition rule_action :: "nft_rule_action \<Rightarrow> u32 \<Rightarrow> fw_action" where
  "rule_action act m = (case act of NftMark \<Rightarrow> FwMark m | NftDrop \<Rightarrow> FwDrop | NftPass \<Rightarrow> FwPass)"

lemma append_rules_decides:
  "nft_decides (nf_pending_rules (append_rules_for_family family act m c fw)) out p
     = (case nft_decides (nf_pending_rules fw) out p of
          Some a \<Rightarrow> Some a
        | None \<Rightarrow> (if fc_apply_output c = out \<and> (family = AF_INET6 \<longrightarrow> fb_ipv6_enabled fw) \<and> family_match (family = AF_INET6) c p
                   then Some (rule_action act m) else None))"
proof -
  let ?v6 = "family = AF_INET6"
  let ?src = "if fc_src_addr c = [] then [] else filter_addrs_by_family (fc_src_addr c) ?v6"
  let ?dst = "if fc_dst_addr c = [] then [] else filter_addrs_by_family (fc_dst_addr c) ?v6"
  define N where "N \<longleftrightarrow> (fc_src_addr c \<noteq> [] \<and> ?src = []) \<or> (fc_dst_addr c \<noteq> [] \<and> ?dst = [])"
  define R where "R = (\<lambda>proto. \<lparr>npr_family = family, npr_action = act, npr_fwmark = m, npr_fwmark_mask = fb_fwmark_mask fw,
      npr_save_conntrack_mark = False, npr_criteria = c\<lparr>fc_proto := proto,
        fc_src_addr := (if fc_src_addr c \<noteq> [] then ?src else fc_src_addr c),
        fc_dst_addr := (if fc_dst_addr c \<noteq> [] then ?dst else fc_dst_addr c)\<rparr>\<rparr>)"
  have rules: "nf_pending_rules (append_rules_for_family family act m c fw) = nf_pending_rules fw
      @ (if ?v6 \<and> \<not> fb_ipv6_enabled fw \<or> N then [] else map R (expand_l4_protos (fc_proto c)))"
    by (simp add: append_rules_for_family_def Let_def R_def N_def)
  have empty: "\<not> family_match ?v6 c p" if N
    using that by (auto simp: N_def family_match_def addr_selected_def filter_addrs_by_family_def Let_def)
  have R: "fc_apply_output (npr_criteria (R proto)) = fc_apply_output c" "pending_action (R proto) = rule_action act m" for proto
    by (cases act; simp add: R_def pending_action_def rule_action_def)+
  have match: "pending_match (R proto) p = family_match ?v6 (c\<lparr>fc_proto := proto\<rparr>) p" if "\<not> N" for proto
    using that by (auto simp: N_def R_def pending_match_def family_match_def addr_selected_def filter_addrs_by_family_def Let_def)
  have protos: "nft_decides (map R (expand_l4_protos (fc_proto c))) out p
      = (if fc_apply_output c = out \<and> family_match ?v6 c p then Some (rule_action act m) else None)" if "\<not> N"
  proof (cases "fc_proto c = L4TcpUdp")
    case True
    then have "family_match ?v6 c p = (family_match ?v6 (c\<lparr>fc_proto := L4Tcp\<rparr>) p \<or> family_match ?v6 (c\<lparr>fc_proto := L4Udp\<rparr>) p)"
      by (auto simp: family_match_def Let_def)
    then show ?thesis using True by (simp add: expand_l4_protos_def match [OF that] R)
  next
    case False
    have "c\<lparr>fc_proto := fc_proto c\<rparr> = c" by simp
    then show ?thesis using False by (simp add: expand_l4_protos_def match [OF that] R)
  qed
  show ?thesis
  proof (cases N)
    case True
    then show ?thesis using empty by (simp add: rules nft_decides_append split: option.splits)
  next
    case False
    then show ?thesis using protos [OF False] by (simp add: rules nft_decides_append split: option.splits)
  qed
qed

lemma append_rules_frame [simp]:
  "fb_ipv6_enabled (append_rules_for_family family act m c fw) = fb_ipv6_enabled fw"
  "fb_global_prefilter (append_rules_for_family family act m c fw) = fb_global_prefilter fw"
  "fb_fwmark_mask (append_rules_for_family family act m c fw) = fb_fwmark_mask fw"
  "nf_created_sets (append_rules_for_family family act m c fw) = nf_created_sets fw"
  by (simp_all add: append_rules_for_family_def Let_def)

lemma nft_create_rule_frame [simp]:
  "fb_ipv6_enabled (nft_create_rule act m c fw) = fb_ipv6_enabled fw"
  "fb_global_prefilter (nft_create_rule act m c fw) = fb_global_prefilter fw"
  "fb_fwmark_mask (nft_create_rule act m c fw) = fb_fwmark_mask fw"
  "nf_created_sets (nft_create_rule act m c fw) = nf_created_sets fw"
  by (simp_all add: nft_create_rule_def split: option.splits)

text \<open>The family of the sets the runtime names.\<close>

definition name_v6 :: "string \<Rightarrow> bool" where
  "name_v6 n \<longleftrightarrow> take 5 n = ''kpbr6''"

lemma family_match_criteria:
  "fc_dst_set_name c = None \<Longrightarrow> family_match (pk_ipv6 p) c p = criteria_match sets c p"
  "fc_dst_set_name c = Some n \<Longrightarrow> family_match (sets n) c p = criteria_match sets c p"
  "fc_dst_set_name c = None \<Longrightarrow> family_match v6 c p \<Longrightarrow> criteria_match sets c p"
  by (auto simp: family_match_def criteria_match_def addr_selected_def Let_def split: option.splits)

lemma nft_create_rule_decides:
  assumes "fb_ipv6_enabled fw \<or> \<not> pk_ipv6 p"
    and "\<And>n. fc_dst_set_name c = Some n \<Longrightarrow> map_of (nf_created_sets fw) n = Some (if name_v6 n then AF_INET6 else AF_INET)"
  shows "nft_decides (nf_pending_rules (nft_create_rule act m c fw)) out p
     = (case nft_decides (nf_pending_rules fw) out p of
          Some a \<Rightarrow> Some a
        | None \<Rightarrow> (if fc_apply_output c = out \<and> criteria_match name_v6 c p then Some (rule_action act m) else None))"
proof (cases "fc_dst_set_name c")
  case (Some n)
  have fam: "(if name_v6 n then AF_INET6 else AF_INET) = AF_INET6 \<longleftrightarrow> name_v6 n" by (simp add: AF_INET_def AF_INET6_def)
  have "criteria_match name_v6 c p \<Longrightarrow> name_v6 n = pk_ipv6 p" using Some by (simp add: criteria_match_def)
  then show ?thesis using Some assms
    by (auto simp: nft_create_rule_def append_rules_decides fam family_match_criteria(2) [OF Some] split: option.splits)
next
  case None
  have other: "family_match v6 c p \<Longrightarrow> criteria_match name_v6 c p" for v6 by (rule family_match_criteria(3) [OF None])
  show ?thesis
  proof (cases "needs_family_specific_rule c")
    case True
    have "(family_match False c p \<or> fb_ipv6_enabled fw \<and> family_match True c p) = criteria_match name_v6 c p"
      using family_match_criteria(1) [OF None, of p name_v6] other assms(1) by (cases "pk_ipv6 p") auto
    then show ?thesis using None True
      by (auto simp: nft_create_rule_def append_rules_decides AF_INET_def AF_INET6_def split: option.splits)
  next
    case False
    then have "family_match False c p = criteria_match name_v6 c p"
      using None by (auto simp: family_match_def criteria_match_def needs_family_specific_rule_def addr_selected_def)
    then show ?thesis using None False
      by (auto simp: nft_create_rule_def append_rules_decides AF_INET_def AF_INET6_def split: option.splits)
  qed
qed

definition nft_rules_uniform :: "u32 \<Rightarrow> nft_pending_rule list \<Rightarrow> bool" where
  "nft_rules_uniform m prs \<longleftrightarrow> list_all (\<lambda>pr. npr_fwmark_mask pr = m \<and> fc_proto (npr_criteria pr) \<noteq> L4TcpUdp) prs"

lemma append_rules_uniform:
  "nft_rules_uniform (fb_fwmark_mask fw) (nf_pending_rules fw)
     \<Longrightarrow> nft_rules_uniform (fb_fwmark_mask fw) (nf_pending_rules (append_rules_for_family family act m c fw))"
  by (auto simp: append_rules_for_family_def nft_rules_uniform_def expand_l4_protos_def Let_def)

lemma nft_create_rule_uniform:
  "nft_rules_uniform (fb_fwmark_mask fw) (nf_pending_rules fw)
     \<Longrightarrow> nft_rules_uniform (fb_fwmark_mask fw) (nf_pending_rules (nft_create_rule act m c fw))"
  unfolding nft_create_rule_def
  using append_rules_uniform append_rules_uniform [of "append_rules_for_family AF_INET act m c fw"]
  by (auto split: option.splits)

definition nft_buffers :: "'w \<Rightarrow> requested \<Rightarrow> nft_firewall \<times> 'w \<Rightarrow> bool" where
  "nft_buffers w q s \<longleftrightarrow>
     (let fw = fst s
      in snd s = w \<and> fb_ipv6_enabled fw = rq_v6 q \<and> fb_global_prefilter fw = rq_prefilter q \<and> fb_fwmark_mask fw = rq_mask q
       \<and> nft_rules_uniform (rq_mask q) (nf_pending_rules fw)
       \<and> (\<forall>n \<in> rq_sets q. map_of (nf_created_sets fw) n = Some (if name_v6 n then AF_INET6 else AF_INET))
       \<and> (\<forall>p out. rq_v6 q \<or> \<not> pk_ipv6 p \<longrightarrow>
            nft_decides (nf_pending_rules fw) out p = first_action name_v6 (for_chain out (rq_rules q)) p))"

lemma create_action_rule_nft:
  "create_action_rule (nft_ops env) a c
     = map_prod (nft_create_rule (case a of FwMark m \<Rightarrow> NftMark | FwDrop \<Rightarrow> NftDrop | FwPass \<Rightarrow> NftPass)
                   (case a of FwMark m \<Rightarrow> m | FwDrop \<Rightarrow> 0 | FwPass \<Rightarrow> 0) c) id"
  by (cases a) (simp_all add: create_action_rule_def nft_ops_def nft_create_mark_rule_def nft_create_drop_rule_def nft_create_pass_rule_def
      fun_eq_iff)

lemma nft_load_entry_frame:
  assumes "nft_load_entry n ty e fw = Inr fw'"
  shows "fw' = fw\<lparr>nf_pending_elements := nf_pending_elements fw'\<rparr>"
  using assms by (cases ty) (auto simp: nft_load_entry_def result_simps)

interpretation nft_backend: firewall_backend "nft_ops env" "nft_buffers w" "\<lambda>s. nf_pending_rules (fst s) = [] \<and> snd s = w" name_v6 for env w
proof
  show "name_v6 (fo_static_set_name (nft_ops env) f n AF_INET6)" "\<not> name_v6 (fo_static_set_name (nft_ops env) f n AF_INET)"
    "name_v6 (fo_dynamic_set_name (nft_ops env) f n AF_INET6)" "\<not> name_v6 (fo_dynamic_set_name (nft_ops env) f n AF_INET)" for f n
    by (simp_all add: nft_ops_def name_v6_def default_static_set_name_def default_dynamic_set_name_def AF_INET_def AF_INET6_def)
  show "nft_buffers w \<lparr>rq_v6 = v6, rq_prefilter = pf, rq_mask = m, rq_sets = {}, rq_rules = []\<rparr>
      (fo_set_fwmark_mask (nft_ops env) m (fo_set_global_prefilter (nft_ops env) pf (fo_prepare_apply (nft_ops env) mode
        (fo_set_clear_dynamic_sets (nft_ops env) b (fo_set_ipv6_enabled (nft_ops env) v6 f)))))"
    if "nf_pending_rules (fst f) = [] \<and> snd f = w" for f v6 pf m mode b
    using that by (simp add: nft_buffers_def nft_ops_def nft_rules_uniform_def Let_def)
  show "nft_buffers w (set_requested n q) f'"
    if "nft_buffers w q f" "fo_create_ipset (nft_ops env) n family t f = Inr f'" "name_v6 n = (family = AF_INET6)"
      "family = AF_INET \<or> family = AF_INET6 \<and> rq_v6 q" for q f n family t f'
    using that by (auto simp: nft_buffers_def nft_ops_def nft_create_ipset_def map_of_smap_put Let_def)
  show "nft_buffers w q (fo_create_batch_loader (nft_ops env) n f)" if "nft_buffers w q f" for q f n
    using that by (auto simp: nft_buffers_def nft_ops_def nft_create_batch_loader_def Let_def)
  show "nft_buffers w q f'" if buf: "nft_buffers w q f" and load: "fo_load_entry (nft_ops env) n ty e f = Inr f'" for q f n ty e f'
  proof -
    obtain fw where fw: "nft_load_entry n ty e (fst f) = Inr fw" "f' = (fw, snd f)"
      using load by (auto simp: nft_ops_def result_simps)
    have "nf_pending_rules fw = nf_pending_rules (fst f)" "fb_ipv6_enabled fw = fb_ipv6_enabled (fst f)"
      "fb_global_prefilter fw = fb_global_prefilter (fst f)" "fb_fwmark_mask fw = fb_fwmark_mask (fst f)"
      "nf_created_sets fw = nf_created_sets (fst f)"
      by (subst nft_load_entry_frame [OF fw(1)], simp)+
    then show ?thesis using buf fw(2) by (simp add: nft_buffers_def Let_def)
  qed
  show "nft_buffers w (rule_requested (a, c) q) (create_action_rule (nft_ops env) a c f)"
    if buf: "nft_buffers w q f" and sets: "\<And>n. fc_dst_set_name c = Some n \<Longrightarrow> n \<in> rq_sets q" for q f a c
  proof -
    let ?act = "case a of FwMark m \<Rightarrow> NftMark | FwDrop \<Rightarrow> NftDrop | FwPass \<Rightarrow> NftPass"
    let ?m = "case a of FwMark m \<Rightarrow> m | FwDrop \<Rightarrow> 0 | FwPass \<Rightarrow> 0"
    have act: "rule_action ?act ?m = a" by (cases a) (simp_all add: rule_action_def)
    have known: "map_of (nf_created_sets (fst f)) n = Some (if name_v6 n then AF_INET6 else AF_INET)"
      if "fc_dst_set_name c = Some n" for n
      using buf sets [OF that] by (simp add: nft_buffers_def Let_def)
    have uniform: "nft_rules_uniform (rq_mask q) (nf_pending_rules (nft_create_rule ?act ?m c (fst f)))"
      using buf nft_create_rule_uniform [of "fst f"] by (simp add: nft_buffers_def Let_def)
    have "nft_decides (nf_pending_rules (nft_create_rule ?act ?m c (fst f))) out p
        = first_action name_v6 (for_chain out (rq_rules q @ [(a, c)])) p" if "rq_v6 q \<or> \<not> pk_ipv6 p" for out p
    proof -
      have "fb_ipv6_enabled (fst f) \<or> \<not> pk_ipv6 p" using buf that by (simp add: nft_buffers_def Let_def)
      note new = nft_create_rule_decides [OF this known, where act = ?act and m = ?m and out = out, unfolded act]
      have "nft_decides (nf_pending_rules (fst f)) out p = first_action name_v6 (for_chain out (rq_rules q)) p"
        using buf that unfolding nft_buffers_def Let_def by blast
      then show ?thesis using new by (simp add: first_action_append split: option.splits)
    qed
    then show ?thesis using buf uniform by (simp add: create_action_rule_nft nft_buffers_def Let_def)
  qed
qed

section \<open>From the configuration to the verdict of the kernel\<close>

text \<open>The packets a realised state is about: those of its criteria that are in one of its sets of their family, or,
  when it has no set, all of them if it selects anything at all.\<close>

definition state_selects :: "packet \<Rightarrow> rule_state \<Rightarrow> bool" where
  "state_selects p rs \<longleftrightarrow> state_action rs \<noteq> None \<and> criteria_match name_v6 (rst_criteria rs) p
     \<and> (if rst_set_names rs = [] then has_rule_selector (rst_criteria rs)
        else list_ex (\<lambda>n. name_v6 n = pk_ipv6 p \<and> pk_dst_set p n) (rst_set_names rs))"

text \<open>What an action does under a mask: a mark replaces the bits of the mask and is saved in the connection.\<close>

definition action_result :: "u32 \<Rightarrow> fw_action \<Rightarrow> packet \<Rightarrow> bool \<times> packet" where
  "action_result m a p =
     (case a of
        FwMark k \<Rightarrow> (let x = (pk_mark p AND NOT m) OR k in (True, p\<lparr>pk_mark := x, pk_ctmark := x AND m\<rparr>))
      | FwDrop \<Rightarrow> (False, p)
      | FwPass \<Rightarrow> (True, p))"

definition action_verdict :: "u32 \<Rightarrow> fw_action option \<Rightarrow> packet \<Rightarrow> bool \<times> packet" where
  "action_verdict m a p = (case a of None \<Rightarrow> (True, p) | Some a \<Rightarrow> action_result m a p)"

definition config_verdict :: "firewall_global_prefilter \<Rightarrow> u32 \<Rightarrow> rule_state list \<Rightarrow> packet \<Rightarrow> bool \<times> packet" where
  "config_verdict pf m states p =
     (if prefilter_restores pf p then (True, p\<lparr>pk_mark := pk_ctmark p AND m\<rparr>)
      else if prefilter_bypasses pf p then (True, p)
      else action_verdict m (Option.bind (find (state_selects p) states) state_action) p)"

definition plain_criteria :: "rule_state \<Rightarrow> bool" where
  "plain_criteria rs \<longleftrightarrow> fc_dst_set_name (rst_criteria rs) = None \<and> \<not> fc_apply_output (rst_criteria rs)"

lemma criteria_match_set:
  "fc_dst_set_name c = None \<Longrightarrow> criteria_match sets (c\<lparr>fc_dst_set_name := Some n\<rparr>) p
     = (sets n = pk_ipv6 p \<and> pk_dst_set p n \<and> criteria_match sets c p)"
  by (auto simp: criteria_match_def)

lemma first_action_names:
  assumes "fc_dst_set_name c = None"
  shows "first_action sets (map (\<lambda>n. (a, c\<lparr>fc_dst_set_name := Some n\<rparr>)) names) p
    = (if criteria_match sets c p \<and> list_ex (\<lambda>n. sets n = pk_ipv6 p \<and> pk_dst_set p n) names then Some a else None)"
  by (induction names) (auto simp: criteria_match_set [OF assms])

lemma for_chain_uniform:
  "list_all (\<lambda>r. fc_apply_output (snd r) = out) rs \<Longrightarrow> for_chain out rs = rs"
  "list_all (\<lambda>r. fc_apply_output (snd r) \<noteq> out) rs \<Longrightarrow> for_chain out rs = []"
  by (induction rs) auto

lemma state_rules_output:
  assumes "plain_criteria rs"
  shows "for_chain False (state_rules rs) = state_rules rs \<and> for_chain True (state_rules rs) = []"
proof -
  have "list_all (\<lambda>r. \<not> fc_apply_output (snd r)) (state_rules rs)"
    using assms by (cases "state_action rs") (simp_all add: state_rules_def name_rules_def plain_criteria_def list.pred_map comp_def list.pred_True)
  then show ?thesis by (simp add: for_chain_uniform)
qed

lemma state_rules_action:
  assumes "plain_criteria rs"
  shows "first_action name_v6 (state_rules rs) p = (if state_selects p rs then state_action rs else None)"
proof -
  have "fc_dst_set_name (rst_criteria rs) = None" using assms by (simp add: plain_criteria_def)
  note names = first_action_names [OF this, of name_v6]
  show ?thesis
    by (cases "state_action rs") (auto simp: state_rules_def name_rules_def state_selects_def names)
qed

lemma states_action:
  assumes "list_all plain_criteria states"
  shows "first_action name_v6 (for_chain False (concat (map state_rules states))) p
      = Option.bind (find (state_selects p) states) state_action"
    and "for_chain True (concat (map state_rules states)) = []"
  using assms
proof (induction states)
  case (Cons rs states)
  { case 1
    have "state_selects p rs \<Longrightarrow> \<exists>a. state_action rs = Some a" by (auto simp: state_selects_def)
    then show ?case using Cons.IH(1) 1 state_rules_output [of rs] state_rules_action [of rs p]
      by (auto simp: first_action_append)
  }
  { case 2
    then show ?case using Cons.IH(2) state_rules_output [of rs] by simp
  }
qed simp_all

lemma runtime_rule_plain:
  assumes "runtime_rule ops env cfg v6 (acc, cache, f) (rule, rs) = Inr (acc', cache', f')"
    and "list_all plain_criteria acc" "plain_criteria rs"
  shows "list_all plain_criteria acc'"
  using assms
  by (auto simp: runtime_rule_def plain_criteria_def criteria_without_set split: sum.splits if_splits)

lemma build_states_plain: "list_all plain_criteria (build_fw_rule_states cfg marks sel)"
  by (auto simp: list_all_iff build_fw_rule_states_def build_fw_rule_state_def base_rule_state_def plain_criteria_def
      default_criteria_def Let_def split: option.splits prod.splits)

lemma runtime_states_plain:
  assumes "queue_runtime_firewall ops env resolve cfg marks sel mode f c = Inr (states, f', c')"
  shows "list_all plain_criteria states"
proof -
  have "list_all plain_criteria acc'"
    if "fold_result (runtime_rule ops env cfg v6) (acc, cache, f) xs = Inr (acc', cache', f')"
      "list_all plain_criteria acc" "list_all plain_criteria (map snd xs)" for v6 acc cache f xs acc' cache' f'
    using that
  proof (induction xs arbitrary: acc cache f)
    case (Cons x xs)
    obtain rule rs where x: "x = (rule, rs)" by (cases x)
    obtain acc1 cache1 f1 where x1: "runtime_rule ops env cfg v6 (acc, cache, f) (rule, rs) = Inr (acc1, cache1, f1)"
      and rest: "fold_result (runtime_rule ops env cfg v6) (acc1, cache1, f1) xs = Inr (acc', cache', f')"
      using Cons.prems(1) x by (auto split: sum.splits)
    show ?case by (rule Cons.IH [OF rest]) (use runtime_rule_plain [OF x1] Cons.prems(2,3) x in auto)
  qed simp
  from this [of _ "[]" "[]"] show ?thesis
    using assms build_states_plain [of cfg marks "Some sel"]
    by (fastforce simp: queue_runtime_firewall_def Let_def list_all_iff split: sum.splits dest: in_set_zipE)
qed

text \<open>The verdict of the chains over the buffered rules, in terms of their actions.\<close>

lemma saved_rules:
  assumes "nft_rules_uniform m (nf_pending_rules fw)" and "gp_restore_conntrack_mark (fb_global_prefilter fw)"
    and "gp_conntrack_mark_mask (fb_global_prefilter fw) \<noteq> 0"
  shows "(case find (\<lambda>pr. fc_apply_output (npr_criteria pr) = out \<and> pending_match pr p) (nf_pending_rules (nft_save_marks fw)) of
            None \<Rightarrow> (True, p) | Some pr \<Rightarrow> pending_result pr p)
    = action_verdict m (nft_decides (nf_pending_rules fw) out p) p"
proof -
  have full: "(- 4294967296 :: u32) = 0" by simp
  have result: "pending_result (pr\<lparr>npr_save_conntrack_mark := True\<rparr>) p = action_result m (pending_action pr) p"
    if "npr_fwmark_mask pr = m" for pr
    using that
    by (cases "npr_action pr") (auto simp: pending_result_def action_result_def pending_action_def marked_packet_def Let_def full)
  have match: "pending_match (pr\<lparr>npr_save_conntrack_mark := b\<rparr>) p = pending_match pr p" for pr b
    by (simp add: pending_match_def)
  have "(case find (\<lambda>pr. fc_apply_output (npr_criteria pr) = out \<and> pending_match pr p)
            (map (\<lambda>pr. pr\<lparr>npr_save_conntrack_mark := True\<rparr>) prs) of None \<Rightarrow> (True, p) | Some pr \<Rightarrow> pending_result pr p)
      = action_verdict m (nft_decides prs out p) p" if "nft_rules_uniform m prs" for prs
    using that by (induction prs) (auto simp: match result action_verdict_def nft_rules_uniform_def)
  then show ?thesis using assms by (simp add: nft_save_marks_def)
qed

lemma detour_rules_output: "for_chain True (runtime_detour_rules env resolve cfg marks c) = runtime_detour_rules env resolve cfg marks c"
  "for_chain False (runtime_detour_rules env resolve cfg marks c) = []"
proof -
  have "list_all (\<lambda>r. fc_apply_output (snd r)) (detour_rules cfg marks reg servers)" for reg servers
    by (auto simp: list_all_iff detour_rules_def dns_criteria_def split: option.splits)
  then have "list_all (\<lambda>r. fc_apply_output (snd r)) (runtime_detour_rules env resolve cfg marks c)"
    by (simp add: runtime_detour_rules_def split: option.split sum.split)
  then show "for_chain True (runtime_detour_rules env resolve cfg marks c) = runtime_detour_rules env resolve cfg marks c"
    "for_chain False (runtime_detour_rules env resolve cfg marks c) = []"
    by (simp_all add: for_chain_uniform)
qed

lemma runtime_nft_decides:
  assumes "queue_runtime_firewall (nft_ops nenv) env resolve cfg marks sel mode (fw, w) c = Inr (states, (fw', w'), c')"
    and "nf_pending_rules fw = []" "fwmark_mask_value (value_or (cfg_fwmark cfg) default_fwmark_config) = Inr m"
  shows "fb_global_prefilter fw' = runtime_prefilter cfg m" "nft_rules_uniform m (nf_pending_rules fw')"
    and "w' = w"
    and "fst (resolve_ipv6_support (re_probes env) cfg) \<or> \<not> pk_ipv6 p \<Longrightarrow>
      nft_decides (nf_pending_rules fw') False p = Option.bind (find (state_selects p) states) state_action"
    and "fst (resolve_ipv6_support (re_probes env) cfg) \<or> \<not> pk_ipv6 p \<Longrightarrow>
      nft_decides (nf_pending_rules fw') True p = first_action name_v6 (runtime_detour_rules env resolve cfg marks c) p"
proof -
  obtain S where S: "nft_buffers w \<lparr>rq_v6 = fst (resolve_ipv6_support (re_probes env) cfg), rq_prefilter = runtime_prefilter cfg m,
      rq_mask = m, rq_sets = S,
      rq_rules = concat (map state_rules states) @ runtime_detour_rules env resolve cfg marks c\<rparr> (fw', w')"
    using nft_backend.runtime_requests [OF _ assms(3,1)] assms(2) by auto
  then show "fb_global_prefilter fw' = runtime_prefilter cfg m" "nft_rules_uniform m (nf_pending_rules fw')" "w' = w"
    by (simp_all add: nft_buffers_def Let_def)
  note act = states_action [OF runtime_states_plain [OF assms(1)]]
  show "nft_decides (nf_pending_rules fw') False p = Option.bind (find (state_selects p) states) state_action"
    "nft_decides (nf_pending_rules fw') True p = first_action name_v6 (runtime_detour_rules env resolve cfg marks c) p"
    if "fst (resolve_ipv6_support (re_probes env) cfg) \<or> \<not> pk_ipv6 p"
    using S that act by (auto simp: nft_buffers_def Let_def detour_rules_output)
qed

text \<open>
  What the kernel does with the backend's commands: the listing tells which of the two chains exist, and a document
  that loads has the documented effect of its commands.
\<close>

definition nft_kernel :: "'w nft_env \<Rightarrow> ('w \<Rightarrow> nft_chains) \<Rightarrow> 'w \<Rightarrow> bool" where
  "nft_kernel nenv held w \<longleftrightarrow>
     chains_listed (read_live_table_state (ne_parse_json nenv) (fst (ne_list_table nenv w))) (held (snd (ne_list_table nenv w)))
     \<and> (\<forall>cmds w1 w2. ne_load nenv (JObject [(''nftables'', JArray cmds)]) w1 = (0, w2) \<longrightarrow> held w2 = nft_load (held w1) cmds)"

lemma nft_apply_chains:
  assumes "nft_apply nenv mode (fw, w) = (Inr (), (fw', w'))" and "mode \<noteq> StaticSetsOnly" and "nft_kernel nenv held w"
    and "nft_rules_uniform m (nf_pending_rules fw)"
  shows "\<exists>pre out. held w' CHAIN_NAME = Some pre \<and> held w' OUTPUT_CHAIN_NAME = Some out
    \<and> (\<forall>p. nft_chain pre p = prerouting_verdict (fb_global_prefilter fw) (nf_pending_rules (nft_save_marks fw)) p)
    \<and> (\<forall>p. nft_chain out p = output_verdict (nf_pending_rules (nft_save_marks fw)) p)"
proof -
  obtain captured w1 where list: "ne_list_table nenv w = (captured, w1)" by (cases "ne_list_table nenv w")
  let ?live = "read_live_table_state (ne_parse_json nenv) captured"
  let ?clear = "mode = Destructive \<and> fb_clear_dynamic_sets_on_apply (nft_save_marks fw)"
  obtain cmds where cmds: "build_apply_document ?live (\<not> lts_table_exists ?live) False ?clear (nft_save_marks fw) = Inr cmds"
    and load: "ne_load nenv (JObject [(''nftables'', JArray cmds)]) w1 = (0, w')"
    using assms(1,2) list by (auto simp: nft_apply_def Let_def split: sum.splits prod.splits if_splits)
  have protos: "list_all (\<lambda>pr. fc_proto (npr_criteria pr) \<noteq> L4TcpUdp) (nf_pending_rules (nft_save_marks fw))"
    using assms(4) by (auto simp: nft_save_marks_def nft_rules_uniform_def list_all_iff)
  have pf: "fb_global_prefilter (nft_save_marks fw) = fb_global_prefilter fw" by (simp add: nft_save_marks_def)
  have "chains_listed ?live (held w1)" "held w' = nft_load (held w1) cmds"
    using assms(3) list load by (auto simp: nft_kernel_def)
  then show ?thesis using document_chains [OF cmds _ protos, of "held w1"] by (simp add: pf)
qed

lemma mask_value_nonzero: "fwmark_mask_value fwc = Inr m \<Longrightarrow> m \<noteq> 0"
  by (auto simp: fwmark_mask_value_def validate_fwmark_mask_def split: sum.splits)


section \<open>A run on an empty kernel\<close>

definition sample_kernel :: "nft_chains nft_env" where
  "sample_kernel = \<lparr>ne_list_table = \<lambda>w. ((1, []), w),
     ne_load = \<lambda>doc w. (case doc of JObject [(k, JArray cmds)] \<Rightarrow> (0, nft_load w cmds) | _ \<Rightarrow> (1, w)),
     ne_table_exists = \<lambda>w. (False, w), ne_delete_table = \<lambda>w. w, ne_parse_json = \<lambda>s. Inl ''unused''\<rparr>"

definition sample_runtime_env :: runtime_env where
  "sample_runtime_env = \<lparr>re_pton4 = \<lambda>s. False, re_pton6 = \<lambda>s. False, re_open_file = \<lambda>s. OpenFailed ''missing'',
     re_cache = \<lparr>cv_has_cache = \<lambda>n. False, cv_cache_path = \<lambda>n. n\<rparr>, re_max_file_size = 1000,
     re_probes = \<lparr>ip_command_exists = \<lambda>k. True, ip_system_supported = True, ip_backend_supported = \<lambda>k. True\<rparr>\<rparr>"

definition sample_rule :: route_rule where
  "sample_rule = \<lparr>rr_dest_addr = None, rr_dest_port = None, rr_dscp = Some 46, rr_enabled = None, rr_list = None,
     rr_outbound = ''vpn'', rr_proto = None, rr_src_addr = None, rr_src_port = None\<rparr>"

definition sample_firewall_config :: config where
  "sample_firewall_config = \<lparr>cfg_api = None, cfg_daemon = None, cfg_dns = None, cfg_fwmark = None, cfg_iproute = None,
     cfg_lists = None, cfg_lists_autoupdate = None, cfg_outbounds = Some [make_outbound ''vpn'' INTERFACE],
     cfg_route = Some \<lparr>rc_inbound_interfaces = None, rc_rules = Some [sample_rule]\<rparr>\<rparr>"

definition sample_packet :: packet where
  "sample_packet = \<lparr>pk_ipv6 = False, pk_iif = ''br0'', pk_proto = ''udp'', pk_sport = Some 5000, pk_dport = Some 5001,
     pk_dscp = 46, pk_src_in = \<lambda>a n. False, pk_dst_in = \<lambda>a n. False, pk_dst_set = \<lambda>n. False, pk_mark = 0, pk_ctmark = 0,
     pk_ct_original = True, pk_ct_dnat = False\<rparr>"

definition sample_state :: rule_state where
  "sample_state = \<lparr>rst_rule_index = 0, rst_list_names = [], rst_set_names = [], rst_outbound_tag = ''vpn'',
     rst_action_type = ActMark, rst_fwmark = 0x10000, rst_criteria = default_criteria\<lparr>fc_dscp := Some 46\<rparr>\<rparr>"

lemma sample_mask: "fwmark_mask_value default_fwmark_config = Inr 0x00FF0000"
proof -
  have "parse_fwmark_mask_or_throw default_fwmark_config = Inr 0x00FF0000"
    using default_marks(1) by (simp add: default_fwmark_def default_fwmark_config_def)
  then show ?thesis unfolding fwmark_mask_value_def by simp code_simp
qed

lemma sample_states: "build_fw_rule_states sample_firewall_config [(''vpn'', 0x10000)] (Some [])
  = [sample_state\<lparr>rst_criteria := default_criteria\<rparr>]"
  by (simp add: build_fw_rule_states_def route_rules_def sample_firewall_config_def build_fw_rule_state_def sample_rule_def
     route_rule_enabled_def resolve_route_action_def make_outbound_def decision_route_to_def decision_none_def effective_outbound_def
     base_rule_state_def route_rule_lists_def possible_set_names_def sample_state_def Let_def)

lemma sample_criteria: "build_firewall_rule_criteria f g sample_rule = Inr (default_criteria\<lparr>fc_dscp := Some 46\<rparr>)"
  by (simp add: build_firewall_rule_criteria_def sample_rule_def parse_rule_proto_def strip_neg_def parse_port_spec_def parse_addr_spec_def default_criteria_def)

lemma sample_ipv6: "fst (resolve_ipv6_support (re_probes sample_runtime_env) sample_firewall_config)"
  by (simp add: resolve_ipv6_support_def sample_runtime_env_def sample_firewall_config_def firewall_ipv6_supported_def
    resolve_firewall_backend_def firewall_backend_preference_def default_daemon_config_def detect_firewall_backend_def)

lemma sample_config_simps:
  "cfg_fwmark sample_firewall_config = None" "cfg_dns sample_firewall_config = None" "route_rules sample_firewall_config = [sample_rule]"
  "route_rule_lists sample_rule = []"
  by (simp_all add: sample_firewall_config_def route_rules_def sample_rule_def route_rule_lists_def)

definition sample_rules :: "nft_pending_rule list" where
  "sample_rules = map (\<lambda>family. \<lparr>npr_family = family, npr_action = NftMark, npr_fwmark = 0x10000, npr_fwmark_mask = 0x00FF0000,
      npr_save_conntrack_mark = False, npr_criteria = default_criteria\<lparr>fc_dscp := Some 46\<rparr>\<rparr>) [AF_INET, AF_INET6]"

definition sample_queued :: nft_firewall where
  "sample_queued = new_nft_firewall\<lparr>nf_pending_rules := sample_rules, fb_fwmark_mask := 0x00FF0000,
     fb_global_prefilter := runtime_prefilter sample_firewall_config 0x00FF0000\<rparr>"

lemma sample_queue: "queue_runtime_firewall (nft_ops sample_kernel) sample_runtime_env (\<lambda>c. (Inr [], c)) sample_firewall_config
    [(''vpn'', 0x10000)] [] Destructive (new_nft_firewall, \<lambda>n. None) ()
  = Inr ([sample_state], (sample_queued, \<lambda>n. None), ())"
  using sample_mask sample_ipv6
  by (simp add: queue_runtime_firewall_def Let_def sample_states sample_config_simps runtime_rule_def sample_criteria runtime_detours_def)
    (simp add: sample_state_def has_rule_selector_def default_criteria_def apply_rule_def state_action_def create_action_rule_def
      nft_ops_def runtime_begin_def nft_create_mark_rule_def nft_create_rule_def append_rules_for_family_def needs_family_specific_rule_def
      expand_l4_protos_def sample_queued_def new_nft_firewall_def sample_rules_def sample_firewall_config_def default_daemon_config_def Let_def AF_INET_def AF_INET6_def)

lemma sample_apply: "\<exists>fw' w'. apply_runtime_firewall (nft_ops sample_kernel) sample_runtime_env (\<lambda>c. (Inr [], c)) sample_firewall_config
    [(''vpn'', 0x10000)] [] Destructive (new_nft_firewall, \<lambda>n. None) () = Inr ([sample_state], (fw', w'), ())"
proof -
  have doc: "\<exists>cmds. build_apply_document empty_live_state True False b (nft_save_marks sample_queued) = Inr cmds" for b
    by (simp add: build_apply_document_def sample_queued_def nft_save_marks_def sample_rules_def new_nft_firewall_def build_rule_add_commands_def
      build_rule_json_def build_mark_rule_json_def rule_match_exprs_def build_addr_match_exprs_def addr_match_def default_criteria_def Let_def)
  obtain cmds where cmds: "build_apply_document empty_live_state True False (fb_clear_dynamic_sets_on_apply (nft_save_marks sample_queued))
      (nft_save_marks sample_queued) = Inr cmds"
    using doc by blast
  have live: "read_live_table_state (ne_parse_json sample_kernel) (1, []) = empty_live_state" "\<not> lts_table_exists empty_live_state"
    by (simp_all add: read_live_table_state_def empty_live_state_def)
  have "ne_list_table sample_kernel w = ((1, []), w)" "ne_load sample_kernel (JObject [(''nftables'', JArray cmds)]) w = (0, nft_load w cmds)" for w
    by (simp_all add: sample_kernel_def)
  then have "\<exists>fw' w'. nft_apply sample_kernel Destructive (sample_queued, \<lambda>n. None) = (Inr (), (fw', w'))"
    by (simp add: nft_apply_def Let_def live cmds)
  then show ?thesis unfolding apply_runtime_firewall_def sample_queue by (auto simp: nft_ops_def)
qed

lemma sample_verdict: "config_verdict (runtime_prefilter sample_firewall_config 0x00FF0000) 0x00FF0000 [sample_state] sample_packet
  = (True, sample_packet\<lparr>pk_mark := 0x10000, pk_ctmark := 0x10000\<rparr>)"
  by (simp add: config_verdict_def prefilter_restores_def prefilter_bypasses_def runtime_prefilter_def build_firewall_global_prefilter_def
    default_prefilter_def sample_firewall_config_def default_daemon_config_def sample_packet_def action_verdict_def action_result_def
    state_selects_def sample_state_def state_action_def criteria_match_def default_criteria_def addr_selected_def port_selected_def
    has_rule_selector_def Let_def)




section \<open>The elements of the sets\<close>

definition element_json :: "entry_type \<times> string \<Rightarrow> json result" where
  "element_json te = (if fst te = EntryCidr then cidr_to_nft_prefix_json (snd te) else Inr (JString (snd te)))"

definition family_entries :: "bool \<Rightarrow> (entry_type \<times> string) list \<Rightarrow> (entry_type \<times> string) list" where
  "family_entries v6 es = filter (\<lambda>te. fst te \<noteq> EntryDomain \<and> is_ipv6_addr (snd te) = v6) es"

definition elements_of :: "nft_firewall \<Rightarrow> string \<Rightarrow> json list" where
  "elements_of fw n = (case map_of (nf_pending_elements fw) n of None \<Rightarrow> [] | Some l \<Rightarrow> l)"

lemma load_entry_elements:
  assumes "nft_load_entry n ty e fw = Inr fw'" and "ty \<noteq> EntryDomain"
  shows "\<exists>j. element_json (ty, e) = Inr j \<and> (\<forall>k. elements_of fw' k = elements_of fw k @ (if k = n then [j] else []))"
  using assms
  by (cases ty) (auto simp: nft_load_entry_def element_json_def elements_of_def map_of_smap_put result_simps)

lemma splitter_elements:
  assumes "visit_entries (splitter_on_entry (nft_ops env) n4 n6) (fw, w) es = Inr (fw', w')" and "n6 \<noteq> Some n4"
  shows "\<exists>js4 js6. map_result element_json (family_entries False es) = Inr js4
    \<and> (n6 \<noteq> None \<longrightarrow> map_result element_json (family_entries True es) = Inr js6)
    \<and> elements_of fw' n4 = elements_of fw n4 @ js4
    \<and> (\<forall>n. n6 = Some n \<longrightarrow> elements_of fw' n = elements_of fw n @ js6)"
  using assms(1)
proof (induction es arbitrary: fw w)
  case Nil
  then show ?case by (auto simp: visit_entries_def family_entries_def)
next
  case (Cons te es)
  obtain ty e where te: "te = (ty, e)" by (cases te)
  obtain fw1 w1 where step: "splitter_on_entry (nft_ops env) n4 n6 (fw, w) ty e = Inr (fw1, w1)"
    and rest: "visit_entries (splitter_on_entry (nft_ops env) n4 n6) (fw1, w1) es = Inr (fw', w')"
    using Cons.prems te by (auto simp: visit_entries_def split: sum.splits)
  obtain js4 js6 where js: "map_result element_json (family_entries False es) = Inr js4"
    "n6 \<noteq> None \<longrightarrow> map_result element_json (family_entries True es) = Inr js6"
    "elements_of fw' n4 = elements_of fw1 n4 @ js4" "\<forall>n. n6 = Some n \<longrightarrow> elements_of fw' n = elements_of fw1 n @ js6"
    using Cons.IH [OF rest] by blast
  consider (skip) "ty = EntryDomain \<or> is_ipv6_addr e \<and> n6 = None" | (four) "ty \<noteq> EntryDomain" "\<not> is_ipv6_addr e"
    | (six) n where "ty \<noteq> EntryDomain" "is_ipv6_addr e" "n6 = Some n" by (cases n6) blast+
  then show ?case
  proof cases
    case skip
    then have "fw1 = fw" using step by (auto simp: splitter_on_entry_def is_ipv6_addr_def split: if_splits)
    then show ?thesis using js skip te by (auto simp: family_entries_def)
  next
    case four
    then have "nft_load_entry n4 ty e fw = Inr fw1"
      using step by (auto simp: splitter_on_entry_def is_ipv6_addr_def nft_ops_def result_simps)
    from load_entry_elements [OF this four(1)] obtain j where "element_json (ty, e) = Inr j"
      "\<forall>k. elements_of fw1 k = elements_of fw k @ (if k = n4 then [j] else [])" by blast
    then have "map_result element_json (family_entries False (te # es)) = Inr (j # js4)"
      "elements_of fw' n4 = elements_of fw n4 @ (j # js4)" "family_entries True (te # es) = family_entries True es"
      "\<forall>n. n6 = Some n \<longrightarrow> elements_of fw' n = elements_of fw n @ js6"
      using js four te assms(2) by (auto simp: family_entries_def)
    then show ?thesis using js(2) by metis
  next
    case six
    then have "nft_load_entry n ty e fw = Inr fw1"
      using step by (auto simp: splitter_on_entry_def is_ipv6_addr_def nft_ops_def result_simps)
    from load_entry_elements [OF this six(1)] obtain j where "element_json (ty, e) = Inr j"
      "\<forall>k. elements_of fw1 k = elements_of fw k @ (if k = n then [j] else [])" by blast
    then have "map_result element_json (family_entries True (te # es)) = Inr (j # js6)"
      "family_entries False (te # es) = family_entries False es" "elements_of fw' n4 = elements_of fw n4 @ js4"
      "\<forall>k. n6 = Some k \<longrightarrow> elements_of fw' k = elements_of fw k @ (j # js6)"
      using js six te assms(2) by (auto simp: family_entries_def)
    then show ?thesis using js(1) by metis
  qed
qed

text \<open>C29. The sets of a list receive the entries of the list. Loading a list into its IPv4 and IPv6 sets buffers for each
  of them the addresses and prefixes of its family, in the order of the list's sources, each as the address text
  or as the prefix it denotes; domains are left out. An entry that cannot be encoded makes the load fail.\<close>

theorem list_sets_filled:
  assumes "load_static_entries (nft_ops nenv) env v6 name cfg n4 n6 (fw, w) = Inr (fw', w')" and "n4 \<noteq> n6"
  shows "\<exists>es js4 js6. list_entries (re_pton6 env) (re_open_file env) (re_cache env) (re_max_file_size env) name cfg = Inr es
    \<and> map_result element_json (family_entries False es) = Inr js4 \<and> elements_of fw' n4 = elements_of fw n4 @ js4
    \<and> (v6 \<longrightarrow> map_result element_json (family_entries True es) = Inr js6 \<and> elements_of fw' n6 = elements_of fw n6 @ js6)"
proof -
  let ?n6 = "if v6 then Some n6 else None"
  let ?f1 = "fo_create_batch_loader (nft_ops nenv) n4 (fw, w)"
  let ?f2 = "if v6 then fo_create_batch_loader (nft_ops nenv) n6 ?f1 else ?f1"
  obtain log where "stream_list (re_pton6 env) (splitter_on_entry (nft_ops nenv) n4 ?n6) (re_open_file env)
      (re_cache env) (re_max_file_size env) (\<lambda>v n. v) name cfg ?f2 = Inr ((fw', w'), log)"
    using assms(1) by (auto simp: load_static_entries_def Let_def result_simps)
  from stream_list_visits [OF this] obtain es where
    es: "list_entries (re_pton6 env) (re_open_file env) (re_cache env) (re_max_file_size env) name cfg = Inr es"
    and visit: "visit_entries (splitter_on_entry (nft_ops nenv) n4 ?n6) (fst ?f2, snd ?f2) es = Inr (fw', w')"
    by auto
  have loader: "elements_of (nft_create_batch_loader n g) k = elements_of g k" for n g k
    by (auto simp: nft_create_batch_loader_def elements_of_def map_of_smap_emplace split: option.splits)
  show ?thesis using splitter_elements [OF visit] es assms(2) by (cases v6) (auto simp: nft_ops_def loader)
qed

definition sample_list :: list_config where
  "sample_list = \<lparr>lst_detour = None, lst_domains = None, lst_file = None, lst_ip_cidrs = Some [''10.0.0.0/8'', ''192.0.2.1''],
     lst_ttl_ms = None, lst_url = None\<rparr>"


lemma sample_entries:
  "entry_class (\<lambda>s. False) ''10.0.0.0/8'' = Some (EntryCidr, ''10.0.0.0/8'')"
  "entry_class (\<lambda>s. False) ''192.0.2.1'' = Some (EntryIp, ''192.0.2.1'')"
  "trim ''10.0.0.0/8'' = ''10.0.0.0/8''" "trim ''192.0.2.1'' = ''192.0.2.1''"
  "cidr_to_nft_prefix_json ''10.0.0.0/8'' = Inr (prefix_json ''10.0.0.0'' 8)"
  by (simp_all add: entry_class_def is_ipv4_unfold is_cidr_v4_def is_cidr_v6_def split_first_def from_chars_int_def is_digit_def
      dec_value_def digit_val_def Let_def trim_def trim_by_def is_space_def cidr_to_nft_prefix_json_def)

lemma sample_load: "\<exists>fw'. load_static_entries (nft_ops sample_kernel) sample_runtime_env True ''l'' sample_list ''kpbr4_l'' ''kpbr6_l''
   (new_nft_firewall, \<lambda>n. None) = Inr (fw', \<lambda>n. None)"
  by (simp add: load_static_entries_def stream_list_def stream_all_sources_def stream_optional_file_def sample_list_def
    sample_runtime_env_def Let_def parse_line_def classify_entry_def sample_entries fresh_line_state_def splitter_on_entry_def
    nft_ops_def nft_create_batch_loader_def nft_load_entry_def)

theorem list_sets_filled_witness:
  "\<exists>fw' es. load_static_entries (nft_ops sample_kernel) sample_runtime_env True ''l'' sample_list ''kpbr4_l'' ''kpbr6_l''
      (new_nft_firewall, \<lambda>n. None) = Inr (fw', \<lambda>n. None)
    \<and> list_entries (re_pton6 sample_runtime_env) (re_open_file sample_runtime_env) (re_cache sample_runtime_env)
         (re_max_file_size sample_runtime_env) ''l'' sample_list = Inr es
    \<and> map_result element_json (family_entries False es) = Inr (elements_of fw' ''kpbr4_l'')"
proof -
  obtain fw' where run: "load_static_entries (nft_ops sample_kernel) sample_runtime_env True ''l'' sample_list ''kpbr4_l'' ''kpbr6_l''
      (new_nft_firewall, \<lambda>n. None) = Inr (fw', \<lambda>n. None)"
    using sample_load by blast
  have "elements_of new_nft_firewall n = []" for n by (simp add: elements_of_def new_nft_firewall_def)
  then show ?thesis using list_sets_filled [OF run] run by auto
qed

end
