(* ===== verification/Iptables.thy ===== *)
theory Iptables
  imports Nft_Runtime
begin

text \<open>
  The iptables backend (\<^verbatim>\<open>src/firewall/iptables.{hpp,cpp}\<close>, \<^verbatim>\<open>src/firewall/ipset_restore_pipe.cpp\<close>): the buffers, the
  two generations of static sets and chains, the lines of the restore scripts as text, the apply and the clean-up.
  The commands it runs are parameters: running one for its exit code, running one on an input, and capturing the
  output of one. Scripts are kept as the list of their lines.
\<close>

section \<open>State\<close>

datatype set_generation = GenA | GenB

record ipt_pending_set =
  ips_name :: string
  ips_family_str :: string
  ips_timeout :: u32

datatype ipt_rule_action = IptMark | IptDrop | IptPass

record ipt_pending_rule =
  ipr_ipv6 :: bool
  ipr_action :: ipt_rule_action
  ipr_fwmark :: u32
  ipr_fwmark_mask :: u32
  ipr_criteria :: firewall_rule_criteria

record ipt_firewall = firewall_base +
  if_pending_sets :: "ipt_pending_set list"
  if_pending_elements :: "(string, string list) smap"
  if_pending_rules :: "ipt_pending_rule list"
  if_created_sets :: "(string, int) smap"
  if_chain_v4_created :: bool
  if_chain_v6_created :: bool
  if_active_v4 :: "set_generation option"
  if_active_v6 :: "set_generation option"
  if_target_v4 :: set_generation
  if_target_v6 :: set_generation
  if_apply_prepared :: bool
  if_use_raw :: bool

record 'w ipt_env =
  ie_exec :: "string list \<Rightarrow> 'w \<Rightarrow> int \<times> 'w"
  ie_pipe :: "string list \<Rightarrow> string \<Rightarrow> 'w \<Rightarrow> int \<times> 'w"
  ie_capture :: "string list \<Rightarrow> 'w \<Rightarrow> (int \<times> string) \<times> 'w"

definition IPT_CHAIN :: string where "IPT_CHAIN = ''KeenPbrTable''"
definition RAW_CHAIN :: string where "RAW_CHAIN = ''KeenPbrRaw''"
definition IPT_OUTPUT_CHAIN :: string where "IPT_OUTPUT_CHAIN = ''KeenPbrOutput''"

definition newline :: string where "newline = [CHR 0x0A]"

definition hex_mark :: "u32 \<Rightarrow> string" where
  "hex_mark m = ''0x'' @ hex_string (unat m)"

definition opposite_generation :: "set_generation \<Rightarrow> set_generation" where
  "opposite_generation g = (case g of GenA \<Rightarrow> GenB | GenB \<Rightarrow> GenA)"

definition generation_chain :: "set_generation \<Rightarrow> string" where
  "generation_chain g = (case g of GenA \<Rightarrow> ''KeenPbrTable_A'' | GenB \<Rightarrow> ''KeenPbrTable_B'')"

definition output_generation_chain :: "set_generation \<Rightarrow> string" where
  "output_generation_chain g = (case g of GenA \<Rightarrow> ''KeenPbrOutput_A'' | GenB \<Rightarrow> ''KeenPbrOutput_B'')"

definition prerouting_table_name :: "bool \<Rightarrow> bool \<Rightarrow> string" where
  "prerouting_table_name use_raw v6 = (if use_raw \<and> \<not> v6 then ''raw'' else ''mangle'')"

definition prerouting_dispatcher_chain_name :: "bool \<Rightarrow> bool \<Rightarrow> string" where
  "prerouting_dispatcher_chain_name use_raw v6 = (if use_raw \<and> \<not> v6 then RAW_CHAIN else IPT_CHAIN)"

definition prerouting_generation_chain :: "bool \<Rightarrow> set_generation \<Rightarrow> bool \<Rightarrow> string" where
  "prerouting_generation_chain use_raw g v6 =
     (if use_raw \<and> \<not> v6 then (case g of GenA \<Rightarrow> ''KeenPbrRaw_A'' | GenB \<Rightarrow> ''KeenPbrRaw_B'') else generation_chain g)"

text \<open>The constructor. \<open>tables\<close> are the lines of \<^verbatim>\<open>/proc/net/ip_tables_names\<close> and \<open>release\<close> the result of \<^verbatim>\<open>uname\<close>.\<close>

definition validate_raw_prerouting_capability ::
  "'w ipt_env \<Rightarrow> string list \<Rightarrow> string option \<Rightarrow> ('w, unit) eff" where
  "validate_raw_prerouting_capability env tables release w =
     (let module_path = (case release of
            Some r \<Rightarrow> ''/lib/modules/'' @ r @ ''/iptable_raw.ko''
          | None \<Rightarrow> ''/lib/modules/$(uname -r)/iptable_raw.ko'')
      in case ie_exec env [''iptables'', ''-t'', ''raw'', ''-S''] w of
           (probe, w1) \<Rightarrow>
             (if ''raw'' \<notin> set tables \<or> probe \<noteq> 0
              then (Inl (FirewallError (''--use-raw-prerouting requested, but raw table is unavailable (expected module ''
                     @ module_path @ '', iptables -t raw -S failed); no fallback to mangle PREROUTING was performed'')), w1)
              else (Inr (), w1)))"

definition fresh_ipt_firewall :: "bool \<Rightarrow> ipt_firewall" where
  "fresh_ipt_firewall use_raw = \<lparr>fb_global_prefilter = default_prefilter, fb_fwmark_mask = 0xFFFFFFFF, fb_ipv6_enabled = True,
     fb_clear_dynamic_sets_on_apply = True, if_pending_sets = [], if_pending_elements = [], if_pending_rules = [],
     if_created_sets = [], if_chain_v4_created = False, if_chain_v6_created = False, if_active_v4 = None, if_active_v6 = None,
     if_target_v4 = GenA, if_target_v6 = GenA, if_apply_prepared = False, if_use_raw = use_raw\<rparr>"

definition new_ipt_firewall :: "'w ipt_env \<Rightarrow> string list \<Rightarrow> string option \<Rightarrow> bool \<Rightarrow> ('w, ipt_firewall) eff" where
  "new_ipt_firewall env tables release use_raw w =
     (if use_raw
      then (case validate_raw_prerouting_capability env tables release w of
              (Inl e, w1) \<Rightarrow> (Inl e, w1)
            | (Inr u, w1) \<Rightarrow> (Inr (fresh_ipt_firewall use_raw), w1))
      else (Inr (fresh_ipt_firewall use_raw), w))"

section \<open>Buffering\<close>

definition ipt_clear_pending :: "ipt_firewall \<Rightarrow> ipt_firewall" where
  "ipt_clear_pending fw = fw\<lparr>if_pending_sets := [], if_pending_elements := [], if_pending_rules := []\<rparr>"

definition next_generation :: "firewall_apply_mode \<Rightarrow> set_generation option \<Rightarrow> set_generation" where
  "next_generation mode active =
     (if mode = Destructive then GenA else (case active of Some g \<Rightarrow> opposite_generation g | None \<Rightarrow> GenA))"

definition ipt_prepare_apply :: "firewall_apply_mode \<Rightarrow> ipt_firewall \<Rightarrow> ipt_firewall" where
  "ipt_prepare_apply mode fw =
     (ipt_clear_pending fw)\<lparr>if_target_v4 := next_generation mode (if_active_v4 fw),
        if_target_v6 := next_generation mode (if_active_v6 fw), if_apply_prepared := True\<rparr>"

definition generation_set_name :: "set_generation \<Rightarrow> string \<Rightarrow> int \<Rightarrow> string" where
  "generation_set_name g list_name family =
     ''kpbr'' @ (if family = AF_INET6 then ''6'' else ''4'') @ (case g of GenA \<Rightarrow> ''s'' | GenB \<Rightarrow> ''S'') @ ''_'' @ list_name"

definition ipt_static_set_name :: "ipt_firewall \<Rightarrow> string \<Rightarrow> int \<Rightarrow> string" where
  "ipt_static_set_name fw list_name family =
     generation_set_name (if family = AF_INET6 then if_target_v6 fw else if_target_v4 fw) list_name family"

definition ipt_create_ipset :: "string \<Rightarrow> int \<Rightarrow> u32 \<Rightarrow> ipt_firewall \<Rightarrow> ipt_firewall result" where
  "ipt_create_ipset set_name family timeout fw =
     (let ps = \<lparr>ips_name = set_name, ips_family_str = (if family = AF_INET6 then ''inet6'' else ''inet''), ips_timeout = timeout\<rparr>
      in case find (\<lambda>pending. ips_name pending = set_name) (if_pending_sets fw) of
           None \<Rightarrow> Inr (fw\<lparr>if_pending_sets := if_pending_sets fw @ [ps], if_created_sets := smap_put set_name family (if_created_sets fw)\<rparr>)
         | Some existing \<Rightarrow>
             (if ips_family_str existing \<noteq> ips_family_str ps \<or> ips_timeout existing \<noteq> ips_timeout ps
              then Inl (FirewallError (''conflicting ipset declaration for '' @ set_name))
              else Inr (fw\<lparr>if_created_sets := smap_put set_name family (if_created_sets fw)\<rparr>)))"

definition expand_l4_protos_for_iptables :: "firewall_rule_criteria \<Rightarrow> l4_proto list" where
  "expand_l4_protos_for_iptables c =
     (if fc_proto c = L4Any \<and> (ranges (fc_src_port c) \<noteq> [] \<or> ranges (fc_dst_port c) \<noteq> []) then [L4Tcp, L4Udp]
      else expand_l4_protos (fc_proto c))"

definition family_addrs :: "string list \<Rightarrow> bool \<Rightarrow> string list" where
  "family_addrs addrs v6 = (if addrs = [] then [''''] else filter_addrs_by_family addrs v6)"

definition one_addr :: "string \<Rightarrow> string list" where
  "one_addr a = (if a = [] then [] else [a])"

definition ipt_append_rules ::
  "bool \<Rightarrow> ipt_rule_action \<Rightarrow> u32 \<Rightarrow> firewall_rule_criteria \<Rightarrow> ipt_firewall \<Rightarrow> ipt_firewall" where
  "ipt_append_rules v6 act fwmark c fw =
     (let srcs = family_addrs (fc_src_addr c) v6; dsts = family_addrs (fc_dst_addr c) v6
      in if (fc_src_addr c \<noteq> [] \<and> srcs = []) \<or> (fc_dst_addr c \<noteq> [] \<and> dsts = []) then fw
         else fw\<lparr>if_pending_rules := if_pending_rules fw
                @ concat (map (\<lambda>proto. concat (map (\<lambda>src. map (\<lambda>dst.
                    \<lparr>ipr_ipv6 = v6, ipr_action = act, ipr_fwmark = fwmark, ipr_fwmark_mask = fb_fwmark_mask fw,
                     ipr_criteria = c\<lparr>fc_proto := proto, fc_src_addr := one_addr src, fc_dst_addr := one_addr dst\<rparr>\<rparr>) dsts) srcs))
                  (expand_l4_protos_for_iptables c))\<rparr>)"

definition ipt_create_rule :: "ipt_rule_action \<Rightarrow> u32 \<Rightarrow> firewall_rule_criteria \<Rightarrow> ipt_firewall \<Rightarrow> ipt_firewall" where
  "ipt_create_rule act fwmark c fw =
     (case fc_dst_set_name c of
        Some n \<Rightarrow> ipt_append_rules (map_of (if_created_sets fw) n = Some AF_INET6) act fwmark c fw
      | None \<Rightarrow> ipt_append_rules True act fwmark c (ipt_append_rules False act fwmark c fw))"

definition ipt_create_mark_rule :: "u32 \<Rightarrow> firewall_rule_criteria \<Rightarrow> ipt_firewall \<Rightarrow> ipt_firewall" where
  "ipt_create_mark_rule fwmark c = ipt_create_rule IptMark fwmark c"

definition ipt_create_drop_rule :: "firewall_rule_criteria \<Rightarrow> ipt_firewall \<Rightarrow> ipt_firewall" where
  "ipt_create_drop_rule c = ipt_create_rule IptDrop 0 c"

definition ipt_create_pass_rule :: "firewall_rule_criteria \<Rightarrow> ipt_firewall \<Rightarrow> ipt_firewall" where
  "ipt_create_pass_rule c = ipt_create_rule IptPass 0 c"

definition ipt_create_batch_loader :: "string \<Rightarrow> ipt_firewall \<Rightarrow> ipt_firewall" where
  "ipt_create_batch_loader set_name fw = fw\<lparr>if_pending_elements := smap_emplace set_name [] (if_pending_elements fw)\<rparr>"

definition ipt_load_entry :: "string \<Rightarrow> entry_type \<Rightarrow> string \<Rightarrow> ipt_firewall \<Rightarrow> ipt_firewall" where
  "ipt_load_entry set_name ty entry fw =
     (if ty = EntryDomain then fw
      else fw\<lparr>if_pending_elements := smap_put set_name
             ((case map_of (if_pending_elements fw) set_name of None \<Rightarrow> [] | Some l \<Rightarrow> l)
              @ [''add '' @ set_name @ '' '' @ entry @ '' -exist'' @ newline]) (if_pending_elements fw)\<rparr>)"

section \<open>Lines\<close>

definition negation :: "bool \<Rightarrow> string" where
  "negation b = (if b then '' !'' else '''')"

definition build_ipset_create_line :: "ipt_pending_set \<Rightarrow> string" where
  "build_ipset_create_line ps =
     ''create '' @ ips_name ps @ '' hash:net family '' @ ips_family_str ps
     @ (if ips_timeout ps > 0 then '' timeout '' @ nat_to_string (unat (ips_timeout ps)) else '''') @ '' -exist'' @ newline"

definition build_proto_port_fragment :: "l4_proto \<Rightarrow> port_spec \<Rightarrow> port_spec \<Rightarrow> bool \<Rightarrow> bool \<Rightarrow> string" where
  "build_proto_port_fragment proto src_port dst_port negate_src_port negate_dst_port =
     (let has_src = (ranges src_port \<noteq> []); has_dst = (ranges dst_port \<noteq> []);
          src_list = (has_src \<and> port_spec_kind_of src_port = PortList);
          dst_list = (has_dst \<and> port_spec_kind_of dst_port = PortList);
          proto_frag = (if proto \<noteq> L4Any then '' -p '' @ l4_proto_name proto else '''');
          single_src = (if has_src then negation negate_src_port @ '' --sport '' @ to_iptables_string src_port else '''');
          single_dst = (if has_dst then negation negate_dst_port @ '' --dport '' @ to_iptables_string dst_port else '''')
      in if proto = L4Any \<and> \<not> has_src \<and> \<not> has_dst then ''''
         else proto_frag
              @ (if src_list then '' -m multiport'' @ negation negate_src_port @ '' --sports '' @ to_iptables_string src_port
                 else single_src)
              @ (if dst_list then '' -m multiport'' @ negation negate_dst_port @ '' --dports '' @ to_iptables_string dst_port
                 else single_dst))"

definition single_interface :: "firewall_global_prefilter \<Rightarrow> string option" where
  "single_interface pf = (case gp_inbound_interfaces pf of Some [i] \<Rightarrow> Some i | _ \<Rightarrow> None)"

definition build_prefilter_lines :: "firewall_global_prefilter \<Rightarrow> string \<Rightarrow> bool \<Rightarrow> string list" where
  "build_prefilter_lines pf chain allow_conntrack =
     (if allow_conntrack \<and> gp_restore_conntrack_mark pf \<and> gp_conntrack_mark_mask pf \<noteq> 0
      then let m = hex_mark (gp_conntrack_mark_mask pf)
           in [''-A '' @ chain @ '' -m conntrack --ctdir ORIGINAL -m connmark ! --mark 0/'' @ m
                 @ '' -j CONNMARK --restore-mark --mask '' @ m @ newline,
               ''-A '' @ chain @ '' -m conntrack --ctdir ORIGINAL -m mark ! --mark 0/'' @ m @ '' -j RETURN'' @ newline]
      else [])
     @ (if allow_conntrack \<and> gp_skip_established_or_dnat pf
        then [''-A '' @ chain @ '' -m conntrack --ctstate DNAT -j RETURN'' @ newline] else [])
     @ (if gp_skip_marked_packets pf then [''-A '' @ chain @ '' -m mark ! --mark 0x0/0xffffffff -j ACCEPT'' @ newline] else [])
     @ (case single_interface pf of Some i \<Rightarrow> [''-A '' @ chain @ '' ! -i '' @ i @ '' -j RETURN'' @ newline] | None \<Rightarrow> [])"

text \<open>The part of a text before the first occurrence of another.\<close>

fun before_sub :: "string \<Rightarrow> string \<Rightarrow> string option" where
  "before_sub pat [] = (if pat = [] then Some [] else None)"
| "before_sub pat (c # s) = (if prefix pat (c # s) then Some [] else map_option ((#) c) (before_sub pat s))"

definition append_mark_and_save :: "firewall_global_prefilter \<Rightarrow> bool \<Rightarrow> string \<Rightarrow> string list" where
  "append_mark_and_save pf allow_conntrack mark_line =
     [mark_line]
     @ (if \<not> allow_conntrack \<or> \<not> gp_restore_conntrack_mark pf \<or> gp_conntrack_mark_mask pf = 0 then []
        else (case before_sub '' -j MARK '' mark_line of
                None \<Rightarrow> []
              | Some head \<Rightarrow> [head @ '' -j CONNMARK --save-mark --mask '' @ hex_mark (gp_conntrack_mark_mask pf) @ newline]))"

definition interface_fragments :: "firewall_global_prefilter \<Rightarrow> string list" where
  "interface_fragments pf =
     (case gp_inbound_interfaces pf of
        Some ifs \<Rightarrow> (if length ifs > 1 then map (\<lambda>i. '' -i '' @ i) ifs else [''''])
      | None \<Rightarrow> [''''])"

definition address_fragment :: "firewall_rule_criteria \<Rightarrow> string" where
  "address_fragment c =
     (case fc_src_addr c of [] \<Rightarrow> '''' | a # as \<Rightarrow> negation (fc_negate_src_addr c) @ '' -s '' @ a)
     @ (case fc_dst_addr c of [] \<Rightarrow> '''' | a # as \<Rightarrow> negation (fc_negate_dst_addr c) @ '' -d '' @ a)"

definition dscp_fragment :: "firewall_rule_criteria \<Rightarrow> string" where
  "dscp_fragment c = (case fc_dscp c of None \<Rightarrow> '''' | Some d \<Rightarrow> '' -m dscp --dscp '' @ nat_to_string (unat d))"

definition mark_target :: "ipt_pending_rule \<Rightarrow> string" where
  "mark_target pr = ''-j MARK --set-xmark '' @ hex_mark (ipr_fwmark pr) @ ''/'' @ hex_mark (ipr_fwmark_mask pr)"

text \<open>The lines for one protocol and one interface; \<open>rest\<close> is everything after the interface.\<close>

definition rule_lines_for ::
  "ipt_pending_rule \<Rightarrow> firewall_global_prefilter \<Rightarrow> string \<Rightarrow> bool \<Rightarrow> string \<Rightarrow> string \<Rightarrow> string list" where
  "rule_lines_for pr pf chain allow_conntrack iface rest =
     (case fc_dst_set_name (ipr_criteria pr) of
        None \<Rightarrow>
          (let head = ''-A '' @ chain @ iface @ rest
           in case ipr_action pr of
                IptMark \<Rightarrow> append_mark_and_save pf allow_conntrack (head @ '' '' @ mark_target pr @ newline)
                           @ [head @ '' -j RETURN'' @ newline]
              | IptDrop \<Rightarrow> [head @ '' -j DROP'' @ newline]
              | IptPass \<Rightarrow> [head @ '' -j RETURN'' @ newline])
      | Some n \<Rightarrow>
          (let tail = '' -m set --match-set '' @ n @ '' dst'' @ iface @ rest
           in case ipr_action pr of
                IptMark \<Rightarrow> append_mark_and_save pf allow_conntrack (''-A '' @ chain @ tail @ '' '' @ mark_target pr @ newline)
                           @ [''-A '' @ chain @ tail @ '' -j RETURN'' @ newline]
              | IptDrop \<Rightarrow> [''-A '' @ IPT_CHAIN @ tail @ '' -j DROP'' @ newline]
              | IptPass \<Rightarrow> [''-A '' @ IPT_CHAIN @ tail @ '' -j RETURN'' @ newline]))"

definition build_rule_lines ::
  "ipt_pending_rule \<Rightarrow> firewall_global_prefilter \<Rightarrow> string \<Rightarrow> bool \<Rightarrow> string list" where
  "build_rule_lines pr pf chain allow_conntrack =
     (let c = ipr_criteria pr
      in concat (map (\<lambda>proto.
           let pp = build_proto_port_fragment proto (fc_src_port c) (fc_dst_port c) (fc_negate_src_port c) (fc_negate_dst_port c)
           in concat (map (\<lambda>iface. rule_lines_for pr pf chain allow_conntrack iface (address_fragment c @ dscp_fragment c @ pp))
                (interface_fragments pf)))
         (expand_l4_protos_for_iptables c)))"

section \<open>Scripts\<close>

definition rules_lines ::
  "bool \<Rightarrow> ipt_pending_rule list \<Rightarrow> firewall_global_prefilter \<Rightarrow> string \<Rightarrow> bool \<Rightarrow> string list" where
  "rules_lines v6 rules pf chain allow_conntrack =
     concat (map (\<lambda>pr. build_rule_lines pr pf chain allow_conntrack) (filter (\<lambda>pr. ipr_ipv6 pr = v6) rules))"

definition chain_line :: "string \<Rightarrow> string" where
  "chain_line chain = '':'' @ chain @ '' - [0:0]'' @ newline"

definition flush_line :: "string \<Rightarrow> string" where
  "flush_line chain = ''-F '' @ chain @ newline"

definition jump_line :: "string \<Rightarrow> string \<Rightarrow> string" where
  "jump_line from_chain to_chain = ''-A '' @ from_chain @ '' -j '' @ to_chain @ newline"

definition build_ipt_script_direct :: "bool \<Rightarrow> ipt_pending_rule list \<Rightarrow> firewall_global_prefilter \<Rightarrow> string list" where
  "build_ipt_script_direct v6 rules pf =
     [''*mangle'' @ newline, chain_line IPT_CHAIN, chain_line (IPT_CHAIN @ ''_OUTPUT''), jump_line ''PREROUTING'' IPT_CHAIN,
      jump_line ''OUTPUT'' (IPT_CHAIN @ ''_OUTPUT''), jump_line (IPT_CHAIN @ ''_OUTPUT'') IPT_CHAIN]
     @ build_prefilter_lines pf IPT_CHAIN True @ rules_lines v6 rules pf IPT_CHAIN True @ [''COMMIT'' @ newline]"

definition build_ipt_script ::
  "bool \<Rightarrow> string \<Rightarrow> bool \<Rightarrow> ipt_pending_rule list \<Rightarrow> firewall_global_prefilter \<Rightarrow> string list" where
  "build_ipt_script v6 active_chain replace_active_chain rules pf =
     [''*mangle'' @ newline, chain_line active_chain, flush_line active_chain]
     @ (if \<not> replace_active_chain
        then [chain_line IPT_CHAIN, chain_line (IPT_CHAIN @ ''_OUTPUT''), jump_line ''PREROUTING'' IPT_CHAIN,
              jump_line ''OUTPUT'' (IPT_CHAIN @ ''_OUTPUT''), jump_line IPT_CHAIN active_chain,
              jump_line (IPT_CHAIN @ ''_OUTPUT'') active_chain]
        else [flush_line IPT_CHAIN, flush_line (IPT_CHAIN @ ''_OUTPUT''), jump_line IPT_CHAIN active_chain,
              jump_line (IPT_CHAIN @ ''_OUTPUT'') active_chain])
     @ build_prefilter_lines pf active_chain True @ rules_lines v6 rules pf active_chain True @ [''COMMIT'' @ newline]"

definition hook_script ::
  "string \<Rightarrow> string \<Rightarrow> string \<Rightarrow> string \<Rightarrow> bool \<Rightarrow> bool \<Rightarrow> ipt_pending_rule list \<Rightarrow> firewall_global_prefilter \<Rightarrow> string list" where
  "hook_script table hook dispatcher active_chain replace_active_chain allow_conntrack rules pf =
     [''*'' @ table @ newline, chain_line active_chain, flush_line active_chain]
     @ (if \<not> replace_active_chain
        then [chain_line dispatcher, jump_line hook dispatcher, jump_line dispatcher active_chain]
        else [flush_line dispatcher, jump_line dispatcher active_chain])
     @ build_prefilter_lines pf active_chain allow_conntrack @ rules_lines False rules pf active_chain allow_conntrack
     @ [''COMMIT'' @ newline]"

definition build_raw_prerouting_script ::
  "string \<Rightarrow> bool \<Rightarrow> ipt_pending_rule list \<Rightarrow> firewall_global_prefilter \<Rightarrow> string list" where
  "build_raw_prerouting_script active_chain replace_active_chain =
     hook_script ''raw'' ''PREROUTING'' RAW_CHAIN active_chain replace_active_chain False"

definition build_output_script ::
  "string \<Rightarrow> bool \<Rightarrow> ipt_pending_rule list \<Rightarrow> firewall_global_prefilter \<Rightarrow> string list" where
  "build_output_script active_chain replace_active_chain =
     hook_script ''mangle'' ''OUTPUT'' IPT_OUTPUT_CHAIN active_chain replace_active_chain True"

section \<open>Running commands\<close>

definition quiet_exec :: "'w ipt_env \<Rightarrow> string list \<Rightarrow> 'w \<Rightarrow> 'w" where
  "quiet_exec env args w = snd (ie_exec env args w)"

definition run_quiet :: "'w ipt_env \<Rightarrow> string list list \<Rightarrow> 'w \<Rightarrow> 'w" where
  "run_quiet env cmds = for_each_quiet (quiet_exec env) cmds"

definition pipe_to_cmd :: "'w ipt_env \<Rightarrow> string list \<Rightarrow> string list \<Rightarrow> ('w, unit) eff" where
  "pipe_to_cmd env args script w =
     (case ie_pipe env args (concat script) w of
        (status, w1) \<Rightarrow>
          (if status \<noteq> 0 then (Inl (FirewallError (hd args @ '' exited with status '' @ int_to_string status)), w1)
           else (Inr (), w1)))"

definition iptables_ipv6_supported :: "'w ipt_env \<Rightarrow> 'w \<Rightarrow> bool \<times> 'w" where
  "iptables_ipv6_supported env w =
     (case ie_exec env [''ip6tables'', ''-t'', ''mangle'', ''-S''] w of
        (status, w1) \<Rightarrow>
          (if status \<noteq> 0 then (False, w1)
           else (case ie_pipe env [''ip6tables-restore'', ''--test''] (''*mangle'' @ newline @ ''COMMIT'' @ newline) w1 of
                   (status', w2) \<Rightarrow> (status' = 0, w2))))"

definition dispatcher_chains_exist :: "'w ipt_env \<Rightarrow> bool \<Rightarrow> bool \<Rightarrow> 'w \<Rightarrow> bool \<times> 'w" where
  "dispatcher_chains_exist env use_raw v6 w =
     (let command = (if v6 then ''ip6tables'' else ''iptables'');
          output_dispatcher = (if use_raw \<and> \<not> v6 then IPT_OUTPUT_CHAIN else IPT_CHAIN @ ''_OUTPUT'')
      in case ie_exec env [command, ''-t'', prerouting_table_name use_raw v6, ''-S'', prerouting_dispatcher_chain_name use_raw v6] w of
           (status, w1) \<Rightarrow>
             (if status \<noteq> 0 then (False, w1)
              else (case ie_exec env [command, ''-t'', ''mangle'', ''-S'', output_dispatcher] w1 of (status', w2) \<Rightarrow> (status' = 0, w2))))"

section \<open>Cleaning up\<close>

definition flush_and_delete :: "string \<Rightarrow> string \<Rightarrow> string \<Rightarrow> string list list" where
  "flush_and_delete command table chain = [[command, ''-t'', table, ''-F'', chain], [command, ''-t'', table, ''-X'', chain]]"

definition raw_chain_commands :: "string list list" where
  "raw_chain_commands =
     [[''iptables'', ''-t'', ''raw'', ''-D'', ''PREROUTING'', ''-j'', RAW_CHAIN]] @ flush_and_delete ''iptables'' ''raw'' RAW_CHAIN"

definition raw_generation_commands :: "string list list" where
  "raw_generation_commands = concat (map (flush_and_delete ''iptables'' ''raw'') [''KeenPbrRaw_A'', ''KeenPbrRaw_B''])"

definition mangle_chain_commands :: "string \<Rightarrow> string list list" where
  "mangle_chain_commands command =
     [[command, ''-t'', ''mangle'', ''-D'', ''PREROUTING'', ''-j'', IPT_CHAIN],
      [command, ''-t'', ''mangle'', ''-D'', ''OUTPUT'', ''-j'', IPT_CHAIN @ ''_OUTPUT'']]
     @ flush_and_delete command ''mangle'' (IPT_CHAIN @ ''_OUTPUT'') @ flush_and_delete command ''mangle'' IPT_CHAIN"

definition cleanup_v4_commands :: "bool \<Rightarrow> bool \<Rightarrow> string list list" where
  "cleanup_v4_commands use_raw sweep =
     (if use_raw
      then raw_chain_commands
           @ [[''iptables'', ''-t'', ''mangle'', ''-D'', ''OUTPUT'', ''-j'', IPT_OUTPUT_CHAIN]]
           @ flush_and_delete ''iptables'' ''mangle'' IPT_OUTPUT_CHAIN
           @ raw_generation_commands
           @ concat (map (\<lambda>g. flush_and_delete ''iptables'' ''mangle'' (output_generation_chain g)) [GenA, GenB])
      else mangle_chain_commands ''iptables'' @ (if sweep then raw_chain_commands @ raw_generation_commands else []))"

definition generation_commands :: "string list list" where
  "generation_commands = concat (map (\<lambda>g. flush_and_delete ''iptables'' ''mangle'' (generation_chain g)
      @ flush_and_delete ''ip6tables'' ''mangle'' (generation_chain g)) [GenA, GenB])"

text \<open>\<^verbatim>\<open>cleanup_legacy_generation_chains\<close>, on the lines of the listing.\<close>

definition legacy_chain :: "string \<Rightarrow> string option" where
  "legacy_chain line =
     (if prefix ''-N KeenPbrTable_'' line
      then let chain = drop (length ''-N KeenPbrTable_'') line
           in if chain = [] \<or> \<not> list_all is_digit chain then None else Some chain
      else None)"

definition cleanup_legacy_generation_chains :: "'w ipt_env \<Rightarrow> string \<Rightarrow> 'w \<Rightarrow> 'w" where
  "cleanup_legacy_generation_chains env command w =
     (case ie_capture env [command, ''-t'', ''mangle'', ''-S''] w of
        ((code, out), w1) \<Rightarrow>
          (if code \<noteq> 0 then w1
           else run_quiet env (concat (map (flush_and_delete command ''mangle'')
                  (List.map_filter legacy_chain (getline_tokens CHR 0x0A out)))) w1))"

definition cleanup_rules_impl :: "'w ipt_env \<Rightarrow> bool \<Rightarrow> ipt_firewall \<times> 'w \<Rightarrow> ipt_firewall \<times> 'w" where
  "cleanup_rules_impl env sweep s =
     (case s of (fw, w) \<Rightarrow>
        (let owned_v4 = if_chain_v4_created fw; owned_v6 = if_chain_v6_created fw;
             w1 = (if owned_v4 \<or> sweep then run_quiet env (cleanup_v4_commands (if_use_raw fw) sweep) w else w);
             fw1 = (if owned_v4 \<or> sweep then fw\<lparr>if_chain_v4_created := False\<rparr> else fw);
             w2 = (if owned_v6 \<or> sweep then run_quiet env (mangle_chain_commands ''ip6tables'') w1 else w1);
             fw2 = (if owned_v6 \<or> sweep then fw1\<lparr>if_chain_v6_created := False\<rparr> else fw1);
             w3 = (if \<not> if_use_raw fw \<and> (owned_v4 \<or> owned_v6 \<or> sweep) then run_quiet env generation_commands w2 else w2);
             w4 = (if sweep then cleanup_legacy_generation_chains env ''ip6tables'' (cleanup_legacy_generation_chains env ''iptables'' w3)
                   else w3)
         in (fw2\<lparr>if_active_v4 := None, if_active_v6 := None\<rparr>, w4)))"

definition set_cleanup_commands :: "string \<Rightarrow> string list list" where
  "set_cleanup_commands name = [[''ipset'', ''flush'', name], [''ipset'', ''destroy'', name]]"

definition managed_static_name :: "string \<Rightarrow> bool" where
  "managed_static_name name \<longleftrightarrow>
     list_ex (\<lambda>p. prefix p name) [''kpbr4_'', ''kpbr6_'', ''kpbr4s_'', ''kpbr6s_'', ''kpbr4S_'', ''kpbr6S_'']"

text \<open>The names of the \<^verbatim>\<open>create\<close> lines of \<^verbatim>\<open>ipset save\<close>: the reader takes two words and skips the rest of the line.\<close>

fun skip_blanks :: "string \<Rightarrow> string" where
  "skip_blanks [] = []"
| "skip_blanks (c # s) = (if is_space c then skip_blanks s else c # s)"

definition next_word :: "string \<Rightarrow> (string \<times> string) option" where
  "next_word s =
     (let t = skip_blanks s; word = takeWhile (\<lambda>c. \<not> is_space c) t
      in if word = [] then None else Some (word, dropWhile (\<lambda>c. \<not> is_space c) t))"

definition rest_of_line :: "string \<Rightarrow> string" where
  "rest_of_line s = (case dropWhile (\<lambda>c. c \<noteq> CHR 0x0A) s of [] \<Rightarrow> [] | c # t \<Rightarrow> t)"

lemma skip_blanks_length: "length (skip_blanks s) \<le> length s"
  by (induction s) auto

lemma next_word_shorter:
  assumes "next_word s = Some (word, t)"
  shows "length t < length s"
proof -
  let ?u = "skip_blanks s"
  have word: "word = takeWhile (\<lambda>c. \<not> is_space c) ?u" "word \<noteq> []" and t: "t = dropWhile (\<lambda>c. \<not> is_space c) ?u"
    using assms by (auto simp: next_word_def Let_def split: if_splits)
  have "length ?u = length word + length t" unfolding word(1) t by (metis length_append takeWhile_dropWhile_id)
  then show ?thesis using word(2) skip_blanks_length [of s] by (cases word) auto
qed

lemma rest_of_line_length: "length (rest_of_line s) \<le> length s"
proof -
  have "length (dropWhile (\<lambda>c. c \<noteq> CHR 0x0A) s) \<le> length s" by (rule length_dropWhile_le)
  then show ?thesis by (auto simp: rest_of_line_def split: list.splits)
qed

function saved_set_names :: "string \<Rightarrow> string list" where
  "saved_set_names input =
     (case next_word input of
        None \<Rightarrow> []
      | Some (verb, s1) \<Rightarrow>
          (case next_word s1 of
             None \<Rightarrow> []
           | Some (name, s2) \<Rightarrow> (if verb = ''create'' then [name] else []) @ saved_set_names (rest_of_line s2)))"
  by pat_completeness auto
termination
proof (relation "measure length")
  fix input p verb s1 q name s2
  assume p: "next_word input = Some p" "(verb, s1) = p" and q: "next_word s1 = Some q" "(name, s2) = q"
  have "next_word input = Some (verb, s1)" "next_word s1 = Some (name, s2)" using p q by simp_all
  then have "length s1 < length input" "length s2 < length s1" using next_word_shorter by blast+
  then show "(rest_of_line s2, input) \<in> measure length" using rest_of_line_length [of s2] by simp
qed simp

declare saved_set_names.simps [simp del]

definition cleanup_saved_sets :: "'w ipt_env \<Rightarrow> bool \<Rightarrow> 'w \<Rightarrow> 'w" where
  "cleanup_saved_sets env preserve_dynamic_sets w =
     (case ie_capture env [''ipset'', ''save''] w of
        ((code, out), w1) \<Rightarrow>
          (if code \<noteq> 0 then w1
           else run_quiet env (concat (map set_cleanup_commands
                  (filter (\<lambda>n. (managed_static_name n \<or> is_dynamic_set_name n) \<and> \<not> (is_dynamic_set_name n \<and> preserve_dynamic_sets))
                    (saved_set_names out)))) w1))"

definition cleanup_live_impl :: "'w ipt_env \<Rightarrow> bool \<Rightarrow> bool \<Rightarrow> ipt_firewall \<times> 'w \<Rightarrow> ipt_firewall \<times> 'w" where
  "cleanup_live_impl env preserve_dynamic_sets sweep s =
     (case cleanup_rules_impl env sweep s of
        (fw, w) \<Rightarrow>
          (let w1 = run_quiet env (concat (map set_cleanup_commands
                      (filter (\<lambda>n. \<not> (preserve_dynamic_sets \<and> is_dynamic_set_name n)) (map fst (if_created_sets fw))))) w
           in (fw, if sweep then cleanup_saved_sets env preserve_dynamic_sets w1 else w1)))"

definition ipt_cleanup :: "'w ipt_env \<Rightarrow> ipt_firewall \<times> 'w \<Rightarrow> ipt_firewall \<times> 'w" where
  "ipt_cleanup env s =
     (case cleanup_live_impl env False False s of
        (fw, w) \<Rightarrow> ((ipt_clear_pending fw)\<lparr>if_created_sets := []\<rparr>, w))"

section \<open>Applying\<close>

definition set_lines :: "firewall_apply_mode \<Rightarrow> bool \<Rightarrow> bool \<Rightarrow> ipt_pending_set \<Rightarrow> string list" where
  "set_lines mode effective_ipv6 clear_dynamic ps =
     (if ips_family_str ps = ''inet6'' \<and> \<not> effective_ipv6 then []
      else if is_dynamic_set_name (ips_name ps)
      then (if mode = Destructive
            then [build_ipset_create_line ps] @ (if clear_dynamic then [''flush '' @ ips_name ps @ newline] else [])
            else [])
      else [build_ipset_create_line ps, ''flush '' @ ips_name ps @ newline])"

definition disabled_ipv6_sets :: "bool \<Rightarrow> ipt_pending_set list \<Rightarrow> string list" where
  "disabled_ipv6_sets effective_ipv6 sets =
     map ips_name (filter (\<lambda>ps. ips_family_str ps = ''inet6'' \<and> \<not> effective_ipv6) sets)"

definition ipset_script :: "firewall_apply_mode \<Rightarrow> bool \<Rightarrow> ipt_firewall \<Rightarrow> string list" where
  "ipset_script mode effective_ipv6 fw =
     concat (map (set_lines mode effective_ipv6 (fb_clear_dynamic_sets_on_apply fw)) (if_pending_sets fw))
     @ concat (map (\<lambda>(n, lines). if n \<in> set (disabled_ipv6_sets effective_ipv6 (if_pending_sets fw)) then [] else lines)
         (if_pending_elements fw))"

definition restore_command :: "string \<Rightarrow> string list" where
  "restore_command tool = [tool, ''--noflush'', ''--counters'']"

definition apply_v4 :: "'w ipt_env \<Rightarrow> (ipt_firewall \<times> 'w, unit) eff" where
  "apply_v4 env s =
     (case s of (fw, w) \<Rightarrow>
        (let replace = (if_active_v4 fw \<noteq> None);
             next_chain = prerouting_generation_chain (if_use_raw fw) (if_target_v4 fw) False;
             installed = fw\<lparr>if_chain_v4_created := True, if_active_v4 := Some (if_target_v4 fw)\<rparr>
         in if if_use_raw fw
            then (case pipe_to_cmd env (restore_command ''iptables-restore'')
                         (build_raw_prerouting_script next_chain replace (if_pending_rules fw) (fb_global_prefilter fw)) w of
                    (Inl e, w1) \<Rightarrow> (Inl e, (fw, w1))
                  | (Inr u, w1) \<Rightarrow>
                      (case pipe_to_cmd env (restore_command ''iptables-restore'')
                              (build_output_script (output_generation_chain (if_target_v4 fw)) replace (if_pending_rules fw)
                                 (fb_global_prefilter fw)) w1 of
                         (Inl e, w2) \<Rightarrow> (Inl e, (fw, w2))
                       | (Inr u, w2) \<Rightarrow> (Inr (), (installed, w2))))
            else (case pipe_to_cmd env (restore_command ''iptables-restore'')
                         (build_ipt_script False next_chain replace (if_pending_rules fw) (fb_global_prefilter fw)) w of
                    (Inl e, w1) \<Rightarrow> (Inl e, (fw, w1))
                  | (Inr u, w1) \<Rightarrow> (Inr (), (installed, w1)))))"

definition apply_v6 :: "'w ipt_env \<Rightarrow> (ipt_firewall \<times> 'w, unit) eff" where
  "apply_v6 env s =
     (case s of (fw, w) \<Rightarrow>
        (case pipe_to_cmd env (restore_command ''ip6tables-restore'')
                (build_ipt_script True (generation_chain (if_target_v6 fw)) (if_active_v6 fw \<noteq> None) (if_pending_rules fw)
                   (fb_global_prefilter fw)) w of
           (Inl e, w1) \<Rightarrow> (Inl e, (fw, w1))
         | (Inr u, w1) \<Rightarrow> (Inr (), (fw\<lparr>if_chain_v6_created := True, if_active_v6 := Some (if_target_v6 fw)\<rparr>, w1))))"

text \<open>The scaffold is rebuilt when a dispatcher chain of an active generation has disappeared.\<close>

definition repair_dispatchers :: "'w ipt_env \<Rightarrow> bool \<Rightarrow> ipt_firewall \<times> 'w \<Rightarrow> ipt_firewall \<times> 'w" where
  "repair_dispatchers env effective_ipv6 s =
     (case s of (fw, w) \<Rightarrow>
        (case (if if_active_v4 fw \<noteq> None then dispatcher_chains_exist env (if_use_raw fw) False w else (True, w)) of
           (v4_ok, w1) \<Rightarrow>
             (case (if effective_ipv6 \<and> if_active_v6 fw \<noteq> None then dispatcher_chains_exist env (if_use_raw fw) True w1 else (True, w1)) of
                (v6_ok, w2) \<Rightarrow> (if \<not> v4_ok \<or> \<not> v6_ok then cleanup_rules_impl env True (fw, w2) else (fw, w2)))))"

definition ipt_reset :: "'w ipt_env \<Rightarrow> firewall_apply_mode \<Rightarrow> ipt_firewall \<times> 'w \<Rightarrow> ipt_firewall \<times> 'w" where
  "ipt_reset env mode s =
     (if mode = Destructive
      then (case cleanup_live_impl env (\<not> fb_clear_dynamic_sets_on_apply (fst s)) True s of
              (f, w) \<Rightarrow> (f\<lparr>if_active_v4 := None, if_active_v6 := None\<rparr>, w))
      else s)"

definition ipt_fill_sets :: "'w ipt_env \<Rightarrow> firewall_apply_mode \<Rightarrow> bool \<Rightarrow> (ipt_firewall \<times> 'w, unit) eff" where
  "ipt_fill_sets env mode effective_ipv6 s =
     (let script = ipset_script mode effective_ipv6 (fst s)
      in if script \<noteq> []
         then (case pipe_to_cmd env [''ipset'', ''restore'', ''-exist''] script (snd s) of (r, w) \<Rightarrow> (r, (fst s, w)))
         else (Inr (), s))"

definition ipt_install_rules :: "'w ipt_env \<Rightarrow> bool \<Rightarrow> (ipt_firewall \<times> 'w, unit) eff" where
  "ipt_install_rules env effective_ipv6 s =
     (case apply_v4 env (repair_dispatchers env effective_ipv6 s) of
        (Inl e, s1) \<Rightarrow> (Inl e, s1)
      | (Inr u, s1) \<Rightarrow>
          (if effective_ipv6 \<or> list_ex ipr_ipv6 (if_pending_rules (fst s1)) then apply_v6 env s1 else (Inr (), s1)))"

definition ipt_apply :: "'w ipt_env \<Rightarrow> firewall_apply_mode \<Rightarrow> (ipt_firewall \<times> 'w, unit) eff" where
  "ipt_apply env mode s =
     (case s of (fw, w) \<Rightarrow>
        (if \<not> if_apply_prepared fw then (Inl (FirewallError ''iptables apply was not prepared''), s)
         else
          (case (if fb_ipv6_enabled fw then iptables_ipv6_supported env w else (False, w)) of
             (effective_ipv6, w1) \<Rightarrow>
               (case ipt_fill_sets env mode effective_ipv6 (ipt_reset env mode (fw\<lparr>if_apply_prepared := False\<rparr>, w1)) of
                  (Inl e, s1) \<Rightarrow> (Inl e, s1)
                | (Inr u, s1) \<Rightarrow>
                    (case ipt_install_rules env effective_ipv6 s1 of
                       (Inl e, s2) \<Rightarrow> (Inl e, s2)
                     | (Inr u, (f, w2)) \<Rightarrow> (Inr (), (ipt_clear_pending f, w2)))))))"

definition ipt_ops :: "'w ipt_env \<Rightarrow> (ipt_firewall \<times> 'w) firewall_ops" where
  "ipt_ops env =
     \<lparr>fo_set_ipv6_enabled = \<lambda>b. map_prod (fb_ipv6_enabled_update (\<lambda>_. b)) id,
      fo_set_clear_dynamic_sets = \<lambda>b. map_prod (fb_clear_dynamic_sets_on_apply_update (\<lambda>_. b)) id,
      fo_set_global_prefilter = \<lambda>pf. map_prod (fb_global_prefilter_update (\<lambda>_. pf)) id,
      fo_set_fwmark_mask = \<lambda>m. map_prod (fb_fwmark_mask_update (\<lambda>_. m)) id,
      fo_prepare_apply = \<lambda>mode. map_prod (ipt_prepare_apply mode) id,
      fo_static_set_name = \<lambda>s. ipt_static_set_name (fst s),
      fo_dynamic_set_name = \<lambda>s. default_dynamic_set_name,
      fo_create_ipset = \<lambda>n f t s. map_sum id (\<lambda>fw. (fw, snd s)) (ipt_create_ipset n f t (fst s)),
      fo_create_mark_rule = \<lambda>m c. map_prod (ipt_create_mark_rule m c) id,
      fo_create_drop_rule = \<lambda>c. map_prod (ipt_create_drop_rule c) id,
      fo_create_pass_rule = \<lambda>c. map_prod (ipt_create_pass_rule c) id,
      fo_create_batch_loader = \<lambda>n. map_prod (ipt_create_batch_loader n) id,
      fo_load_entry = \<lambda>n ty e s. Inr (map_prod (ipt_load_entry n ty e) id s),
      fo_apply = ipt_apply env\<rparr>"

section \<open>The active generation is left alone\<close>

definition target_name :: "set_generation \<Rightarrow> set_generation \<Rightarrow> string \<Rightarrow> bool" where
  "target_name g4 g6 n \<longleftrightarrow> prefix (generation_set_name g4 '''' AF_INET) n \<or> prefix (generation_set_name g6 '''' AF_INET6) n"

definition ipt_queued :: "set_generation \<Rightarrow> set_generation \<Rightarrow> ipt_firewall \<times> 'w \<Rightarrow> bool" where
  "ipt_queued g4 g6 s \<longleftrightarrow>
     if_target_v4 (fst s) = g4 \<and> if_target_v6 (fst s) = g6
     \<and> list_all (\<lambda>ps. target_name g4 g6 (ips_name ps) \<or> is_dynamic_set_name (ips_name ps)) (if_pending_sets (fst s))
     \<and> (\<forall>(n, lines) \<in> set (if_pending_elements (fst s)). target_name g4 g6 n \<and> list_all (prefix (''add '' @ n @ '' '')) lines)"

lemma generation_set_name_prefix:
  "target_name g4 g6 (generation_set_name g4 n AF_INET)" "target_name g4 g6 (generation_set_name g6 n AF_INET6)"
  by (simp_all add: target_name_def generation_set_name_def AF_INET_def AF_INET6_def)

lemma dynamic_set_name_dynamic:
  "family = AF_INET \<or> family = AF_INET6 \<Longrightarrow> is_dynamic_set_name (default_dynamic_set_name n family)"
  by (auto simp: is_dynamic_set_name_def default_dynamic_set_name_def AF_INET_def AF_INET6_def)

lemma ipt_create_ipset_queued:
  assumes "ipt_queued g4 g6 (fw, w)" and "ipt_create_ipset n family t fw = Inr fw'"
    and "target_name g4 g6 n \<or> is_dynamic_set_name n"
  shows "ipt_queued g4 g6 (fw', w')"
  using assms by (auto simp: ipt_queued_def ipt_create_ipset_def Let_def split: option.splits if_splits)

lemma ipt_append_rules_frame [simp]:
  "if_target_v4 (ipt_append_rules v6 act m c fw) = if_target_v4 fw" "if_target_v6 (ipt_append_rules v6 act m c fw) = if_target_v6 fw"
  "if_pending_sets (ipt_append_rules v6 act m c fw) = if_pending_sets fw"
  "if_pending_elements (ipt_append_rules v6 act m c fw) = if_pending_elements fw"
  by (simp_all add: ipt_append_rules_def Let_def)

lemma ipt_create_rule_frame [simp]:
  "if_target_v4 (ipt_create_rule act m c fw) = if_target_v4 fw" "if_target_v6 (ipt_create_rule act m c fw) = if_target_v6 fw"
  "if_pending_sets (ipt_create_rule act m c fw) = if_pending_sets fw"
  "if_pending_elements (ipt_create_rule act m c fw) = if_pending_elements fw"
  by (simp_all add: ipt_create_rule_def split: option.split)

lemma set_smap_put: "set (smap_put k v m) \<subseteq> insert (k, v) (set m)"
  by (induction m) (auto split: if_splits)

lemma set_smap_emplace: "set (smap_emplace k v m) \<subseteq> insert (k, v) (set m)"
  using set_smap_put [of k v m] by (auto simp: smap_emplace_def split: option.splits)

lemma ipt_load_entry_queued:
  assumes "ipt_queued g4 g6 (fw, w)" and "target_name g4 g6 n"
  shows "ipt_queued g4 g6 (ipt_load_entry n ty e fw, w)"
proof (cases "ty = EntryDomain")
  case True
  then show ?thesis using assms(1) by (simp add: ipt_load_entry_def)
next
  case False
  let ?old = "case map_of (if_pending_elements fw) n of None \<Rightarrow> [] | Some l \<Rightarrow> l"
  let ?new = "?old @ [''add '' @ n @ '' '' @ e @ '' -exist'' @ newline]"
  have "list_all (prefix (''add '' @ n @ '' '')) ?old"
    using assms(1) by (auto simp: ipt_queued_def dest: map_of_SomeD split: option.splits)
  moreover have "prefix (''add '' @ n @ '' '') (''add '' @ n @ '' '' @ e @ '' -exist'' @ newline)" by (simp add: prefix_def)
  ultimately have new: "list_all (prefix (''add '' @ n @ '' '')) ?new" by simp
  have "ipt_load_entry n ty e fw = fw\<lparr>if_pending_elements := smap_put n ?new (if_pending_elements fw)\<rparr>"
    using False by (simp add: ipt_load_entry_def)
  then show ?thesis using assms new set_smap_put [of n ?new "if_pending_elements fw"] by (auto simp: ipt_queued_def)
qed

lemma ipt_loader_queued:
  assumes "ipt_queued g4 g6 (fw, w)" and "target_name g4 g6 n"
  shows "ipt_queued g4 g6 (ipt_create_batch_loader n fw, w)"
  using assms set_smap_emplace [of n "[]" "if_pending_elements fw"]
  by (auto simp: ipt_queued_def ipt_create_batch_loader_def)

definition target_set_name :: "set_generation \<Rightarrow> set_generation \<Rightarrow> string \<Rightarrow> int \<Rightarrow> string" where
  "target_set_name g4 g6 n family = generation_set_name (if family = AF_INET6 then g6 else g4) n family"

lemma target_set_name_target:
  "family = AF_INET \<or> family = AF_INET6 \<Longrightarrow> target_name g4 g6 (target_set_name g4 g6 n family)"
  using generation_set_name_prefix by (auto simp: target_set_name_def AF_INET_def AF_INET6_def)

interpretation ipt_queue: queue_invariant "ipt_ops env" "ipt_queued g4 g6" "target_set_name g4 g6" default_dynamic_set_name
  for env g4 g6
proof
  show "fo_static_set_name (ipt_ops env) f n family = target_set_name g4 g6 n family" if "ipt_queued g4 g6 f" for f n family
    using that by (auto simp: ipt_ops_def ipt_static_set_name_def target_set_name_def ipt_queued_def)
  show "fo_dynamic_set_name (ipt_ops env) f n family = default_dynamic_set_name n family" for f n family
    by (simp add: ipt_ops_def)
  show "ipt_queued g4 g6 f'" if "ipt_queued g4 g6 f" "family = AF_INET \<or> family = AF_INET6"
    "fo_create_ipset (ipt_ops env) (target_set_name g4 g6 n family) family t f = Inr f'" for f family n t f'
    using that target_set_name_target [OF that(2), of g4 g6 n]
    by (cases f) (auto simp: ipt_ops_def result_simps intro: ipt_create_ipset_queued)
  show "ipt_queued g4 g6 f'" if "ipt_queued g4 g6 f" "family = AF_INET \<or> family = AF_INET6"
    "fo_create_ipset (ipt_ops env) (default_dynamic_set_name n family) family t f = Inr f'" for f family n t f'
    using that dynamic_set_name_dynamic [OF that(2), of n]
    by (cases f) (auto simp: ipt_ops_def result_simps intro: ipt_create_ipset_queued)
  show "ipt_queued g4 g6 (fo_create_batch_loader (ipt_ops env) (target_set_name g4 g6 n family) f)"
    if "ipt_queued g4 g6 f" "family = AF_INET \<or> family = AF_INET6" for f family n
    using that target_set_name_target [OF that(2), of g4 g6 n] by (cases f) (simp add: ipt_ops_def ipt_loader_queued)
  show "ipt_queued g4 g6 f'" if "ipt_queued g4 g6 f" "family = AF_INET \<or> family = AF_INET6"
    "fo_load_entry (ipt_ops env) (target_set_name g4 g6 n family) ty e f = Inr f'" for f family n ty e f'
    using that target_set_name_target [OF that(2), of g4 g6 n] by (cases f) (auto simp: ipt_ops_def ipt_load_entry_queued)
  show "ipt_queued g4 g6 (create_action_rule (ipt_ops env) a c f)" if "ipt_queued g4 g6 f" for f a c
    using that by (cases f; cases a) (auto simp: create_action_rule_def ipt_ops_def ipt_create_mark_rule_def ipt_create_drop_rule_def
        ipt_create_pass_rule_def ipt_queued_def)
qed

lemma ipt_begin_queued:
  "ipt_queued (next_generation mode (if_active_v4 fw)) (next_generation mode (if_active_v6 fw))
     (runtime_begin (ipt_ops env) cfg v6 mode m (fw, w))"
  by (simp add: runtime_begin_def ipt_ops_def ipt_queued_def ipt_prepare_apply_def ipt_clear_pending_def)

lemma next_generation_other: "mode \<noteq> Destructive \<Longrightarrow> active = Some g \<Longrightarrow> next_generation mode active \<noteq> g"
  by (cases g) (simp_all add: next_generation_def opposite_generation_def)

lemma prefix_same_length: "prefix a x \<Longrightarrow> prefix b x \<Longrightarrow> length a = length b \<Longrightarrow> a = b"
  by (metis prefix_order.antisym prefix_same_cases prefix_length_prefix order_refl)

lemma generation_names_differ:
  assumes "target_name g4 g6 n" and "family = AF_INET \<and> g \<noteq> g4 \<or> family = AF_INET6 \<and> g \<noteq> g6"
  shows "\<not> prefix (generation_set_name g '''' family) (n @ rest)"
proof
  assume p: "prefix (generation_set_name g '''' family) (n @ rest)"
  have len: "length (generation_set_name h '''' f) = 7" for h f by (cases h) (simp_all add: generation_set_name_def)
  obtain h f where h: "prefix (generation_set_name h '''' f) n" "f = AF_INET \<and> h = g4 \<or> f = AF_INET6 \<and> h = g6"
    using assms(1) by (auto simp: target_name_def)
  have "prefix (generation_set_name h '''' f) (n @ rest)" using h(1) by (simp add: prefix_prefix)
  from prefix_same_length [OF p this] have "generation_set_name g '''' family = generation_set_name h '''' f" by (simp add: len)
  then show False using assms(2) h(2)
    by (auto simp: generation_set_name_def AF_INET_def AF_INET6_def split: set_generation.splits if_splits)
qed


section \<open>A refresh of a list\<close>

definition sample_list_rule :: route_rule where
  "sample_list_rule = sample_rule\<lparr>rr_dscp := None, rr_list := Some [''l'']\<rparr>"

definition sample_list_config :: config where
  "sample_list_config = sample_firewall_config\<lparr>cfg_lists := Some [(''l'', sample_list)],
     cfg_route := Some \<lparr>rc_inbound_interfaces = None, rc_rules = Some [sample_list_rule]\<rparr>\<rparr>"

definition sample_active :: ipt_firewall where
  "sample_active = (fresh_ipt_firewall False)\<lparr>if_active_v4 := Some GenA, if_active_v6 := Some GenA\<rparr>"

definition sample_ipt_env :: "unit ipt_env" where
  "sample_ipt_env = \<lparr>ie_exec = \<lambda>args w. (0, w), ie_pipe = \<lambda>args input w. (0, w), ie_capture = \<lambda>args w. ((1, []), w)\<rparr>"

lemma sample_list_usage: "runtime_usage sample_runtime_env ''l'' sample_list
    = Inr \<lparr>has_static_entries = True, has_domain_entries = False, dynamic_timeout = 0\<rparr>"
  by (simp add: runtime_usage_def analyze_list_set_usage_def stream_list_def stream_all_sources_def stream_optional_file_def sample_list_def
      sample_runtime_env_def Let_def parse_line_def classify_entry_def sample_entries fresh_line_state_def entry_counter_on_entry_def
      entry_counter_init_def)

lemma sample_list_simps:
  "cfg_fwmark sample_list_config = None" "cfg_dns sample_list_config = None" "route_rules sample_list_config = [sample_list_rule]"
  "route_rule_lists sample_list_rule = [''l'']" "lists_map sample_list_config = [(''l'', sample_list)]"
  "fst (resolve_ipv6_support (re_probes sample_runtime_env) sample_list_config)"
  by (simp_all add: sample_list_config_def sample_list_rule_def sample_firewall_config_def route_rules_def sample_rule_def route_rule_lists_def
      lists_map_def resolve_ipv6_support_def sample_runtime_env_def firewall_ipv6_supported_def
    resolve_firewall_backend_def firewall_backend_preference_def default_daemon_config_def detect_firewall_backend_def)

definition sample_list_state :: rule_state where
  "sample_list_state = \<lparr>rst_rule_index = 0, rst_list_names = [''l''], rst_set_names = [''kpbr4_l'', ''kpbr6_l'', ''kpbr4d_l'', ''kpbr6d_l''],
     rst_outbound_tag = ''vpn'', rst_action_type = ActMark, rst_fwmark = 0x10000, rst_criteria = default_criteria\<rparr>"

lemma sample_list_states: "build_fw_rule_states sample_list_config [(''vpn'', 0x10000)] (Some []) = [sample_list_state]"
  by (simp add: build_fw_rule_states_def sample_list_simps)
    (simp add: build_fw_rule_state_def sample_list_rule_def sample_list_config_def sample_firewall_config_def sample_rule_def
      route_rule_enabled_def resolve_route_action_def make_outbound_def decision_route_to_def decision_none_def effective_outbound_def
      base_rule_state_def route_rule_lists_def possible_set_names_def lists_map_def sample_list_state_def Let_def)

lemma sample_list_criteria: "build_firewall_rule_criteria f g sample_list_rule = Inr default_criteria"
  by (simp add: build_firewall_rule_criteria_def sample_list_rule_def sample_rule_def parse_rule_proto_def strip_neg_def parse_port_spec_def
      parse_addr_spec_def default_criteria_def)

lemma sample_refresh:
  "\<exists>states fw'. queue_runtime_firewall (ipt_ops sample_ipt_env) sample_runtime_env (\<lambda>c. (Inr [], c)) sample_list_config
      [(''vpn'', 0x10000)] [] PreserveSets (sample_active, ()) () = Inr (states, (fw', ()), ())
    \<and> ''flush kpbr4S_l'' @ newline \<in> set (ipset_script PreserveSets True fw')"
proof -
  show ?thesis
    apply (simp add: queue_runtime_firewall_def Let_def sample_list_states sample_list_simps sample_mask runtime_rule_def
     sample_list_criteria runtime_detours_def)
    apply (simp add: sample_list_state_def runtime_list_def sample_list_simps cached_usage_def sample_list_usage create_list_sets_def)
    apply (simp add: create_set_pair_def load_static_entries_def stream_list_def stream_all_sources_def stream_optional_file_def sample_list_def
        sample_runtime_env_def Let_def parse_line_def classify_entry_def sample_entries fresh_line_state_def splitter_on_entry_def
        ipt_ops_def ipt_static_set_name_def ipt_create_ipset_def runtime_begin_def ipt_prepare_apply_def ipt_clear_pending_def
        sample_active_def fresh_ipt_firewall_def ipt_create_batch_loader_def ipt_load_entry_def generation_set_name_def next_generation_def
        opposite_generation_def set_pair_def AF_INET_def AF_INET6_def smap_emplace_def)
    apply (simp add: apply_rule_def state_action_def create_action_rule_def ipt_create_mark_rule_def ipt_create_rule_def ipt_append_rules_def
       family_addrs_def expand_l4_protos_for_iptables_def expand_l4_protos_def default_criteria_def AF_INET_def AF_INET6_def runtime_detours_def sample_list_simps
       ipset_script_def set_lines_def is_dynamic_set_name_def one_addr_def)
    done
qed


section \<open>What an apply leaves behind\<close>

text \<open>A successful apply makes the target generations active and empties the buffers; the next refresh then uses the
  other generation. An apply that fails after a preparation must be prepared again.\<close>

definition same_plan :: "ipt_firewall \<Rightarrow> ipt_firewall \<Rightarrow> bool" where
  "same_plan f g \<longleftrightarrow> if_target_v4 f = if_target_v4 g \<and> if_target_v6 f = if_target_v6 g \<and> if_pending_rules f = if_pending_rules g
     \<and> if_apply_prepared f = if_apply_prepared g"

lemma cleanup_rules_plan: "same_plan (fst (cleanup_rules_impl env sweep (fw, w))) fw"
  by (simp add: cleanup_rules_impl_def same_plan_def Let_def)

lemma cleanup_live_plan: "same_plan (fst (cleanup_live_impl env keep sweep (fw, w))) fw"
  using cleanup_rules_plan [of env sweep fw w] by (auto simp: cleanup_live_impl_def Let_def split: prod.splits)

lemma repair_plan: "same_plan (fst (repair_dispatchers env v6 (fw, w))) fw"
  using cleanup_rules_plan [of env True fw]
  by (auto simp: repair_dispatchers_def same_plan_def split: prod.splits)

lemma apply_v4_active:
  assumes "apply_v4 env (fw, w) = (Inr (), (fw', w'))"
  shows "if_active_v4 fw' = Some (if_target_v4 fw)" "same_plan fw' fw"
  using assms by (auto simp: apply_v4_def same_plan_def Let_def split: prod.splits sum.splits if_splits)

lemma apply_v6_active:
  assumes "apply_v6 env (fw, w) = (Inr (), (fw', w'))"
  shows "if_active_v6 fw' = Some (if_target_v6 fw)" "if_active_v4 fw' = if_active_v4 fw" "same_plan fw' fw"
  using assms by (auto simp: apply_v6_def same_plan_def split: prod.splits sum.splits)

lemma ipt_apply_requires_preparation:
  "\<not> if_apply_prepared fw \<Longrightarrow> ipt_apply env mode (fw, w) = (Inl (FirewallError ''iptables apply was not prepared''), (fw, w))"
  by (simp add: ipt_apply_def)

lemma reset_plan: "same_plan (fst (ipt_reset env mode (fw, w))) fw"
  using cleanup_live_plan [of env "\<not> fb_clear_dynamic_sets_on_apply fw" True fw w]
  by (auto simp: ipt_reset_def same_plan_def split: prod.splits)

lemma fill_sets_plan: "same_plan (fst (snd (ipt_fill_sets env mode v6 s))) (fst s)"
  by (auto simp: ipt_fill_sets_def same_plan_def Let_def split: prod.splits)

lemma install_rules_active:
  assumes "ipt_install_rules env v6 (fw, w) = (Inr (), (fw', w'))"
  shows "if_active_v4 fw' = Some (if_target_v4 fw)" "same_plan fw' fw"
proof -
  obtain f1 w1 where rep: "repair_dispatchers env v6 (fw, w) = (f1, w1)" by fastforce
  obtain f2 w2 where v4: "apply_v4 env (f1, w1) = (Inr (), (f2, w2))"
    and v6: "(if v6 \<or> list_ex ipr_ipv6 (if_pending_rules f2) then apply_v6 env (f2, w2) else (Inr (), (f2, w2))) = (Inr (), (fw', w'))"
    using assms rep by (auto simp: ipt_install_rules_def split: prod.splits sum.splits)
  have f1: "same_plan f1 fw" using repair_plan [of env v6 fw w] by (simp add: rep)
  note f2 = apply_v4_active [OF v4]
  have "if_active_v4 fw' = if_active_v4 f2" "same_plan fw' f2"
    using v6 apply_v6_active(2,3) [of env f2 w2 fw' w'] by (auto simp: same_plan_def split: if_splits)
  then show "if_active_v4 fw' = Some (if_target_v4 fw)" "same_plan fw' fw" using f1 f2 by (simp_all add: same_plan_def)
qed

lemma ipt_apply_activates:
  assumes "ipt_apply env mode (fw, w) = (Inr (), (fw', w'))"
  shows "if_active_v4 fw' = Some (if_target_v4 fw)" "if_pending_sets fw' = []" "if_pending_rules fw' = []" "\<not> if_apply_prepared fw'"
proof -
  let ?fw0 = "fw\<lparr>if_apply_prepared := False\<rparr>"
  obtain v6 w1 f1 w2 f2 where
    fill: "ipt_fill_sets env mode v6 (ipt_reset env mode (?fw0, w1)) = (Inr (), (f1, w2))" and
    install: "ipt_install_rules env v6 (f1, w2) = (Inr (), (f2, w'))" and fw': "fw' = ipt_clear_pending f2"
    using assms by (auto simp: ipt_apply_def split: prod.splits sum.splits if_splits)
  have "same_plan f1 ?fw0"
    using fill_sets_plan [of env mode v6 "ipt_reset env mode (?fw0, w1)"] reset_plan [of env mode ?fw0 w1]
    by (simp add: fill same_plan_def)
  then show "if_active_v4 fw' = Some (if_target_v4 fw)" "if_pending_sets fw' = []" "if_pending_rules fw' = []" "\<not> if_apply_prepared fw'"
    using install_rules_active [OF install] by (auto simp: fw' ipt_clear_pending_def same_plan_def)
qed

section \<open>Deviations from the configuration\<close>

text \<open>The static sets of this backend never have the names that \<^verbatim>\<open>keen-pbr status\<close> looks for.\<close>

lemma status_looks_for_other_sets: "ipt_static_set_name fw n family \<noteq> default_static_set_name n' family'"
  by (auto simp: ipt_static_set_name_def generation_set_name_def default_static_set_name_def split: set_generation.split)

text \<open>A drop or pass rule on a set goes to the dispatcher whatever chain is being built, behind the jump to that chain,
  so that it is only reached by packets no other rule of the chain has taken.\<close>

lemma set_drop_ignores_chain:
  assumes "fc_dst_set_name (ipr_criteria pr) = Some n" and "ipr_action pr = IptDrop \<or> ipr_action pr = IptPass"
  shows "build_rule_lines pr pf chain ac = build_rule_lines pr pf chain' ac'"
    and "list_all (prefix (''-A '' @ IPT_CHAIN @ '' -m set'')) (build_rule_lines pr pf chain ac)"
  using assms by (auto simp: build_rule_lines_def rule_lines_for_def Let_def list_all_iff prefix_def split: ipt_rule_action.splits)

text \<open>A negated address list becomes one rule per address: a packet escapes the rules only if it matches every one of
  the listed addresses.\<close>

lemma negated_addresses_split:
  assumes "fc_src_addr c = [''10.0.0.0/8'', ''192.168.0.0/16'']" "fc_dst_addr c = []" "fc_proto c = L4Tcp" "fc_negate_src_addr c"
  shows "map (\<lambda>pr. (fc_src_addr (ipr_criteria pr), fc_negate_src_addr (ipr_criteria pr)))
      (if_pending_rules (ipt_append_rules False act m c (fresh_ipt_firewall raw)))
    = [([''10.0.0.0/8''], True), ([''192.168.0.0/16''], True)]"
  using assms
  by (simp add: ipt_append_rules_def fresh_ipt_firewall_def family_addrs_def filter_addrs_by_family_def is_ipv6_addr_def
      expand_l4_protos_for_iptables_def expand_l4_protos_def one_addr_def Let_def)

text \<open>Rules without addresses or sets are queued for IPv6 even when it is disabled.\<close>

lemma ipv6_rules_although_disabled:
  assumes "fc_dst_set_name c = None" "fc_src_addr c = []" "fc_dst_addr c = []"
  shows "list_ex ipr_ipv6 (if_pending_rules (ipt_create_rule act m c (fw\<lparr>fb_ipv6_enabled := False\<rparr>)))"
  using assms
  by (auto simp: ipt_create_rule_def ipt_append_rules_def family_addrs_def expand_l4_protos_for_iptables_def expand_l4_protos_def Let_def)

text \<open>The clean-up of legacy chains uses the number alone as the name of the chain.\<close>

lemma legacy_chain_name_truncated: "legacy_chain ''-N KeenPbrTable_12'' = Some ''12''"
  by (simp add: legacy_chain_def is_digit_def)

end
