(* ===== verification/Config_Json.thy ===== *)
theory Config_Json
  imports Config_Types Json
begin

text \<open>
  The configuration as JSON (\<^verbatim>\<open>src/api/generated/api_types.hpp\<close>): \<^verbatim>\<open>from_json\<close> and \<^verbatim>\<open>to_json\<close> of every enumeration and
  struct of the configuration, member by member in the order of the header, and the comparison of the configuration on disk
  with the active one (\<^verbatim>\<open>src/daemon/disk_config_state.cpp\<close>). Each pair is an interpretation of the round-trip contract.
\<close>

definition dquoted :: "string \<Rightarrow> string" where
  "dquoted s = [CHR 0x22] @ s @ [CHR 0x22]"

section \<open>Enumerations\<close>

definition from_json_daemon_firewall_backend :: "json \<Rightarrow> daemon_firewall_backend result" where
  "from_json_daemon_firewall_backend j =
     (if j = JString ''auto'' then Inr BackendAuto
      else if j = JString ''iptables'' then Inr BackendIptables
      else if j = JString ''nftables'' then Inr BackendNftables
      else Inl (RuntimeError (''Cannot deserialize to enumeration '' @ dquoted ''DaemonConfigFirewallBackend'')))"

fun to_json_daemon_firewall_backend :: "daemon_firewall_backend \<Rightarrow> json" where
  "to_json_daemon_firewall_backend BackendAuto = JString ''auto''"
| "to_json_daemon_firewall_backend BackendIptables = JString ''iptables''"
| "to_json_daemon_firewall_backend BackendNftables = JString ''nftables''"

definition from_json_strict_enforcement_action_kind :: "json \<Rightarrow> strict_enforcement_action_kind result" where
  "from_json_strict_enforcement_action_kind j =
     (if j = JString ''blackhole'' then Inr StrictBlackhole
      else if j = JString ''unreachable'' then Inr StrictUnreachable
      else Inl (RuntimeError (''Cannot deserialize to enumeration '' @ dquoted ''StrictEnforcementAction'')))"

fun to_json_strict_enforcement_action_kind :: "strict_enforcement_action_kind \<Rightarrow> json" where
  "to_json_strict_enforcement_action_kind StrictBlackhole = JString ''blackhole''"
| "to_json_strict_enforcement_action_kind StrictUnreachable = JString ''unreachable''"

definition from_json_dns_server_type :: "json \<Rightarrow> dns_server_type result" where
  "from_json_dns_server_type j =
     (if j = JString ''keenetic'' then Inr DnsKeenetic
      else if j = JString ''static'' then Inr DnsStatic
      else Inl (RuntimeError (''Cannot deserialize to enumeration '' @ dquoted ''DnsServerType'')))"

fun to_json_dns_server_type :: "dns_server_type \<Rightarrow> json" where
  "to_json_dns_server_type DnsKeenetic = JString ''keenetic''"
| "to_json_dns_server_type DnsStatic = JString ''static''"

definition from_json_conntrack_on_switch :: "json \<Rightarrow> conntrack_on_switch result" where
  "from_json_conntrack_on_switch j =
     (if j = JString ''delete'' then Inr ConntrackDelete
      else if j = JString ''preserve'' then Inr ConntrackPreserve
      else Inl (RuntimeError (''Cannot deserialize to enumeration '' @ dquoted ''ConntrackOnSwitch'')))"

fun to_json_conntrack_on_switch :: "conntrack_on_switch \<Rightarrow> json" where
  "to_json_conntrack_on_switch ConntrackDelete = JString ''delete''"
| "to_json_conntrack_on_switch ConntrackPreserve = JString ''preserve''"

definition from_json_outbound_type :: "json \<Rightarrow> outbound_type result" where
  "from_json_outbound_type j =
     (if j = JString ''blackhole'' then Inr BLACKHOLE
      else if j = JString ''ignore'' then Inr IGNORE
      else if j = JString ''interface'' then Inr INTERFACE
      else if j = JString ''table'' then Inr TABLE
      else if j = JString ''urltest'' then Inr URLTEST
      else Inl (RuntimeError (''Cannot deserialize to enumeration '' @ dquoted ''OutboundType'')))"

fun to_json_outbound_type :: "outbound_type \<Rightarrow> json" where
  "to_json_outbound_type BLACKHOLE = JString ''blackhole''"
| "to_json_outbound_type IGNORE = JString ''ignore''"
| "to_json_outbound_type INTERFACE = JString ''interface''"
| "to_json_outbound_type TABLE = JString ''table''"
| "to_json_outbound_type URLTEST = JString ''urltest''"

section \<open>Structs\<close>

definition from_json_api_config :: "json \<Rightarrow> api_config result" where
  "from_json_api_config j =
     bind_result (get_stack_optional get_bool j ''enabled'') (\<lambda>v_enabled.
     bind_result (get_stack_optional get_int64 j ''keep_alive_timeout_seconds'') (\<lambda>v_keep_alive_timeout_seconds.
     bind_result (get_stack_optional get_string j ''listen'') (\<lambda>v_listen.
     bind_result (get_stack_optional get_int64 j ''max_request_body_bytes'') (\<lambda>v_max_request_body_bytes.
     bind_result (get_stack_optional get_int64 j ''read_timeout_seconds'') (\<lambda>v_read_timeout_seconds.
     bind_result (get_stack_optional get_int64 j ''write_timeout_seconds'') (\<lambda>v_write_timeout_seconds.
     Inr \<lparr>api_enabled = v_enabled, api_keep_alive_timeout_seconds = v_keep_alive_timeout_seconds,
       api_listen = v_listen, api_max_request_body_bytes = v_max_request_body_bytes,
       api_read_timeout_seconds = v_read_timeout_seconds, api_write_timeout_seconds = v_write_timeout_seconds\<rparr>))))))"

definition to_json_api_config :: "api_config \<Rightarrow> json" where
  "to_json_api_config x = JObject
    [(''enabled'', put_optional JBool (api_enabled x)),
     (''keep_alive_timeout_seconds'', put_optional JInt (api_keep_alive_timeout_seconds x)),
     (''listen'', put_optional JString (api_listen x)),
     (''max_request_body_bytes'', put_optional JInt (api_max_request_body_bytes x)),
     (''read_timeout_seconds'', put_optional JInt (api_read_timeout_seconds x)),
     (''write_timeout_seconds'', put_optional JInt (api_write_timeout_seconds x))]"

definition from_json_circuit_breaker_config :: "json \<Rightarrow> circuit_breaker_config result" where
  "from_json_circuit_breaker_config j =
     bind_result (get_stack_optional get_int64 j ''failure_threshold'') (\<lambda>v_failure_threshold.
     bind_result (get_stack_optional get_int64 j ''half_open_max_requests'') (\<lambda>v_half_open_max_requests.
     bind_result (get_stack_optional get_int64 j ''success_threshold'') (\<lambda>v_success_threshold.
     bind_result (get_stack_optional get_int64 j ''timeout_ms'') (\<lambda>v_timeout_ms.
     Inr \<lparr>cb_failure_threshold = v_failure_threshold, cb_half_open_max_requests = v_half_open_max_requests,
       cb_success_threshold = v_success_threshold, cb_timeout_ms = v_timeout_ms\<rparr>))))"

definition to_json_circuit_breaker_config :: "circuit_breaker_config \<Rightarrow> json" where
  "to_json_circuit_breaker_config x = JObject
    [(''failure_threshold'', put_optional JInt (cb_failure_threshold x)),
     (''half_open_max_requests'', put_optional JInt (cb_half_open_max_requests x)),
     (''success_threshold'', put_optional JInt (cb_success_threshold x)),
     (''timeout_ms'', put_optional JInt (cb_timeout_ms x))]"

definition from_json_daemon_config :: "json \<Rightarrow> daemon_config result" where
  "from_json_daemon_config j =
     bind_result (get_stack_optional get_string j ''cache_dir'') (\<lambda>v_cache_dir.
     bind_result (get_stack_optional get_bool j ''clear_dynamic_sets_on_apply'') (\<lambda>v_clear_dynamic_sets_on_apply.
     bind_result (get_stack_optional get_int64 j ''exec_kill_grace_seconds'') (\<lambda>v_exec_kill_grace_seconds.
     bind_result (get_stack_optional get_int64 j ''exec_timeout_seconds'') (\<lambda>v_exec_timeout_seconds.
     bind_result (get_stack_optional from_json_daemon_firewall_backend j ''firewall_backend'') (\<lambda>v_firewall_backend.
     bind_result (get_stack_optional get_int64 j ''firewall_verify_max_bytes'') (\<lambda>v_firewall_verify_max_bytes.
     bind_result (get_stack_optional get_bool j ''ipv6_enabled'') (\<lambda>v_ipv6_enabled.
     bind_result (get_stack_optional get_int64 j ''max_file_size_bytes'') (\<lambda>v_max_file_size_bytes.
     bind_result (get_stack_optional get_string j ''pid_file'') (\<lambda>v_pid_file.
     bind_result (get_stack_optional get_int64 j ''resolver_ready_timeout_seconds'') (\<lambda>v_resolver_ready_timeout_seconds.
     bind_result (get_stack_optional get_bool j ''skip_marked_packets'') (\<lambda>v_skip_marked_packets.
     bind_result (get_stack_optional get_bool j ''strict_enforcement'') (\<lambda>v_strict_enforcement.
     bind_result (get_stack_optional from_json_strict_enforcement_action_kind j ''strict_enforcement_action'') (\<lambda>v_strict_enforcement_action.
     Inr \<lparr>dm_cache_dir = v_cache_dir, dm_clear_dynamic_sets_on_apply = v_clear_dynamic_sets_on_apply,
       dm_exec_kill_grace_seconds = v_exec_kill_grace_seconds, dm_exec_timeout_seconds = v_exec_timeout_seconds,
       dm_firewall_backend = v_firewall_backend, dm_firewall_verify_max_bytes = v_firewall_verify_max_bytes,
       dm_ipv6_enabled = v_ipv6_enabled, dm_max_file_size_bytes = v_max_file_size_bytes,
       dm_pid_file = v_pid_file, dm_resolver_ready_timeout_seconds = v_resolver_ready_timeout_seconds,
       dm_skip_marked_packets = v_skip_marked_packets, dm_strict_enforcement = v_strict_enforcement,
       dm_strict_enforcement_action = v_strict_enforcement_action\<rparr>)))))))))))))"

definition to_json_daemon_config :: "daemon_config \<Rightarrow> json" where
  "to_json_daemon_config x = JObject
    [(''cache_dir'', put_optional JString (dm_cache_dir x)),
     (''clear_dynamic_sets_on_apply'', put_optional JBool (dm_clear_dynamic_sets_on_apply x)),
     (''exec_kill_grace_seconds'', put_optional JInt (dm_exec_kill_grace_seconds x)),
     (''exec_timeout_seconds'', put_optional JInt (dm_exec_timeout_seconds x)),
     (''firewall_backend'', put_optional to_json_daemon_firewall_backend (dm_firewall_backend x)),
     (''firewall_verify_max_bytes'', put_optional JInt (dm_firewall_verify_max_bytes x)),
     (''ipv6_enabled'', put_optional JBool (dm_ipv6_enabled x)),
     (''max_file_size_bytes'', put_optional JInt (dm_max_file_size_bytes x)),
     (''pid_file'', put_optional JString (dm_pid_file x)),
     (''resolver_ready_timeout_seconds'', put_optional JInt (dm_resolver_ready_timeout_seconds x)),
     (''skip_marked_packets'', put_optional JBool (dm_skip_marked_packets x)),
     (''strict_enforcement'', put_optional JBool (dm_strict_enforcement x)),
     (''strict_enforcement_action'', put_optional to_json_strict_enforcement_action_kind (dm_strict_enforcement_action x))]"

definition from_json_dns_test_server :: "json \<Rightarrow> dns_test_server result" where
  "from_json_dns_test_server j =
     bind_result (get_stack_optional get_string j ''answer_ipv4'') (\<lambda>v_answer_ipv4.
     bind_result (json_at get_string j ''listen'') (\<lambda>v_listen.
     Inr \<lparr>dts_answer_ipv4 = v_answer_ipv4, dts_listen = v_listen\<rparr>))"

definition to_json_dns_test_server :: "dns_test_server \<Rightarrow> json" where
  "to_json_dns_test_server x = JObject
    [(''answer_ipv4'', put_optional JString (dts_answer_ipv4 x)),
     (''listen'', JString (dts_listen x))]"

definition from_json_dns_rule :: "json \<Rightarrow> dns_rule result" where
  "from_json_dns_rule j =
     bind_result (get_stack_optional get_bool j ''allow_domain_rebinding'') (\<lambda>v_allow_domain_rebinding.
     bind_result (get_stack_optional get_bool j ''enabled'') (\<lambda>v_enabled.
     bind_result (json_at (get_vector get_string) j ''list'') (\<lambda>v_list.
     bind_result (json_at get_string j ''server'') (\<lambda>v_server.
     Inr \<lparr>dr_allow_domain_rebinding = v_allow_domain_rebinding, dr_enabled = v_enabled, dr_list = v_list,
       dr_server = v_server\<rparr>))))"

definition to_json_dns_rule :: "dns_rule \<Rightarrow> json" where
  "to_json_dns_rule x = JObject
    [(''allow_domain_rebinding'', put_optional JBool (dr_allow_domain_rebinding x)),
     (''enabled'', put_optional JBool (dr_enabled x)),
     (''list'', (put_vector JString) (dr_list x)),
     (''server'', JString (dr_server x))]"

definition from_json_dns_server_config :: "json \<Rightarrow> dns_server_config result" where
  "from_json_dns_server_config j =
     bind_result (get_stack_optional get_string j ''address'') (\<lambda>v_address.
     bind_result (get_stack_optional get_string j ''detour'') (\<lambda>v_detour.
     bind_result (json_at get_string j ''tag'') (\<lambda>v_tag.
     bind_result (get_stack_optional from_json_dns_server_type j ''type'') (\<lambda>v_type.
     Inr \<lparr>srv_address = v_address, srv_detour = v_detour, srv_tag = v_tag, srv_type = v_type\<rparr>))))"

definition to_json_dns_server_config :: "dns_server_config \<Rightarrow> json" where
  "to_json_dns_server_config x = JObject
    [(''address'', put_optional JString (srv_address x)),
     (''detour'', put_optional JString (srv_detour x)),
     (''tag'', JString (srv_tag x)),
     (''type'', put_optional to_json_dns_server_type (srv_type x))]"

definition from_json_system_resolver :: "json \<Rightarrow> system_resolver result" where
  "from_json_system_resolver j =
     bind_result (json_at get_string j ''address'') (\<lambda>v_address.
     Inr \<lparr>sr_address = v_address\<rparr>)"

definition to_json_system_resolver :: "system_resolver \<Rightarrow> json" where
  "to_json_system_resolver x = JObject
    [(''address'', JString (sr_address x))]"

definition from_json_dns_config :: "json \<Rightarrow> dns_config result" where
  "from_json_dns_config j =
     bind_result (get_stack_optional from_json_dns_test_server j ''dns_test_server'') (\<lambda>v_dns_test_server.
     bind_result (get_stack_optional (get_vector get_string) j ''fallback'') (\<lambda>v_fallback.
     bind_result (get_stack_optional (get_vector from_json_dns_rule) j ''rules'') (\<lambda>v_rules.
     bind_result (get_stack_optional (get_vector from_json_dns_server_config) j ''servers'') (\<lambda>v_servers.
     bind_result (get_stack_optional from_json_system_resolver j ''system_resolver'') (\<lambda>v_system_resolver.
     Inr \<lparr>dns_test_server_cfg = v_dns_test_server, dns_fallback = v_fallback, dns_rules = v_rules,
       dns_servers = v_servers, dns_system_resolver = v_system_resolver\<rparr>)))))"

definition to_json_dns_config :: "dns_config \<Rightarrow> json" where
  "to_json_dns_config x = JObject
    [(''dns_test_server'', put_optional to_json_dns_test_server (dns_test_server_cfg x)),
     (''fallback'', put_optional (put_vector JString) (dns_fallback x)),
     (''rules'', put_optional (put_vector to_json_dns_rule) (dns_rules x)),
     (''servers'', put_optional (put_vector to_json_dns_server_config) (dns_servers x)),
     (''system_resolver'', put_optional to_json_system_resolver (dns_system_resolver x))]"

definition from_json_fwmark_config :: "json \<Rightarrow> fwmark_config result" where
  "from_json_fwmark_config j =
     bind_result (get_stack_optional get_string j ''mask'') (\<lambda>v_mask.
     bind_result (get_stack_optional get_string j ''start'') (\<lambda>v_start.
     Inr \<lparr>fwm_mask = v_mask, fwm_start = v_start\<rparr>))"

definition to_json_fwmark_config :: "fwmark_config \<Rightarrow> json" where
  "to_json_fwmark_config x = JObject
    [(''mask'', put_optional JString (fwm_mask x)),
     (''start'', put_optional JString (fwm_start x))]"

definition from_json_iproute_config :: "json \<Rightarrow> iproute_config result" where
  "from_json_iproute_config j =
     bind_result (get_stack_optional get_int64 j ''rule_priority_start'') (\<lambda>v_rule_priority_start.
     bind_result (get_stack_optional get_int64 j ''table_start'') (\<lambda>v_table_start.
     Inr \<lparr>ipr_rule_priority_start = v_rule_priority_start, ipr_table_start = v_table_start\<rparr>))"

definition to_json_iproute_config :: "iproute_config \<Rightarrow> json" where
  "to_json_iproute_config x = JObject
    [(''rule_priority_start'', put_optional JInt (ipr_rule_priority_start x)),
     (''table_start'', put_optional JInt (ipr_table_start x))]"

definition from_json_list_config :: "json \<Rightarrow> list_config result" where
  "from_json_list_config j =
     bind_result (get_stack_optional get_string j ''detour'') (\<lambda>v_detour.
     bind_result (get_stack_optional (get_vector get_string) j ''domains'') (\<lambda>v_domains.
     bind_result (get_stack_optional get_string j ''file'') (\<lambda>v_file.
     bind_result (get_stack_optional (get_vector get_string) j ''ip_cidrs'') (\<lambda>v_ip_cidrs.
     bind_result (get_stack_optional get_int64 j ''ttl_ms'') (\<lambda>v_ttl_ms.
     bind_result (get_stack_optional get_string j ''url'') (\<lambda>v_url.
     Inr \<lparr>lst_detour = v_detour, lst_domains = v_domains, lst_file = v_file, lst_ip_cidrs = v_ip_cidrs,
       lst_ttl_ms = v_ttl_ms, lst_url = v_url\<rparr>))))))"

definition to_json_list_config :: "list_config \<Rightarrow> json" where
  "to_json_list_config x = JObject
    [(''detour'', put_optional JString (lst_detour x)),
     (''domains'', put_optional (put_vector JString) (lst_domains x)),
     (''file'', put_optional JString (lst_file x)),
     (''ip_cidrs'', put_optional (put_vector JString) (lst_ip_cidrs x)),
     (''ttl_ms'', put_optional JInt (lst_ttl_ms x)),
     (''url'', put_optional JString (lst_url x))]"

definition from_json_lists_autoupdate_config :: "json \<Rightarrow> lists_autoupdate_config result" where
  "from_json_lists_autoupdate_config j =
     bind_result (get_stack_optional get_string j ''cron'') (\<lambda>v_cron.
     bind_result (get_stack_optional get_bool j ''enabled'') (\<lambda>v_enabled.
     Inr \<lparr>lau_cron = v_cron, lau_enabled = v_enabled\<rparr>))"

definition to_json_lists_autoupdate_config :: "lists_autoupdate_config \<Rightarrow> json" where
  "to_json_lists_autoupdate_config x = JObject
    [(''cron'', put_optional JString (lau_cron x)),
     (''enabled'', put_optional JBool (lau_enabled x))]"

definition from_json_outbound_group :: "json \<Rightarrow> outbound_group result" where
  "from_json_outbound_group j =
     bind_result (json_at (get_vector get_string) j ''outbounds'') (\<lambda>v_outbounds.
     bind_result (get_stack_optional get_int64 j ''weight'') (\<lambda>v_weight.
     Inr \<lparr>grp_outbounds = v_outbounds, grp_weight = v_weight\<rparr>))"

definition to_json_outbound_group :: "outbound_group \<Rightarrow> json" where
  "to_json_outbound_group x = JObject
    [(''outbounds'', (put_vector JString) (grp_outbounds x)),
     (''weight'', put_optional JInt (grp_weight x))]"

definition from_json_retry_config :: "json \<Rightarrow> retry_config result" where
  "from_json_retry_config j =
     bind_result (get_stack_optional get_int64 j ''attempts'') (\<lambda>v_attempts.
     bind_result (get_stack_optional get_int64 j ''interval_ms'') (\<lambda>v_interval_ms.
     Inr \<lparr>rty_attempts = v_attempts, rty_interval_ms = v_interval_ms\<rparr>))"

definition to_json_retry_config :: "retry_config \<Rightarrow> json" where
  "to_json_retry_config x = JObject
    [(''attempts'', put_optional JInt (rty_attempts x)),
     (''interval_ms'', put_optional JInt (rty_interval_ms x))]"

definition from_json_outbound :: "json \<Rightarrow> outbound result" where
  "from_json_outbound j =
     bind_result (get_stack_optional from_json_circuit_breaker_config j ''circuit_breaker'') (\<lambda>v_circuit_breaker.
     bind_result (get_stack_optional from_json_conntrack_on_switch j ''conntrack_on_switch'') (\<lambda>v_conntrack_on_switch.
     bind_result (get_stack_optional get_string j ''gateway'') (\<lambda>v_gateway.
     bind_result (get_stack_optional get_string j ''gateway6'') (\<lambda>v_gateway6.
     bind_result (get_stack_optional get_string j ''interface'') (\<lambda>v_interface.
     bind_result (get_stack_optional get_int64 j ''interval_ms'') (\<lambda>v_interval_ms.
     bind_result (get_stack_optional (get_vector from_json_outbound_group) j ''outbound_groups'') (\<lambda>v_outbound_groups.
     bind_result (get_stack_optional get_int64 j ''probe_timeout_ms'') (\<lambda>v_probe_timeout_ms.
     bind_result (get_stack_optional from_json_retry_config j ''retry'') (\<lambda>v_retry.
     bind_result (get_stack_optional get_bool j ''strict_enforcement'') (\<lambda>v_strict_enforcement.
     bind_result (get_stack_optional from_json_strict_enforcement_action_kind j ''strict_enforcement_action'') (\<lambda>v_strict_enforcement_action.
     bind_result (get_stack_optional get_int64 j ''table'') (\<lambda>v_table.
     bind_result (json_at get_string j ''tag'') (\<lambda>v_tag.
     bind_result (get_stack_optional get_int64 j ''tolerance_ms'') (\<lambda>v_tolerance_ms.
     bind_result (json_at from_json_outbound_type j ''type'') (\<lambda>v_type.
     bind_result (get_stack_optional get_string j ''url'') (\<lambda>v_url.
     Inr \<lparr>ob_circuit_breaker = v_circuit_breaker, ob_conntrack_on_switch = v_conntrack_on_switch,
       ob_gateway = v_gateway, ob_gateway6 = v_gateway6, ob_interface = v_interface,
       ob_interval_ms = v_interval_ms, ob_outbound_groups = v_outbound_groups,
       ob_probe_timeout_ms = v_probe_timeout_ms, ob_retry = v_retry,
       ob_strict_enforcement = v_strict_enforcement, ob_strict_enforcement_action = v_strict_enforcement_action,
       ob_table = v_table, ob_tag = v_tag, ob_tolerance_ms = v_tolerance_ms, ob_type = v_type, ob_url = v_url\<rparr>))))))))))))))))"

definition to_json_outbound :: "outbound \<Rightarrow> json" where
  "to_json_outbound x = JObject
    [(''circuit_breaker'', put_optional to_json_circuit_breaker_config (ob_circuit_breaker x)),
     (''conntrack_on_switch'', put_optional to_json_conntrack_on_switch (ob_conntrack_on_switch x)),
     (''gateway'', put_optional JString (ob_gateway x)),
     (''gateway6'', put_optional JString (ob_gateway6 x)),
     (''interface'', put_optional JString (ob_interface x)),
     (''interval_ms'', put_optional JInt (ob_interval_ms x)),
     (''outbound_groups'', put_optional (put_vector to_json_outbound_group) (ob_outbound_groups x)),
     (''probe_timeout_ms'', put_optional JInt (ob_probe_timeout_ms x)),
     (''retry'', put_optional to_json_retry_config (ob_retry x)),
     (''strict_enforcement'', put_optional JBool (ob_strict_enforcement x)),
     (''strict_enforcement_action'', put_optional to_json_strict_enforcement_action_kind (ob_strict_enforcement_action x)),
     (''table'', put_optional JInt (ob_table x)),
     (''tag'', JString (ob_tag x)),
     (''tolerance_ms'', put_optional JInt (ob_tolerance_ms x)),
     (''type'', to_json_outbound_type (ob_type x)),
     (''url'', put_optional JString (ob_url x))]"

definition from_json_route_rule :: "json \<Rightarrow> route_rule result" where
  "from_json_route_rule j =
     bind_result (get_stack_optional get_string j ''dest_addr'') (\<lambda>v_dest_addr.
     bind_result (get_stack_optional get_string j ''dest_port'') (\<lambda>v_dest_port.
     bind_result (get_stack_optional get_int64 j ''dscp'') (\<lambda>v_dscp.
     bind_result (get_stack_optional get_bool j ''enabled'') (\<lambda>v_enabled.
     bind_result (get_stack_optional (get_vector get_string) j ''list'') (\<lambda>v_list.
     bind_result (json_at get_string j ''outbound'') (\<lambda>v_outbound.
     bind_result (get_stack_optional get_string j ''proto'') (\<lambda>v_proto.
     bind_result (get_stack_optional get_string j ''src_addr'') (\<lambda>v_src_addr.
     bind_result (get_stack_optional get_string j ''src_port'') (\<lambda>v_src_port.
     Inr \<lparr>rr_dest_addr = v_dest_addr, rr_dest_port = v_dest_port, rr_dscp = v_dscp, rr_enabled = v_enabled,
       rr_list = v_list, rr_outbound = v_outbound, rr_proto = v_proto, rr_src_addr = v_src_addr,
       rr_src_port = v_src_port\<rparr>)))))))))"

definition to_json_route_rule :: "route_rule \<Rightarrow> json" where
  "to_json_route_rule x = JObject
    [(''dest_addr'', put_optional JString (rr_dest_addr x)),
     (''dest_port'', put_optional JString (rr_dest_port x)),
     (''dscp'', put_optional JInt (rr_dscp x)),
     (''enabled'', put_optional JBool (rr_enabled x)),
     (''list'', put_optional (put_vector JString) (rr_list x)),
     (''outbound'', JString (rr_outbound x)),
     (''proto'', put_optional JString (rr_proto x)),
     (''src_addr'', put_optional JString (rr_src_addr x)),
     (''src_port'', put_optional JString (rr_src_port x))]"

definition from_json_route_config :: "json \<Rightarrow> route_config result" where
  "from_json_route_config j =
     bind_result (get_stack_optional (get_vector get_string) j ''inbound_interfaces'') (\<lambda>v_inbound_interfaces.
     bind_result (get_stack_optional (get_vector from_json_route_rule) j ''rules'') (\<lambda>v_rules.
     Inr \<lparr>rc_inbound_interfaces = v_inbound_interfaces, rc_rules = v_rules\<rparr>))"

definition to_json_route_config :: "route_config \<Rightarrow> json" where
  "to_json_route_config x = JObject
    [(''inbound_interfaces'', put_optional (put_vector JString) (rc_inbound_interfaces x)),
     (''rules'', put_optional (put_vector to_json_route_rule) (rc_rules x))]"

definition from_json_config :: "json \<Rightarrow> config result" where
  "from_json_config j =
     bind_result (get_stack_optional from_json_api_config j ''api'') (\<lambda>v_api.
     bind_result (get_stack_optional from_json_daemon_config j ''daemon'') (\<lambda>v_daemon.
     bind_result (get_stack_optional from_json_dns_config j ''dns'') (\<lambda>v_dns.
     bind_result (get_stack_optional from_json_fwmark_config j ''fwmark'') (\<lambda>v_fwmark.
     bind_result (get_stack_optional from_json_iproute_config j ''iproute'') (\<lambda>v_iproute.
     bind_result (get_stack_optional (get_map from_json_list_config) j ''lists'') (\<lambda>v_lists.
     bind_result (get_stack_optional from_json_lists_autoupdate_config j ''lists_autoupdate'') (\<lambda>v_lists_autoupdate.
     bind_result (get_stack_optional (get_vector from_json_outbound) j ''outbounds'') (\<lambda>v_outbounds.
     bind_result (get_stack_optional from_json_route_config j ''route'') (\<lambda>v_route.
     Inr \<lparr>cfg_api = v_api, cfg_daemon = v_daemon, cfg_dns = v_dns, cfg_fwmark = v_fwmark, cfg_iproute = v_iproute,
       cfg_lists = v_lists, cfg_lists_autoupdate = v_lists_autoupdate, cfg_outbounds = v_outbounds,
       cfg_route = v_route\<rparr>)))))))))"

definition to_json_config :: "config \<Rightarrow> json" where
  "to_json_config x = JObject
    [(''api'', put_optional to_json_api_config (cfg_api x)),
     (''daemon'', put_optional to_json_daemon_config (cfg_daemon x)),
     (''dns'', put_optional to_json_dns_config (cfg_dns x)),
     (''fwmark'', put_optional to_json_fwmark_config (cfg_fwmark x)),
     (''iproute'', put_optional to_json_iproute_config (cfg_iproute x)),
     (''lists'', put_optional (put_map to_json_list_config) (cfg_lists x)),
     (''lists_autoupdate'', put_optional to_json_lists_autoupdate_config (cfg_lists_autoupdate x)),
     (''outbounds'', put_optional (put_vector to_json_outbound) (cfg_outbounds x)),
     (''route'', put_optional to_json_route_config (cfg_route x))]"

section \<open>Admissible values\<close>

text \<open>Integers that fit their 64 bits and lists in key order, as every C++ object of these types has.\<close>

definition api_config_ok :: "api_config \<Rightarrow> bool" where
  "api_config_ok x \<longleftrightarrow> pred_option int64_ok (api_keep_alive_timeout_seconds x)
     \<and> pred_option int64_ok (api_max_request_body_bytes x)
     \<and> pred_option int64_ok (api_read_timeout_seconds x)
     \<and> pred_option int64_ok (api_write_timeout_seconds x)"

definition circuit_breaker_config_ok :: "circuit_breaker_config \<Rightarrow> bool" where
  "circuit_breaker_config_ok x \<longleftrightarrow> pred_option int64_ok (cb_failure_threshold x)
     \<and> pred_option int64_ok (cb_half_open_max_requests x)
     \<and> pred_option int64_ok (cb_success_threshold x)
     \<and> pred_option int64_ok (cb_timeout_ms x)"

definition daemon_config_ok :: "daemon_config \<Rightarrow> bool" where
  "daemon_config_ok x \<longleftrightarrow> pred_option int64_ok (dm_exec_kill_grace_seconds x)
     \<and> pred_option int64_ok (dm_exec_timeout_seconds x)
     \<and> pred_option int64_ok (dm_firewall_verify_max_bytes x)
     \<and> pred_option int64_ok (dm_max_file_size_bytes x)
     \<and> pred_option int64_ok (dm_resolver_ready_timeout_seconds x)"

definition iproute_config_ok :: "iproute_config \<Rightarrow> bool" where
  "iproute_config_ok x \<longleftrightarrow> pred_option int64_ok (ipr_rule_priority_start x) \<and> pred_option int64_ok (ipr_table_start x)"

definition list_config_ok :: "list_config \<Rightarrow> bool" where
  "list_config_ok x \<longleftrightarrow> pred_option int64_ok (lst_ttl_ms x)"

definition list_map_ok :: "(string, list_config) smap \<Rightarrow> bool" where
  "list_map_ok m \<longleftrightarrow> smap_wf m \<and> list_all (\<lambda>(k, x). list_config_ok x) m"

definition outbound_group_ok :: "outbound_group \<Rightarrow> bool" where
  "outbound_group_ok x \<longleftrightarrow> pred_option int64_ok (grp_weight x)"

definition retry_config_ok :: "retry_config \<Rightarrow> bool" where
  "retry_config_ok x \<longleftrightarrow> pred_option int64_ok (rty_attempts x) \<and> pred_option int64_ok (rty_interval_ms x)"

definition outbound_ok :: "outbound \<Rightarrow> bool" where
  "outbound_ok x \<longleftrightarrow> pred_option circuit_breaker_config_ok (ob_circuit_breaker x)
     \<and> pred_option int64_ok (ob_interval_ms x)
     \<and> pred_option (list_all outbound_group_ok) (ob_outbound_groups x)
     \<and> pred_option int64_ok (ob_probe_timeout_ms x)
     \<and> pred_option retry_config_ok (ob_retry x)
     \<and> pred_option int64_ok (ob_table x)
     \<and> pred_option int64_ok (ob_tolerance_ms x)"

definition route_rule_ok :: "route_rule \<Rightarrow> bool" where
  "route_rule_ok x \<longleftrightarrow> pred_option int64_ok (rr_dscp x)"

definition route_config_ok :: "route_config \<Rightarrow> bool" where
  "route_config_ok x \<longleftrightarrow> pred_option (list_all route_rule_ok) (rc_rules x)"

definition config_ok :: "config \<Rightarrow> bool" where
  "config_ok x \<longleftrightarrow> pred_option api_config_ok (cfg_api x)
     \<and> pred_option daemon_config_ok (cfg_daemon x)
     \<and> pred_option iproute_config_ok (cfg_iproute x)
     \<and> pred_option list_map_ok (cfg_lists x)
     \<and> pred_option (list_all outbound_ok) (cfg_outbounds x)
     \<and> pred_option route_config_ok (cfg_route x)"

section \<open>Round trips\<close>

interpretation daemon_firewall_backend_json: json_codec to_json_daemon_firewall_backend from_json_daemon_firewall_backend "\<lambda>x. True"
proof
  fix x show "from_json_daemon_firewall_backend (to_json_daemon_firewall_backend x) = Inr x"
    by (cases x) (simp_all add: from_json_daemon_firewall_backend_def)
  show "to_json_daemon_firewall_backend x \<noteq> JNull" by (cases x) simp_all
qed simp

interpretation strict_enforcement_action_kind_json: json_codec to_json_strict_enforcement_action_kind from_json_strict_enforcement_action_kind "\<lambda>x. True"
proof
  fix x show "from_json_strict_enforcement_action_kind (to_json_strict_enforcement_action_kind x) = Inr x"
    by (cases x) (simp_all add: from_json_strict_enforcement_action_kind_def)
  show "to_json_strict_enforcement_action_kind x \<noteq> JNull" by (cases x) simp_all
qed simp

interpretation dns_server_type_json: json_codec to_json_dns_server_type from_json_dns_server_type "\<lambda>x. True"
proof
  fix x show "from_json_dns_server_type (to_json_dns_server_type x) = Inr x"
    by (cases x) (simp_all add: from_json_dns_server_type_def)
  show "to_json_dns_server_type x \<noteq> JNull" by (cases x) simp_all
qed simp

interpretation conntrack_on_switch_json: json_codec to_json_conntrack_on_switch from_json_conntrack_on_switch "\<lambda>x. True"
proof
  fix x show "from_json_conntrack_on_switch (to_json_conntrack_on_switch x) = Inr x"
    by (cases x) (simp_all add: from_json_conntrack_on_switch_def)
  show "to_json_conntrack_on_switch x \<noteq> JNull" by (cases x) simp_all
qed simp

interpretation outbound_type_json: json_codec to_json_outbound_type from_json_outbound_type "\<lambda>x. True"
proof
  fix x show "from_json_outbound_type (to_json_outbound_type x) = Inr x"
    by (cases x) (simp_all add: from_json_outbound_type_def)
  show "to_json_outbound_type x \<noteq> JNull" by (cases x) simp_all
qed simp

interpretation text_vector_json: json_codec "put_vector JString" "get_vector get_string" "list_all (\<lambda>s. True)"
  by (rule json_text.vector_codec)

lemmas ok_facts = json_int64.optional_ok

lemmas member_facts = option.pred_True list.pred_True json_bool.optional_member json_int64.optional_member json_text.optional_member
  text_vector_json.optional_member [simplified] json_text.dec_enc text_vector_json.dec_enc [simplified]
  daemon_firewall_backend_json.optional_member
  strict_enforcement_action_kind_json.optional_member
  dns_server_type_json.optional_member
  conntrack_on_switch_json.optional_member
  outbound_type_json.optional_member
  outbound_type_json.dec_enc

lemma from_json_api_config_ok: "from_json_api_config j = Inr x \<Longrightarrow> api_config_ok x"
  by (auto simp: from_json_api_config_def api_config_ok_def result_simps dest: ok_facts)

interpretation api_config_json: json_codec to_json_api_config from_json_api_config api_config_ok
  by unfold_locales
    (erule from_json_api_config_ok |
     simp add: from_json_api_config_def to_json_api_config_def get_stack_optional_def json_at_def
       api_config_ok_def member_facts)+

lemma from_json_circuit_breaker_config_ok: "from_json_circuit_breaker_config j = Inr x \<Longrightarrow> circuit_breaker_config_ok x"
  by (auto simp: from_json_circuit_breaker_config_def circuit_breaker_config_ok_def result_simps dest: ok_facts)

interpretation circuit_breaker_config_json: json_codec to_json_circuit_breaker_config from_json_circuit_breaker_config circuit_breaker_config_ok
  by unfold_locales
    (erule from_json_circuit_breaker_config_ok |
     simp add: from_json_circuit_breaker_config_def to_json_circuit_breaker_config_def get_stack_optional_def json_at_def
       circuit_breaker_config_ok_def member_facts)+

lemma from_json_daemon_config_ok: "from_json_daemon_config j = Inr x \<Longrightarrow> daemon_config_ok x"
  by (auto simp: from_json_daemon_config_def daemon_config_ok_def result_simps dest: ok_facts)

interpretation daemon_config_json: json_codec to_json_daemon_config from_json_daemon_config daemon_config_ok
  by unfold_locales
    (erule from_json_daemon_config_ok |
     simp add: from_json_daemon_config_def to_json_daemon_config_def get_stack_optional_def json_at_def
       daemon_config_ok_def member_facts)+

interpretation dns_test_server_json: json_codec to_json_dns_test_server from_json_dns_test_server "\<lambda>x. True"
  by unfold_locales
    (simp_all add: from_json_dns_test_server_def to_json_dns_test_server_def get_stack_optional_def json_at_def
       member_facts)

interpretation dns_rule_json: json_codec to_json_dns_rule from_json_dns_rule "\<lambda>x. True"
  by unfold_locales (simp_all add: from_json_dns_rule_def to_json_dns_rule_def get_stack_optional_def json_at_def member_facts)

interpretation dns_rule_vector_json: json_codec "put_vector to_json_dns_rule" "get_vector from_json_dns_rule" "list_all (\<lambda>x. True)"
  by (rule dns_rule_json.vector_codec)

interpretation dns_server_config_json: json_codec to_json_dns_server_config from_json_dns_server_config "\<lambda>x. True"
  by unfold_locales
    (simp_all add: from_json_dns_server_config_def to_json_dns_server_config_def get_stack_optional_def json_at_def
       member_facts)

interpretation dns_server_config_vector_json: json_codec "put_vector to_json_dns_server_config" "get_vector from_json_dns_server_config" "list_all (\<lambda>x. True)"
  by (rule dns_server_config_json.vector_codec)

interpretation system_resolver_json: json_codec to_json_system_resolver from_json_system_resolver "\<lambda>x. True"
  by unfold_locales
    (simp_all add: from_json_system_resolver_def to_json_system_resolver_def get_stack_optional_def json_at_def
       member_facts)

interpretation dns_config_json: json_codec to_json_dns_config from_json_dns_config "\<lambda>x. True"
  by unfold_locales
    (simp_all add: from_json_dns_config_def to_json_dns_config_def get_stack_optional_def json_at_def
       member_facts dns_test_server_json.optional_member dns_rule_vector_json.optional_member [simplified] dns_server_config_vector_json.optional_member [simplified] system_resolver_json.optional_member)

interpretation fwmark_config_json: json_codec to_json_fwmark_config from_json_fwmark_config "\<lambda>x. True"
  by unfold_locales
    (simp_all add: from_json_fwmark_config_def to_json_fwmark_config_def get_stack_optional_def json_at_def
       member_facts)

lemma from_json_iproute_config_ok: "from_json_iproute_config j = Inr x \<Longrightarrow> iproute_config_ok x"
  by (auto simp: from_json_iproute_config_def iproute_config_ok_def result_simps dest: ok_facts)

interpretation iproute_config_json: json_codec to_json_iproute_config from_json_iproute_config iproute_config_ok
  by unfold_locales
    (erule from_json_iproute_config_ok |
     simp add: from_json_iproute_config_def to_json_iproute_config_def get_stack_optional_def json_at_def
       iproute_config_ok_def member_facts)+

lemma from_json_list_config_ok: "from_json_list_config j = Inr x \<Longrightarrow> list_config_ok x"
  by (auto simp: from_json_list_config_def list_config_ok_def result_simps dest: ok_facts)

interpretation list_config_json: json_codec to_json_list_config from_json_list_config list_config_ok
  by unfold_locales
    (erule from_json_list_config_ok |
     simp add: from_json_list_config_def to_json_list_config_def get_stack_optional_def json_at_def
       list_config_ok_def member_facts)+

interpretation list_map_json: json_codec "put_map to_json_list_config" "get_map from_json_list_config" list_map_ok
  using list_config_json.map_codec by (simp add: list_map_ok_def [abs_def])

interpretation lists_autoupdate_config_json: json_codec to_json_lists_autoupdate_config from_json_lists_autoupdate_config "\<lambda>x. True"
  by unfold_locales
    (simp_all add: from_json_lists_autoupdate_config_def to_json_lists_autoupdate_config_def get_stack_optional_def json_at_def
       member_facts)

lemma from_json_outbound_group_ok: "from_json_outbound_group j = Inr x \<Longrightarrow> outbound_group_ok x"
  by (auto simp: from_json_outbound_group_def outbound_group_ok_def result_simps dest: ok_facts)

interpretation outbound_group_json: json_codec to_json_outbound_group from_json_outbound_group outbound_group_ok
  by unfold_locales
    (erule from_json_outbound_group_ok |
     simp add: from_json_outbound_group_def to_json_outbound_group_def get_stack_optional_def json_at_def
       outbound_group_ok_def member_facts)+

interpretation outbound_group_vector_json: json_codec "put_vector to_json_outbound_group" "get_vector from_json_outbound_group" "list_all outbound_group_ok"
  by (rule outbound_group_json.vector_codec)

lemma from_json_retry_config_ok: "from_json_retry_config j = Inr x \<Longrightarrow> retry_config_ok x"
  by (auto simp: from_json_retry_config_def retry_config_ok_def result_simps dest: ok_facts)

interpretation retry_config_json: json_codec to_json_retry_config from_json_retry_config retry_config_ok
  by unfold_locales
    (erule from_json_retry_config_ok |
     simp add: from_json_retry_config_def to_json_retry_config_def get_stack_optional_def json_at_def
       retry_config_ok_def member_facts)+

lemma from_json_outbound_ok: "from_json_outbound j = Inr x \<Longrightarrow> outbound_ok x"
  by (auto simp: from_json_outbound_def outbound_ok_def result_simps dest: ok_facts circuit_breaker_config_json.optional_ok retry_config_json.optional_ok outbound_group_vector_json.optional_ok)

interpretation outbound_json: json_codec to_json_outbound from_json_outbound outbound_ok
  by unfold_locales
    (erule from_json_outbound_ok |
     simp add: from_json_outbound_def to_json_outbound_def get_stack_optional_def json_at_def
       outbound_ok_def member_facts circuit_breaker_config_json.optional_member retry_config_json.optional_member outbound_group_vector_json.optional_member)+

interpretation outbound_vector_json: json_codec "put_vector to_json_outbound" "get_vector from_json_outbound" "list_all outbound_ok"
  by (rule outbound_json.vector_codec)

lemma from_json_route_rule_ok: "from_json_route_rule j = Inr x \<Longrightarrow> route_rule_ok x"
  by (auto simp: from_json_route_rule_def route_rule_ok_def result_simps dest: ok_facts)

interpretation route_rule_json: json_codec to_json_route_rule from_json_route_rule route_rule_ok
  by unfold_locales
    (erule from_json_route_rule_ok |
     simp add: from_json_route_rule_def to_json_route_rule_def get_stack_optional_def json_at_def
       route_rule_ok_def member_facts)+

interpretation route_rule_vector_json: json_codec "put_vector to_json_route_rule" "get_vector from_json_route_rule" "list_all route_rule_ok"
  by (rule route_rule_json.vector_codec)

lemma from_json_route_config_ok: "from_json_route_config j = Inr x \<Longrightarrow> route_config_ok x"
  by (auto simp: from_json_route_config_def route_config_ok_def result_simps dest: ok_facts route_rule_vector_json.optional_ok)

interpretation route_config_json: json_codec to_json_route_config from_json_route_config route_config_ok
  by unfold_locales
    (erule from_json_route_config_ok |
     simp add: from_json_route_config_def to_json_route_config_def get_stack_optional_def json_at_def
       route_config_ok_def member_facts route_rule_vector_json.optional_member)+

lemma from_json_config_ok: "from_json_config j = Inr x \<Longrightarrow> config_ok x"
  by (auto simp: from_json_config_def config_ok_def result_simps dest: ok_facts api_config_json.optional_ok daemon_config_json.optional_ok dns_config_json.optional_ok fwmark_config_json.optional_ok iproute_config_json.optional_ok list_map_json.optional_ok lists_autoupdate_config_json.optional_ok outbound_vector_json.optional_ok route_config_json.optional_ok)

interpretation config_json: json_codec to_json_config from_json_config config_ok
  by unfold_locales
    (erule from_json_config_ok |
     simp add: from_json_config_def to_json_config_def get_stack_optional_def json_at_def
       config_ok_def member_facts api_config_json.optional_member daemon_config_json.optional_member dns_config_json.optional_member fwmark_config_json.optional_member iproute_config_json.optional_member list_map_json.optional_member lists_autoupdate_config_json.optional_member outbound_vector_json.optional_member route_config_json.optional_member)+

section \<open>The configuration on disk\<close>

record disk_config_state =
  dcs_matches_active :: bool
  dcs_error :: string

text \<open>
  The file is given by its contents, \<^const>\<open>None\<close> when it cannot be opened; \<open>parse\<close> is \<^verbatim>\<open>json::parse\<close> and \<open>same\<close> the
  comparison of JSON values.
\<close>

definition inspect_disk_config_state ::
  "(string \<Rightarrow> json result) \<Rightarrow> (json \<Rightarrow> json \<Rightarrow> bool) \<Rightarrow> string option \<Rightarrow> config \<Rightarrow> disk_config_state" where
  "inspect_disk_config_state parse same contents active_config =
     (case contents of
        None \<Rightarrow> \<lparr>dcs_matches_active = False, dcs_error = ''cannot open disk config''\<rparr>
      | Some body \<Rightarrow>
          (case parse body of
             Inl e \<Rightarrow> \<lparr>dcs_matches_active = False, dcs_error = what e\<rparr>
           | Inr disk_json \<Rightarrow> \<lparr>dcs_matches_active = same disk_json (to_json_config active_config), dcs_error = []\<rparr>))"

text \<open>C9. Every configuration that can be read from JSON has integers of 64 bits and lists in key order, and is read back
  unchanged from the JSON written for it.\<close>

theorem config_json_roundtrip:
  assumes "from_json_config j = Inr cfg"
  shows "config_ok cfg \<and> from_json_config (to_json_config cfg) = Inr cfg"
  using from_json_config_ok [OF assms] config_json.dec_enc by blast

definition sample_json :: json where
  "sample_json = JObject
    [(''lists'', JObject [(''b'', JObject [(''ttl_ms'', JInt 5)]), (''a'', JObject [(''url'', JString ''http://h/'')])]),
     (''outbounds'', JArray [JObject [(''tag'', JString ''vpn''), (''type'', JString ''table''), (''table'', JInt (2 ^ 64 - 1))]])]"

definition sample_json_config :: config where
  "sample_json_config = empty_config
     \<lparr>cfg_lists := Some [(''a'', \<lparr>lst_detour = None, lst_domains = None, lst_file = None, lst_ip_cidrs = None,
                                    lst_ttl_ms = None, lst_url = Some ''http://h/''\<rparr>),
                         (''b'', \<lparr>lst_detour = None, lst_domains = None, lst_file = None, lst_ip_cidrs = None,
                                    lst_ttl_ms = Some 5, lst_url = None\<rparr>)],
      cfg_outbounds := Some [(make_outbound ''vpn'' TABLE)\<lparr>ob_table := Some (- 1)\<rparr>]\<rparr>"

lemma sample_json_read: "from_json_config sample_json = Inr sample_json_config"
proof -
  have "to_i64 18446744073709551615 = - 1" "to_i64 5 = 5"
    by (simp_all add: to_i64_def sint_sbintrunc' signed_take_bit_int_eq_self_iff)
  then show ?thesis
    by (simp add: sample_json_def sample_json_config_def empty_config_def make_outbound_def from_json_config_def
        from_json_list_config_def from_json_outbound_def from_json_outbound_type_def get_stack_optional_def get_optional_def
        get_map_def get_member_def get_vector_def json_at_def)
qed

theorem config_json_roundtrip_witness:
  "from_json_config sample_json = Inr sample_json_config \<and> config_ok sample_json_config
   \<and> from_json_config (to_json_config sample_json_config) = Inr sample_json_config"
  using config_json_roundtrip [OF sample_json_read] sample_json_read by simp

section \<open>Deviations\<close>

text \<open>
  The JSON written for a configuration has every member, \<^verbatim>\<open>null\<close> where there is no value. A file that leaves an optional
  section out is therefore reported as different from the configuration that was read from it.
\<close>

lemma sparse_file_reported_different:
  assumes "parse body = Inr (JObject ms)" and "map_of ms ''api'' = None"
    and "\<And>ms ns. same (JObject ms) (JObject ns) \<Longrightarrow> dom (map_of ms) = dom (map_of ns)"
  shows "\<not> dcs_matches_active (inspect_disk_config_state parse same (Some body) cfg)"
proof
  assume "dcs_matches_active (inspect_disk_config_state parse same (Some body) cfg)"
  then have "dom (map_of ms) = dom (map_of
      [(''api'', put_optional to_json_api_config (cfg_api cfg)),
       (''daemon'', put_optional to_json_daemon_config (cfg_daemon cfg)),
       (''dns'', put_optional to_json_dns_config (cfg_dns cfg)),
       (''fwmark'', put_optional to_json_fwmark_config (cfg_fwmark cfg)),
       (''iproute'', put_optional to_json_iproute_config (cfg_iproute cfg)),
       (''lists'', put_optional (put_map to_json_list_config) (cfg_lists cfg)),
       (''lists_autoupdate'', put_optional to_json_lists_autoupdate_config (cfg_lists_autoupdate cfg)),
       (''outbounds'', put_optional (put_vector to_json_outbound) (cfg_outbounds cfg)),
       (''route'', put_optional to_json_route_config (cfg_route cfg))])"
    using assms(1) by (intro assms(3)) (simp add: inspect_disk_config_state_def to_json_config_def)
  then have "''api'' \<in> dom (map_of ms)" by (simp only: dom_map_of_conv_image_fst) simp
  then show False using assms(2) by auto
qed

end
