(* ===== verification/Config_Validation.thy ===== *)
theory Config_Validation
  imports Config_Json Cron Dns_Server Firewall_Runtime
begin

text \<open>
  Reading and validating a configuration (\<^verbatim>\<open>src/config/config.cpp\<close>): the checks made on the JSON before it is converted, the
  checks made on the converted configuration, and what an accepted configuration guarantees to the components that use it.
  Each check returns the issues it adds, in order. \<^verbatim>\<open>inet_pton\<close>, the JSON parser, the detected system and the build option
  \<^verbatim>\<open>USE_KEENETIC_API\<close> are parameters.
\<close>

type_synonym issue = "string \<times> string"

record validation_env =
  ve_pton4 :: "string \<Rightarrow> bool"
  ve_pton6 :: "string \<Rightarrow> bool"
  ve_os_type :: string
  ve_os_version :: string
  ve_use_keenetic_api :: bool

definition is_valid_ipv4_address :: "validation_env \<Rightarrow> string \<Rightarrow> bool" where
  "is_valid_ipv4_address env ip = ve_pton4 env (c_str ip)"

definition is_valid_ipv6_address :: "validation_env \<Rightarrow> string \<Rightarrow> bool" where
  "is_valid_ipv6_address env ip = ve_pton6 env (c_str ip)"

text \<open>The texts before and after the first occurrence of another.\<close>

fun split_text :: "string \<Rightarrow> string \<Rightarrow> (string \<times> string) option" where
  "split_text pat [] = (if pat = [] then Some ([], []) else None)"
| "split_text pat (c # s) =
     (if prefix pat (c # s) then Some ([], drop (length pat) (c # s))
      else map_option (\<lambda>(before, after). (c # before, after)) (split_text pat s))"

definition is_http_url :: "string \<Rightarrow> bool" where
  "is_http_url url =
     (case split_text ''://'' url of
        None \<Rightarrow> False
      | Some (scheme, rest) \<Rightarrow>
          rest \<noteq> [] \<and> (map to_lower scheme = ''http'' \<or> map to_lower scheme = ''https''))"

section \<open>Fields of the JSON\<close>

text \<open>The common part of the field checks: a member of a section, if both are there and the member is not \<^verbatim>\<open>null\<close>.\<close>

definition section_member :: "json \<Rightarrow> string \<Rightarrow> string \<Rightarrow> json option" where
  "section_member root parent_key child_key =
     (case json_find parent_key root of
        None \<Rightarrow> None
      | Some parent \<Rightarrow>
          (if \<not> json_is_object parent then None
           else (case json_find child_key parent of
                   None \<Rightarrow> None
                 | Some child \<Rightarrow> (if child = JNull then None else Some child))))"

fun is_json_integer :: "json \<Rightarrow> bool" where
  "is_json_integer (JInt i) = True"
| "is_json_integer _ = False"

fun is_json_boolean :: "json \<Rightarrow> bool" where
  "is_json_boolean (JBool b) = True"
| "is_json_boolean _ = False"

fun is_json_string :: "json \<Rightarrow> bool" where
  "is_json_string (JString s) = True"
| "is_json_string _ = False"

definition validate_optional_integer_field :: "json \<Rightarrow> string \<Rightarrow> string \<Rightarrow> string \<Rightarrow> issue list" where
  "validate_optional_integer_field root parent_key child_key path =
     (case section_member root parent_key child_key of
        None \<Rightarrow> []
      | Some child \<Rightarrow> if \<not> is_json_integer child then [(path, path @ '' must be an integer'')] else [])"

definition validate_optional_string_field :: "json \<Rightarrow> string \<Rightarrow> string \<Rightarrow> string \<Rightarrow> issue list" where
  "validate_optional_string_field root parent_key child_key path =
     (case section_member root parent_key child_key of
        None \<Rightarrow> []
      | Some child \<Rightarrow> if \<not> is_json_string child then [(path, path @ '' must be a string'')] else [])"

definition validate_optional_boolean_field :: "json \<Rightarrow> string \<Rightarrow> string \<Rightarrow> string \<Rightarrow> issue list" where
  "validate_optional_boolean_field root parent_key child_key path =
     (case section_member root parent_key child_key of
        None \<Rightarrow> []
      | Some child \<Rightarrow> if \<not> is_json_boolean child then [(path, path @ '' must be a boolean'')] else [])"

definition validate_optional_hex_string_field :: "json \<Rightarrow> string \<Rightarrow> string \<Rightarrow> string \<Rightarrow> issue list" where
  "validate_optional_hex_string_field root parent_key child_key path =
     (case section_member root parent_key child_key of
        None \<Rightarrow> []
      | Some child \<Rightarrow>
          if \<not> is_json_string child then [(path, path @ '' must be a string in hex format (e.g. 0x00010000)'')] else [])"

section \<open>Ports and addresses of a rule\<close>

fun uint_loop :: "nat \<Rightarrow> string \<Rightarrow> nat option" where
  "uint_loop v [] = Some v"
| "uint_loop v (c # cs) =
     (if \<not> is_digit c then None
      else let v' = v * 10 + digit_val c in if v' > 2147483647 then None else uint_loop v' cs)"

definition parse_uint_in_range :: "string \<Rightarrow> nat \<Rightarrow> nat \<Rightarrow> nat option" where
  "parse_uint_in_range raw min_value max_value =
     (if raw = [] then None
      else (case uint_loop 0 raw of
              None \<Rightarrow> None
            | Some v \<Rightarrow> if v < min_value \<or> v > max_value then None else Some v))"

definition validate_port_token :: "string \<Rightarrow> string option" where
  "validate_port_token token =
     (let part = trim_copy token
      in if part = [] then Some ''Use comma-separated ports or ranges.''
         else (case split_first CHR ''-'' part of
                 Some (before, after) \<Rightarrow>
                   (if CHR ''-'' \<in> set after then Some ''Port ranges must use valid ports such as 8000-9000.''
                    else (case (parse_uint_in_range (trim_copy before) 1 65535,
                                parse_uint_in_range (trim_copy after) 1 65535) of
                            (Some start, Some end') \<Rightarrow>
                              (if start > end' then Some ''Port range start must be less than or equal to end.'' else None)
                          | _ \<Rightarrow> Some ''Port ranges must use valid ports such as 8000-9000.''))
               | None \<Rightarrow>
                   (if parse_uint_in_range part 1 65535 = None
                    then Some ''Ports must be integers between 1 and 65535.'' else None)))"

text \<open>A loop that returns the first error.\<close>

fun first_error :: "('a \<Rightarrow> 'e option) \<Rightarrow> 'a list \<Rightarrow> 'e option" where
  "first_error f [] = None"
| "first_error f (x # xs) = (case f x of Some e \<Rightarrow> Some e | None \<Rightarrow> first_error f xs)"

definition spec_content :: "string \<Rightarrow> string" where
  "spec_content normalized = (if normalized \<noteq> [] \<and> hd normalized = CHR ''!'' then tl normalized else normalized)"

definition ends_open :: "string \<Rightarrow> bool" where
  "ends_open content \<longleftrightarrow> content = [] \<or> hd content = CHR '','' \<or> last content = CHR '',''"

definition validate_port_spec :: "string option \<Rightarrow> string option" where
  "validate_port_spec v =
     (case v of
        None \<Rightarrow> None
      | Some text' \<Rightarrow>
          (let normalized = trim_copy text'; content = spec_content normalized
           in if normalized = [] then None
              else if ends_open content then Some ''Use comma-separated ports or ranges.''
              else first_error validate_port_token (getline_tokens CHR '','' content)))"

definition validate_address_spec :: "validation_env \<Rightarrow> string option \<Rightarrow> string option" where
  "validate_address_spec env v =
     (case v of
        None \<Rightarrow> None
      | Some text' \<Rightarrow>
          (let normalized = trim_copy text'; content = spec_content normalized
           in if normalized = [] then None
              else if ends_open content then Some ''Use comma-separated IP addresses or CIDRs.''
              else (case parse_addr_spec (ve_pton4 env) (ve_pton6 env) normalized of
                      Inl e \<Rightarrow> Some (''Addresses must be valid IPv4 or IPv6 hosts or CIDR ranges, for example 10.0.0.1, ''
                                 @ ''10.0.0.0/8, or 2001:db8::/32.'')
                    | Inr spec \<Rightarrow> None)))"

section \<open>Rules in the JSON\<close>

definition get_optional_string_field :: "json \<Rightarrow> string \<Rightarrow> string option" where
  "get_optional_string_field object key =
     (case json_find key object of Some (JString s) \<Rightarrow> Some s | _ \<Rightarrow> None)"

definition rule_has_list_condition :: "json \<Rightarrow> bool" where
  "rule_has_list_condition rule =
     (case json_find ''list'' rule of
        Some (JArray vs) \<Rightarrow> list_ex (\<lambda>v. case v of JString s \<Rightarrow> trim_copy s \<noteq> [] | _ \<Rightarrow> False) vs
      | _ \<Rightarrow> False)"

definition rule_has_string_condition :: "json \<Rightarrow> string \<Rightarrow> bool" where
  "rule_has_string_condition rule key =
     (case get_optional_string_field rule key of None \<Rightarrow> False | Some v \<Rightarrow> trim_copy v \<noteq> [])"

definition rule_has_present_condition :: "json \<Rightarrow> string \<Rightarrow> bool" where
  "rule_has_present_condition rule key =
     (case json_find key rule of None \<Rightarrow> False | Some v \<Rightarrow> v \<noteq> JNull)"

text \<open>\<^verbatim>\<open>get<int>()\<close> keeps the low 32 bits of the number.\<close>

definition validate_dscp_field :: "json \<Rightarrow> string \<Rightarrow> issue list" where
  "validate_dscp_field rule rule_path =
     (let path = rule_path @ ''.dscp''
      in case json_find ''dscp'' rule of
           None \<Rightarrow> []
         | Some JNull \<Rightarrow> []
         | Some (JInt i) \<Rightarrow>
             (if to_i32 i < 1 \<or> to_i32 i > 63 then [(path, path @ '' must be between 1 and 63'')] else [])
         | Some _ \<Rightarrow> [(path, path @ '' must be an integer between 1 and 63'')])"

definition issue_of :: "string \<Rightarrow> string option \<Rightarrow> issue list" where
  "issue_of path err = (case err of None \<Rightarrow> [] | Some e \<Rightarrow> [(path, e)])"

definition indexed_path :: "string \<Rightarrow> nat \<Rightarrow> string" where
  "indexed_path base i = base @ ''['' @ nat_to_string i @ '']''"

definition validate_route_rule_spec :: "validation_env \<Rightarrow> nat \<times> json \<Rightarrow> issue list" where
  "validate_route_rule_spec env irule =
     (case irule of (i, rule) \<Rightarrow>
       (if \<not> json_is_object rule then []
        else let rule_path = indexed_path ''route.rules'' i;
                 has_any_condition =
                   (rule_has_list_condition rule \<or> rule_has_present_condition rule ''dscp''
                    \<or> rule_has_string_condition rule ''src_port'' \<or> rule_has_string_condition rule ''dest_port''
                    \<or> rule_has_string_condition rule ''src_addr'' \<or> rule_has_string_condition rule ''dest_addr'')
             in (if \<not> has_any_condition
                 then [(rule_path, ''Route rule must include at least one condition: list, dscp, src_port, dest_port, ''
                          @ ''src_addr, or dest_addr.'')] else [])
                @ validate_dscp_field rule rule_path
                @ issue_of (rule_path @ ''.src_port'') (validate_port_spec (get_optional_string_field rule ''src_port''))
                @ issue_of (rule_path @ ''.dest_port'') (validate_port_spec (get_optional_string_field rule ''dest_port''))
                @ issue_of (rule_path @ ''.src_addr'')
                    (validate_address_spec env (get_optional_string_field rule ''src_addr''))
                @ issue_of (rule_path @ ''.dest_addr'')
                    (validate_address_spec env (get_optional_string_field rule ''dest_addr''))))"

definition validate_route_rule_specs :: "validation_env \<Rightarrow> json \<Rightarrow> issue list" where
  "validate_route_rule_specs env root =
     (case section_member root ''route'' ''rules'' of
        Some (JArray rules) \<Rightarrow> concat (map (validate_route_rule_spec env) (enumerate 0 rules))
      | _ \<Rightarrow> [])"

text \<open>One interface of \<^verbatim>\<open>inbound_interfaces\<close>, with the names seen before.\<close>

definition valid_interface_name :: "string \<Rightarrow> bool" where
  "valid_interface_name iface \<longleftrightarrow>
     length iface < 16 \<and> iface \<noteq> ''.'' \<and> iface \<noteq> ''..''
     \<and> list_all (\<lambda>c. c \<noteq> CHR ''/'' \<and> c \<noteq> CHR '':'' \<and> \<not> is_space c \<and> \<not> is_cntrl c) iface"

definition check_interface :: "string set \<times> issue list \<Rightarrow> nat \<times> json \<Rightarrow> string set \<times> issue list" where
  "check_interface st iv =
     (case (st, iv) of ((seen, issues), (i, v)) \<Rightarrow>
        (let path = indexed_path ''route.inbound_interfaces'' i
         in case v of
              JString iface \<Rightarrow>
                (if trim_copy iface = [] then (seen, issues @ [(path, path @ '' must not be blank'')])
                 else if \<not> valid_interface_name iface
                 then (seen, issues @ [(path, path @ '' must be a valid Linux interface name (shorter than IFNAMSIZ and ''
                         @ ''without '' @ quoted ''/'' @ '', '' @ quoted '':'' @ '', whitespace, or control characters)'')])
                 else if iface \<in> seen
                 then (seen, issues @ [(path, path @ '' duplicates interface '' @ quoted iface)])
                 else (insert iface seen, issues))
            | _ \<Rightarrow> (seen, issues @ [(path, path @ '' must be a string'')])))"

definition validate_route_inbound_interfaces :: "json \<Rightarrow> issue list" where
  "validate_route_inbound_interfaces root =
     (case section_member root ''route'' ''inbound_interfaces'' of
        None \<Rightarrow> []
      | Some (JArray vs) \<Rightarrow> snd (foldl check_interface ({}, []) (enumerate 0 vs))
      | Some _ \<Rightarrow> [(''route.inbound_interfaces'', ''route.inbound_interfaces must be an array of strings'')])"

section \<open>Parsing\<close>

text \<open>The checks on the JSON, in the order of \<^verbatim>\<open>parse_config\<close>.\<close>

definition json_issues :: "validation_env \<Rightarrow> json \<Rightarrow> issue list" where
  "json_issues env root =
     validate_optional_hex_string_field root ''fwmark'' ''start'' ''fwmark.start''
     @ validate_optional_hex_string_field root ''fwmark'' ''mask'' ''fwmark.mask''
     @ validate_optional_integer_field root ''iproute'' ''table_start'' ''iproute.table_start''
     @ validate_optional_integer_field root ''iproute'' ''rule_priority_start'' ''iproute.rule_priority_start''
     @ validate_optional_integer_field root ''daemon'' ''firewall_verify_max_bytes'' ''daemon.firewall_verify_max_bytes''
     @ validate_optional_integer_field root ''daemon'' ''max_file_size_bytes'' ''daemon.max_file_size_bytes''
     @ validate_optional_integer_field root ''daemon'' ''exec_timeout_seconds'' ''daemon.exec_timeout_seconds''
     @ validate_optional_integer_field root ''daemon'' ''resolver_ready_timeout_seconds''
         ''daemon.resolver_ready_timeout_seconds''
     @ validate_optional_integer_field root ''daemon'' ''exec_kill_grace_seconds'' ''daemon.exec_kill_grace_seconds''
     @ validate_optional_integer_field root ''api'' ''max_request_body_bytes'' ''api.max_request_body_bytes''
     @ validate_optional_integer_field root ''api'' ''read_timeout_seconds'' ''api.read_timeout_seconds''
     @ validate_optional_integer_field root ''api'' ''write_timeout_seconds'' ''api.write_timeout_seconds''
     @ validate_optional_integer_field root ''api'' ''keep_alive_timeout_seconds'' ''api.keep_alive_timeout_seconds''
     @ validate_optional_string_field root ''daemon'' ''firewall_backend'' ''daemon.firewall_backend''
     @ validate_optional_boolean_field root ''daemon'' ''skip_marked_packets'' ''daemon.skip_marked_packets''
     @ validate_optional_boolean_field root ''daemon'' ''clear_dynamic_sets_on_apply''
         ''daemon.clear_dynamic_sets_on_apply''
     @ validate_optional_boolean_field root ''daemon'' ''ipv6_enabled'' ''daemon.ipv6_enabled''
     @ validate_route_rule_specs env root
     @ validate_route_inbound_interfaces root"

definition parse_config :: "validation_env \<Rightarrow> (string \<Rightarrow> json result) \<Rightarrow> string \<Rightarrow> config result" where
  "parse_config env parse json_str =
     (case parse json_str of
        Inl e \<Rightarrow> Inl (ConfigValidationError [(''$'', ''Invalid JSON: '' @ what e)])
      | Inr root \<Rightarrow>
          (if json_issues env root \<noteq> [] then Inl (ConfigValidationError (json_issues env root))
           else (case from_json_config root of
                   Inl e \<Rightarrow> Inl (ConfigValidationError [(''$'', what e)])
                 | Inr cfg \<Rightarrow> Inr cfg)))"

section \<open>Tags and references\<close>

definition MAX_TAG_LEN :: nat where "MAX_TAG_LEN = 31 - 7"

definition is_valid_tag :: "string \<Rightarrow> bool" where
  "is_valid_tag v \<longleftrightarrow>
     v \<noteq> [] \<and> length v \<le> MAX_TAG_LEN \<and> is_lower (hd v)
     \<and> list_all (\<lambda>c. is_lower c \<or> is_digit c \<or> c = CHR ''_'') (tl v)"

definition validate_tag :: "string \<Rightarrow> string \<Rightarrow> string \<Rightarrow> issue list" where
  "validate_tag path kind v =
     (if v = [] then [(path, kind @ '' must not be empty'')]
      else (if length v > MAX_TAG_LEN
            then [(path, kind @ '' '' @ quoted v @ '' is too long: '' @ nat_to_string (length v) @ '' chars, maximum is ''
                     @ nat_to_string MAX_TAG_LEN)] else [])
           @ (if \<not> is_valid_tag v
              then [(path, kind @ '' '' @ quoted v @ '' must match naming convention [a-z][a-z0-9_]*'')] else []))"

definition collect_list_names :: "config \<Rightarrow> string set" where
  "collect_list_names cfg = fst ` set (lists_map cfg)"

definition collect_outbound_tags :: "outbound list \<Rightarrow> string set" where
  "collect_outbound_tags outbounds = ob_tag ` set outbounds"

definition validate_required_reference :: "string set \<Rightarrow> string \<Rightarrow> string \<Rightarrow> string \<Rightarrow> string \<Rightarrow> issue list" where
  "validate_required_reference known_refs path owner_path v ref_kind =
     (let ref = trim_copy v
      in if ref = [] then [(path, path @ '' must not be empty'')]
         else if ref \<notin> known_refs
         then [(path, owner_path @ '' references unknown '' @ ref_kind @ '' '' @ quoted ref)] else [])"

definition validate_rule_list_references :: "string set \<Rightarrow> string \<Rightarrow> string list \<Rightarrow> issue list" where
  "validate_rule_list_references known_lists rule_path list_refs =
     concat (map (\<lambda>(i, ref). validate_required_reference known_lists (indexed_path (rule_path @ ''.list'') i) rule_path ref ''list'')
       (enumerate 0 list_refs))"

section \<open>The sections of a configuration\<close>

definition check_that :: "bool \<Rightarrow> string \<Rightarrow> string \<Rightarrow> issue list" where
  "check_that good path message = (if good then [] else [(path, message)])"

definition daemon_issues :: "config \<Rightarrow> issue list" where
  "daemon_issues cfg =
     (case cfg_daemon cfg of
        None \<Rightarrow> []
      | Some d \<Rightarrow>
          check_that (case dm_firewall_verify_max_bytes d of None \<Rightarrow> True | Some n \<Rightarrow> \<not> n < 0)
            ''daemon.firewall_verify_max_bytes'' ''daemon.firewall_verify_max_bytes must be >= 0''
          @ check_that (case dm_max_file_size_bytes d of None \<Rightarrow> True | Some n \<Rightarrow> \<not> n \<le> 0)
              ''daemon.max_file_size_bytes'' ''daemon.max_file_size_bytes must be greater than 0''
          @ check_that (\<not> value_or (dm_exec_timeout_seconds d) 30 < 1)
              ''daemon.exec_timeout_seconds'' ''daemon.exec_timeout_seconds must be >= 1''
          @ check_that (\<not> value_or (dm_resolver_ready_timeout_seconds d) 120 < 1)
              ''daemon.resolver_ready_timeout_seconds'' ''daemon.resolver_ready_timeout_seconds must be >= 1''
          @ check_that (\<not> value_or (dm_exec_kill_grace_seconds d) 2 < 0)
              ''daemon.exec_kill_grace_seconds'' ''daemon.exec_kill_grace_seconds must be >= 0'')"

definition timeout_issues :: "string \<Rightarrow> int \<Rightarrow> issue list" where
  "timeout_issues path v =
     check_that (\<not> v < 1) path (path @ '' must be >= 1'')
     @ check_that (\<not> v > 2147483647) path (path @ '' is too large'')"

definition api_issues :: "config \<Rightarrow> issue list" where
  "api_issues cfg =
     (case cfg_api cfg of
        None \<Rightarrow> []
      | Some a \<Rightarrow>
          check_that (\<not> value_or (api_max_request_body_bytes a) (1024 * 1024) < 1024)
            ''api.max_request_body_bytes'' ''api.max_request_body_bytes must be >= 1024''
          @ timeout_issues ''api.read_timeout_seconds'' (value_or (api_read_timeout_seconds a) 15)
          @ timeout_issues ''api.write_timeout_seconds'' (value_or (api_write_timeout_seconds a) 15)
          @ timeout_issues ''api.keep_alive_timeout_seconds'' (value_or (api_keep_alive_timeout_seconds a) 20))"

definition cron_issues :: "string \<Rightarrow> issue list result" where
  "cron_issues cron =
     (case cron_validate cron of
        Inr u \<Rightarrow> Inr []
      | Inl (InvalidArgument m) \<Rightarrow> Inr [(''lists_autoupdate.cron'', ''lists_autoupdate.cron: '' @ m)]
      | Inl e \<Rightarrow> Inl e)"

definition autoupdate_issues :: "config \<Rightarrow> issue list result" where
  "autoupdate_issues cfg =
     (case cfg_lists_autoupdate cfg of
        None \<Rightarrow> Inr []
      | Some u \<Rightarrow>
          (let cron = value_or (lau_cron u) [];
               required = check_that (\<not> (value_or (lau_enabled u) False \<and> cron = []))
                 ''lists_autoupdate.cron'' ''lists_autoupdate.cron is required when enabled''
           in if cron \<noteq> [] then map_sum id ((@) required) (cron_issues cron) else Inr required))"

definition list_has_source :: "list_config \<Rightarrow> bool" where
  "list_has_source l \<longleftrightarrow>
     lst_url l \<noteq> None \<or> lst_file l \<noteq> None \<or> value_or (lst_ip_cidrs l) [] \<noteq> [] \<or> value_or (lst_domains l) [] \<noteq> []"

definition list_issues :: "string \<times> list_config \<Rightarrow> issue list" where
  "list_issues nl =
     (case nl of (name, l) \<Rightarrow>
       (let list_path = (if name = [] then ''lists'' else ''lists.'' @ name)
        in validate_tag list_path ''List name'' name
           @ check_that (list_has_source l) list_path
               (''List '' @ quoted name @ '' must have at least one of: url, domains, ip_cidrs, file'')
           @ check_that (case lst_url l of None \<Rightarrow> True | Some u \<Rightarrow> is_http_url u) (list_path @ ''.url'')
               ''List URL must use the http or https scheme''))"

definition outbound_path :: "outbound \<Rightarrow> string" where
  "outbound_path ob = ''outbounds.'' @ ob_tag ob"

definition interface_outbound_issues :: "validation_env \<Rightarrow> outbound \<Rightarrow> issue list" where
  "interface_outbound_issues env ob =
     (let owner = ''Interface outbound '' @ quoted (ob_tag ob)
      in check_that (trim_copy (value_or (ob_interface ob) []) \<noteq> []) (outbound_path ob @ ''.interface'')
           (owner @ '' requires a non-empty interface name'')
         @ check_that (case ob_gateway ob of None \<Rightarrow> True | Some g \<Rightarrow> is_valid_ipv4_address env g)
             (outbound_path ob @ ''.gateway'') (owner @ '' gateway must be a valid IPv4 address'')
         @ check_that (case ob_gateway6 ob of None \<Rightarrow> True | Some g \<Rightarrow> is_valid_ipv6_address env g)
             (outbound_path ob @ ''.gateway6'') (owner @ '' gateway6 must be a valid IPv6 address''))"

definition group_reference_issues :: "outbound list \<Rightarrow> outbound \<Rightarrow> string \<Rightarrow> string \<Rightarrow> issue list" where
  "group_reference_issues outbounds ob group_path ref_tag =
     (let owner = ''Urltest outbound '' @ quoted (ob_tag ob)
      in case find_outbound outbounds ref_tag of
           None \<Rightarrow> [(group_path @ ''.outbounds'', owner @ '' references unknown outbound tag '' @ quoted ref_tag)]
         | Some target \<Rightarrow>
             check_that (ob_type target = INTERFACE \<or> ob_type target = TABLE \<or> ob_type target = BLACKHOLE)
               (group_path @ ''.outbounds'')
               (owner @ '' references outbound '' @ quoted ref_tag @ '' which is not an interface, table, or blackhole outbound''))"

definition group_issues :: "outbound list \<Rightarrow> outbound \<Rightarrow> nat \<times> outbound_group \<Rightarrow> issue list" where
  "group_issues outbounds ob ig =
     (case ig of (i, grp) \<Rightarrow>
       (let group_path = indexed_path (outbound_path ob @ ''.outbound_groups'') i
        in check_that (grp_outbounds grp \<noteq> []) (group_path @ ''.outbounds'')
             (''Urltest outbound '' @ quoted (ob_tag ob) @ '' outbound_group has empty '' @ quoted ''outbounds'' @ '' array'')
           @ concat (map (group_reference_issues outbounds ob group_path) (grp_outbounds grp))))"

definition urltest_url_issues :: "outbound \<Rightarrow> issue list" where
  "urltest_url_issues ob =
     (let url = value_or (ob_url ob) []
      in if url = []
         then [(outbound_path ob @ ''.url'', ''Urltest outbound '' @ quoted (ob_tag ob) @ '' requires a URL'')]
         else check_that (is_http_url url) (outbound_path ob @ ''.url'') ''Urltest URL must use the http or https scheme'')"

definition outbound_issues :: "validation_env \<Rightarrow> outbound list \<Rightarrow> outbound \<Rightarrow> issue list" where
  "outbound_issues env outbounds ob =
     validate_tag (outbound_path ob @ ''.tag'') ''Outbound tag'' (ob_tag ob)
     @ (if ob_type ob = INTERFACE then interface_outbound_issues env ob else [])
     @ (if ob_type ob \<noteq> URLTEST then []
        else urltest_url_issues ob
             @ (let groups = value_or (ob_outbound_groups ob) []
                in if groups = []
                   then [(outbound_path ob @ ''.outbound_groups'', ''Urltest outbound '' @ quoted (ob_tag ob) @ '' ''
                            @ quoted ''outbound_groups'' @ '' array must not be empty'')]
                   else concat (map (group_issues outbounds ob) (enumerate 0 groups))))"

definition outbounds_of :: "config \<Rightarrow> outbound list" where
  "outbounds_of cfg = value_or (cfg_outbounds cfg) []"

definition route_rule_issues :: "config \<Rightarrow> nat \<times> route_rule \<Rightarrow> issue list" where
  "route_rule_issues cfg irule =
     (case irule of (i, rule) \<Rightarrow>
       (let rule_path = indexed_path ''route.rules'' i
        in validate_required_reference (collect_outbound_tags (outbounds_of cfg)) (rule_path @ ''.outbound'') rule_path
             (rr_outbound rule) ''outbound tag''
           @ validate_rule_list_references (collect_list_names cfg) rule_path (route_rule_lists rule)))"

definition fwmark_issues :: "config \<Rightarrow> issue list" where
  "fwmark_issues cfg =
     (let fwc = value_or (cfg_fwmark cfg) default_fwmark_config;
          start = parse_fwmark_start_or_throw fwc;
          m = fwmark_mask_value fwc
      in (case start of Inl e \<Rightarrow> [(''fwmark.start'', what e)] | Inr v \<Rightarrow> [])
         @ (case m of Inl e \<Rightarrow> [(''fwmark.mask'', what e)] | Inr v \<Rightarrow> [])
         @ (case (start, m) of
              (Inr s, Inr v) \<Rightarrow>
                (case allocate_outbound_marks fwc (outbounds_of cfg) of Inl e \<Rightarrow> [(''outbounds'', what e)] | Inr marks \<Rightarrow> [])
            | _ \<Rightarrow> []))"

definition iproute_issues :: "config \<Rightarrow> issue list" where
  "iproute_issues cfg =
     (let ipc = value_or (cfg_iproute cfg) default_iproute_config;
          table_start = to_u32 (value_or (ipr_table_start ipc) 150);
          configured = ipr_rule_priority_start ipc;
          start_valid = (case configured of None \<Rightarrow> True | Some p \<Rightarrow> 1 \<le> p \<and> p \<le> 4294967295);
          rule_priority_start = (if start_valid then (case configured of None \<Rightarrow> table_start | Some p \<Rightarrow> to_u32 p) else table_start);
          routable_count = length (filter routable (outbounds_of cfg))
      in check_that (\<not> is_reserved_table table_start) ''iproute.table_start''
           (''iproute.table_start '' @ nat_to_string (unat table_start) @ '' is reserved. Use a different value (e.g. 150).'')
         @ check_that start_valid ''iproute.rule_priority_start''
             ''iproute.rule_priority_start must be an integer from 1 through 4294967295''
         @ check_that (\<not> (start_valid \<and> (rule_priority_start = 0
                           \<or> routable_count > unat ((0xFFFFFFFF - rule_priority_start) div 2))))
             ''iproute.rule_priority_start''
             ''iproute.rule_priority_start does not leave room for reserved rule priority pairs'')"

section \<open>Port lists on iptables\<close>

definition classify_optional_port_spec :: "string option \<Rightarrow> port_spec_kind option result" where
  "classify_optional_port_spec v =
     (case v of
        None \<Rightarrow> Inr None
      | Some text' \<Rightarrow>
          (let normalized = trim_copy text';
               content = (if normalized \<noteq> [] \<and> hd normalized = CHR ''!'' then trim_copy (tl normalized) else normalized)
           in if normalized = [] \<or> content = [] then Inr None
              else map_sum id (\<lambda>spec. Some (port_spec_kind_of spec)) (parse_port_spec content)))"

definition route_rule_uses_unsupported_iptables_multiport_combo :: "route_rule \<Rightarrow> bool result" where
  "route_rule_uses_unsupported_iptables_multiport_combo rule =
     bind_result (classify_optional_port_spec (rr_src_port rule)) (\<lambda>src_kind.
     bind_result (classify_optional_port_spec (rr_dest_port rule)) (\<lambda>dst_kind.
     Inr (src_kind \<noteq> None \<and> dst_kind \<noteq> None \<and> (src_kind = Some PortList \<or> dst_kind = Some PortList))))"

definition route_rule_unsupported_iptables_multiport_path :: "nat \<Rightarrow> route_rule \<Rightarrow> string result" where
  "route_rule_unsupported_iptables_multiport_path i rule =
     bind_result (classify_optional_port_spec (rr_src_port rule)) (\<lambda>src_kind.
     Inr (indexed_path ''route.rules'' i @ (if src_kind = Some PortList then ''.src_port'' else ''.dest_port'')))"

definition multiport_issue :: "issue list \<Rightarrow> nat \<times> route_rule \<Rightarrow> issue list result" where
  "multiport_issue issues irule =
     (case irule of (i, rule) \<Rightarrow>
       bind_result (route_rule_uses_unsupported_iptables_multiport_combo rule) (\<lambda>unsupported.
         if \<not> unsupported then Inr issues
         else bind_result (route_rule_unsupported_iptables_multiport_path i rule) (\<lambda>path.
           Inr (issues @ [(path, ''When you use port lists (e.g. 444,555) you can'' @ [CHR 0x27] @ ''t combine src_port and ''
             @ ''dest_port condition. This is a xt_multiport module limitation. Consider using nftables firewall backend or ''
             @ ''create multiple rules.'')]))))"

definition iptables_issues :: "config \<Rightarrow> issue list result" where
  "iptables_issues cfg =
     (if firewall_backend_preference cfg = BackendIptables
      then fold_result multiport_issue [] (enumerate 0 (route_rules cfg)) else Inr [])"

section \<open>The DNS section\<close>

text \<open>The firmware version of a Keenetic router (\<^verbatim>\<open>src/util/system_info.cpp\<close>).\<close>

definition parse_keenetic_major_version :: "string \<Rightarrow> int option" where
  "parse_keenetic_major_version version =
     (let normalized = trim_by is_space version; digits = takeWhile is_digit normalized
      in if normalized = [] \<or> digits = [] then None
         else (case stoi digits of Inl e \<Rightarrow> None | Inr n \<Rightarrow> Some n))"

definition keenetic_version_supports_encrypted_dns :: "string \<Rightarrow> bool" where
  "keenetic_version_supports_encrypted_dns version =
     (case parse_keenetic_major_version version of None \<Rightarrow> False | Some major \<Rightarrow> major \<ge> 3)"

definition server_path :: "dns_server_config \<Rightarrow> string" where
  "server_path srv = ''dns.servers.'' @ srv_tag srv"

definition server_name :: "dns_server_config \<Rightarrow> string" where
  "server_name srv = ''dns.servers['' @ dquoted (srv_tag srv) @ '']''"

definition server_type_of :: "dns_server_config \<Rightarrow> dns_server_type" where
  "server_type_of srv = value_or (srv_type srv) DnsStatic"

definition server_identity :: "dns_server_config \<Rightarrow> string" where
  "server_identity srv =
     (case server_type_of srv of DnsKeenetic \<Rightarrow> ''0'' | DnsStatic \<Rightarrow> ''1'') @ ''|'' @ value_or (srv_address srv) []"

definition keenetic_server_issues :: "validation_env \<Rightarrow> dns_server_config \<Rightarrow> issue list" where
  "keenetic_server_issues env srv =
     check_that (ve_use_keenetic_api env) (server_path srv @ ''.type'')
       (server_name srv @ ''.type='' @ quoted ''keenetic'' @ '' requires build with USE_KEENETIC_API=ON'')
     @ check_that (\<not> (ve_os_type env = ''keenetic'' \<and> ve_os_version env \<noteq> []
                       \<and> \<not> keenetic_version_supports_encrypted_dns (ve_os_version env)))
         (server_path srv @ ''.type'')
         (server_name srv @ ''.type='' @ quoted ''keenetic'' @ '' requires KeeneticOS 3.x or newer; detected '' @ ve_os_version env)
     @ check_that (value_or (srv_address srv) [] = []) (server_path srv @ ''.address'')
         (server_name srv @ ''.address must not be set for type='' @ quoted ''keenetic'' @ '' (resolved via RCI)'')"

definition server_type_issues :: "validation_env \<Rightarrow> dns_server_config \<Rightarrow> issue list" where
  "server_type_issues env srv =
     (case server_type_of srv of
        DnsKeenetic \<Rightarrow> keenetic_server_issues env srv
      | DnsStatic \<Rightarrow>
          check_that (value_or (srv_address srv) [] \<noteq> []) (server_path srv @ ''.address'')
            (server_name srv @ ''.address is required for type='' @ quoted ''static''))"

definition detour_issues :: "outbound list \<Rightarrow> dns_server_config \<Rightarrow> issue list" where
  "detour_issues outbounds srv =
     (case srv_detour srv of
        None \<Rightarrow> []
      | Some dtag \<Rightarrow>
          (let path = server_path srv @ ''.detour''; owner = server_name srv @ ''.detour: ''
           in case find_outbound outbounds dtag of
                None \<Rightarrow> [(path, owner @ ''unknown outbound tag '' @ dquoted dtag)]
              | Some ob \<Rightarrow>
                  check_that (ob_type ob \<noteq> BLACKHOLE \<and> ob_type ob \<noteq> IGNORE) path
                    (owner @ ''outbound '' @ dquoted dtag @ '' has no routing table'')))"

record server_check =
  sc_tags :: "string set"
  sc_identities :: "string set"
  sc_keenetic :: nat
  sc_issues :: "issue list"

definition check_server :: "validation_env \<Rightarrow> outbound list \<Rightarrow> server_check \<Rightarrow> dns_server_config \<Rightarrow> server_check" where
  "check_server env outbounds st srv =
     \<lparr>sc_tags = insert (srv_tag srv) (sc_tags st),
      sc_identities = insert (server_identity srv) (sc_identities st),
      sc_keenetic = (if server_type_of srv = DnsKeenetic then Suc (sc_keenetic st) else sc_keenetic st),
      sc_issues = sc_issues st
        @ validate_tag (server_path srv @ ''.tag'') ''DNS server tag'' (srv_tag srv)
        @ check_that (srv_tag srv \<notin> sc_tags st) (server_path srv @ ''.tag'')
            (''Duplicate DNS server tag '' @ dquoted (srv_tag srv))
        @ check_that (server_identity srv \<notin> sc_identities st) (server_path srv)
            (''DNS server '' @ dquoted (srv_tag srv) @ '' duplicates an existing DNS server definition (same type/address)'')
        @ server_type_issues env srv
        @ detour_issues outbounds srv\<rparr>"

definition check_fallback :: "string set \<Rightarrow> string set \<times> issue list \<Rightarrow> nat \<times> string \<Rightarrow> string set \<times> issue list" where
  "check_fallback tags st itag =
     (case (st, itag) of ((seen, issues), (i, fallback_tag)) \<Rightarrow>
        (let path = ''dns.fallback.'' @ nat_to_string i; owner = indexed_path ''dns.fallback'' i
         in if fallback_tag = [] then (seen, issues @ [(path, owner @ '' must not be empty'')])
            else (insert fallback_tag seen,
                  issues
                  @ check_that (fallback_tag \<notin> seen) path (owner @ '' duplicates DNS server tag '' @ dquoted fallback_tag)
                  @ check_that (fallback_tag \<in> tags) path
                      (owner @ '' references unknown DNS server tag '' @ dquoted fallback_tag))))"

definition resolver_issues :: "dns_config \<Rightarrow> issue list" where
  "resolver_issues dns =
     (case dns_system_resolver dns of
        None \<Rightarrow> [(''dns.system_resolver'', ''dns.system_resolver must be present'')]
      | Some r \<Rightarrow>
          check_that (sr_address r \<noteq> []) ''dns.system_resolver.address'' ''dns.system_resolver.address must not be empty'')"

definition dns_rule_issues :: "string set \<Rightarrow> string set \<Rightarrow> nat \<times> dns_rule \<Rightarrow> issue list" where
  "dns_rule_issues server_tags list_names irule =
     (case irule of (i, rule) \<Rightarrow>
       (let rule_path = indexed_path ''dns.rules'' i
        in validate_required_reference server_tags (rule_path @ ''.server'') rule_path (dr_server rule) ''DNS server tag''
           @ (if dr_list rule = []
              then [(rule_path @ ''.list'', rule_path @ ''.list must include at least one list name'')]
              else validate_rule_list_references list_names rule_path (dr_list rule))))"

text \<open>The address of the DNS test server (\<^verbatim>\<open>src/dns/dns_probe_server.cpp\<close>).\<close>

record dns_probe_server_settings =
  dps_listen :: string
  dps_bind_ip :: string
  dps_port :: u16
  dps_answer_ipv4 :: string

definition parse_dns_probe_listen_address :: "validation_env \<Rightarrow> string \<Rightarrow> parsed_dns_address result" where
  "parse_dns_probe_listen_address env listen =
     bind_result (parse_dns_address_str (ve_pton6 env) listen) (\<lambda>parsed.
       if \<not> is_valid_ipv4_address env (pda_ip parsed)
       then Inl (DnsError (''DNS test server listen address must be IPv4: '' @ listen))
       else Inr parsed)"

definition parse_dns_probe_server_settings ::
  "validation_env \<Rightarrow> string \<Rightarrow> string option \<Rightarrow> dns_probe_server_settings result" where
  "parse_dns_probe_server_settings env listen answer_ipv4 =
     bind_result (parse_dns_probe_listen_address env listen) (\<lambda>parsed.
       let answer = value_or answer_ipv4 (pda_ip parsed)
       in if \<not> is_valid_ipv4_address env answer
          then Inl (DnsError (''DNS test server answer_ipv4 must be a valid IPv4 address: '' @ answer))
          else Inr \<lparr>dps_listen = listen, dps_bind_ip = pda_ip parsed, dps_port = pda_port parsed, dps_answer_ipv4 = answer\<rparr>)"

definition test_server_issues :: "validation_env \<Rightarrow> dns_config \<Rightarrow> issue list" where
  "test_server_issues env dns =
     (case dns_test_server_cfg dns of
        None \<Rightarrow> []
      | Some t \<Rightarrow>
          (case parse_dns_probe_server_settings env (dts_listen t) (dts_answer_ipv4 t) of
             Inl e \<Rightarrow> [(''dns.dns_test_server'', ''dns.dns_test_server: '' @ what e)]
           | Inr settings \<Rightarrow> []))"

definition dns_issues :: "validation_env \<Rightarrow> config \<Rightarrow> issue list" where
  "dns_issues env cfg =
     (case cfg_dns cfg of
        None \<Rightarrow> [(''dns.system_resolver'', ''dns.system_resolver must be present'')]
      | Some dns \<Rightarrow>
          (let servers = foldl (check_server env (outbounds_of cfg))
                 \<lparr>sc_tags = {}, sc_identities = {}, sc_keenetic = 0, sc_issues = []\<rparr> (value_or (dns_servers dns) [])
           in sc_issues servers
              @ check_that (\<not> sc_keenetic servers > 1) ''dns.servers''
                  (''at most one dns.servers entry may use type='' @ quoted ''keenetic'')
              @ snd (foldl (check_fallback (sc_tags servers)) ({}, []) (enumerate 0 (value_or (dns_fallback dns) [])))
              @ resolver_issues dns
              @ concat (map (dns_rule_issues (sc_tags servers) (collect_list_names cfg))
                  (enumerate 0 (value_or (dns_rules dns) [])))
              @ test_server_issues env dns))"

section \<open>The whole check\<close>

definition validate_config :: "validation_env \<Rightarrow> config \<Rightarrow> unit result" where
  "validate_config env cfg =
     bind_result (autoupdate_issues cfg) (\<lambda>autoupdate.
     bind_result (iptables_issues cfg) (\<lambda>iptables.
       let issues = daemon_issues cfg @ api_issues cfg @ autoupdate
             @ concat (map list_issues (lists_map cfg))
             @ concat (map (outbound_issues env (outbounds_of cfg)) (outbounds_of cfg))
             @ concat (map (route_rule_issues cfg) (enumerate 0 (route_rules cfg)))
             @ fwmark_issues cfg @ iproute_issues cfg @ iptables @ dns_issues env cfg
       in if issues \<noteq> [] then Inl (ConfigValidationError issues) else Inr ()))"

definition parse_and_validate_config :: "validation_env \<Rightarrow> (string \<Rightarrow> json result) \<Rightarrow> string \<Rightarrow> config result" where
  "parse_and_validate_config env parse json_str =
     bind_result (parse_config env parse json_str) (\<lambda>cfg.
     bind_result (validate_config env cfg) (\<lambda>u. Inr cfg))"

definition max_file_size_bytes :: "config \<Rightarrow> u64" where
  "max_file_size_bytes cfg =
     word_of_int (value_or (dm_max_file_size_bytes (value_or (cfg_daemon cfg) default_daemon_config)) (8 * 1024 * 1024))"

end
