(* ===== verification/Validated_Config.thy ===== *)
theory Validated_Config
  imports Config_Validation
begin

text \<open>
  What validation establishes. A configuration is accepted exactly when it satisfies a specification written without the
  order and the messages of the checks; an accepted configuration can be used: its marks can be allocated, the tags its rules,
  groups, servers and detours refer to exist and have the right kind, and its port selectors can be parsed.
\<close>

section \<open>The specification\<close>

definition refers_to :: "string set \<Rightarrow> string \<Rightarrow> bool" where
  "refers_to known v \<longleftrightarrow> trim_copy v \<noteq> [] \<and> trim_copy v \<in> known"

definition daemon_wf :: "config \<Rightarrow> bool" where
  "daemon_wf cfg \<longleftrightarrow>
     (\<forall>d. cfg_daemon cfg = Some d \<longrightarrow>
        0 \<le> value_or (dm_firewall_verify_max_bytes d) 0 \<and> 0 < value_or (dm_max_file_size_bytes d) 1
        \<and> 1 \<le> value_or (dm_exec_timeout_seconds d) 30 \<and> 1 \<le> value_or (dm_resolver_ready_timeout_seconds d) 120
        \<and> 0 \<le> value_or (dm_exec_kill_grace_seconds d) 2)"

definition timeout_wf :: "int \<Rightarrow> bool" where
  "timeout_wf v \<longleftrightarrow> 1 \<le> v \<and> v \<le> 2147483647"

definition api_wf :: "config \<Rightarrow> bool" where
  "api_wf cfg \<longleftrightarrow>
     (\<forall>a. cfg_api cfg = Some a \<longrightarrow>
        1024 \<le> value_or (api_max_request_body_bytes a) 1048576
        \<and> timeout_wf (value_or (api_read_timeout_seconds a) 15) \<and> timeout_wf (value_or (api_write_timeout_seconds a) 15)
        \<and> timeout_wf (value_or (api_keep_alive_timeout_seconds a) 20))"

definition autoupdate_wf :: "config \<Rightarrow> bool" where
  "autoupdate_wf cfg \<longleftrightarrow>
     (\<forall>u. cfg_lists_autoupdate cfg = Some u \<longrightarrow>
        (if value_or (lau_cron u) [] = [] then \<not> value_or (lau_enabled u) False
         else cron_validate (value_or (lau_cron u) []) = Inr ()))"

definition list_wf :: "string \<Rightarrow> list_config \<Rightarrow> bool" where
  "list_wf name l \<longleftrightarrow> is_valid_tag name \<and> list_has_source l \<and> (\<forall>u. lst_url l = Some u \<longrightarrow> is_http_url u)"

definition urltest_wf :: "outbound list \<Rightarrow> outbound \<Rightarrow> bool" where
  "urltest_wf outbounds ob \<longleftrightarrow>
     value_or (ob_url ob) [] \<noteq> [] \<and> is_http_url (value_or (ob_url ob) []) \<and> value_or (ob_outbound_groups ob) [] \<noteq> []
     \<and> (\<forall>g \<in> set (value_or (ob_outbound_groups ob) []). grp_outbounds g \<noteq> []
          \<and> (\<forall>t \<in> set (grp_outbounds g). \<exists>child. find_outbound outbounds t = Some child
               \<and> ob_type child \<in> {INTERFACE, TABLE, BLACKHOLE}))"

definition outbound_wf :: "validation_env \<Rightarrow> outbound list \<Rightarrow> outbound \<Rightarrow> bool" where
  "outbound_wf env outbounds ob \<longleftrightarrow>
     is_valid_tag (ob_tag ob)
     \<and> (ob_type ob = INTERFACE \<longrightarrow>
          trim_copy (value_or (ob_interface ob) []) \<noteq> []
          \<and> (\<forall>g. ob_gateway ob = Some g \<longrightarrow> is_valid_ipv4_address env g)
          \<and> (\<forall>g. ob_gateway6 ob = Some g \<longrightarrow> is_valid_ipv6_address env g))
     \<and> (ob_type ob = URLTEST \<longrightarrow> urltest_wf outbounds ob)"

definition route_rule_wf :: "config \<Rightarrow> route_rule \<Rightarrow> bool" where
  "route_rule_wf cfg rule \<longleftrightarrow>
     refers_to (ob_tag ` set (outbounds_of cfg)) (rr_outbound rule)
     \<and> (\<forall>l \<in> set (route_rule_lists rule). refers_to (fst ` set (lists_map cfg)) l)"

definition iproute_wf :: "config \<Rightarrow> bool" where
  "iproute_wf cfg \<longleftrightarrow>
     (let ipc = value_or (cfg_iproute cfg) default_iproute_config;
          table_start = to_u32 (value_or (ipr_table_start ipc) 150);
          first = (case ipr_rule_priority_start ipc of None \<Rightarrow> table_start | Some p \<Rightarrow> to_u32 p)
      in \<not> is_reserved_table table_start
         \<and> (\<forall>p. ipr_rule_priority_start ipc = Some p \<longrightarrow> 1 \<le> p \<and> p \<le> 4294967295)
         \<and> first \<noteq> 0 \<and> length (filter routable (outbounds_of cfg)) \<le> unat ((0xFFFFFFFF - first) div 2))"

definition server_wf :: "validation_env \<Rightarrow> outbound list \<Rightarrow> dns_server_config \<Rightarrow> bool" where
  "server_wf env outbounds srv \<longleftrightarrow>
     is_valid_tag (srv_tag srv)
     \<and> (if server_type_of srv = DnsKeenetic
        then ve_use_keenetic_api env
             \<and> (ve_os_type env = ''keenetic'' \<longrightarrow> ve_os_version env = [] \<or> keenetic_version_supports_encrypted_dns (ve_os_version env))
             \<and> value_or (srv_address srv) [] = []
        else value_or (srv_address srv) [] \<noteq> [])
     \<and> (\<forall>d. srv_detour srv = Some d \<longrightarrow> (\<exists>ob. find_outbound outbounds d = Some ob \<and> routable ob))"

definition dns_wf :: "validation_env \<Rightarrow> config \<Rightarrow> bool" where
  "dns_wf env cfg \<longleftrightarrow>
     (\<exists>dns. cfg_dns cfg = Some dns \<and>
       (let servers = value_or (dns_servers dns) []; tags = srv_tag ` set servers; fallback = value_or (dns_fallback dns) []
        in (\<forall>srv \<in> set servers. server_wf env (outbounds_of cfg) srv)
           \<and> distinct (map srv_tag servers) \<and> distinct (map server_identity servers)
           \<and> length (filter (\<lambda>srv. server_type_of srv = DnsKeenetic) servers) \<le> 1
           \<and> distinct fallback \<and> [] \<notin> set fallback \<and> set fallback \<subseteq> tags
           \<and> (\<exists>r. dns_system_resolver dns = Some r \<and> sr_address r \<noteq> [])
           \<and> (\<forall>r \<in> set (value_or (dns_rules dns) []). refers_to tags (dr_server r) \<and> dr_list r \<noteq> []
                \<and> (\<forall>l \<in> set (dr_list r). refers_to (fst ` set (lists_map cfg)) l))
           \<and> (\<forall>t. dns_test_server_cfg dns = Some t \<longrightarrow>
                (\<exists>s. parse_dns_probe_server_settings env (dts_listen t) (dts_answer_ipv4 t) = Inr s))))"

definition config_wf :: "validation_env \<Rightarrow> config \<Rightarrow> bool" where
  "config_wf env cfg \<longleftrightarrow>
     daemon_wf cfg \<and> api_wf cfg \<and> autoupdate_wf cfg
     \<and> (\<forall>(name, l) \<in> set (lists_map cfg). list_wf name l)
     \<and> (\<forall>ob \<in> set (outbounds_of cfg). outbound_wf env (outbounds_of cfg) ob)
     \<and> (\<forall>rule \<in> set (route_rules cfg). route_rule_wf cfg rule)
     \<and> (\<exists>marks. allocate_outbound_marks (value_or (cfg_fwmark cfg) default_fwmark_config) (outbounds_of cfg) = Inr marks)
     \<and> iproute_wf cfg
     \<and> (firewall_backend_preference cfg = BackendIptables \<longrightarrow>
          (\<forall>rule \<in> set (route_rules cfg). route_rule_uses_unsupported_iptables_multiport_combo rule = Inr False))
     \<and> dns_wf env cfg"

section \<open>The checks decide the specification\<close>

lemma check_that_Nil [simp]: "check_that good path message = [] \<longleftrightarrow> good"
  by (simp add: check_that_def)

lemma concat_enumerate_Nil:
  assumes "\<And>i x. f (i, x) = [] \<longleftrightarrow> P x"
  shows "concat (map f (enumerate n xs)) = [] \<longleftrightarrow> (\<forall>x \<in> set xs. P x)"
  by (induction xs arbitrary: n) (auto simp: assms)

lemma validate_tag_Nil [simp]: "validate_tag path kind v = [] \<longleftrightarrow> is_valid_tag v"
  by (auto simp: validate_tag_def is_valid_tag_def)

lemma validate_required_reference_Nil [simp]:
  "validate_required_reference known path owner v kind = [] \<longleftrightarrow> refers_to known v"
  by (simp add: validate_required_reference_def refers_to_def Let_def)

lemma validate_rule_list_references_Nil [simp]:
  "validate_rule_list_references known path refs = [] \<longleftrightarrow> (\<forall>l \<in> set refs. refers_to known l)"
  unfolding validate_rule_list_references_def by (rule concat_enumerate_Nil) simp

lemma daemon_issues_Nil: "daemon_issues cfg = [] \<longleftrightarrow> daemon_wf cfg"
  by (auto simp: daemon_issues_def daemon_wf_def value_or_def not_less not_le split: option.splits)

lemma api_issues_Nil: "api_issues cfg = [] \<longleftrightarrow> api_wf cfg"
  by (auto simp: api_issues_def api_wf_def timeout_issues_def timeout_wf_def split: option.splits)

lemma autoupdate_issues_Nil: "autoupdate_issues cfg = Inr [] \<longleftrightarrow> autoupdate_wf cfg"
  by (auto simp: autoupdate_issues_def autoupdate_wf_def cron_issues_def Let_def
      split: option.splits sum.splits cpp_error.splits if_splits)

lemma list_issues_Nil: "list_issues (name, l) = [] \<longleftrightarrow> list_wf name l"
  by (auto simp: list_issues_def list_wf_def Let_def split: option.splits)

lemma group_reference_issues_Nil:
  "group_reference_issues outbounds ob path t = []
   \<longleftrightarrow> (\<exists>child. find_outbound outbounds t = Some child \<and> ob_type child \<in> {INTERFACE, TABLE, BLACKHOLE})"
  by (auto simp: group_reference_issues_def Let_def split: option.splits)

lemma group_issues_Nil:
  "concat (map (group_issues outbounds ob) (enumerate 0 groups)) = []
   \<longleftrightarrow> (\<forall>g \<in> set groups. grp_outbounds g \<noteq> []
        \<and> (\<forall>t \<in> set (grp_outbounds g). \<exists>child. find_outbound outbounds t = Some child
             \<and> ob_type child \<in> {INTERFACE, TABLE, BLACKHOLE}))"
  by (rule concat_enumerate_Nil) (simp add: group_issues_def Let_def group_reference_issues_Nil)

lemma urltest_url_issues_Nil:
  "urltest_url_issues ob = [] \<longleftrightarrow> value_or (ob_url ob) [] \<noteq> [] \<and> is_http_url (value_or (ob_url ob) [])"
  by (auto simp: urltest_url_issues_def Let_def)

lemma outbound_issues_Nil: "outbound_issues env outbounds ob = [] \<longleftrightarrow> outbound_wf env outbounds ob"
  by (auto simp: outbound_issues_def outbound_wf_def urltest_wf_def interface_outbound_issues_def group_issues_Nil
      urltest_url_issues_Nil Let_def simp del: concat_eq_Nil_conv split: option.splits)

lemma route_rule_issues_Nil:
  "concat (map (route_rule_issues cfg) (enumerate 0 rules)) = [] \<longleftrightarrow> (\<forall>rule \<in> set rules. route_rule_wf cfg rule)"
  by (rule concat_enumerate_Nil)
    (simp add: route_rule_issues_def route_rule_wf_def collect_outbound_tags_def collect_list_names_def Let_def)

lemma fwmark_issues_Nil:
  "fwmark_issues cfg = []
   \<longleftrightarrow> (\<exists>marks. allocate_outbound_marks (value_or (cfg_fwmark cfg) default_fwmark_config) (outbounds_of cfg) = Inr marks)"
  by (auto simp: fwmark_issues_def Let_def allocate_outbound_marks_def fwmark_mask_value_def split: sum.splits)

lemma iproute_issues_Nil: "iproute_issues cfg = [] \<longleftrightarrow> iproute_wf cfg"
  by (auto simp: iproute_issues_def iproute_wf_def Let_def not_less split: option.splits)

lemma multiport_issue_Nil:
  "fold_result multiport_issue acc (enumerate n rules) = Inr []
   \<longleftrightarrow> acc = [] \<and> (\<forall>rule \<in> set rules. route_rule_uses_unsupported_iptables_multiport_combo rule = Inr False)"
proof (induction rules arbitrary: acc n)
  case (Cons rule rules)
  show ?case
  proof (cases "multiport_issue acc (n, rule)")
    case (Inl e)
    then show ?thesis
      by (cases "route_rule_uses_unsupported_iptables_multiport_combo rule")
        (auto simp: multiport_issue_def bind_result_def split: sum.splits if_splits)
  next
    case (Inr acc')
    then have "acc' = [] \<longleftrightarrow> acc = [] \<and> route_rule_uses_unsupported_iptables_multiport_combo rule = Inr False"
      by (auto simp: multiport_issue_def result_simps split: if_splits)
    with Inr Cons show ?thesis by auto
  qed
qed simp

lemma iptables_issues_Nil:
  "iptables_issues cfg = Inr []
   \<longleftrightarrow> (firewall_backend_preference cfg = BackendIptables \<longrightarrow>
        (\<forall>rule \<in> set (route_rules cfg). route_rule_uses_unsupported_iptables_multiport_combo rule = Inr False))"
  by (simp add: iptables_issues_def multiport_issue_Nil)

lemma server_type_issues_Nil:
  "server_type_issues env srv = []
   \<longleftrightarrow> (if server_type_of srv = DnsKeenetic
        then ve_use_keenetic_api env
             \<and> (ve_os_type env = ''keenetic'' \<longrightarrow> ve_os_version env = [] \<or> keenetic_version_supports_encrypted_dns (ve_os_version env))
             \<and> value_or (srv_address srv) [] = []
        else value_or (srv_address srv) [] \<noteq> [])"
  by (auto simp: server_type_issues_def keenetic_server_issues_def split: dns_server_type.splits)

lemma not_routable: "ob_type ob \<noteq> BLACKHOLE \<and> ob_type ob \<noteq> IGNORE \<longleftrightarrow> routable ob"
  by (cases "ob_type ob") (simp_all add: routable_def)

lemma detour_issues_Nil:
  "detour_issues outbounds srv = []
   \<longleftrightarrow> (\<forall>d. srv_detour srv = Some d \<longrightarrow> (\<exists>ob. find_outbound outbounds d = Some ob \<and> routable ob))"
  by (auto simp: detour_issues_def Let_def not_routable split: option.splits)

lemma check_servers:
  "sc_tags (foldl (check_server env outbounds) st servers) = sc_tags st \<union> srv_tag ` set servers"
  "sc_keenetic (foldl (check_server env outbounds) st servers)
     = sc_keenetic st + length (filter (\<lambda>srv. server_type_of srv = DnsKeenetic) servers)"
  by (induction servers arbitrary: st) (auto simp: check_server_def)

lemma check_servers_Nil:
  "sc_issues (foldl (check_server env outbounds) st servers) = []
   \<longleftrightarrow> sc_issues st = [] \<and> (\<forall>srv \<in> set servers. server_wf env outbounds srv)
     \<and> distinct (map srv_tag servers) \<and> srv_tag ` set servers \<inter> sc_tags st = {}
     \<and> distinct (map server_identity servers) \<and> server_identity ` set servers \<inter> sc_identities st = {}"
proof (induction servers arbitrary: st)
  case (Cons srv servers)
  have "sc_issues (check_server env outbounds st srv) = []
      \<longleftrightarrow> sc_issues st = [] \<and> server_wf env outbounds srv \<and> srv_tag srv \<notin> sc_tags st
        \<and> server_identity srv \<notin> sc_identities st"
    by (auto simp: check_server_def server_wf_def server_type_issues_Nil detour_issues_Nil)
  moreover have "sc_tags (check_server env outbounds st srv) = insert (srv_tag srv) (sc_tags st)"
    "sc_identities (check_server env outbounds st srv) = insert (server_identity srv) (sc_identities st)"
    by (simp_all add: check_server_def)
  ultimately show ?case using Cons.IH [of "check_server env outbounds st srv"] by auto
qed simp

lemma check_fallbacks_Nil:
  "snd (foldl (check_fallback tags) (seen, issues) (enumerate n ts)) = []
   \<longleftrightarrow> issues = [] \<and> distinct ts \<and> [] \<notin> set ts \<and> set ts \<subseteq> tags \<and> set ts \<inter> seen = {}"
proof (induction ts arbitrary: seen issues n)
  case (Cons t ts)
  obtain seen' issues' where step: "check_fallback tags (seen, issues) (n, t) = (seen', issues')" by fastforce
  then have "issues' = [] \<longleftrightarrow> issues = [] \<and> t \<noteq> [] \<and> t \<notin> seen \<and> t \<in> tags" "t \<noteq> [] \<longrightarrow> seen' = insert t seen"
    by (auto simp: check_fallback_def Let_def split: if_splits)
  with step Cons.IH [of seen' issues' "Suc n"] show ?case by auto
qed simp

lemma resolver_issues_Nil: "resolver_issues dns = [] \<longleftrightarrow> (\<exists>r. dns_system_resolver dns = Some r \<and> sr_address r \<noteq> [])"
  by (auto simp: resolver_issues_def split: option.splits)

lemma dns_rule_issues_Nil:
  "concat (map (dns_rule_issues tags names) (enumerate 0 rules)) = []
   \<longleftrightarrow> (\<forall>r \<in> set rules. refers_to tags (dr_server r) \<and> dr_list r \<noteq> [] \<and> (\<forall>l \<in> set (dr_list r). refers_to names l))"
  by (rule concat_enumerate_Nil) (simp add: dns_rule_issues_def Let_def)

lemma test_server_issues_Nil:
  "test_server_issues env dns = []
   \<longleftrightarrow> (\<forall>t. dns_test_server_cfg dns = Some t \<longrightarrow>
        (\<exists>s. parse_dns_probe_server_settings env (dts_listen t) (dts_answer_ipv4 t) = Inr s))"
  by (auto simp: test_server_issues_def split: option.splits sum.splits)

lemma dns_issues_Nil: "dns_issues env cfg = [] \<longleftrightarrow> dns_wf env cfg"
  by (simp add: dns_issues_def dns_wf_def Let_def check_servers check_servers_Nil check_fallbacks_Nil resolver_issues_Nil
      dns_rule_issues_Nil test_server_issues_Nil collect_list_names_def not_less del: concat_eq_Nil_conv split: option.splits)

lemmas issues_Nil = daemon_issues_Nil api_issues_Nil outbound_issues_Nil route_rule_issues_Nil fwmark_issues_Nil
  iproute_issues_Nil dns_issues_Nil

lemma validate_config_wf: "validate_config env cfg = Inr () \<longleftrightarrow> config_wf env cfg"
proof -
  have lists: "concat (map list_issues ls) = [] \<longleftrightarrow> (\<forall>(name, l) \<in> set ls. list_wf name l)" for ls
    by (auto simp: list_issues_Nil)
  have obs: "concat (map (outbound_issues env (outbounds_of cfg)) (outbounds_of cfg)) = []
      \<longleftrightarrow> (\<forall>ob \<in> set (outbounds_of cfg). outbound_wf env (outbounds_of cfg) ob)"
    by (auto simp: outbound_issues_Nil)
  have "validate_config env cfg = Inr () \<longleftrightarrow>
      autoupdate_issues cfg = Inr [] \<and> iptables_issues cfg = Inr [] \<and> daemon_issues cfg = [] \<and> api_issues cfg = []
      \<and> concat (map list_issues (lists_map cfg)) = []
      \<and> concat (map (outbound_issues env (outbounds_of cfg)) (outbounds_of cfg)) = []
      \<and> concat (map (route_rule_issues cfg) (enumerate 0 (route_rules cfg))) = []
      \<and> fwmark_issues cfg = [] \<and> iproute_issues cfg = [] \<and> dns_issues env cfg = []"
    by (auto simp: validate_config_def result_simps Let_def simp del: concat_eq_Nil_conv split: if_splits)
  then show ?thesis
    unfolding config_wf_def issues_Nil lists obs autoupdate_issues_Nil iptables_issues_Nil by blast
qed


section \<open>Validated selectors can be parsed\<close>

definition blank_free :: "string \<Rightarrow> bool" where
  "blank_free s \<longleftrightarrow> list_all (\<lambda>c. \<not> config_space c) s"

lemma trim_copy_id: "blank_free s \<Longrightarrow> trim_copy s = s"
proof -
  have drop: "dropWhile config_space t = t" if "blank_free t" for t
    using that by (cases t) (simp_all add: blank_free_def)
  assume "blank_free s"
  moreover from this have "blank_free (rev s)" by (simp add: blank_free_def list_all_iff)
  ultimately show ?thesis by (simp add: trim_copy_def trim_by_def drop)
qed

lemma blank_free_tl: "blank_free s \<Longrightarrow> blank_free (tl s)"
  by (cases s) (simp_all add: blank_free_def)

lemma blank_free_segments: "blank_free s \<Longrightarrow> seg \<in> set (split_on sep s) \<Longrightarrow> blank_free seg"
  by (induction s arbitrary: seg) (auto simp: blank_free_def split: if_splits list.splits)

lemma split_on_empty: "split_on sep s = [[]] \<longleftrightarrow> s = []"
  by (cases s) (auto split: list.splits)

lemma last_split_on: "last (split_on sep s) = [] \<longleftrightarrow> s = [] \<or> last s = sep"
proof (induction s)
  case (Cons c s)
  show ?case
  proof (cases "split_on sep s")
    case (Cons seg segs)
    with Cons.IH split_on_empty [of sep s] show ?thesis by (auto split: if_splits)
  qed simp
qed simp

lemma split_port_spec_loop_segments:
  assumes "spec \<noteq> []" and "[] \<notin> set ((cur @ hd (split_on CHR '','' s)) # tl (split_on CHR '','' s))"
  shows "split_port_spec_loop spec acc cur s = Inr (acc @ (cur @ hd (split_on CHR '','' s)) # tl (split_on CHR '','' s))"
  using assms(2)
proof (induction s arbitrary: acc cur)
  case Nil
  then show ?case using assms(1) by simp
next
  case (Cons c s)
  obtain seg segs where split: "split_on CHR '','' s = seg # segs" by (meson list.exhaust split_on_nonempty)
  show ?case
  proof (cases "c = CHR '',''")
    case True
    with Cons.prems split have "cur \<noteq> []" "[] \<notin> set (seg # segs)" by auto
    with True Cons.IH [of "[]" "acc @ [cur]"] split show ?thesis by simp
  next
    case False
    with Cons.prems split Cons.IH [of "cur @ [c]" acc] show ?thesis by auto
  qed
qed

lemma uint_loop_port_value: "uint_loop v s = port_value_loop v s"
  by (induction s arbitrary: v) (simp_all add: Let_def)

lemma parse_uint_port: "parse_uint_in_range s (Suc 0) 65535 = parse_port_value s"
  by (cases "port_value_loop 0 s") (simp_all add: parse_uint_in_range_def parse_port_value_def uint_loop_port_value)

lemma first_error_None: "first_error f xs = None \<longleftrightarrow> (\<forall>x \<in> set xs. f x = None)"
  by (induction xs) (auto split: option.splits)

lemma validated_port_token:
  assumes "validate_port_token t = None" "blank_free t"
  shows "t \<noteq> [] \<and> parse_port_range_token t CHR ''-'' \<noteq> None"
proof -
  have parts: "blank_free a" "blank_free b" if "split_first CHR ''-'' t = Some (a, b)" for a b
    using split_first_SomeD [OF that] assms(2) by (auto simp: blank_free_def)
  show ?thesis
  proof (cases "split_first CHR ''-'' t")
    case None
    then show ?thesis
      using assms by (auto simp: validate_port_token_def parse_port_range_token_def trim_copy_id parse_uint_port Let_def
          split: if_splits)
  next
    case (Some ab)
    obtain a b where ab: "ab = (a, b)" by (cases ab)
    with Some parts have "blank_free a" "blank_free b" by auto
    with Some ab assms show ?thesis
      by (auto simp: validate_port_token_def parse_port_range_token_def trim_copy_id parse_uint_port Let_def
          split: option.splits if_splits)
  qed
qed

lemma validated_ports_parse:
  assumes "validate_port_spec (Some s) = None" "blank_free s"
  shows "\<exists>spec. parse_port_spec (fst (strip_neg s)) = Inr spec"
proof (cases "fst (strip_neg s) = []")
  case True
  then show ?thesis by (simp add: parse_port_spec_def)
next
  case False
  let ?c = "fst (strip_neg s)" and ?segs = "split_on CHR '','' (fst (strip_neg s))"
  have content: "spec_content s = ?c" by (simp add: spec_content_def strip_neg_def)
  have "s \<noteq> []" using False by (auto simp: strip_neg_def)
  then have open_ends: "\<not> ends_open ?c" and tokens: "\<forall>t \<in> set (getline_tokens CHR '','' ?c). validate_port_token t = None"
    using assms by (auto simp: validate_port_spec_def Let_def trim_copy_id content first_error_None split: if_splits)
  have "getline_tokens CHR '','' ?c = ?segs"
    using False open_ends by (simp add: getline_tokens_def Let_def last_split_on ends_open_def)
  moreover have "blank_free ?c" using assms(2) blank_free_tl by (simp add: strip_neg_def)
  ultimately have good: "\<forall>t \<in> set ?segs. t \<noteq> [] \<and> parse_port_range_token t CHR ''-'' \<noteq> None"
    using tokens validated_port_token blank_free_segments by metis
  obtain seg segs where split: "?segs = seg # segs" by (meson list.exhaust split_on_nonempty)
  then have tokens: "split_port_spec_tokens ?c = Inr ?segs"
    using split_port_spec_loop_segments [of ?c "[]" ?c "[]"] False good by (auto simp: split_port_spec_tokens_def)
  have "\<exists>rs'. fold_result (\<lambda>rs token. parse_port_token ?c token rs) rs ts = Inr rs'"
    if "\<forall>t \<in> set ts. parse_port_range_token t CHR ''-'' \<noteq> None" for ts rs
    using that by (induction ts arbitrary: rs) (auto simp: parse_port_token_def)
  then obtain rs where "fold_result (\<lambda>rs token. parse_port_token ?c token rs) [] ?segs = Inr rs" using good by blast
  with tokens False show ?thesis by (simp add: parse_port_spec_def)
qed

lemma validated_addresses_parse:
  assumes "validate_address_spec env (Some s) = None" "blank_free s"
  shows "\<exists>spec. parse_addr_spec (ve_pton4 env) (ve_pton6 env) s = Inr spec"
  using assms
  by (auto simp: validate_address_spec_def trim_copy_id parse_addr_spec_def Let_def split: if_splits sum.splits)

section \<open>From the JSON to the rules\<close>

definition rule_specs_valid :: "validation_env \<Rightarrow> route_rule \<Rightarrow> bool" where
  "rule_specs_valid env rule \<longleftrightarrow>
     validate_port_spec (rr_src_port rule) = None \<and> validate_port_spec (rr_dest_port rule) = None
     \<and> validate_address_spec env (rr_src_addr rule) = None \<and> validate_address_spec env (rr_dest_addr rule) = None"

lemma get_stack_optional_Some:
  "get_stack_optional dec j key = Inr (Some x) \<longleftrightarrow> (\<exists>v. json_find key j = Some v \<and> v \<noteq> JNull \<and> dec v = Inr x)"
  by (auto simp: get_stack_optional_def get_optional_def result_simps split: option.splits if_splits)

lemma get_vector_Inr: "get_vector dec j = Inr xs \<longleftrightarrow> (\<exists>js. j = JArray js \<and> map_result dec js = Inr xs)"
  by (cases j) (auto simp: get_vector_def)

lemma optional_string_field:
  "get_stack_optional get_string j key = Inr v \<Longrightarrow> get_optional_string_field j key = v"
  by (auto simp: get_stack_optional_def get_optional_def get_optional_string_field_def result_simps
      split: option.splits if_splits json.splits)

lemma issue_of_Nil [simp]: "issue_of path e = [] \<longleftrightarrow> e = None"
  by (simp add: issue_of_def split: option.splits)

lemma validated_json_rule:
  assumes "from_json_route_rule j = Inr rule" and "validate_route_rule_spec env (i, j) = []"
  shows "rule_specs_valid env rule"
proof -
  have "json_is_object j"
    using assms(1) by (cases j) (auto simp: from_json_route_rule_def result_simps json_at_def)
  moreover have "get_optional_string_field j ''src_port'' = rr_src_port rule"
    "get_optional_string_field j ''dest_port'' = rr_dest_port rule"
    "get_optional_string_field j ''src_addr'' = rr_src_addr rule"
    "get_optional_string_field j ''dest_addr'' = rr_dest_addr rule"
    using assms(1) by (auto simp: from_json_route_rule_def result_simps optional_string_field)
  ultimately show ?thesis
    using assms(2) by (simp add: validate_route_rule_spec_def rule_specs_valid_def Let_def)
qed

lemma map_result_member: "map_result f js = Inr xs \<Longrightarrow> x \<in> set xs \<Longrightarrow> \<exists>j \<in> set js. f j = Inr x"
  by (induction js arbitrary: xs) (auto simp: map_result_Cons simp del: map_result.simps(2))

lemma validated_json_rules:
  assumes "from_json_config root = Inr cfg" and "validate_route_rule_specs env root = []" and "rule \<in> set (route_rules cfg)"
  shows "rule_specs_valid env rule"
proof -
  have route: "get_stack_optional from_json_route_config root ''route'' = Inr (cfg_route cfg)"
    using assms(1) by (auto simp: from_json_config_def result_simps)
  obtain rc rules where rc: "cfg_route cfg = Some rc" "rc_rules rc = Some rules" "rule \<in> set rules"
    using assms(3) by (cases "cfg_route cfg"; cases "rc_rules (the (cfg_route cfg))")
      (auto simp: route_rules_def default_route_config_def)
  obtain rj where rj: "json_find ''route'' root = Some rj" "from_json_route_config rj = Inr rc"
    using route rc(1) by (auto simp: get_stack_optional_Some)
  have "get_stack_optional (get_vector from_json_route_rule) rj ''rules'' = Inr (Some rules)"
    using rj(2) rc(2) by (auto simp: from_json_route_config_def result_simps)
  then obtain js where js: "json_find ''rules'' rj = Some (JArray js)" "map_result from_json_route_rule js = Inr rules"
    by (auto simp: get_stack_optional_Some get_vector_Inr)
  then have "section_member root ''route'' ''rules'' = Some (JArray js)"
    using rj(1) by (cases rj) (auto simp: section_member_def)
  then have checked: "concat (map (validate_route_rule_spec env) (enumerate 0 js)) = []"
    using assms(2) by (simp add: validate_route_rule_specs_def)
  obtain j where "j \<in> set js" "from_json_route_rule j = Inr rule"
    using map_result_member [OF js(2) rc(3)] by blast
  moreover from this obtain i where "(i, j) \<in> set (enumerate 0 js)"
    by (metis in_set_conv_nth in_set_enumerate_eq length_enumerate add.left_neutral diff_zero fst_conv nth_enumerate_eq snd_conv)
  ultimately show ?thesis using validated_json_rule checked by auto
qed

lemma json_issues_rules: "json_issues env root = [] \<Longrightarrow> validate_route_rule_specs env root = []"
  by (simp only: json_issues_def append_is_Nil_conv)

section \<open>Accepted rules take effect\<close>

lemma find_outbound_tag: "find_outbound obs t = Some ob \<Longrightarrow> ob \<in> set obs \<and> ob_tag ob = t"
  by (induction obs) (auto split: if_splits)

lemma find_outbound_exists: "t \<in> ob_tag ` set obs \<Longrightarrow> \<exists>ob. find_outbound obs t = Some ob"
  by (induction obs) auto

lemma find_outbound_same: "find_outbound_by_tag obs t = find_outbound obs t"
  by (induction obs) auto

text \<open>The children a URL test can select.\<close>

definition urltest_children :: "outbound \<Rightarrow> string set" where
  "urltest_children ob = (\<Union>g \<in> set (value_or (ob_outbound_groups ob) []). set (grp_outbounds g))"

definition selections_ok :: "outbound list \<Rightarrow> (string, string) smap option \<Rightarrow> bool" where
  "selections_ok outbounds sels \<longleftrightarrow>
     (\<forall>ob \<in> set outbounds. ob_type ob = URLTEST \<longrightarrow>
        (let t = resolve_urltest_selection sels (ob_tag ob) in t = [] \<or> t \<in> urltest_children ob))"

lemma accepted_effective_outbound:
  assumes "\<forall>ob \<in> set outbounds. outbound_wf env outbounds ob" and "selections_ok outbounds sels"
    and "ob \<in> set outbounds" and "ob_type ob \<noteq> IGNORE" and "effective_outbound sels outbounds ob = (t, ob')"
  shows "ob' \<in> set outbounds \<and> ob_tag ob' = t \<and> (ob_type ob' = BLACKHOLE \<or> routable ob')"
proof (cases "ob_type ob = URLTEST \<and> resolve_urltest_selection sels (ob_tag ob) \<noteq> []")
  case True
  let ?t = "resolve_urltest_selection sels (ob_tag ob)"
  from True assms have "?t \<in> urltest_children ob" by (auto simp: selections_ok_def Let_def)
  moreover have "urltest_wf outbounds ob" using assms True by (auto simp: outbound_wf_def)
  ultimately obtain child where "find_outbound outbounds ?t = Some child" "ob_type child \<in> {INTERFACE, TABLE, BLACKHOLE}"
    by (auto simp: urltest_wf_def urltest_children_def)
  with True assms(5) show ?thesis by (auto simp: effective_outbound_def routable_def Let_def dest: find_outbound_tag)
next
  case False
  then have "(t, ob') = (ob_tag ob, ob)" using assms(5) by (auto simp: effective_outbound_def Let_def split: if_splits)
  with assms(3,4) show ?thesis by (cases "ob_type ob") (auto simp: routable_def)
qed

lemma accepted_rule_action:
  assumes wf: "config_wf env cfg" and rule: "rule \<in> set (route_rules cfg)" "route_rule_enabled rule" "blank_free (rr_outbound rule)"
    and sels: "selections_ok (outbounds_of cfg) sels"
    and marks: "allocate_outbound_marks (value_or (cfg_fwmark cfg) default_fwmark_config) (outbounds_of cfg) = Inr marks"
  shows "rst_action_type (build_fw_rule_state cfg marks sels i rule) \<noteq> ActSkip
    \<and> (rst_action_type (build_fw_rule_state cfg marks sels i rule) = ActMark \<longrightarrow>
         rst_fwmark (build_fw_rule_state cfg marks sels i rule) \<in> ran (map_of marks))"
proof -
  let ?obs = "outbounds_of cfg"
  have "refers_to (ob_tag ` set ?obs) (rr_outbound rule)" using wf rule(1) by (auto simp: config_wf_def route_rule_wf_def)
  then obtain ob where ob: "find_outbound ?obs (rr_outbound rule) = Some ob"
    using find_outbound_exists trim_copy_id [OF rule(3)] by (auto simp: refers_to_def)
  note found = ob [unfolded outbounds_of_def]
  show ?thesis
  proof (cases "ob_type ob = IGNORE")
    case True
    with found rule(2) show ?thesis
      by (simp add: build_fw_rule_state_def resolve_route_action_def find_outbound_same Let_def decision_passthrough_def
          decision_none_def base_rule_state_def)
  next
    case False
    obtain t ob' where eff: "effective_outbound sels ?obs ob = (t, ob')" by fastforce
    have eff_ok: "ob' \<in> set ?obs" "ob_tag ob' = t" "ob_type ob' = BLACKHOLE \<or> routable ob'"
      using accepted_effective_outbound [OF _ sels _ False eff] wf find_outbound_tag [OF ob] by (auto simp: config_wf_def)
    have "(case map_of marks t of None \<Rightarrow> 0 | Some m \<Rightarrow> m) \<in> ran (map_of marks)" if "ob_type ob' \<noteq> BLACKHOLE"
    proof -
      have "t \<in> dom (map_of marks)" using allocation_marks [OF marks] eff_ok that by auto
      then show ?thesis using ranI [of "map_of marks" t] by auto
    qed
    with found False rule(2) eff show ?thesis
      by (auto simp: build_fw_rule_state_def resolve_route_action_def find_outbound_same Let_def decision_route_to_def
          decision_none_def base_rule_state_def outbounds_of_def)
  qed
qed

definition rule_texts_plain :: "route_rule \<Rightarrow> bool" where
  "rule_texts_plain rule \<longleftrightarrow>
     blank_free (rr_outbound rule)
     \<and> blank_free (value_or (rr_src_port rule) []) \<and> blank_free (value_or (rr_dest_port rule) [])
     \<and> blank_free (value_or (rr_src_addr rule) []) \<and> blank_free (value_or (rr_dest_addr rule) [])
     \<and> value_or (rr_proto rule) [] \<in> {[], ''tcp'', ''udp'', ''tcp/udp''}"

lemma accepted_rule_criteria:
  assumes "rule_specs_valid env rule" "rule_texts_plain rule"
  shows "\<exists>c. build_firewall_rule_criteria (ve_pton4 env) (ve_pton6 env) rule = Inr c"
proof -
  have proto: "\<exists>p. parse_rule_proto (rr_proto rule) = Inr p"
    using assms(2) by (auto simp: rule_texts_plain_def parse_rule_proto_def split: option.splits)
  have ports: "\<exists>spec. parse_port_spec (fst (strip_neg (value_or v []))) = Inr spec"
    if "validate_port_spec v = None" "blank_free (value_or v [])" for v
    using that validated_ports_parse by (cases v) (auto simp: strip_neg_def parse_port_spec_def)
  have addrs: "\<exists>spec. parse_addr_spec (ve_pton4 env) (ve_pton6 env) (value_or v []) = Inr spec"
    if "validate_address_spec env v = None" "blank_free (value_or v [])" for v
    using that validated_addresses_parse by (cases v) (auto simp: parse_addr_spec_def)
  note valid = assms [unfolded rule_specs_valid_def rule_texts_plain_def]
  obtain p sp dp sa da where "parse_rule_proto (rr_proto rule) = Inr p"
    "parse_port_spec (fst (strip_neg (value_or (rr_src_port rule) []))) = Inr sp"
    "parse_port_spec (fst (strip_neg (value_or (rr_dest_port rule) []))) = Inr dp"
    "parse_addr_spec (ve_pton4 env) (ve_pton6 env) (value_or (rr_src_addr rule) []) = Inr sa"
    "parse_addr_spec (ve_pton4 env) (ve_pton6 env) (value_or (rr_dest_addr rule) []) = Inr da"
    using proto ports addrs valid by meson
  then show ?thesis by (simp add: build_firewall_rule_criteria_def case_prod_unfold)
qed


definition sample_env :: validation_env where
  "sample_env = \<lparr>ve_pton4 = (\<lambda>s. True), ve_pton6 = (\<lambda>s. False), ve_os_type = ''linux'', ve_os_version = ''24'',
     ve_use_keenetic_api = True\<rparr>"

definition sample_root :: json where
  "sample_root = JObject
    [(''dns'', JObject [(''system_resolver'', JObject [(''address'', JString ''127.0.0.1'')])]),
     (''outbounds'', JArray [JObject [(''tag'', JString ''vpn''), (''type'', JString ''interface''), (''interface'', JString ''wg0'')]]),
     (''route'', JObject [(''rules'', JArray [JObject [(''outbound'', JString ''vpn''), (''dest_port'', JString ''443'')]])])]"

definition sample_accepted_rule :: route_rule where
  "sample_accepted_rule = \<lparr>rr_dest_addr = None, rr_dest_port = Some ''443'', rr_dscp = None, rr_enabled = None, rr_list = None,
     rr_outbound = ''vpn'', rr_proto = None, rr_src_addr = None, rr_src_port = None\<rparr>"

definition sample_accepted_config :: config where
  "sample_accepted_config = empty_config
     \<lparr>cfg_dns := Some (default_dns_config\<lparr>dns_system_resolver := Some \<lparr>sr_address = ''127.0.0.1''\<rparr>\<rparr>),
      cfg_outbounds := Some [(make_outbound ''vpn'' INTERFACE)\<lparr>ob_interface := Some ''wg0''\<rparr>],
      cfg_route := Some \<lparr>rc_inbound_interfaces = None, rc_rules = Some [sample_accepted_rule]\<rparr>\<rparr>"

lemma sample_root_read: "from_json_config sample_root = Inr sample_accepted_config"
  by (simp add: sample_root_def sample_accepted_config_def sample_accepted_rule_def empty_config_def make_outbound_def
      default_dns_config_def from_json_config_def from_json_dns_config_def from_json_system_resolver_def from_json_outbound_def
      from_json_outbound_type_def from_json_route_config_def from_json_route_rule_def get_stack_optional_def get_optional_def
      get_vector_def json_at_def)

lemma sample_port_valid: "validate_port_spec (Some ''443'') = None"
  by (simp add: validate_port_spec_def validate_port_token_def trim_copy_def trim_by_def config_space_def spec_content_def
      ends_open_def getline_tokens_def parse_uint_in_range_def is_digit_def digit_val_def Let_def)

lemma sample_root_checked: "json_issues sample_env sample_root = []"
  by (simp add: json_issues_def sample_root_def validate_optional_hex_string_field_def validate_optional_integer_field_def
      validate_optional_string_field_def validate_optional_boolean_field_def section_member_def validate_route_rule_specs_def
      validate_route_inbound_interfaces_def validate_route_rule_spec_def rule_has_string_condition_def
      get_optional_string_field_def validate_dscp_field_def sample_port_valid Let_def)
    (simp add: validate_port_spec_def validate_address_spec_def trim_copy_def trim_by_def config_space_def)

lemma sample_accepted_marks:
  "allocate_outbound_marks default_fwmark_config [(make_outbound ''vpn'' INTERFACE)\<lparr>ob_interface := Some ''wg0''\<rparr>]
   = Inr (smap_put (internal_detour_mark_key ''vpn'') 0x00020000 (smap_put ''vpn'' 0x00010000 []))"
proof -
  have "filter routable [(make_outbound ''vpn'' INTERFACE)\<lparr>ob_interface := Some ''wg0''\<rparr>]
      = [(make_outbound ''vpn'' INTERFACE)\<lparr>ob_interface := Some ''wg0''\<rparr>]"
    "ob_tag ((make_outbound ''vpn'' INTERFACE)\<lparr>ob_interface := Some ''wg0''\<rparr>) = ''vpn''"
    by (simp_all add: routable_def make_outbound_def)
  then show ?thesis
    unfolding allocate_outbound_marks_def default_marks [unfolded default_fwmark_def, folded default_fwmark_config_def]
    by (simp add: default_mask_valid default_capacity allocate_one_def del: smap_put.simps)
qed

lemma sample_config_accepted: "config_wf sample_env sample_accepted_config"
proof -
  have obs: "outbounds_of sample_accepted_config = [(make_outbound ''vpn'' INTERFACE)\<lparr>ob_interface := Some ''wg0''\<rparr>]"
    and rules: "route_rules sample_accepted_config = [sample_accepted_rule]"
    and rest: "cfg_daemon sample_accepted_config = None" "cfg_api sample_accepted_config = None"
      "cfg_lists_autoupdate sample_accepted_config = None" "lists_map sample_accepted_config = []"
      "cfg_fwmark sample_accepted_config = None" "cfg_iproute sample_accepted_config = None"
      "cfg_dns sample_accepted_config = Some (default_dns_config\<lparr>dns_system_resolver := Some \<lparr>sr_address = ''127.0.0.1''\<rparr>\<rparr>)"
    by (simp_all add: sample_accepted_config_def outbounds_of_def route_rules_def lists_map_def empty_config_def)
  have "outbound_wf sample_env obs' ((make_outbound ''vpn'' INTERFACE)\<lparr>ob_interface := Some ''wg0''\<rparr>)" for obs'
    by (simp add: outbound_wf_def make_outbound_def is_valid_tag_def MAX_TAG_LEN_def is_lower_def trim_copy_def trim_by_def
        config_space_def)
  moreover have "route_rule_wf sample_accepted_config sample_accepted_rule"
    by (simp add: route_rule_wf_def obs rest sample_accepted_rule_def refers_to_def make_outbound_def route_rule_lists_def
        trim_copy_def trim_by_def config_space_def)
  moreover have "iproute_wf sample_accepted_config"
    by (simp add: iproute_wf_def rest obs default_iproute_config_def is_reserved_table_def to_u32_def routable_def
        make_outbound_def word_le_nat_alt)
  moreover have "dns_wf sample_env sample_accepted_config"
    by (simp add: dns_wf_def rest default_dns_config_def)
  moreover have "firewall_backend_preference sample_accepted_config = BackendAuto"
    by (simp add: firewall_backend_preference_def rest default_daemon_config_def)
  ultimately show ?thesis
    by (simp add: config_wf_def daemon_wf_def api_wf_def autoupdate_wf_def obs rules rest sample_accepted_marks)
qed

lemma sample_accepted:
  "parse_and_validate_config sample_env (\<lambda>s. Inr sample_root) [] = Inr sample_accepted_config"
  using sample_config_accepted [folded validate_config_wf] sample_root_checked sample_root_read
  by (simp add: parse_and_validate_config_def parse_config_def)


section \<open>Deviations\<close>

text \<open>The validation trims every port of a list; the parser that the firewall uses does not, and throws.\<close>

lemma spaced_ports_accepted:
  "validate_port_spec (Some ''80, 90'') = None \<and> (\<exists>e. parse_port_spec ''80, 90'' = Inl e)"
  by (simp add: validate_port_spec_def validate_port_token_def trim_copy_def trim_by_def config_space_def spec_content_def
      ends_open_def getline_tokens_def parse_uint_in_range_def is_digit_def digit_val_def Let_def port_spec_eval)

text \<open>The protocol of a rule is not checked, and an unknown one makes the translation of the rule fail.\<close>

lemma protocol_not_validated:
  "route_rule_issues cfg (i, rule\<lparr>rr_proto := p\<rparr>) = route_rule_issues cfg (i, rule)
   \<and> (\<exists>e. build_firewall_rule_criteria pton4 pton6 (rule\<lparr>rr_proto := Some ''icmp''\<rparr>) = Inl e)"
  by (simp add: route_rule_issues_def route_rule_lists_def build_firewall_rule_criteria_def parse_rule_proto_def)

text \<open>The detour of a list is not checked.\<close>

lemma list_detour_not_validated: "list_issues (n, l\<lparr>lst_detour := d\<rparr>) = list_issues (n, l)"
  by (simp add: list_issues_def list_has_source_def)

end
