(* ===== verification/Lifecycle.thy ===== *)
theory Lifecycle
  imports Config_Marks Netlink
begin

text \<open>
  The bookkeeping of the daemon's control plane: the runtime states (\<^verbatim>\<open>src/runtime/runtime_state_machine.cpp\<close>), the lease
  for configuration operations (\<^verbatim>\<open>src/runtime/operation_coordinator.cpp\<close>), the lifecycle operations with their stages
  (\<^verbatim>\<open>src/runtime/lifecycle_operation.cpp\<close>), the order of a configuration transaction
  (\<^verbatim>\<open>src/daemon/config_apply_transaction.cpp\<close>), the active and staged configurations (\<^verbatim>\<open>src/daemon/config_store.cpp\<close>) and the
  inspect, plan, apply and verify cycle of \<^verbatim>\<open>src/runtime/runtime_reconciler.cpp\<close>. Each method that holds a mutex for its
  whole body is one step; \<^verbatim>\<open>finish\<close> of a lifecycle operation takes its mutex twice and is two steps.
\<close>

section \<open>Runtime states\<close>

datatype runtime_state = starting | running | restart_required | applying | stopped | broken | shutting_down

definition runtime_state_name :: "runtime_state \<Rightarrow> string" where
  "runtime_state_name s =
     (case s of starting \<Rightarrow> ''starting'' | running \<Rightarrow> ''running'' | restart_required \<Rightarrow> ''restart_required''
      | applying \<Rightarrow> ''applying'' | stopped \<Rightarrow> ''stopped'' | broken \<Rightarrow> ''broken'' | shutting_down \<Rightarrow> ''shutting_down'')"

record runtime_machine =
  rm_state :: runtime_state
  rm_reason :: string

definition transition_allowed :: "runtime_state \<Rightarrow> runtime_state \<Rightarrow> bool" where
  "transition_allowed from next \<longleftrightarrow>
     from = starting \<and> next \<in> {running, stopped, broken, shutting_down} \<or>
     from = running \<and> next \<in> {applying, restart_required, stopped, broken, shutting_down} \<or>
     from = restart_required \<and> next \<in> {applying, stopped, broken, shutting_down} \<or>
     from = applying \<and> next \<in> {running, broken, stopped} \<or>
     from = stopped \<and> next \<in> {starting, applying, broken, shutting_down} \<or>
     from = broken \<and> next \<in> {applying, stopped, shutting_down} \<or>
     from = shutting_down \<and> next = stopped"

text \<open>An illegal transition leaves the machine and gives the message.\<close>

definition transition :: "runtime_state \<Rightarrow> string \<Rightarrow> runtime_machine \<Rightarrow> (string + unit) \<times> runtime_machine" where
  "transition next reason m =
     (if \<not> transition_allowed (rm_state m) next
      then (Inl (''invalid runtime transition: '' @ runtime_state_name (rm_state m) @ '' -> '' @ runtime_state_name next), m)
      else (Inr (), m\<lparr>rm_state := next, rm_reason := reason\<rparr>))"

section \<open>The operation lease\<close>

record operation_lease =
  ol_busy :: bool
  ol_operation :: string

definition try_begin :: "string \<Rightarrow> operation_lease \<Rightarrow> bool \<times> operation_lease" where
  "try_begin operation l = (if ol_busy l then (False, l) else (True, \<lparr>ol_busy = True, ol_operation = operation\<rparr>))"

definition lease_finish :: "operation_lease \<Rightarrow> operation_lease" where
  "lease_finish l = \<lparr>ol_busy = False, ol_operation = []\<rparr>"

section \<open>Lifecycle operations\<close>

datatype lifecycle_type = ApplyConfig | Start | Stop | Restart

datatype stage_status = Pending | Running | Succeeded | Failed | Skipped

datatype operation_result = OpRunning | OpSucceeded | OpFailed

record lifecycle_stage =
  stg_id :: string
  stg_title :: string
  stg_status :: stage_status
  stg_detail :: string

record lifecycle_snapshot =
  op_id :: string
  op_type :: lifecycle_type
  op_result :: operation_result
  op_started_at :: int
  op_finished_at :: "int option"
  op_error :: string
  op_stages :: "lifecycle_stage list"

definition lifecycle_operation_type_name :: "lifecycle_type \<Rightarrow> string" where
  "lifecycle_operation_type_name t =
     (case t of ApplyConfig \<Rightarrow> ''apply_config'' | Start \<Rightarrow> ''start'' | Stop \<Rightarrow> ''stop'' | Restart \<Rightarrow> ''restart'')"

definition lifecycle_operation_status_name :: "stage_status \<Rightarrow> string" where
  "lifecycle_operation_status_name s =
     (case s of Pending \<Rightarrow> ''pending'' | Running \<Rightarrow> ''running'' | Succeeded \<Rightarrow> ''succeeded'' | Failed \<Rightarrow> ''failed''
      | Skipped \<Rightarrow> ''skipped'')"

definition lifecycle_operation_result_name :: "operation_result \<Rightarrow> string" where
  "lifecycle_operation_result_name r =
     (case r of OpRunning \<Rightarrow> ''running'' | OpSucceeded \<Rightarrow> ''succeeded'' | OpFailed \<Rightarrow> ''failed'')"

text \<open>The coordinator with the store it publishes to; the publish callback is the count of publications.\<close>

record lifecycle_coordinator =
  lc_active :: "lifecycle_snapshot option"
  lc_sequence :: u64
  lc_published :: "lifecycle_snapshot option"
  lc_publications :: nat

definition initial_coordinator :: lifecycle_coordinator where
  "initial_coordinator = \<lparr>lc_active = None, lc_sequence = 0, lc_published = None, lc_publications = 0\<rparr>"

definition publish :: "lifecycle_snapshot \<Rightarrow> lifecycle_coordinator \<Rightarrow> lifecycle_coordinator" where
  "publish snapshot lc = lc\<lparr>lc_published := Some snapshot, lc_publications := lc_publications lc + 1\<rparr>"

text \<open>The identifier of the active operation, or the operation created.\<close>

definition begin_operation ::
    "int \<Rightarrow> lifecycle_type \<Rightarrow> lifecycle_stage list \<Rightarrow> lifecycle_coordinator
      \<Rightarrow> (string + lifecycle_snapshot) \<times> lifecycle_coordinator" where
  "begin_operation now ty stages lc =
     (case lc_active lc of
        Some op \<Rightarrow> (Inl (op_id op), lc)
      | None \<Rightarrow>
          (let seq = lc_sequence lc + 1;
               created = \<lparr>op_id = ''lifecycle-'' @ nat_to_string (unat seq), op_type = ty, op_result = OpRunning,
                          op_started_at = now, op_finished_at = None, op_error = [], op_stages = stages\<rparr>
           in (Inr created, publish created (lc\<lparr>lc_sequence := seq, lc_active := Some created\<rparr>))))"

definition mutate :: "string \<Rightarrow> (lifecycle_snapshot \<Rightarrow> lifecycle_snapshot) \<Rightarrow> lifecycle_coordinator \<Rightarrow> lifecycle_coordinator" where
  "mutate oid mutation lc =
     (case lc_active lc of
        None \<Rightarrow> lc
      | Some op \<Rightarrow> if op_id op \<noteq> oid then lc else publish (mutation op) (lc\<lparr>lc_active := Some (mutation op)\<rparr>))"

text \<open>The first stage with an identifier is changed; a later one with the same identifier is not looked at.\<close>

fun update_stage :: "string \<Rightarrow> (lifecycle_stage \<Rightarrow> lifecycle_stage) \<Rightarrow> lifecycle_stage list \<Rightarrow> lifecycle_stage list" where
  "update_stage sid f [] = []"
| "update_stage sid f (s # ss) = (if stg_id s = sid then f s # ss else s # update_stage sid f ss)"

definition start_stage :: "string \<Rightarrow> string \<Rightarrow> lifecycle_coordinator \<Rightarrow> lifecycle_coordinator" where
  "start_stage oid sid = mutate oid (\<lambda>op. op\<lparr>op_stages :=
     update_stage sid (\<lambda>s. if stg_status s = Pending then s\<lparr>stg_status := Running\<rparr> else s) (op_stages op)\<rparr>)"

definition succeed_stage :: "string \<Rightarrow> string \<Rightarrow> string \<Rightarrow> lifecycle_coordinator \<Rightarrow> lifecycle_coordinator" where
  "succeed_stage oid sid detail = mutate oid (\<lambda>op. op\<lparr>op_stages :=
     update_stage sid (\<lambda>s. if stg_status s \<noteq> Running then s else s\<lparr>stg_status := Succeeded, stg_detail := detail\<rparr>)
       (op_stages op)\<rparr>)"

definition skip_pending :: "lifecycle_stage list \<Rightarrow> lifecycle_stage list" where
  "skip_pending = map (\<lambda>s. if stg_status s = Pending then s\<lparr>stg_status := Skipped\<rparr> else s)"

definition can_fail :: "string \<Rightarrow> lifecycle_stage list \<Rightarrow> bool" where
  "can_fail sid stages =
     (case find (\<lambda>s. stg_id s = sid) stages of None \<Rightarrow> False | Some s \<Rightarrow> stg_status s = Pending \<or> stg_status s = Running)"

definition fail_stage :: "string \<Rightarrow> string \<Rightarrow> string \<Rightarrow> lifecycle_coordinator \<Rightarrow> lifecycle_coordinator" where
  "fail_stage oid sid detail = mutate oid (\<lambda>op.
     if \<not> can_fail sid (op_stages op) then op
     else op\<lparr>op_error := detail, op_stages := skip_pending
            (update_stage sid (\<lambda>s. s\<lparr>stg_status := Failed, stg_detail := detail\<rparr>) (op_stages op))\<rparr>)"

definition skip_stage :: "string \<Rightarrow> string \<Rightarrow> string \<Rightarrow> lifecycle_coordinator \<Rightarrow> lifecycle_coordinator" where
  "skip_stage oid sid detail = mutate oid (\<lambda>op. op\<lparr>op_stages :=
     update_stage sid (\<lambda>s. if stg_status s \<noteq> Pending then s else s\<lparr>stg_status := Skipped, stg_detail := detail\<rparr>)
       (op_stages op)\<rparr>)"

text \<open>The two critical sections of \<^verbatim>\<open>finish\<close>.\<close>

definition finish_publish :: "int \<Rightarrow> string \<Rightarrow> string \<Rightarrow> lifecycle_coordinator \<Rightarrow> lifecycle_coordinator" where
  "finish_publish now oid error = mutate oid (\<lambda>op.
     let err = (if error \<noteq> [] then error else op_error op)
     in op\<lparr>op_error := err, op_stages := (if err \<noteq> [] then skip_pending (op_stages op) else op_stages op),
           op_result := (if err = [] then OpSucceeded else OpFailed), op_finished_at := Some now\<rparr>)"

definition finish_reset :: "string \<Rightarrow> lifecycle_coordinator \<Rightarrow> lifecycle_coordinator" where
  "finish_reset oid lc =
     (case lc_active lc of None \<Rightarrow> lc | Some op \<Rightarrow> if op_id op = oid then lc\<lparr>lc_active := None\<rparr> else lc)"

definition finish :: "int \<Rightarrow> string \<Rightarrow> string \<Rightarrow> lifecycle_coordinator \<Rightarrow> lifecycle_coordinator" where
  "finish now oid error lc = finish_reset oid (finish_publish now oid error lc)"

section \<open>The order of a configuration transaction\<close>

datatype transaction_state = Prepared | CandidateApplied | ResolverConfirmed | Committed

definition require_state :: "transaction_state \<Rightarrow> transaction_state \<Rightarrow> string \<Rightarrow> unit result" where
  "require_state actual expected operation =
     (if actual \<noteq> expected then Inl (LogicError (''invalid config apply transaction operation: '' @ operation)) else Inr ())"

definition candidate_applied :: "transaction_state \<Rightarrow> transaction_state result" where
  "candidate_applied t = bind_result (require_state t Prepared ''candidate_applied'') (\<lambda>_. Inr CandidateApplied)"

definition resolver_confirmed :: "transaction_state \<Rightarrow> transaction_state result" where
  "resolver_confirmed t = bind_result (require_state t CandidateApplied ''resolver_confirmed'') (\<lambda>_. Inr ResolverConfirmed)"

definition committed :: "transaction_state \<Rightarrow> transaction_state result" where
  "committed t = bind_result (require_state t ResolverConfirmed ''committed'') (\<lambda>_. Inr Committed)"

definition may_commit :: "transaction_state \<Rightarrow> bool" where
  "may_commit t \<longleftrightarrow> t = ResolverConfirmed"

section \<open>The configuration store\<close>

record config_store =
  cs_active_config :: config
  cs_active_marks :: "(string, u32) smap"
  cs_staged_config :: "config option"
  cs_staged_json :: "string option"

definition config_store_new :: "config \<Rightarrow> config_store result" where
  "config_store_new active_config =
     map_sum id (\<lambda>marks. \<lparr>cs_active_config = active_config, cs_active_marks = marks, cs_staged_config = None,
        cs_staged_json = None\<rparr>)
       (allocate_outbound_marks (value_or (cfg_fwmark active_config) default_fwmark_config)
          (value_or (cfg_outbounds active_config) []))"

definition visible_config :: "config_store \<Rightarrow> config" where
  "visible_config cs = (case cs_staged_config cs of Some c \<Rightarrow> c | None \<Rightarrow> cs_active_config cs)"

definition config_is_draft :: "config_store \<Rightarrow> bool" where
  "config_is_draft cs \<longleftrightarrow> cs_staged_config cs \<noteq> None"

definition replace_active :: "config \<Rightarrow> (string, u32) smap \<Rightarrow> config_store \<Rightarrow> config_store" where
  "replace_active c marks cs = cs\<lparr>cs_active_config := c, cs_active_marks := marks\<rparr>"

definition stage_config :: "config \<Rightarrow> string \<Rightarrow> config_store \<Rightarrow> config_store" where
  "stage_config c json cs = cs\<lparr>cs_staged_config := Some c, cs_staged_json := Some json\<rparr>"

definition staged_snapshot :: "config_store \<Rightarrow> (config \<times> string) option" where
  "staged_snapshot cs =
     (case (cs_staged_config cs, cs_staged_json cs) of (Some c, Some json) \<Rightarrow> Some (c, json) | _ \<Rightarrow> None)"

definition clear_staged :: "config_store \<Rightarrow> config_store" where
  "clear_staged cs = cs\<lparr>cs_staged_config := None, cs_staged_json := None\<rparr>"

definition clear_staged_if_matches :: "string \<Rightarrow> config_store \<Rightarrow> config_store" where
  "clear_staged_if_matches json cs = (if cs_staged_json cs = Some json then clear_staged cs else cs)"

section \<open>Inspect, plan, apply, verify, commit\<close>

record routing_desired =
  rod_rules :: "string list"
  rod_routes :: "string list"

record firewall_desired =
  fwd_chains :: "string list"
  fwd_rules :: "string list"
  fwd_sets :: "string list"

record runtime_desired =
  rds_routing :: routing_desired
  rds_firewall :: firewall_desired
  rds_configuration_id :: string
  rds_policy_id :: string

text \<open>The actual state has the shape of the desired one.\<close>

type_synonym runtime_actual = runtime_desired

datatype runtime_component = RoutingComponent | FirewallComponent | ResolverComponent | ConntrackComponent

text \<open>The virtual functions of a subsystem; inspecting is read-only, an operation acts on the state of the world.\<close>

record 'w runtime_subsystem =
  sub_component :: runtime_component
  sub_inspect :: "'w \<Rightarrow> runtime_actual result"
  sub_plan :: "runtime_desired \<Rightarrow> runtime_actual \<Rightarrow> ('w, unit) eff list result"
  sub_verify :: "runtime_desired \<Rightarrow> runtime_actual \<Rightarrow> (bool \<times> string) result"

record reconcile_outcome =
  ro_committed :: bool
  ro_drift_detected :: bool
  ro_error :: string
  ro_operation_count :: nat

definition merge_component :: "runtime_actual \<Rightarrow> runtime_actual \<Rightarrow> runtime_component \<Rightarrow> runtime_actual" where
  "merge_component destination source component =
     (case component of
        RoutingComponent \<Rightarrow> destination\<lparr>rds_routing := rds_routing source\<rparr>
      | FirewallComponent \<Rightarrow> destination\<lparr>rds_firewall := rds_firewall source\<rparr>
      | ResolverComponent \<Rightarrow> destination\<lparr>rds_configuration_id := rds_configuration_id source\<rparr>
      | ConntrackComponent \<Rightarrow> destination\<lparr>rds_policy_id := rds_policy_id source\<rparr>)"

definition empty_actual :: runtime_actual where
  "empty_actual = \<lparr>rds_routing = \<lparr>rod_rules = [], rod_routes = []\<rparr>,
     rds_firewall = \<lparr>fwd_chains = [], fwd_rules = [], fwd_sets = []\<rparr>, rds_configuration_id = [], rds_policy_id = []\<rparr>"

definition inspect_all :: "'w runtime_subsystem list \<Rightarrow> 'w \<Rightarrow> runtime_actual result" where
  "inspect_all subsystems w =
     fold_result (\<lambda>acc s. bind_result (sub_inspect s w) (\<lambda>a. Inr (merge_component acc a (sub_component s)))) empty_actual subsystems"

text \<open>The plan collected so far, and the exception that stopped the collection.\<close>

fun collect_plan ::
    "runtime_desired \<Rightarrow> 'w runtime_subsystem list \<Rightarrow> 'w \<Rightarrow> ('w, unit) eff list
      \<Rightarrow> cpp_error option \<times> ('w, unit) eff list" where
  "collect_plan desired [] w plan = (None, plan)"
| "collect_plan desired (s # ss) w plan =
     (case bind_result (sub_inspect s w) (sub_plan s desired) of
        Inl e \<Rightarrow> (Some e, plan)
      | Inr ops \<Rightarrow> collect_plan desired ss w (plan @ ops))"

text \<open>The message of the first subsystem that does not verify.\<close>

fun verify_all :: "runtime_desired \<Rightarrow> 'w runtime_subsystem list \<Rightarrow> 'w \<Rightarrow> string option result" where
  "verify_all desired [] w = Inr None"
| "verify_all desired (s # ss) w =
     bind_result (bind_result (sub_inspect s w) (sub_verify s desired)) (\<lambda>(ok, err).
       if \<not> ok then Inr (Some (if err = [] then ''runtime state drift detected'' else err)) else verify_all desired ss w)"

definition reconcile_failure :: "string \<Rightarrow> nat \<Rightarrow> reconcile_outcome" where
  "reconcile_failure err n = \<lparr>ro_committed = False, ro_drift_detected = False, ro_error = err, ro_operation_count = n\<rparr>"

definition runtime_reconcile ::
    "'w runtime_subsystem list \<Rightarrow> runtime_desired \<Rightarrow> ('w, unit) eff option \<Rightarrow> 'w \<Rightarrow> reconcile_outcome \<times> 'w" where
  "runtime_reconcile subsystems desired commit w =
     (case collect_plan desired subsystems w [] of
        (Some e, plan) \<Rightarrow> (reconcile_failure (what e) (length plan), w)
      | (None, plan) \<Rightarrow>
          (case for_each (\<lambda>operation. operation) plan w of
             (Inl e, w1) \<Rightarrow> (reconcile_failure (what e) (length plan), w1)
           | (Inr _, w1) \<Rightarrow>
               (case verify_all desired subsystems w1 of
                  Inl e \<Rightarrow> (reconcile_failure (what e) (length plan), w1)
                | Inr (Some err) \<Rightarrow> ((reconcile_failure err (length plan))\<lparr>ro_drift_detected := True\<rparr>, w1)
                | Inr None \<Rightarrow>
                    (case (case commit of None \<Rightarrow> (Inr (), w1) | Some c \<Rightarrow> c w1) of
                       (Inl e, w2) \<Rightarrow> (reconcile_failure (what e) (length plan), w2)
                     | (Inr _, w2) \<Rightarrow>
                         (\<lparr>ro_committed = True, ro_drift_detected = False, ro_error = [], ro_operation_count = length plan\<rparr>, w2)))))"

section \<open>Stages settle once\<close>

definition settled :: "lifecycle_stage \<Rightarrow> bool" where
  "settled s \<longleftrightarrow> stg_status s \<in> {Succeeded, Failed, Skipped}"

definition stage_kept :: "lifecycle_stage \<Rightarrow> lifecycle_stage \<Rightarrow> bool" where
  "stage_kept s s' \<longleftrightarrow> stg_id s' = stg_id s \<and> (settled s \<longrightarrow> s' = s)"

lemma stages_kept_refl: "list_all2 stage_kept ss ss"
  by (simp add: list.rel_refl stage_kept_def)

text \<open>What the changes of a stage have in common: the identifier stays, a settled stage is not touched, and no stage fails
  or becomes pending.\<close>

locale stage_change =
  fixes change :: "lifecycle_stage \<Rightarrow> lifecycle_stage"
  assumes kept: "stage_kept s (change s)"
    and no_failed: "stg_status (change s) = Failed \<Longrightarrow> stg_status s = Failed"
    and no_pending: "stg_status (change s) = Pending \<Longrightarrow> stg_status s = Pending"
begin

lemma update_kept: "list_all2 stage_kept ss (update_stage sid change ss)"
  by (induction ss) (auto simp: kept stages_kept_refl stage_kept_def [of s s for s])

lemma update_statuses:
  "Failed \<in> stg_status ` set (update_stage sid change ss) \<Longrightarrow> Failed \<in> stg_status ` set ss"
  "Pending \<in> stg_status ` set (update_stage sid change ss) \<Longrightarrow> Pending \<in> stg_status ` set ss"
proof (induction ss)
  case (Cons s ss)
  { case 1 then show ?case using Cons(1) no_failed [of s] by (cases "stg_id s = sid") auto }
  { case 2 then show ?case using Cons(2) no_pending [of s] by (cases "stg_id s = sid") auto }
qed simp_all

end

interpretation starts: stage_change "\<lambda>s. if stg_status s = Pending then s\<lparr>stg_status := Running\<rparr> else s"
  by unfold_locales (auto simp: stage_kept_def settled_def split: if_splits)

interpretation succeeds: stage_change
    "\<lambda>s. if stg_status s \<noteq> Running then s else s\<lparr>stg_status := Succeeded, stg_detail := detail\<rparr>"
  by unfold_locales (auto simp: stage_kept_def settled_def split: if_splits)

interpretation skips: stage_change
    "\<lambda>s. if stg_status s \<noteq> Pending then s else s\<lparr>stg_status := Skipped, stg_detail := detail\<rparr>"
  by unfold_locales (auto simp: stage_kept_def settled_def split: if_splits)

lemma skip_pending_kept: "list_all2 stage_kept ss (skip_pending ss)"
  by (induction ss) (auto simp: skip_pending_def stage_kept_def settled_def)

lemma skip_pending_statuses:
  "Pending \<notin> stg_status ` set (skip_pending ss)"
  "Failed \<in> stg_status ` set (skip_pending ss) \<longleftrightarrow> Failed \<in> stg_status ` set ss"
  by (auto simp: skip_pending_def image_iff split: if_splits)

lemma fail_update_kept:
  "can_fail sid ss \<Longrightarrow> list_all2 stage_kept ss (update_stage sid (\<lambda>s. s\<lparr>stg_status := Failed, stg_detail := detail\<rparr>) ss)"
  by (induction ss) (auto simp: can_fail_def stage_kept_def settled_def list.rel_refl split: if_splits option.splits)

lemma stage_kept_trans: "stage_kept a b \<Longrightarrow> stage_kept b c \<Longrightarrow> stage_kept a c"
  by (auto simp: stage_kept_def)

text \<open>The operations, in any order and from any thread; a thread resets the coordinator only after its own
  publication of the end, and reports a failure with a message.\<close>

inductive lifecycle_step :: "lifecycle_coordinator \<Rightarrow> lifecycle_coordinator \<Rightarrow> bool" where
  BeginStep: "list_all (\<lambda>s. stg_status s = Pending) stages \<Longrightarrow> lifecycle_step lc (snd (begin_operation now ty stages lc))"
| StartStep: "lifecycle_step lc (start_stage oid sid lc)"
| SucceedStep: "lifecycle_step lc (succeed_stage oid sid detail lc)"
| FailStep: "detail \<noteq> [] \<Longrightarrow> lifecycle_step lc (fail_stage oid sid detail lc)"
| SkipStep: "lifecycle_step lc (skip_stage oid sid detail lc)"
| FinishStep: "lifecycle_step lc (finish_publish now oid error lc)"
| ResetStep: "(\<And>op. lc_active lc = Some op \<Longrightarrow> op_finished_at op \<noteq> None) \<Longrightarrow> lifecycle_step lc (finish_reset oid lc)"

definition snapshot_ok :: "lifecycle_snapshot \<Rightarrow> bool" where
  "snapshot_ok op \<longleftrightarrow>
     (Failed \<in> stg_status ` set (op_stages op) \<longrightarrow> Pending \<notin> stg_status ` set (op_stages op) \<and> op_error op \<noteq> []) \<and>
     (op_finished_at op = None \<longleftrightarrow> op_result op = OpRunning) \<and>
     (op_result op = OpFailed \<longrightarrow> Pending \<notin> stg_status ` set (op_stages op) \<and> op_error op \<noteq> [])"

definition coordinator_ok :: "lifecycle_coordinator \<Rightarrow> bool" where
  "coordinator_ok lc \<longleftrightarrow>
     (\<forall>op. lc_active lc = Some op \<longrightarrow> lc_published lc = Some op) \<and>
     (\<forall>op. lc_published lc = Some op \<longrightarrow> snapshot_ok op \<and> (lc_active lc = None \<longrightarrow> op_result op \<noteq> OpRunning))"

lemma mutate_ok:
  assumes "coordinator_ok lc" "\<And>op. snapshot_ok op \<Longrightarrow> snapshot_ok (f op)"
  shows "coordinator_ok (mutate oid f lc)"
  using assms by (auto simp: coordinator_ok_def mutate_def publish_def split: option.splits)

context stage_change
begin

lemma update_snapshot_ok: "snapshot_ok op \<Longrightarrow> snapshot_ok (op\<lparr>op_stages := update_stage sid change (op_stages op)\<rparr>)"
  using update_statuses [of sid "op_stages op"] by (auto simp: snapshot_ok_def)

end

lemmas update_snapshots_ok = starts.update_snapshot_ok succeeds.update_snapshot_ok skips.update_snapshot_ok

lemma lifecycle_step_ok: "lifecycle_step lc lc' \<Longrightarrow> coordinator_ok lc \<Longrightarrow> coordinator_ok lc'"
proof (induction rule: lifecycle_step.induct)
  case (BeginStep stages lc now ty)
  then show ?case
    by (auto simp: begin_operation_def Let_def publish_def coordinator_ok_def snapshot_ok_def list_all_iff split: option.splits)
next
  case (FailStep detail lc oid sid)
  then show ?case unfolding fail_stage_def
    by (intro mutate_ok) (auto simp: snapshot_ok_def skip_pending_statuses)
next
  case (FinishStep lc now oid error)
  then show ?case unfolding finish_publish_def
    by (intro mutate_ok) (auto simp: snapshot_ok_def Let_def skip_pending_statuses)
next
  case (ResetStep lc oid)
  then show ?case by (auto simp: finish_reset_def coordinator_ok_def snapshot_ok_def split: option.splits)
qed (auto simp: start_stage_def succeed_stage_def skip_stage_def intro!: mutate_ok update_snapshots_ok)

text \<open>C11. Whatever the threads do, the published snapshot is the active operation while there is one, and otherwise an operation
  that has ended; and once a stage or the operation has failed, no stage is pending and the error of the operation is set.\<close>

theorem lifecycle_snapshot_consistent:
  assumes "lifecycle_step\<^sup>*\<^sup>* initial_coordinator lc"
  shows "coordinator_ok lc"
  using assms
proof (induction rule: rtranclp_induct)
  case base
  then show ?case by (simp add: coordinator_ok_def initial_coordinator_def)
qed (rule lifecycle_step_ok)

theorem lifecycle_snapshot_consistent_witness:
  "coordinator_ok (fail_stage ''lifecycle-1'' ''b'' ''no executor''
     (start_stage ''lifecycle-1'' ''a''
       (snd (begin_operation 5 Restart
          [\<lparr>stg_id = ''a'', stg_title = [], stg_status = Pending, stg_detail = []\<rparr>,
           \<lparr>stg_id = ''b'', stg_title = [], stg_status = Pending, stg_detail = []\<rparr>] initial_coordinator))))"
proof -
  let ?stages = "[\<lparr>stg_id = ''a'', stg_title = [], stg_status = Pending, stg_detail = []\<rparr>,
    \<lparr>stg_id = ''b'', stg_title = [], stg_status = Pending, stg_detail = []\<rparr>]"
  have "lifecycle_step initial_coordinator (snd (begin_operation 5 Restart ?stages initial_coordinator))"
    by (rule BeginStep) simp
  moreover have "lifecycle_step lc (start_stage ''lifecycle-1'' ''a'' lc)" for lc by (rule StartStep)
  moreover have "lifecycle_step lc (fail_stage ''lifecycle-1'' ''b'' ''no executor'' lc)" for lc by (rule FailStep) simp
  ultimately have "lifecycle_step\<^sup>*\<^sup>* initial_coordinator (fail_stage ''lifecycle-1'' ''b'' ''no executor''
     (start_stage ''lifecycle-1'' ''a'' (snd (begin_operation 5 Restart ?stages initial_coordinator))))"
    by (meson converse_rtranclp_into_rtranclp rtranclp.rtrancl_refl)
  then show ?thesis by (rule lifecycle_snapshot_consistent)
qed

lemma mutate_stages_kept:
  assumes "\<And>op. op_id (f op) = op_id op \<and> list_all2 stage_kept (op_stages op) (op_stages (f op))"
    and "lc_active lc = Some op" "lc_active (mutate oid f lc) = Some op'"
  shows "op_id op' = op_id op \<and> list_all2 stage_kept (op_stages op) (op_stages op')"
  using assms by (auto simp: mutate_def publish_def stages_kept_refl split: if_splits)

text \<open>A settled stage of the active operation keeps its status and its detail.\<close>

lemma lifecycle_step_kept:
  assumes "lifecycle_step lc lc'" "lc_active lc = Some op" "lc_active lc' = Some op'"
  shows "op_id op' = op_id op \<and> list_all2 stage_kept (op_stages op) (op_stages op')"
  using assms
proof (induction rule: lifecycle_step.induct)
  case (FailStep detail lc oid sid)
  have "list_all2 stage_kept (op_stages op) (skip_pending
      (update_stage sid (\<lambda>s. s\<lparr>stg_status := Failed, stg_detail := detail\<rparr>) (op_stages op)))"
    if "can_fail sid (op_stages op)" for op
    using list_all2_trans [OF stage_kept_trans fail_update_kept [OF that] skip_pending_kept] .
  then show ?case using FailStep unfolding fail_stage_def
    by (elim mutate_stages_kept [rotated]) (auto simp: stages_kept_refl)
next
  case (FinishStep lc now oid error)
  then show ?case unfolding finish_publish_def
    by (elim mutate_stages_kept [rotated]) (auto simp: Let_def stages_kept_refl skip_pending_kept)
next
  case (ResetStep lc oid)
  then show ?case by (auto simp: finish_reset_def stages_kept_refl split: if_splits)
qed (auto simp: begin_operation_def stages_kept_refl start_stage_def succeed_stage_def skip_stage_def
      starts.update_kept succeeds.update_kept skips.update_kept elim!: mutate_stages_kept [rotated])

section \<open>Only verified states are committed\<close>

lemma verify_all_None:
  "verify_all desired subsystems w = Inr None \<Longrightarrow>
     list_all (\<lambda>s. \<exists>a err. sub_inspect s w = Inr a \<and> sub_verify s desired a = Inr (True, err)) subsystems"
  by (induction subsystems) (auto simp: result_simps split: if_splits)

text \<open>A reconciliation that reports success applied its whole plan, and every subsystem verified on the state inspected
  after that, on which the commit ran; in every other case the commit did not run, unless it failed itself.\<close>

lemma runtime_reconcile_committed:
  assumes "runtime_reconcile subsystems desired commit w = (result, w2)" "ro_committed result"
  shows "\<exists>plan w1. collect_plan desired subsystems w [] = (None, plan) \<and> for_each (\<lambda>operation. operation) plan w = (Inr (), w1)
    \<and> list_all (\<lambda>s. \<exists>a err. sub_inspect s w1 = Inr a \<and> sub_verify s desired a = Inr (True, err)) subsystems
    \<and> (case commit of None \<Rightarrow> w2 = w1 | Some c \<Rightarrow> c w1 = (Inr (), w2))"
proof -
  let ?run = "for_each (\<lambda>operation. operation)"
  obtain e plan where c: "collect_plan desired subsystems w [] = (e, plan)" by fastforce
  obtain r w1 where a: "?run plan w = (r, w1)" by fastforce
  have e: "e = None" using assms c by (cases e) (auto simp: runtime_reconcile_def reconcile_failure_def)
  have r: "r = Inr ()" using assms c e a by (cases r) (auto simp: runtime_reconcile_def reconcile_failure_def)
  have v: "verify_all desired subsystems w1 = Inr None"
    using assms c e a r by (auto simp: runtime_reconcile_def reconcile_failure_def split: sum.splits option.splits)
  have "case commit of None \<Rightarrow> w2 = w1 | Some c \<Rightarrow> c w1 = (Inr (), w2)"
    using assms c e a r v by (auto simp: runtime_reconcile_def reconcile_failure_def split: sum.splits option.splits prod.splits)
  with c e a r verify_all_None [OF v] show ?thesis by blast
qed

end
