(* ===== verification/Dns_Txt.thy ===== *)
theory Dns_Txt
  imports Dns_Server
begin

text \<open>
  The DNS TXT client (\<^verbatim>\<open>src/dns/dns_txt_client.cpp\<close>): the query for the record in which the running resolver publishes the
  hash of its configuration, the checks on the response, the choice among several answers and the reading of the text
  \<^verbatim>\<open><timestamp>|<md5>\<close>. The parsers of \<^verbatim>\<open>libresolv\<close>, the sockets and \<^verbatim>\<open>inet_pton\<close> are parameters.
\<close>

section \<open>Data\<close>

datatype hash_probe_status = HpSuccess | HpNoUsableTxt | HpInvalidTxt | HpQueryFailed

record txt_value =
  txv_ts :: "int option"
  txv_hash :: string

record hash_probe_result =
  hpr_status :: hash_probe_status
  hpr_raw_txt :: "string option"
  hpr_parsed_value :: txt_value
  hpr_error :: string

definition default_hash_probe_result :: hash_probe_result where
  "default_hash_probe_result = \<lparr>hpr_status = HpQueryFailed, hpr_raw_txt = None,
     hpr_parsed_value = \<lparr>txv_ts = None, txv_hash = []\<rparr>, hpr_error = []\<rparr>"

text \<open>What \<^verbatim>\<open>ns_initparse\<close> and \<^verbatim>\<open>ns_parserr\<close> give for a packet: the question and the answers, each of which may fail to
  parse.\<close>

record ns_rr =
  rr_name :: string
  rr_type :: nat
  rr_class :: nat
  rr_rdata :: "u8 list"

record ns_msg =
  nsm_qdcount :: nat
  nsm_question :: "ns_rr option"
  nsm_answers :: "ns_rr option list"

definition ns_t_txt :: nat where "ns_t_txt = 16"
definition ns_c_in :: nat where "ns_c_in = 1"

text \<open>The calls to the system, each with its outcome: the query built for a domain, whether the socket could be created,
  connected and given its timeouts, whether the query was sent whole, and the bytes received.\<close>

record dns_io =
  io_pton4 :: "string \<Rightarrow> bool"
  io_pton6 :: "string \<Rightarrow> bool"
  io_mkquery :: "string \<Rightarrow> u8 list option"
  io_socket :: bool
  io_connect :: "string \<Rightarrow> u16 \<Rightarrow> bool"
  io_timeouts :: "int \<Rightarrow> int \<Rightarrow> bool"
  io_send :: "u8 list \<Rightarrow> bool"
  io_recv :: "u8 list \<Rightarrow> u8 list"
  io_parse :: "u8 list \<Rightarrow> ns_msg option"

section \<open>Checks on a response\<close>

definition dns_response_is_truncated :: "u8 list \<Rightarrow> bool" where
  "dns_response_is_truncated packet \<longleftrightarrow> 12 \<le> length packet \<and> and (packet ! 2) 2 \<noteq> 0"

definition packet_id :: "u8 list \<Rightarrow> u16" where
  "packet_id packet = or (push_bit 8 (ucast (packet ! 0))) (ucast (packet ! 1))"

definition drop_final_dot :: "string \<Rightarrow> string" where
  "drop_final_dot s = (if s \<noteq> [] \<and> last s = CHR ''.'' then butlast s else s)"

text \<open>\<^verbatim>\<open>strcasecmp\<close> compares up to the first NUL.\<close>

definition strcasecmp_equal :: "string \<Rightarrow> string \<Rightarrow> bool" where
  "strcasecmp_equal a b \<longleftrightarrow>
     map to_lower (takeWhile (\<lambda>c. c \<noteq> CHR 0x00) a) = map to_lower (takeWhile (\<lambda>c. c \<noteq> CHR 0x00) b)"

definition dns_response_matches_query ::
    "(u8 list \<Rightarrow> ns_msg option) \<Rightarrow> u8 list \<Rightarrow> u16 \<Rightarrow> string \<Rightarrow> bool" where
  "dns_response_matches_query ns_parse packet transaction_id domain =
     (if length packet < 12 \<or> 2147483647 < length packet then False
      else if packet_id packet \<noteq> transaction_id \<or> and (packet ! 2) 0x80 = 0 \<or>
         and (packet ! 2) 0x78 \<noteq> 0 \<or> and (packet ! 3) 0x0f \<noteq> 0 then False
      else (case ns_parse packet of
              None \<Rightarrow> False
            | Some handle \<Rightarrow>
                (if nsm_qdcount handle \<noteq> 1 then False
                 else (case nsm_question handle of
                         None \<Rightarrow> False
                       | Some question \<Rightarrow>
                           (if rr_type question \<noteq> ns_t_txt \<or> rr_class question \<noteq> ns_c_in then False
                            else strcasecmp_equal (drop_final_dot (rr_name question)) (drop_final_dot domain))))))"

section \<open>The text of the record\<close>

definition trim_txt :: "string \<Rightarrow> string" where
  "trim_txt = trim_by is_space"

definition quote_wrapped :: "string \<Rightarrow> bool" where
  "quote_wrapped value \<longleftrightarrow> 2 \<le> length value \<and>
     (hd value = CHR 0x22 \<and> last value = CHR 0x22 \<or> hd value = CHR 0x27 \<and> last value = CHR 0x27)"

lemma length_trim_by: "length (trim_by p s) \<le> length s"
  unfolding trim_by_def by (metis length_dropWhile_le length_rev order_trans)

function unwrap_quotes :: "string \<Rightarrow> string" where
  "unwrap_quotes value = (if quote_wrapped value then unwrap_quotes (trim_txt (butlast (tl value))) else value)"
  by pat_completeness auto
termination
proof (relation "measure length")
  fix s assume "quote_wrapped s"
  then have "length (butlast (tl s)) < length s" by (cases s) (auto simp: quote_wrapped_def)
  then show "(trim_txt (butlast (tl s)), s) \<in> measure length"
    using length_trim_by [of is_space "butlast (tl s)"] by (simp add: trim_txt_def)
qed simp

declare unwrap_quotes.simps [simp del]

definition strip_balanced_quotes :: "string \<Rightarrow> string" where
  "strip_balanced_quotes value = unwrap_quotes (trim_txt value)"

definition drop_md5_prefix :: "string \<Rightarrow> string" where
  "drop_md5_prefix compact =
     (if 4 < length compact \<and> map to_lower (take 4 compact) = ''md5='' then drop 4 compact else compact)"

definition normalize_dns_txt_md5 :: "string \<Rightarrow> string" where
  "normalize_dns_txt_md5 txt_payload =
     (let normalized = unwrap_quotes (trim_txt txt_payload);
          compact = drop_md5_prefix (filter (\<lambda>c. \<not> (c = CHR 0x22 \<or> c = CHR 0x27 \<or> is_space c)) normalized);
          hex_only = map to_lower (filter is_xdigit compact)
      in if length hex_only = 32 then hex_only else compact)"

text \<open>\<^verbatim>\<open>std::stoll\<close> on a text of digits fails only when the value does not fit in 64 bits.\<close>

definition stoll_digits :: "string \<Rightarrow> int option" where
  "stoll_digits s = (if dec_value s \<le> 9223372036854775807 then Some (int (dec_value s)) else None)"

definition parse_resolver_config_hash_txt :: "string \<Rightarrow> txt_value" where
  "parse_resolver_config_hash_txt txt_payload =
     (let normalized = strip_balanced_quotes txt_payload in
      case split_first CHR ''|'' normalized of
        None \<Rightarrow> \<lparr>txv_ts = None, txv_hash = normalize_dns_txt_md5 normalized\<rparr>
      | Some (before, after) \<Rightarrow>
          (let ts_part = trim_txt before; hash_part = trim_txt after
           in \<lparr>txv_ts = (if ts_part \<noteq> [] \<and> list_all is_digit ts_part then stoll_digits ts_part else None),
               txv_hash = normalize_dns_txt_md5 hash_part\<rparr>))"

definition is_valid_resolver_config_hash_txt_value :: "txt_value \<Rightarrow> bool" where
  "is_valid_resolver_config_hash_txt_value value \<longleftrightarrow> length (txv_hash value) = 32 \<and> list_all is_xdigit (txv_hash value)"

section \<open>The choice among the answers\<close>

text \<open>The character strings of the record data, or nothing when a length reaches past the end.\<close>

function txt_chunks :: "u8 list \<Rightarrow> string option" where
  "txt_chunks [] = Some []"
| "txt_chunks (chunk_len # data) =
     (if length data < unat chunk_len then None
      else map_option (\<lambda>rest. map (\<lambda>b. char_of (unat b)) (take (unat chunk_len) data) @ rest)
             (txt_chunks (drop (unat chunk_len) data)))"
  by pat_completeness auto
termination by (relation "measure length") auto

record txt_choice =
  tch_first :: "string option"
  tch_latest :: "(int \<times> string) option"

definition consider_txt :: "txt_choice \<Rightarrow> string \<Rightarrow> txt_choice" where
  "consider_txt ch txt =
     (let ch1 = (if tch_first ch = None then ch\<lparr>tch_first := Some txt\<rparr> else ch) in
      case txv_ts (parse_resolver_config_hash_txt txt) of
        None \<Rightarrow> ch1
      | Some ts \<Rightarrow>
          (if (case tch_latest ch1 of None \<Rightarrow> True | Some (latest, _) \<Rightarrow> latest < ts)
           then ch1\<lparr>tch_latest := Some (ts, txt)\<rparr> else ch1))"

fun scan_answers :: "ns_rr option list \<Rightarrow> txt_choice \<Rightarrow> string + txt_choice" where
  "scan_answers [] ch = Inr ch"
| "scan_answers (None # rrs) ch = scan_answers rrs ch"
| "scan_answers (Some rr # rrs) ch =
     (if rr_type rr \<noteq> ns_t_txt \<or> rr_class rr \<noteq> ns_c_in then scan_answers rrs ch
      else if rr_rdata rr = [] then scan_answers rrs ch
      else (case txt_chunks (rr_rdata rr) of
              None \<Rightarrow> Inl ''DNS TXT chunk truncated''
            | Some txt \<Rightarrow> scan_answers rrs (consider_txt ch txt)))"

definition dns_txt_answer_not_found :: string where
  "dns_txt_answer_not_found = ''DNS TXT answer not found''"

definition parse_first_txt_answer :: "(u8 list \<Rightarrow> ns_msg option) \<Rightarrow> u8 list \<Rightarrow> string + string" where
  "parse_first_txt_answer ns_parse response =
     (case ns_parse response of
        None \<Rightarrow> Inl ''Failed to parse DNS response''
      | Some handle \<Rightarrow>
          (case scan_answers (nsm_answers handle) \<lparr>tch_first = None, tch_latest = None\<rparr> of
             Inl e \<Rightarrow> Inl e
           | Inr ch \<Rightarrow>
               (case tch_latest ch of
                  Some (_, txt) \<Rightarrow> Inr txt
                | None \<Rightarrow>
                    (case tch_first ch of
                       Some txt \<Rightarrow> Inr txt
                     | None \<Rightarrow> Inl dns_txt_answer_not_found))))"

section \<open>The query\<close>

text \<open>The outer error is an exception, the inner one a missing answer with its message.\<close>

definition query_dns_txt_record :: "dns_io \<Rightarrow> string \<Rightarrow> string \<Rightarrow> int \<Rightarrow> (string + string) result" where
  "query_dns_txt_record io dns_server_address domain timeout =
     (if domain = [] then Inr (Inl ''DNS TXT query domain is empty'')
      else bind_result (parse_dns_address_str (io_pton6 io) dns_server_address) (\<lambda>parsed_server.
        Inr (if CHR '':'' \<in> set (pda_ip parsed_server)
             then Inl ''IPv6 resolver addresses are not supported by this resolver backend''
             else if \<not> io_pton4 io (pda_ip parsed_server) then Inl ''Invalid IPv4 DNS resolver address''
             else (case io_mkquery io domain of
                     None \<Rightarrow> Inl ''Failed to build DNS TXT query''
                   | Some query \<Rightarrow>
                       (let timeout_ms = max 1 timeout in
                        if \<not> io_socket io then Inl ''Failed to create DNS socket''
                        else if \<not> io_connect io (pda_ip parsed_server) (pda_port parsed_server)
                        then Inl ''Failed to connect DNS socket''
                        else if \<not> io_timeouts io (timeout_ms div 1000) (timeout_ms mod 1000 * 1000)
                        then Inl ''Failed to configure DNS socket timeout''
                        else if \<not> io_send io query then Inl ''Failed to send DNS TXT query''
                        else (let response = take 4096 (io_recv io query) in
                              if response = [] then Inl ''DNS TXT query failed''
                              else if dns_response_is_truncated response
                              then Inl ''DNS TXT response truncated; TCP fallback is not implemented''
                              else if \<not> dns_response_matches_query (io_parse io) response (packet_id query) domain
                              then Inl ''DNS TXT response did not match query''
                              else parse_first_txt_answer (io_parse io) response))))))"

definition query_resolver_config_hash_txt :: "dns_io \<Rightarrow> string \<Rightarrow> string \<Rightarrow> int \<Rightarrow> hash_probe_result" where
  "query_resolver_config_hash_txt io dns_server_address domain timeout =
     (case query_dns_txt_record io dns_server_address domain timeout of
        Inl e \<Rightarrow> default_hash_probe_result\<lparr>hpr_status := HpQueryFailed, hpr_error := what e\<rparr>
      | Inr (Inl error) \<Rightarrow>
          default_hash_probe_result
            \<lparr>hpr_status := (if error = dns_txt_answer_not_found then HpNoUsableTxt else HpQueryFailed), hpr_error := error\<rparr>
      | Inr (Inr txt) \<Rightarrow>
          (let value = parse_resolver_config_hash_txt txt in
           if is_valid_resolver_config_hash_txt_value value
           then default_hash_probe_result\<lparr>hpr_status := HpSuccess, hpr_raw_txt := Some txt, hpr_parsed_value := value\<rparr>
           else default_hash_probe_result\<lparr>hpr_status := HpInvalidTxt, hpr_raw_txt := Some txt, hpr_parsed_value := value,
                  hpr_error := ''Resolver TXT payload is missing a valid md5 hash''\<rparr>))"

section \<open>What the text denotes\<close>

lemma trim_by_id: "s = [] \<or> \<not> p (hd s) \<and> \<not> p (last s) \<Longrightarrow> trim_by p s = s"
proof -
  assume "s = [] \<or> \<not> p (hd s) \<and> \<not> p (last s)"
  then have "dropWhile p s = s" "dropWhile p (rev s) = rev s" by (auto simp: dropWhile_eq_self_iff hd_rev)
  then show ?thesis by (simp add: trim_by_def)
qed

lemma to_lower_idem [simp]: "to_lower (to_lower c) = to_lower c"
proof (cases "is_upper c")
  case True
  then have "(of_char (to_lower c) :: nat) = of_char c + 32" by (auto simp: to_lower_def is_upper_def)
  with True have "\<not> is_upper (to_lower c)" by (auto simp: is_upper_def)
  then show ?thesis by (simp add: to_lower_def)
qed (simp add: to_lower_def)

lemma xdigit_not_space: "is_xdigit c \<Longrightarrow> \<not> is_space c \<and> c \<noteq> CHR 0x22 \<and> c \<noteq> CHR 0x27"
  by (auto simp: is_xdigit_def is_digit_def is_space_def)

lemma m_not_xdigit: "\<not> is_xdigit CHR ''m''"
  by (simp add: is_xdigit_def is_digit_def)

lemma list_all_hd_last: "list_all P s \<Longrightarrow> s \<noteq> [] \<Longrightarrow> P (hd s) \<and> P (last s)"
  by (simp add: list_all_iff)

text \<open>The hash that the program compares with: the md5 digest in lower case.\<close>

definition config_hash_text :: "string \<Rightarrow> bool" where
  "config_hash_text h \<longleftrightarrow> length h = 32 \<and> list_all is_xdigit h \<and> map to_lower h = h"

lemma normalize_valid:
  assumes "length (normalize_dns_txt_md5 s) = 32" "list_all is_xdigit (normalize_dns_txt_md5 s)"
  shows "map to_lower (normalize_dns_txt_md5 s) = normalize_dns_txt_md5 s"
proof -
  obtain compact where n: "normalize_dns_txt_md5 s =
      (if length (map to_lower (filter is_xdigit compact)) = 32 then map to_lower (filter is_xdigit compact) else compact)"
    by (simp add: normalize_dns_txt_md5_def Let_def)
  show ?thesis
  proof (cases "length (filter is_xdigit compact) = 32")
    case False
    with n assms have "length compact = 32" "filter is_xdigit compact = compact"
      by (simp_all add: list_all_iff filter_id_conv)
    with False show ?thesis by simp
  qed (simp add: n)
qed

lemma valid_txt_value:
  "is_valid_resolver_config_hash_txt_value (parse_resolver_config_hash_txt txt) \<longleftrightarrow>
     config_hash_text (txv_hash (parse_resolver_config_hash_txt txt))"
proof -
  have "\<exists>s. txv_hash (parse_resolver_config_hash_txt txt) = normalize_dns_txt_md5 s"
    by (cases "split_first CHR ''|'' (strip_balanced_quotes txt)")
      (auto simp: parse_resolver_config_hash_txt_def Let_def simp del: split_first_None)
  then obtain s where "txv_hash (parse_resolver_config_hash_txt txt) = normalize_dns_txt_md5 s" ..
  then show ?thesis
    using normalize_valid [of s] by (auto simp: is_valid_resolver_config_hash_txt_value_def config_hash_text_def)
qed

lemma normalize_hash_text:
  assumes "config_hash_text h"
  shows "normalize_dns_txt_md5 h = h"
proof -
  have h: "list_all is_xdigit h" "length h = 32" "map to_lower h = h" using assms by (auto simp: config_hash_text_def)
  then have "h \<noteq> []" by auto
  with h have ends: "h \<noteq> []" "is_xdigit (hd h)" "is_xdigit (last h)" using list_all_hd_last [of is_xdigit h] by auto
  then have trim: "trim_txt h = h" by (simp add: trim_txt_def trim_by_id xdigit_not_space)
  have "\<not> quote_wrapped h" using ends xdigit_not_space by (auto simp: quote_wrapped_def)
  then have unwrap: "unwrap_quotes h = h" by (simp add: unwrap_quotes.simps)
  have keep: "filter (\<lambda>c. \<not> (c = CHR 0x22 \<or> c = CHR 0x27 \<or> is_space c)) h = h"
    using h(1) xdigit_not_space by (auto simp: list_all_iff filter_id_conv)
  have "hd (map to_lower (take 4 h)) = hd h" using h(3) ends(1) by (metis hd_map hd_take take_map zero_less_numeral)
  then have "map to_lower (take 4 h) \<noteq> ''md5=''" using ends(2) by (metis list.sel(1) m_not_xdigit)
  then have "drop_md5_prefix h = h" by (simp add: drop_md5_prefix_def)
  moreover have "filter is_xdigit h = h" using h(1) by (simp add: list_all_iff filter_id_conv)
  ultimately show ?thesis using trim unwrap keep h by (simp add: normalize_dns_txt_md5_def)
qed

lemma txt_value_roundtrip:
  assumes "config_hash_text h" "ts \<le> 9223372036854775807"
  shows "parse_resolver_config_hash_txt (nat_to_string ts @ CHR ''|'' # h) = \<lparr>txv_ts = Some (int ts), txv_hash = h\<rparr>"
proof -
  let ?n = "nat_to_string ts"
  have n: "list_all is_digit ?n" using nat_to_string_digits by (simp add: list_all_iff)
  then have nends: "is_digit (hd ?n)" "is_digit (last ?n)" using list_all_hd_last [of is_digit ?n] by auto
  have dx: "is_digit c \<Longrightarrow> is_xdigit c" for c by (simp add: is_xdigit_def)
  have h: "list_all is_xdigit h" "h \<noteq> []" using assms(1) by (auto simp: config_hash_text_def)
  then have hends: "is_xdigit (hd h)" "is_xdigit (last h)" using list_all_hd_last [of is_xdigit h] by auto
  have bar: "CHR ''|'' \<notin> set ?n" using n by (auto simp: list_all_iff is_digit_def)
  have trims: "trim_txt (?n @ CHR ''|'' # h) = ?n @ CHR ''|'' # h" "trim_txt ?n = ?n" "trim_txt h = h"
    using nends hends h(2) dx xdigit_not_space by (auto simp: trim_txt_def intro!: trim_by_id)
  have "\<not> quote_wrapped (?n @ CHR ''|'' # h)" using nends(1) dx xdigit_not_space by (auto simp: quote_wrapped_def)
  then have "strip_balanced_quotes (?n @ CHR ''|'' # h) = ?n @ CHR ''|'' # h"
    by (simp add: strip_balanced_quotes_def trims unwrap_quotes.simps)
  then show ?thesis
    using bar n assms trims(2,3) by (simp add: parse_resolver_config_hash_txt_def stoll_digits_def normalize_hash_text)
qed

section \<open>The answer chosen\<close>

definition usable_txt :: "ns_rr \<Rightarrow> bool" where
  "usable_txt rr \<longleftrightarrow> rr_type rr = ns_t_txt \<and> rr_class rr = ns_c_in \<and> rr_rdata rr \<noteq> []"

definition answer_texts :: "ns_rr option list \<Rightarrow> string list" where
  "answer_texts rrs =
     List.map_filter (\<lambda>r. case r of None \<Rightarrow> None | Some rr \<Rightarrow> if usable_txt rr then txt_chunks (rr_rdata rr) else None) rrs"

definition txt_ts :: "string \<Rightarrow> int option" where
  "txt_ts txt = txv_ts (parse_resolver_config_hash_txt txt)"

definition not_newer :: "string \<Rightarrow> string \<Rightarrow> bool" where
  "not_newer t txt \<longleftrightarrow> (case txt_ts t of None \<Rightarrow> True | Some a \<Rightarrow> (\<exists>b. txt_ts txt = Some b \<and> a \<le> b))"

lemma scan_answers_texts: "scan_answers rrs ch = Inr ch' \<Longrightarrow> ch' = foldl consider_txt ch (answer_texts rrs)"
  by (induction rrs ch rule: scan_answers.induct)
    (auto simp: answer_texts_def usable_txt_def map_filter_simps split: if_splits option.splits)

definition choice_ok :: "string list \<Rightarrow> txt_choice \<Rightarrow> bool" where
  "choice_ok txts ch \<longleftrightarrow>
     (tch_first ch = (case txts of [] \<Rightarrow> None | t # _ \<Rightarrow> Some t)) \<and>
     (case tch_latest ch of
        None \<Rightarrow> (\<forall>t \<in> set txts. txt_ts t = None)
      | Some (ts, txt) \<Rightarrow> txt \<in> set txts \<and> txt_ts txt = Some ts \<and> (\<forall>t \<in> set txts. not_newer t txt))"

lemma consider_txt_ok: "choice_ok txts ch \<Longrightarrow> choice_ok (txts @ [t]) (consider_txt ch t)"
proof (cases "txt_ts t")
  case None
  then show "choice_ok txts ch \<Longrightarrow> choice_ok (txts @ [t]) (consider_txt ch t)"
    by (cases txts; cases "tch_latest ch")
      (auto simp: choice_ok_def consider_txt_def Let_def not_newer_def txt_ts_def [symmetric])
next
  case (Some ts)
  show "choice_ok txts ch \<Longrightarrow> choice_ok (txts @ [t]) (consider_txt ch t)"
  proof (cases "tch_latest ch")
    case None
    assume "choice_ok txts ch"
    then show ?thesis using None Some
      by (cases txts) (auto simp: choice_ok_def consider_txt_def Let_def not_newer_def txt_ts_def [symmetric])
  next
    case (Some p)
    assume ok: "choice_ok txts ch"
    then show ?thesis using Some \<open>txt_ts t = Some ts\<close>
      by (cases txts; cases p) (auto simp: choice_ok_def consider_txt_def Let_def not_newer_def txt_ts_def [symmetric]
          intro: order_trans split: option.splits)
  qed
qed

lemma foldl_consider_ok: "choice_ok txts ch \<Longrightarrow> choice_ok (txts @ ts) (foldl consider_txt ch ts)"
proof (induction ts arbitrary: txts ch)
  case (Cons t ts)
  from Cons.IH [OF consider_txt_ok [OF Cons.prems, of t]] show ?case by simp
qed simp

lemma parse_first_txt_answer_choice:
  assumes "parse_first_txt_answer ns_parse response = Inr txt"
  obtains handle where "ns_parse response = Some handle" "txt \<in> set (answer_texts (nsm_answers handle))"
    "\<forall>t \<in> set (answer_texts (nsm_answers handle)). not_newer t txt"
proof -
  from assms obtain handle ch where h: "ns_parse response = Some handle"
    and ch: "scan_answers (nsm_answers handle) \<lparr>tch_first = None, tch_latest = None\<rparr> = Inr ch"
    and chosen: "case tch_latest ch of Some (ts, x) \<Rightarrow> x = txt | None \<Rightarrow> tch_first ch = Some txt"
    by (auto simp: parse_first_txt_answer_def split: option.splits sum.splits)
  have "choice_ok [] \<lparr>tch_first = None, tch_latest = None\<rparr>" by (simp add: choice_ok_def)
  from foldl_consider_ok [OF this, of "answer_texts (nsm_answers handle)"] scan_answers_texts [OF ch]
  have "choice_ok (answer_texts (nsm_answers handle)) ch" by simp
  then have "txt \<in> set (answer_texts (nsm_answers handle)) \<and> (\<forall>t \<in> set (answer_texts (nsm_answers handle)). not_newer t txt)"
    using chosen by (auto simp: choice_ok_def not_newer_def split: option.splits list.splits prod.splits)
  with h that show thesis by blast
qed

section \<open>A successful probe\<close>

text \<open>C14. A probe that succeeds rests on a genuine answer: the resolver's response to this very query (same identifier, a
  complete response without error, the question asked), of which the text with the latest time stamp was chosen, and the
  hash read from it is an md5 digest in lower case.\<close>

theorem probe_success_genuine:
  assumes "hpr_status (query_resolver_config_hash_txt io address domain timeout) = HpSuccess"
  shows "\<exists>query response handle txt.
    io_mkquery io domain = Some query \<and> response = take 4096 (io_recv io query) \<and>
    \<not> dns_response_is_truncated response \<and> packet_id response = packet_id query \<and>
    and (response ! 3) 0x0f = 0 \<and> io_parse io response = Some handle \<and>
    (\<exists>question. nsm_question handle = Some question \<and> strcasecmp_equal (drop_final_dot (rr_name question)) (drop_final_dot domain)) \<and>
    txt \<in> set (answer_texts (nsm_answers handle)) \<and> list_all (\<lambda>t. not_newer t txt) (answer_texts (nsm_answers handle)) \<and>
    hpr_parsed_value (query_resolver_config_hash_txt io address domain timeout) = parse_resolver_config_hash_txt txt \<and>
    config_hash_text (txv_hash (parse_resolver_config_hash_txt txt))"
proof -
  from assms obtain x where q: "query_dns_txt_record io address domain timeout = Inr (Inr x)"
    and v: "is_valid_resolver_config_hash_txt_value (parse_resolver_config_hash_txt x)"
    and r: "hpr_parsed_value (query_resolver_config_hash_txt io address domain timeout) = parse_resolver_config_hash_txt x"
    by (auto simp: query_resolver_config_hash_txt_def Let_def default_hash_probe_result_def split: sum.splits if_splits)
  from q obtain query where mk: "io_mkquery io domain = Some query"
    and ok: "\<not> dns_response_is_truncated (take 4096 (io_recv io query))"
      "dns_response_matches_query (io_parse io) (take 4096 (io_recv io query)) (packet_id query) domain"
    and p: "parse_first_txt_answer (io_parse io) (take 4096 (io_recv io query)) = Inr x"
    by (auto simp: query_dns_txt_record_def Let_def result_simps split: option.splits if_splits)
  obtain handle where h: "io_parse io (take 4096 (io_recv io query)) = Some handle"
    and t: "x \<in> set (answer_texts (nsm_answers handle))" "\<forall>t \<in> set (answer_texts (nsm_answers handle)). not_newer t x"
    using parse_first_txt_answer_choice [OF p] .
  show ?thesis
    by (rule exI [of _ query], rule exI [of _ "take 4096 (io_recv io query)"], rule exI [of _ handle], rule exI [of _ x])
      (use mk ok h t r v in \<open>auto simp: dns_response_matches_query_def valid_txt_value list_all_iff split: if_splits option.splits\<close>)
qed

definition sample_hash :: string where
  "sample_hash = ''0123456789abcdef0123456789abcdef''"

definition sample_rdata :: "u8 list" where
  "sample_rdata = 36 # map (\<lambda>c. of_nat (of_char c)) (''170|'' @ sample_hash)"

definition sample_dns_io :: dns_io where
  "sample_dns_io = \<lparr>io_pton4 = \<lambda>s. s = ''127.0.0.1'', io_pton6 = \<lambda>s. False, io_mkquery = \<lambda>d. Some (replicate 12 1),
     io_socket = True, io_connect = \<lambda>ip port. True, io_timeouts = \<lambda>s u. True, io_send = \<lambda>q. True,
     io_recv = \<lambda>q. [1, 1, 0x84, 0, 0, 1, 0, 2, 0, 0, 0, 0],
     io_parse = \<lambda>p. Some \<lparr>nsm_qdcount = 1,
        nsm_question = Some \<lparr>rr_name = ''Config-Hash.keen.pbr.'', rr_type = 16, rr_class = 1, rr_rdata = []\<rparr>,
        nsm_answers = [None, Some \<lparr>rr_name = ''config-hash.keen.pbr'', rr_type = 16, rr_class = 1, rr_rdata = sample_rdata\<rparr>]\<rparr>\<rparr>"

lemma sample_hash_text: "config_hash_text sample_hash"
  by (simp add: config_hash_text_def sample_hash_def is_xdigit_def is_digit_def to_lower_def is_upper_def)

lemma sample_chunks: "txt_chunks sample_rdata = Some (nat_to_string 170 @ CHR ''|'' # sample_hash)"
  by code_simp

lemma sample_value: "parse_resolver_config_hash_txt (nat_to_string 170 @ CHR ''|'' # sample_hash) = \<lparr>txv_ts = Some 170, txv_hash = sample_hash\<rparr>"
  using txt_value_roundtrip [OF sample_hash_text, of 170] by simp

lemma sample_texts: "scan_answers (nsm_answers (the (io_parse sample_dns_io p))) \<lparr>tch_first = None, tch_latest = None\<rparr> =
    Inr \<lparr>tch_first = Some (nat_to_string 170 @ CHR ''|'' # sample_hash),
         tch_latest = Some (170, nat_to_string 170 @ CHR ''|'' # sample_hash)\<rparr>"
proof -
  have "sample_rdata \<noteq> []" by (simp add: sample_rdata_def)
  then show ?thesis
    by (simp add: sample_dns_io_def ns_t_txt_def ns_c_in_def sample_chunks consider_txt_def Let_def sample_value
        del: nat_to_string.simps)
qed

lemma sample_record:
  "query_dns_txt_record sample_dns_io ''127.0.0.1'' ''config-hash.keen.pbr'' 2000
     = Inr (Inr (nat_to_string 170 @ CHR ''|'' # sample_hash))"
proof -
  let ?r = "[1, 1, 0x84, 0, 0, 1, 0, 2, 0, 0, 0, 0] :: u8 list"
  have "parse_dns_address_str (\<lambda>s. False) ''127.0.0.1'' = Inr \<lparr>pda_ip = ''127.0.0.1'', pda_port = 53\<rparr>"
    by (simp add: parse_dns_address_str_def split_dns_address_def is_valid_ip_def is_valid_ipv4_def dns_octet_ok_def
        from_chars_uint_def dec_value_def is_digit_def digit_val_def)
  moreover have "parse_first_txt_answer (io_parse sample_dns_io) ?r = Inr (nat_to_string 170 @ CHR ''|'' # sample_hash)"
    using sample_texts by (simp add: parse_first_txt_answer_def sample_dns_io_def)
  moreover have "dns_response_matches_query (io_parse sample_dns_io) ?r (packet_id (replicate 12 1)) ''config-hash.keen.pbr''"
    by (simp add: dns_response_matches_query_def packet_id_def sample_dns_io_def ns_t_txt_def ns_c_in_def strcasecmp_equal_def
        drop_final_dot_def to_lower_def is_upper_def char_of_def bit_Suc_0_iff)
  moreover have "\<not> dns_response_is_truncated ?r" by code_simp
  moreover have "io_pton6 sample_dns_io = (\<lambda>s. False)" "io_recv sample_dns_io q = ?r" "io_mkquery sample_dns_io d = Some (replicate 12 1)"
      "io_socket sample_dns_io" "io_connect sample_dns_io ip port" "io_timeouts sample_dns_io s u" "io_send sample_dns_io q"
      "io_pton4 sample_dns_io ''127.0.0.1''" for q d ip port s u
    by (simp_all add: sample_dns_io_def)
  ultimately show ?thesis by (simp add: query_dns_txt_record_def Let_def)
qed

theorem probe_success_genuine_witness:
  "hpr_status (query_resolver_config_hash_txt sample_dns_io ''127.0.0.1'' ''config-hash.keen.pbr'' 2000) = HpSuccess \<and>
   (\<exists>txt. hpr_parsed_value (query_resolver_config_hash_txt sample_dns_io ''127.0.0.1'' ''config-hash.keen.pbr'' 2000)
       = parse_resolver_config_hash_txt txt \<and> config_hash_text (txv_hash (parse_resolver_config_hash_txt txt)))"
proof -
  have "is_valid_resolver_config_hash_txt_value \<lparr>txv_ts = Some 170, txv_hash = sample_hash\<rparr>"
    using sample_hash_text by (simp add: is_valid_resolver_config_hash_txt_value_def config_hash_text_def)
  then have ok: "hpr_status (query_resolver_config_hash_txt sample_dns_io ''127.0.0.1'' ''config-hash.keen.pbr'' 2000) = HpSuccess"
    by (simp add: query_resolver_config_hash_txt_def sample_record sample_value default_hash_probe_result_def)
  then show ?thesis using probe_success_genuine [OF ok] by blast
qed

end
