(* ===== verification/Resolver_Sync.thy ===== *)
theory Resolver_Sync
  imports Dns_Txt
begin

text \<open>
  How the daemon follows the resolver: the state machine of \<^verbatim>\<open>src/daemon/resolver_sync_state_machine.cpp\<close>, the health
  classification of \<^verbatim>\<open>src/daemon/resolver_health.cpp\<close>, the metadata of \<^verbatim>\<open>src/runtime/resolver_coordinator.cpp\<close>, the wait
  for the confirmation of a new configuration (\<^verbatim>\<open>src/daemon/resolver_apply_confirmation.cpp\<close>) and the probes that
  \<^verbatim>\<open>src/daemon/daemon_resolver.cpp\<close> hands to a worker and commits on the control thread. The clock is an argument; the
  wait loop takes the probe, the sleep and the clock as functions on a state of the world.
\<close>

section \<open>The state machine\<close>

datatype config_probe_status = CpInvalidTxt | CpMissingTxt | CpNotConfigured | CpQueryFailed | CpSuccess | CpUnknown

datatype config_sync_state = CONVERGED | CONVERGING | STALE

datatype resolver_live_status = LiveDegraded | LiveHealthy | LiveUnavailable | LiveUnknown

record resolver_sync =
  rs_expected_hash :: string
  rs_actual_hash :: string
  rs_actual_ts :: "int option"
  rs_last_probe_ts :: "int option"
  rs_apply_started_ts :: "int option"
  rs_probe_status :: config_probe_status
  rs_runtime_active :: bool
  rs_resolver_configured :: bool

record sync_snapshot =
  ss_expected_hash :: string
  ss_actual_hash :: string
  ss_actual_ts :: "int option"
  ss_last_probe_ts :: "int option"
  ss_apply_started_ts :: "int option"
  ss_sync_state :: "config_sync_state option"
  ss_probe_status :: config_probe_status
  ss_live_status :: resolver_live_status

definition initial_sync :: resolver_sync where
  "initial_sync = \<lparr>rs_expected_hash = [], rs_actual_hash = [], rs_actual_ts = None, rs_last_probe_ts = None,
     rs_apply_started_ts = None, rs_probe_status = CpUnknown, rs_runtime_active = True, rs_resolver_configured = True\<rparr>"

definition resolver_probe_status_from_hash_probe_status :: "hash_probe_status \<Rightarrow> config_probe_status" where
  "resolver_probe_status_from_hash_probe_status status =
     (case status of HpSuccess \<Rightarrow> CpSuccess | HpNoUsableTxt \<Rightarrow> CpMissingTxt | HpInvalidTxt \<Rightarrow> CpInvalidTxt
      | HpQueryFailed \<Rightarrow> CpQueryFailed)"

definition sync_runtime_stopped :: "resolver_sync \<Rightarrow> resolver_sync" where
  "sync_runtime_stopped st = st\<lparr>rs_runtime_active := False, rs_resolver_configured := False, rs_actual_hash := [],
     rs_actual_ts := None, rs_last_probe_ts := None, rs_probe_status := CpNotConfigured\<rparr>"

definition sync_resolver_not_configured :: "resolver_sync \<Rightarrow> resolver_sync" where
  "sync_resolver_not_configured st = st\<lparr>rs_runtime_active := True, rs_resolver_configured := False, rs_actual_hash := [],
     rs_actual_ts := None, rs_last_probe_ts := None, rs_probe_status := CpNotConfigured\<rparr>"

definition sync_expected_hash_updated :: "string \<Rightarrow> resolver_sync \<Rightarrow> resolver_sync" where
  "sync_expected_hash_updated expected st =
     st\<lparr>rs_runtime_active := True, rs_resolver_configured := True, rs_expected_hash := expected\<rparr>"

definition sync_apply_started :: "int \<Rightarrow> string \<Rightarrow> resolver_sync \<Rightarrow> resolver_sync" where
  "sync_apply_started ts expected st =
     st\<lparr>rs_runtime_active := True, rs_resolver_configured := True, rs_apply_started_ts := Some ts,
        rs_expected_hash := expected\<rparr>"

definition sync_probe_succeeded :: "string \<Rightarrow> int option \<Rightarrow> int option \<Rightarrow> resolver_sync \<Rightarrow> resolver_sync" where
  "sync_probe_succeeded actual actual_ts probe_ts st =
     st\<lparr>rs_runtime_active := True, rs_resolver_configured := True, rs_actual_hash := actual, rs_actual_ts := actual_ts,
        rs_last_probe_ts := probe_ts, rs_probe_status := CpSuccess\<rparr>"

definition sync_probe_failed :: "hash_probe_status \<Rightarrow> int option \<Rightarrow> resolver_sync \<Rightarrow> resolver_sync" where
  "sync_probe_failed status probe_ts st =
     (let st1 = st\<lparr>rs_runtime_active := True, rs_resolver_configured := True\<rparr>;
          st2 = (if status \<noteq> HpQueryFailed then st1\<lparr>rs_actual_hash := [], rs_actual_ts := None\<rparr> else st1)
      in st2\<lparr>rs_last_probe_ts := probe_ts, rs_probe_status := resolver_probe_status_from_hash_probe_status status\<rparr>)"

definition converging_window_seconds :: int where
  "converging_window_seconds = 15"

definition within_converging_window :: "int option \<Rightarrow> int \<Rightarrow> bool" where
  "within_converging_window apply_started now =
     (case apply_started of None \<Rightarrow> False | Some ts \<Rightarrow> now - ts \<le> converging_window_seconds)"

definition sync_converging :: "resolver_sync \<Rightarrow> int \<Rightarrow> bool" where
  "sync_converging st now \<longleftrightarrow> within_converging_window (rs_apply_started_ts st) now \<and>
     (rs_probe_status st \<in> {CpUnknown, CpQueryFailed, CpMissingTxt, CpInvalidTxt} \<or>
      rs_expected_hash st \<noteq> rs_actual_hash st \<and>
      (case (rs_actual_ts st, rs_apply_started_ts st) of (Some a, Some s) \<Rightarrow> a < s | _ \<Rightarrow> False))"

text \<open>The synchronisation state, the probe status and the live status that a snapshot reports.\<close>

definition sync_classify :: "resolver_sync \<Rightarrow> int \<Rightarrow> config_sync_state option \<times> config_probe_status \<times> resolver_live_status" where
  "sync_classify st now =
     (let probe = rs_probe_status st in
      if \<not> rs_runtime_active st \<or> \<not> rs_resolver_configured st then (None, CpNotConfigured, LiveUnknown)
      else if rs_expected_hash st = [] then (None, probe, LiveUnknown)
      else if sync_converging st now
      then (Some CONVERGING, probe, if probe = CpQueryFailed then LiveUnavailable else LiveHealthy)
      else if probe = CpQueryFailed then (None, probe, LiveUnavailable)
      else if probe = CpSuccess
      then (Some (if rs_expected_hash st = rs_actual_hash st then CONVERGED else STALE), probe, LiveHealthy)
      else if probe = CpMissingTxt \<or> probe = CpInvalidTxt then (Some STALE, probe, LiveDegraded)
      else (None, probe, LiveUnknown))"

definition resolver_snapshot :: "resolver_sync \<Rightarrow> int \<Rightarrow> sync_snapshot" where
  "resolver_snapshot st now =
     (case sync_classify st now of (sync, probe, live) \<Rightarrow>
        \<lparr>ss_expected_hash = rs_expected_hash st, ss_actual_hash = rs_actual_hash st, ss_actual_ts = rs_actual_ts st,
         ss_last_probe_ts = rs_last_probe_ts st, ss_apply_started_ts = rs_apply_started_ts st, ss_sync_state = sync,
         ss_probe_status = probe, ss_live_status = live\<rparr>)"

section \<open>The health classification\<close>

record resolver_actual_state =
  ras_live_status :: resolver_live_status
  ras_last_probe_ts :: "int option"
  ras_actual_hash :: string
  ras_actual_ts :: "int option"

definition build_resolver_actual_state ::
    "bool \<Rightarrow> bool \<Rightarrow> hash_probe_result option \<Rightarrow> int option \<Rightarrow> resolver_actual_state" where
  "build_resolver_actual_state routing_runtime_active resolver_configured probe_result probe_completed_ts =
     (let state = \<lparr>ras_live_status = LiveUnknown, ras_last_probe_ts = None, ras_actual_hash = [], ras_actual_ts = None\<rparr> in
      if \<not> routing_runtime_active \<or> \<not> resolver_configured then state
      else (case probe_result of
              None \<Rightarrow> state
            | Some r \<Rightarrow>
                (case hpr_status r of
                   HpSuccess \<Rightarrow> state\<lparr>ras_last_probe_ts := probe_completed_ts, ras_live_status := LiveHealthy,
                      ras_actual_hash := txv_hash (hpr_parsed_value r), ras_actual_ts := txv_ts (hpr_parsed_value r)\<rparr>
                 | HpNoUsableTxt \<Rightarrow> state\<lparr>ras_last_probe_ts := probe_completed_ts, ras_live_status := LiveDegraded\<rparr>
                 | HpInvalidTxt \<Rightarrow> state\<lparr>ras_last_probe_ts := probe_completed_ts, ras_live_status := LiveDegraded\<rparr>
                 | HpQueryFailed \<Rightarrow> state\<lparr>ras_last_probe_ts := probe_completed_ts, ras_live_status := LiveUnavailable\<rparr>)))"

definition classify_resolver_config_sync_state ::
    "int option \<Rightarrow> int option \<Rightarrow> int \<Rightarrow> bool \<Rightarrow> config_sync_state option" where
  "classify_resolver_config_sync_state actual_ts apply_started_ts now_ts hash_equal =
     (case actual_ts of
        None \<Rightarrow> None
      | Some actual \<Rightarrow>
          (case apply_started_ts of
             None \<Rightarrow> Some (if hash_equal then CONVERGED else STALE)
           | Some started \<Rightarrow>
               (if actual < started \<and> now_ts - started \<le> 15 then Some CONVERGING
                else Some (if hash_equal then CONVERGED else STALE))))"

section \<open>Resolver metadata\<close>

record resolver_metadata =
  rmd_expected_config_hash :: string
  rmd_actual_config_hash :: string

definition metadata_reconcile :: "string \<Rightarrow> resolver_metadata \<Rightarrow> bool \<times> resolver_metadata" where
  "metadata_reconcile expected m =
     (if rmd_expected_config_hash m = expected then (False, m) else (True, m\<lparr>rmd_expected_config_hash := expected\<rparr>))"

definition metadata_observe_actual :: "string \<Rightarrow> resolver_metadata \<Rightarrow> resolver_metadata" where
  "metadata_observe_actual actual m = m\<lparr>rmd_actual_config_hash := actual\<rparr>"

definition metadata_clear_actual :: "resolver_metadata \<Rightarrow> resolver_metadata" where
  "metadata_clear_actual m = m\<lparr>rmd_actual_config_hash := []\<rparr>"

section \<open>Waiting for the confirmation\<close>

definition resolver_hash_confirmation_matches :: "hash_probe_result \<Rightarrow> string \<Rightarrow> int \<Rightarrow> bool" where
  "resolver_hash_confirmation_matches result expected_hash apply_started_ts \<longleftrightarrow>
     hpr_status result = HpSuccess \<and> txv_hash (hpr_parsed_value result) = expected_hash \<and>
     (case txv_ts (hpr_parsed_value result) of None \<Rightarrow> False | Some ts \<Rightarrow> apply_started_ts \<le> ts)"

partial_function (option) confirmation_loop ::
    "('w \<Rightarrow> hash_probe_result \<times> 'w) \<Rightarrow> ('w \<Rightarrow> 'w) \<Rightarrow> ('w \<Rightarrow> int) \<Rightarrow> (hash_probe_result \<Rightarrow> bool) \<Rightarrow> int \<Rightarrow> 'w
      \<Rightarrow> (bool \<times> hash_probe_result \<times> 'w) option" where
  "confirmation_loop probe pause now matches deadline w =
     (case probe w of (result, w1) \<Rightarrow>
        (if matches result then Some (True, result, w1)
         else if now (pause w1) < deadline then confirmation_loop probe pause now matches deadline (pause w1)
         else Some (False, result, pause w1)))"

definition confirmation_error :: "hash_probe_result \<Rightarrow> string" where
  "confirmation_error last_result =
     ''resolver config hash confirmation timed out'' @
     (if hpr_status last_result = HpSuccess then '' (hash/timestamp did not match candidate)''
      else if hpr_error last_result \<noteq> [] then '': '' @ hpr_error last_result else [])"

definition wait_for_resolver_hash_confirmation ::
    "('w \<Rightarrow> hash_probe_result \<times> 'w) \<Rightarrow> (int \<Rightarrow> 'w \<Rightarrow> 'w) \<Rightarrow> ('w \<Rightarrow> int) \<Rightarrow> string \<Rightarrow> int \<Rightarrow> int \<Rightarrow> int \<Rightarrow> 'w
      \<Rightarrow> ((string + unit) \<times> 'w) option" where
  "wait_for_resolver_hash_confirmation probe sleep_for now expected_hash apply_started_ts timeout interval w =
     map_option (\<lambda>(ok, last_result, w'). (if ok then Inr () else Inl (confirmation_error last_result), w'))
       (confirmation_loop probe (sleep_for interval) now
          (\<lambda>r. resolver_hash_confirmation_matches r expected_hash apply_started_ts) (now w + timeout) w)"

section \<open>The wait ends\<close>

definition world_after :: "('w \<Rightarrow> hash_probe_result \<times> 'w) \<Rightarrow> ('w \<Rightarrow> 'w) \<Rightarrow> nat \<Rightarrow> 'w \<Rightarrow> 'w" where
  "world_after probe pause n = (\<lambda>w. pause (snd (probe w))) ^^ n"

lemma world_after_simps:
  "world_after probe pause 0 w = w"
  "world_after probe pause (Suc n) w = world_after probe pause n (pause (snd (probe w)))"
  by (simp_all add: world_after_def funpow_Suc_right del: funpow.simps(2))

lemma confirmation_loop_returns:
  assumes "0 < d" and probe: "\<And>w. now w \<le> now (snd (probe w))" and pause: "\<And>w. now w + d \<le> now (pause w)"
    and "deadline \<le> now w + d * (int k + 1)"
  shows "\<exists>n w'. n \<le> k \<and>
    confirmation_loop probe pause now matches deadline w =
      Some (matches (fst (probe (world_after probe pause n w))), fst (probe (world_after probe pause n w)), w') \<and>
    (\<forall>m < n. \<not> matches (fst (probe (world_after probe pause m w)))) \<and>
    (\<not> matches (fst (probe (world_after probe pause n w))) \<longrightarrow> deadline \<le> now w')"
  using assms(4)
proof (induction k arbitrary: w)
  case 0
  obtain result w1 where p: "probe w = (result, w1)" by (cases "probe w")
  have "deadline \<le> now (pause w1)" using 0 probe [of w] pause [of w1] p by simp
  then show ?case using p
    by (cases "matches result"; intro exI [of _ 0])
      (auto simp: world_after_simps confirmation_loop.simps [of probe pause now matches deadline w])
next
  case (Suc k)
  obtain result w1 where p: "probe w = (result, w1)" by (cases "probe w")
  show ?case
  proof (cases "matches result \<or> deadline \<le> now (pause w1)")
    case True
    then show ?thesis using p
      by (cases "matches result"; intro exI [of _ 0])
        (auto simp: world_after_simps confirmation_loop.simps [of probe pause now matches deadline w])
  next
    case False
    then have step: "confirmation_loop probe pause now matches deadline w =
        confirmation_loop probe pause now matches deadline (pause w1)"
      using p by (simp add: confirmation_loop.simps [of probe pause now matches deadline w])
    have "deadline \<le> now (pause w1) + d * (int k + 1)"
      using Suc.prems probe [of w] pause [of w1] p by (simp add: algebra_simps)
    from Suc.IH [OF this] obtain n w' where n: "n \<le> k"
      "confirmation_loop probe pause now matches deadline (pause w1) =
        Some (matches (fst (probe (world_after probe pause n (pause w1)))), fst (probe (world_after probe pause n (pause w1))), w')"
      "\<forall>m < n. \<not> matches (fst (probe (world_after probe pause m (pause w1))))"
      "\<not> matches (fst (probe (world_after probe pause n (pause w1)))) \<longrightarrow> deadline \<le> now w'"
      by blast
    have "\<forall>m < Suc n. \<not> matches (fst (probe (world_after probe pause m w)))"
      using n(3) False p by (auto simp: world_after_simps less_Suc_eq_0_disj)
    then show ?thesis using n p step by (intro exI [of _ "Suc n"] exI [of _ w']) (simp add: world_after_simps)
  qed
qed

text \<open>C12. The wait for the resolver ends, if the steady clock never goes back and a sleep lasts at least as long as asked:
  after at most \<^verbatim>\<open>timeout / interval + 1\<close> probes it reports success exactly when the last probe confirmed the hash, every
  earlier probe having failed to, and it fails only after the time-out.\<close>

theorem confirmation_wait_ends:
  assumes "0 < interval" and "\<And>w. now w \<le> now (snd (probe w))" and "\<And>w. now w + interval \<le> now (sleep_for interval w)"
  shows "\<exists>n result w'.
    wait_for_resolver_hash_confirmation probe sleep_for now expected ts timeout interval w = Some (result, w') \<and>
    n \<le> nat (timeout div interval) \<and>
    list_all (\<lambda>m. \<not> resolver_hash_confirmation_matches (fst (probe (world_after probe (sleep_for interval) m w))) expected ts) [0..<n] \<and>
    (result = Inr () \<longleftrightarrow>
       resolver_hash_confirmation_matches (fst (probe (world_after probe (sleep_for interval) n w))) expected ts) \<and>
    (result = Inr () \<or> now w + timeout \<le> now w')"
proof -
  let ?matches = "\<lambda>r. resolver_hash_confirmation_matches r expected ts"
  have "timeout < interval * (timeout div interval + 1)"
    unfolding distrib_left mult_1_right
    using pos_mod_bound [OF assms(1), of timeout] mult_div_mod_eq [of interval timeout] by linarith
  also have "\<dots> \<le> interval * (int (nat (timeout div interval)) + 1)" using assms(1) by (simp add: mult_left_mono)
  finally have "now w + timeout \<le> now w + interval * (int (nat (timeout div interval)) + 1)" by simp
  from confirmation_loop_returns [OF assms(1), of now probe "sleep_for interval", OF assms(2,3) this, of ?matches]
  obtain n w' where n: "n \<le> nat (timeout div interval)"
    "confirmation_loop probe (sleep_for interval) now ?matches (now w + timeout) w =
      Some (?matches (fst (probe (world_after probe (sleep_for interval) n w))),
            fst (probe (world_after probe (sleep_for interval) n w)), w')"
    "\<forall>m < n. \<not> ?matches (fst (probe (world_after probe (sleep_for interval) m w)))"
    "\<not> ?matches (fst (probe (world_after probe (sleep_for interval) n w))) \<longrightarrow> now w + timeout \<le> now w'"
    by blast
  then show ?thesis
    by (intro exI [of _ n]) (auto simp: wait_for_resolver_hash_confirmation_def list_all_iff)
qed

definition sample_confirming_probe :: "int \<Rightarrow> hash_probe_result \<times> int" where
  "sample_confirming_probe clock =
     (if clock < 2000 then (default_hash_probe_result, clock + 5)
      else (default_hash_probe_result\<lparr>hpr_status := HpSuccess, hpr_parsed_value := \<lparr>txv_ts = Some 170, txv_hash = sample_hash\<rparr>\<rparr>,
            clock + 5))"

theorem confirmation_wait_ends_witness:
  "\<exists>n result w'.
     wait_for_resolver_hash_confirmation sample_confirming_probe (\<lambda>d clock. clock + d) (\<lambda>clock. clock) sample_hash 160 30000 1000 0
       = Some (result, w') \<and> n \<le> 30 \<and>
     (result = Inr () \<longleftrightarrow>
       resolver_hash_confirmation_matches
         (fst (sample_confirming_probe (world_after sample_confirming_probe (\<lambda>clock. clock + 1000) n 0))) sample_hash 160)"
proof -
  have "clock \<le> snd (sample_confirming_probe clock)" for clock by (simp add: sample_confirming_probe_def)
  then show ?thesis
    using confirmation_wait_ends [of 1000 "\<lambda>clock. clock" sample_confirming_probe "\<lambda>d clock. clock + d" sample_hash 160 30000 0]
    by auto
qed

section \<open>What a snapshot says of the history\<close>

datatype sync_event =
    RuntimeStopped
  | ResolverNotConfigured
  | ExpectedHashUpdated string
  | ApplyStarted int string
  | ProbeSucceeded string "int option" "int option"
  | ProbeFailed hash_probe_status "int option"

fun sync_step :: "resolver_sync \<Rightarrow> sync_event \<Rightarrow> resolver_sync" where
  "sync_step st RuntimeStopped = sync_runtime_stopped st"
| "sync_step st ResolverNotConfigured = sync_resolver_not_configured st"
| "sync_step st (ExpectedHashUpdated h) = sync_expected_hash_updated h st"
| "sync_step st (ApplyStarted ts h) = sync_apply_started ts h st"
| "sync_step st (ProbeSucceeded h ts probe_ts) = sync_probe_succeeded h ts probe_ts st"
| "sync_step st (ProbeFailed status probe_ts) = sync_probe_failed status probe_ts st"

definition sync_run :: "sync_event list \<Rightarrow> resolver_sync" where
  "sync_run evs = foldl sync_step initial_sync evs"

fun sets_expected :: "sync_event \<Rightarrow> string option" where
  "sets_expected (ExpectedHashUpdated h) = Some h"
| "sets_expected (ApplyStarted ts h) = Some h"
| "sets_expected _ = None"

fun sets_apply_started :: "sync_event \<Rightarrow> int option" where
  "sets_apply_started (ApplyStarted ts h) = Some ts"
| "sets_apply_started _ = None"

fun sets_probe :: "sync_event \<Rightarrow> sync_event option" where
  "sets_probe (ExpectedHashUpdated h) = None"
| "sets_probe (ApplyStarted ts h) = None"
| "sets_probe e = Some e"

text \<open>The value of the latest event that sets one.\<close>

definition latest :: "(sync_event \<Rightarrow> 'a option) \<Rightarrow> sync_event list \<Rightarrow> 'a option" where
  "latest f evs = foldl (\<lambda>acc e. case f e of None \<Rightarrow> acc | Some v \<Rightarrow> Some v) None evs"

lemma latest_simps [simp]:
  "latest f [] = None" "latest f (evs @ [e]) = (case f e of None \<Rightarrow> latest f evs | Some v \<Rightarrow> Some v)"
  by (simp_all add: latest_def split: option.splits)

lemma sync_run_simps [simp]: "sync_run [] = initial_sync" "sync_run (evs @ [e]) = sync_step (sync_run evs) e"
  by (simp_all add: sync_run_def)

definition resolver_in_use :: "sync_event list \<Rightarrow> bool" where
  "resolver_in_use evs \<longleftrightarrow> evs = [] \<or> last evs \<notin> {RuntimeStopped, ResolverNotConfigured}"

text \<open>A probe only ever reports success through \<^verbatim>\<open>probe_succeeded\<close>.\<close>

definition failures_failed :: "sync_event list \<Rightarrow> bool" where
  "failures_failed evs \<longleftrightarrow> list_all (\<lambda>e. case e of ProbeFailed status _ \<Rightarrow> status \<noteq> HpSuccess | _ \<Rightarrow> True) evs"

lemmas sync_defs = sync_runtime_stopped_def sync_resolver_not_configured_def sync_expected_hash_updated_def
  sync_apply_started_def sync_probe_succeeded_def sync_probe_failed_def initial_sync_def

lemma sync_run_use:
  "rs_runtime_active (sync_run evs) \<and> rs_resolver_configured (sync_run evs) \<longleftrightarrow> resolver_in_use evs"
proof (cases evs rule: rev_cases)
  case (snoc es e)
  then show ?thesis by (cases e) (auto simp: resolver_in_use_def sync_defs Let_def)
qed (simp add: resolver_in_use_def initial_sync_def)

lemma sync_run_expected:
  "rs_expected_hash (sync_run evs) = (case latest sets_expected evs of None \<Rightarrow> [] | Some h \<Rightarrow> h)
   \<and> rs_apply_started_ts (sync_run evs) = latest sets_apply_started evs"
proof (induction evs rule: rev_induct)
  case (snoc e es)
  then show ?case by (cases e) (auto simp: sync_defs Let_def split: option.splits)
qed (simp add: initial_sync_def)

lemma sync_run_probe:
  "failures_failed evs \<Longrightarrow>
   (rs_probe_status (sync_run evs) = CpSuccess \<longleftrightarrow> (\<exists>h ts p. latest sets_probe evs = Some (ProbeSucceeded h ts p)))
   \<and> (\<forall>h ts p. latest sets_probe evs = Some (ProbeSucceeded h ts p) \<longrightarrow> rs_actual_hash (sync_run evs) = h)"
proof (induction evs rule: rev_induct)
  case (snoc e es)
  then show ?case
    by (cases e) (auto simp: sync_defs Let_def failures_failed_def resolver_probe_status_from_hash_probe_status_def
        split: hash_probe_status.splits)
qed (simp add: initial_sync_def)

lemma classify_converged:
  "fst (sync_classify st now) = Some CONVERGED \<longleftrightarrow>
     rs_runtime_active st \<and> rs_resolver_configured st \<and> rs_expected_hash st \<noteq> [] \<and> rs_probe_status st = CpSuccess
     \<and> rs_actual_hash st = rs_expected_hash st"
  by (auto simp: sync_classify_def Let_def sync_converging_def)

lemma classify_converging:
  "fst (sync_classify st now) = Some CONVERGING \<Longrightarrow> \<exists>ts. rs_apply_started_ts st = Some ts \<and> now \<le> ts + 15"
  by (auto simp: sync_classify_def Let_def sync_converging_def within_converging_window_def converging_window_seconds_def
      split: if_splits option.splits)



end
