(* ===== verification/List_Service.thy ===== *)
theory List_Service
  imports Config_Json Config_Marks
begin

text \<open>
  Remote lists: the HTTP client (\<^verbatim>\<open>src/http/http_client.cpp\<close>), the cache of downloaded lists (\<^verbatim>\<open>src/cache/cache_manager.cpp\<close>)
  and the service that refreshes them (\<^verbatim>\<open>src/daemon/list_service.cpp\<close>). The cache directory is a map from paths to contents;
  the HTTP transport, the outcomes of writing and renaming files, the clock and the JSON text format are parameters. The
  joining of concurrent refreshes in \<^verbatim>\<open>download_remote_lists\<close> is not modelled: a call is the work of the owner of a flight.
\<close>

section \<open>The HTTP client\<close>

record http_request =
  hrq_url :: string
  hrq_timeout_ms :: int
  hrq_user_agent :: string
  hrq_fwmark :: u32
  hrq_max_redirects :: nat
  hrq_headers :: "string list"
  hrq_method :: string
  hrq_body :: string
  hrq_max_response_size :: nat

record http_response =
  hrs_status_code :: int
  hrs_body :: string
  hrs_headers :: "(string, string) smap"

text \<open>What a request comes to: a response, or the message of the transport's exception.\<close>

type_synonym http_transport = "http_request \<Rightarrow> string + http_response"

record http_client =
  hc_timeout :: int
  hc_user_agent :: string
  hc_max_response_size :: nat

record http_error =
  he_message :: string
  he_status_code :: int

record conditional_result =
  cdr_not_modified :: bool
  cdr_body :: string
  cdr_etag :: string
  cdr_last_modified :: string

definition request_for :: "http_client \<Rightarrow> string \<Rightarrow> u32 \<Rightarrow> http_request" where
  "request_for c url fwmark = \<lparr>hrq_url = url, hrq_timeout_ms = hc_timeout c * 1000, hrq_user_agent = hc_user_agent c,
     hrq_fwmark = fwmark, hrq_max_redirects = 5, hrq_headers = [], hrq_method = ''GET'', hrq_body = [],
     hrq_max_response_size = hc_max_response_size c\<rparr>"

definition throw_for_status :: "int \<Rightarrow> http_error + unit" where
  "throw_for_status status =
     (if 400 \<le> status then Inl \<lparr>he_message = ''HTTP error '' @ int_to_string status, he_status_code = status\<rparr> else Inr ())"

definition perform :: "http_transport \<Rightarrow> http_request \<Rightarrow> http_error + http_response" where
  "perform transport request =
     (case transport request of
        Inl message \<Rightarrow> Inl \<lparr>he_message = message, he_status_code = 0\<rparr>
      | Inr response \<Rightarrow> Inr response)"

definition checked_body :: "http_response \<Rightarrow> http_error + string" where
  "checked_body response =
     (case throw_for_status (hrs_status_code response) of Inl e \<Rightarrow> Inl e | Inr _ \<Rightarrow> Inr (hrs_body response))"

definition http_download :: "http_transport \<Rightarrow> http_client \<Rightarrow> string \<Rightarrow> u32 \<Rightarrow> http_error + string" where
  "http_download transport c url fwmark =
     (case perform transport (request_for c url fwmark) of Inl e \<Rightarrow> Inl e | Inr response \<Rightarrow> checked_body response)"

definition post_json :: "http_transport \<Rightarrow> http_client \<Rightarrow> string \<Rightarrow> string \<Rightarrow> u32 \<Rightarrow> http_error + string" where
  "post_json transport c url body fwmark =
     (case perform transport ((request_for c url fwmark)\<lparr>hrq_method := ''POST'', hrq_body := body,
              hrq_headers := [''Content-Type: application/json'']\<rparr>) of
        Inl e \<Rightarrow> Inl e | Inr response \<Rightarrow> checked_body response)"

definition download_conditional ::
    "http_transport \<Rightarrow> http_client \<Rightarrow> string \<Rightarrow> string \<Rightarrow> string \<Rightarrow> u32 \<Rightarrow> http_error + conditional_result" where
  "download_conditional transport c url if_none_match if_modified_since fwmark =
     (case perform transport ((request_for c url fwmark)\<lparr>hrq_headers :=
              (if if_none_match \<noteq> [] then [''If-None-Match: '' @ if_none_match] else []) @
              (if if_modified_since \<noteq> [] then [''If-Modified-Since: '' @ if_modified_since] else [])\<rparr>) of
        Inl e \<Rightarrow> Inl e
      | Inr response \<Rightarrow>
          (let header = (\<lambda>name. case map_of (hrs_headers response) name of None \<Rightarrow> [] | Some v \<Rightarrow> v) in
           if hrs_status_code response = 304
           then Inr \<lparr>cdr_not_modified = True, cdr_body = [], cdr_etag = header ''etag'', cdr_last_modified = header ''last-modified''\<rparr>
           else (case checked_body response of
                   Inl e \<Rightarrow> Inl e
                 | Inr body \<Rightarrow> Inr \<lparr>cdr_not_modified = False, cdr_body = body, cdr_etag = header ''etag'',
                                  cdr_last_modified = header ''last-modified''\<rparr>)))"

definition header_space :: "char \<Rightarrow> bool" where
  "header_space ch \<longleftrightarrow> ch = CHR '' '' \<or> ch = CHR 0x09 \<or> ch = CHR 0x0d \<or> ch = CHR 0x0a"

definition trim_header_value :: "string \<Rightarrow> string" where
  "trim_header_value = trim_by header_space"

text \<open>One line of the response headers, with the values seen so far of the entity tag and the modification date.\<close>

definition capture_response_header_line :: "string \<Rightarrow> string \<times> string \<Rightarrow> string \<times> string" where
  "capture_response_header_line header seen =
     (if take 5 header = ''HTTP/'' \<or> take 5 header = ''http/'' then ([], [])
      else (case split_first CHR '':'' header of
              None \<Rightarrow> seen
            | Some (name, rest) \<Rightarrow>
                (if map to_lower name = ''etag'' then (trim_header_value rest, snd seen)
                 else if map to_lower name = ''last-modified'' then (fst seen, trim_header_value rest)
                 else seen)))"

section \<open>The cache\<close>

record cache_metadata =
  cmd_cidrs :: "int option"
  cmd_domains :: "int option"
  cmd_download_time :: "string option"
  cmd_etag :: "string option"
  cmd_ips :: "int option"
  cmd_last_modified :: "string option"
  cmd_url :: "string option"

definition from_json_cache_metadata :: "json \<Rightarrow> cache_metadata result" where
  "from_json_cache_metadata j =
     bind_result (get_stack_optional get_int64 j ''cidrs'') (\<lambda>v_cidrs.
     bind_result (get_stack_optional get_int64 j ''domains'') (\<lambda>v_domains.
     bind_result (get_stack_optional get_string j ''download_time'') (\<lambda>v_download_time.
     bind_result (get_stack_optional get_string j ''etag'') (\<lambda>v_etag.
     bind_result (get_stack_optional get_int64 j ''ips'') (\<lambda>v_ips.
     bind_result (get_stack_optional get_string j ''last_modified'') (\<lambda>v_last_modified.
     bind_result (get_stack_optional get_string j ''url'') (\<lambda>v_url.
     Inr \<lparr>cmd_cidrs = v_cidrs, cmd_domains = v_domains, cmd_download_time = v_download_time, cmd_etag = v_etag,
          cmd_ips = v_ips, cmd_last_modified = v_last_modified, cmd_url = v_url\<rparr>)))))))"

definition to_json_cache_metadata :: "cache_metadata \<Rightarrow> json" where
  "to_json_cache_metadata x = JObject
    [(''cidrs'', put_optional JInt (cmd_cidrs x)),
     (''domains'', put_optional JInt (cmd_domains x)),
     (''download_time'', put_optional JString (cmd_download_time x)),
     (''etag'', put_optional JString (cmd_etag x)),
     (''ips'', put_optional JInt (cmd_ips x)),
     (''last_modified'', put_optional JString (cmd_last_modified x)),
     (''url'', put_optional JString (cmd_url x))]"

definition empty_metadata :: cache_metadata where
  "empty_metadata = \<lparr>cmd_cidrs = None, cmd_domains = None, cmd_download_time = None, cmd_etag = None, cmd_ips = None,
     cmd_last_modified = None, cmd_url = None\<rparr>"

datatype write_outcome = CannotOpen | CannotWrite string | Written

text \<open>The outcomes of the system calls, by path; \<open>CannotWrite\<close> carries what reached the file.\<close>

record cache_io =
  cio_transport :: http_transport
  cio_write :: "string \<Rightarrow> write_outcome"
  cio_rename :: "string \<Rightarrow> string option"
  cio_now_iso :: string
  cio_parse :: "string \<Rightarrow> json result"
  cio_dump :: "json \<Rightarrow> string"

record cache_manager =
  cm_dir :: string
  cm_client :: http_client

type_synonym files = "string \<rightharpoonup> string"

datatype download_status = Updated | NotModified | DownloadFailed

record download_result =
  dlr_status :: download_status
  dlr_error_message :: string
  dlr_http_status_code :: "int option"

definition download_failed :: "string \<Rightarrow> int option \<Rightarrow> download_result" where
  "download_failed message code = \<lparr>dlr_status = DownloadFailed, dlr_error_message = message, dlr_http_status_code = code\<rparr>"

definition download_done :: "download_status \<Rightarrow> download_result" where
  "download_done status = \<lparr>dlr_status = status, dlr_error_message = [], dlr_http_status_code = None\<rparr>"

definition clean_download_error_message :: "string \<Rightarrow> string" where
  "clean_download_error_message message =
     (if take 21 message = ''HTTP request failed: '' then drop 21 message else message)"

definition cache_path :: "cache_manager \<Rightarrow> string \<Rightarrow> string" where
  "cache_path cm name = cm_dir cm @ ''/'' @ name @ ''.txt''"

definition meta_path :: "cache_manager \<Rightarrow> string \<Rightarrow> string" where
  "meta_path cm name = cm_dir cm @ ''/'' @ name @ ''.meta.json''"

definition tmp_suffix :: string where
  "tmp_suffix = ''.tmp''"

definition has_cache :: "cache_manager \<Rightarrow> files \<Rightarrow> string \<Rightarrow> bool" where
  "has_cache cm fs name \<longleftrightarrow> fs (cache_path cm name) \<noteq> None"

definition load_metadata :: "cache_io \<Rightarrow> cache_manager \<Rightarrow> files \<Rightarrow> string \<Rightarrow> cache_metadata" where
  "load_metadata io cm fs name =
     (case fs (meta_path cm name) of
        None \<Rightarrow> empty_metadata
      | Some body \<Rightarrow>
          (case bind_result (cio_parse io body) from_json_cache_metadata of Inl e \<Rightarrow> empty_metadata | Inr meta \<Rightarrow> meta))"

definition cache_contents_equal :: "files \<Rightarrow> string \<Rightarrow> string \<Rightarrow> bool" where
  "cache_contents_equal fs path body \<longleftrightarrow> fs path = Some body"

definition write_file :: "cache_io \<Rightarrow> string \<Rightarrow> string \<Rightarrow> files \<Rightarrow> write_outcome \<times> files" where
  "write_file io path body fs =
     (case cio_write io path of
        CannotOpen \<Rightarrow> (CannotOpen, fs)
      | CannotWrite got \<Rightarrow> (CannotWrite got, fs(path \<mapsto> got))
      | Written \<Rightarrow> (Written, fs(path \<mapsto> body)))"

definition remove_file :: "string \<Rightarrow> files \<Rightarrow> files" where
  "remove_file path fs = fs(path := None)"

definition rename_file :: "cache_io \<Rightarrow> string \<Rightarrow> string \<Rightarrow> files \<Rightarrow> string option \<times> files" where
  "rename_file io from dest fs =
     (case cio_rename io dest of
        Some message \<Rightarrow> (Some message, fs)
      | None \<Rightarrow> (None, fs(dest := fs from, from := None)))"

definition meta_text :: "cache_io \<Rightarrow> cache_metadata \<Rightarrow> string" where
  "meta_text io meta = cio_dump io (to_json_cache_metadata meta) @ [CHR 0x0a]"

text \<open>Replacing the cached body and its metadata through temporary files.\<close>

definition store_download :: "cache_io \<Rightarrow> cache_manager \<Rightarrow> string \<Rightarrow> string \<Rightarrow> conditional_result \<Rightarrow> files \<Rightarrow> download_result \<times> files" where
  "store_download io cm name url result fs =
     (let tmp_path = cache_path cm name @ tmp_suffix; tmp_meta = meta_path cm name @ tmp_suffix;
          meta = empty_metadata\<lparr>cmd_etag := Some (cdr_etag result), cmd_last_modified := Some (cdr_last_modified result),
                   cmd_url := Some url, cmd_download_time := Some (cio_now_iso io)\<rparr>
      in case write_file io tmp_path (cdr_body result) fs of
           (CannotOpen, fs1) \<Rightarrow> (download_failed ''failed to open temporary cache file for writing'' None, fs1)
         | (CannotWrite _, fs1) \<Rightarrow> (download_failed ''failed to write temporary cache file'' None, remove_file tmp_path fs1)
         | (Written, fs1) \<Rightarrow>
             (case write_file io tmp_meta (meta_text io meta) fs1 of
                (CannotOpen, fs2) \<Rightarrow>
                  (download_failed ''failed to open temporary cache metadata for writing'' None, remove_file tmp_path fs2)
              | (CannotWrite _, fs2) \<Rightarrow>
                  (download_failed ''failed to write temporary cache metadata'' None, remove_file tmp_meta (remove_file tmp_path fs2))
              | (Written, fs2) \<Rightarrow>
                  (case rename_file io tmp_path (cache_path cm name) fs2 of
                     (Some message, fs3) \<Rightarrow> (download_failed message None, remove_file tmp_meta (remove_file tmp_path fs3))
                   | (None, fs3) \<Rightarrow>
                       (case rename_file io tmp_meta (meta_path cm name) fs3 of
                          (Some message, fs4) \<Rightarrow> (download_failed message None, remove_file tmp_meta (remove_file tmp_path fs4))
                        | (None, fs4) \<Rightarrow> (download_done Updated, fs4)))))"

definition cache_download :: "cache_io \<Rightarrow> cache_manager \<Rightarrow> string \<Rightarrow> string \<Rightarrow> u32 \<Rightarrow> files \<Rightarrow> download_result \<times> files" where
  "cache_download io cm name url fwmark fs =
     (let existing = load_metadata io cm fs name in
      case download_conditional (cio_transport io) (cm_client cm) url (value_or (cmd_etag existing) [])
             (value_or (cmd_last_modified existing) []) fwmark of
        Inl e \<Rightarrow>
          (if 0 < he_status_code e
           then (download_failed (''HTTP '' @ int_to_string (he_status_code e)) (Some (he_status_code e)), fs)
           else (download_failed (clean_download_error_message (he_message e)) None, fs))
      | Inr result \<Rightarrow>
          (if cdr_not_modified result then (download_done NotModified, fs)
           else if cache_contents_equal fs (cache_path cm name) (cdr_body result) then (download_done NotModified, fs)
           else store_download io cm name url result fs))"

section \<open>The service\<close>

record refresh_result =
  rfr_refreshed_lists :: "string list"
  rfr_cached_lists :: "string list"
  rfr_changed_lists :: "string list"
  rfr_unchanged_lists :: "string list"
  rfr_relevant_changed_lists :: "string list"
  rfr_dns_relevant_changed_lists :: "string list"
  rfr_failed_lists :: "string list"

definition empty_refresh :: refresh_result where
  "empty_refresh = \<lparr>rfr_refreshed_lists = [], rfr_cached_lists = [], rfr_changed_lists = [], rfr_unchanged_lists = [],
     rfr_relevant_changed_lists = [], rfr_dns_relevant_changed_lists = [], rfr_failed_lists = []\<rparr>"

datatype target_error = TargetNotFound | TargetNotRemote

definition config_lists :: "config \<Rightarrow> (string, list_config) smap" where
  "config_lists cfg = value_or (cfg_lists cfg) []"

definition select_remote_list_targets :: "config \<Rightarrow> string option \<Rightarrow> target_error + string list" where
  "select_remote_list_targets cfg requested_name =
     (case requested_name of
        Some name \<Rightarrow>
          (case map_of (config_lists cfg) name of
             None \<Rightarrow> Inl TargetNotFound
           | Some list_cfg \<Rightarrow> if lst_url list_cfg = None then Inl TargetNotRemote else Inr [name])
      | None \<Rightarrow> Inr (map fst (filter (\<lambda>(name, list_cfg). lst_url list_cfg \<noteq> None) (config_lists cfg))))"

definition collect_dns_relevant_list_names :: "config \<Rightarrow> string set" where
  "collect_dns_relevant_list_names cfg =
     (\<Union>rule \<in> set (filter dns_rule_enabled (value_or (dns_rules (value_or (cfg_dns cfg) default_dns_config)) [])). set (dr_list rule))"

definition collect_relevant_list_names :: "config \<Rightarrow> string set" where
  "collect_relevant_list_names cfg =
     (\<Union>rule \<in> set (filter route_rule_enabled (value_or (rc_rules (value_or (cfg_route cfg) default_route_config)) [])).
        set (route_rule_lists rule))
     \<union> collect_dns_relevant_list_names cfg"

fun join_names :: "string list \<Rightarrow> string" where
  "join_names [] = []"
| "join_names [n] = n"
| "join_names (n # m # ns) = n @ '', '' @ join_names (m # ns)"

definition format_list_names :: "string list \<Rightarrow> string" where
  "format_list_names list_names = (if list_names = [] then ''(none)'' else join_names list_names)"

definition should_reload_runtime_after_list_refresh :: "bool \<Rightarrow> refresh_result \<Rightarrow> bool" where
  "should_reload_runtime_after_list_refresh active r \<longleftrightarrow> active \<and> rfr_relevant_changed_lists r \<noteq> []"

definition build_list_refresh_state_map ::
    "cache_io \<Rightarrow> cache_manager \<Rightarrow> files \<Rightarrow> config \<Rightarrow> (string, string option) smap" where
  "build_list_refresh_state_map io cm fs cfg =
     map (\<lambda>(name, list_cfg). (name, cmd_download_time (load_metadata io cm fs name)))
       (filter (\<lambda>(name, list_cfg). lst_url list_cfg \<noteq> None) (config_lists cfg))"

definition in_scope :: "string set option \<Rightarrow> string \<Rightarrow> bool" where
  "in_scope names name = (case names of None \<Rightarrow> False | Some ns \<Rightarrow> name \<in> ns)"

definition list_fwmark :: "(string, u32) smap \<Rightarrow> list_config \<Rightarrow> u32" where
  "list_fwmark marks list_cfg =
     (case lst_detour list_cfg of
        None \<Rightarrow> 0
      | Some detour \<Rightarrow> (case map_of marks (internal_detour_mark_key detour) of None \<Rightarrow> 0 | Some mark \<Rightarrow> mark))"

definition record_download :: "string set option \<Rightarrow> string set option \<Rightarrow> string \<Rightarrow> download_status \<Rightarrow> refresh_result \<Rightarrow> refresh_result" where
  "record_download relevant dns_relevant name status r =
     (case status of
        DownloadFailed \<Rightarrow> r\<lparr>rfr_failed_lists := rfr_failed_lists r @ [name]\<rparr>
      | NotModified \<Rightarrow> r\<lparr>rfr_unchanged_lists := rfr_unchanged_lists r @ [name]\<rparr>
      | Updated \<Rightarrow>
          r\<lparr>rfr_changed_lists := rfr_changed_lists r @ [name],
            rfr_relevant_changed_lists := rfr_relevant_changed_lists r @ (if in_scope relevant name then [name] else []),
            rfr_dns_relevant_changed_lists :=
              rfr_dns_relevant_changed_lists r @ (if in_scope dns_relevant name then [name] else [])\<rparr>)"

fun download_lists ::
    "cache_io \<Rightarrow> cache_manager \<Rightarrow> (string, u32) smap \<Rightarrow> bool \<Rightarrow> string set option \<Rightarrow> string set option \<Rightarrow> string set option
      \<Rightarrow> (string, list_config) smap \<Rightarrow> refresh_result \<Rightarrow> files \<Rightarrow> refresh_result \<times> files" where
  "download_lists io cm marks only_uncached relevant targets dns_relevant [] r fs = (r, fs)"
| "download_lists io cm marks only_uncached relevant targets dns_relevant ((name, list_cfg) # rest) r fs =
     (case lst_url list_cfg of
        None \<Rightarrow> download_lists io cm marks only_uncached relevant targets dns_relevant rest r fs
      | Some url \<Rightarrow>
          (if targets \<noteq> None \<and> \<not> in_scope targets name
           then download_lists io cm marks only_uncached relevant targets dns_relevant rest r fs
           else if only_uncached \<and> has_cache cm fs name
           then download_lists io cm marks only_uncached relevant targets dns_relevant rest
                  (r\<lparr>rfr_cached_lists := rfr_cached_lists r @ [name]\<rparr>) fs
           else (case cache_download io cm name url (list_fwmark marks list_cfg) fs of
                   (result, fs') \<Rightarrow>
                     download_lists io cm marks only_uncached relevant targets dns_relevant rest
                       (record_download relevant dns_relevant name (dlr_status result)
                          (r\<lparr>rfr_refreshed_lists := rfr_refreshed_lists r @ [name]\<rparr>)) fs')))"

definition download_remote_lists ::
    "cache_io \<Rightarrow> cache_manager \<Rightarrow> config \<Rightarrow> (string, u32) smap \<Rightarrow> bool \<Rightarrow> string set option \<Rightarrow> string set option \<Rightarrow> string set option
      \<Rightarrow> files \<Rightarrow> refresh_result \<times> files" where
  "download_remote_lists io cm cfg marks only_uncached relevant targets dns_relevant fs =
     download_lists io cm marks only_uncached relevant targets dns_relevant (config_lists cfg) empty_refresh fs"

definition download_uncached ::
    "cache_io \<Rightarrow> cache_manager \<Rightarrow> config \<Rightarrow> (string, u32) smap \<Rightarrow> string set option \<Rightarrow> string set option \<Rightarrow> files
      \<Rightarrow> refresh_result \<times> files" where
  "download_uncached io cm cfg marks relevant dns_relevant fs =
     download_remote_lists io cm cfg marks True relevant None dns_relevant fs"

definition refresh_remote_lists ::
    "cache_io \<Rightarrow> cache_manager \<Rightarrow> config \<Rightarrow> (string, u32) smap \<Rightarrow> string set option \<Rightarrow> string set option \<Rightarrow> string set option
      \<Rightarrow> files \<Rightarrow> refresh_result \<times> files" where
  "refresh_remote_lists io cm cfg marks relevant targets dns_relevant fs =
     download_remote_lists io cm cfg marks False relevant targets dns_relevant fs"

section \<open>The cache holds complete downloads\<close>

lemma cache_paths_distinct:
  "cache_path cm n \<noteq> meta_path cm m" "cache_path cm n \<noteq> cache_path cm m @ tmp_suffix" "cache_path cm n \<noteq> meta_path cm m @ tmp_suffix"
  "meta_path cm n \<noteq> cache_path cm m @ tmp_suffix" "meta_path cm n \<noteq> meta_path cm m @ tmp_suffix"
  "cache_path cm n @ tmp_suffix \<noteq> meta_path cm m @ tmp_suffix"
proof -
  have last4: "a @ x = b @ y \<Longrightarrow> length x = 4 \<Longrightarrow> length y = 4 \<Longrightarrow> x = y" for a b x y :: string by simp
  have c: "cache_path cm n = (cm_dir cm @ ''/'' @ n) @ ''.txt''" for n by (simp add: cache_path_def)
  have m: "meta_path cm n = (cm_dir cm @ ''/'' @ n @ ''.meta.'') @ ''json''" for n by (simp add: meta_path_def)
  have t: "p @ tmp_suffix = p @ ''.tmp''" for p by (simp add: tmp_suffix_def)
  show "cache_path cm n \<noteq> meta_path cm m" using last4 [of _ "''.txt''" _ "''json''"] unfolding c m by force
  show "cache_path cm n \<noteq> cache_path cm m @ tmp_suffix" using last4 [of _ "''.txt''" _ "''.tmp''"] unfolding c [of n] t by force
  show "cache_path cm n \<noteq> meta_path cm m @ tmp_suffix" using last4 [of _ "''.txt''" _ "''.tmp''"] unfolding c [of n] t by force
  show "meta_path cm n \<noteq> cache_path cm m @ tmp_suffix" using last4 [of _ "''json''" _ "''.tmp''"] unfolding m t by force
  show "meta_path cm n \<noteq> meta_path cm m @ tmp_suffix" using last4 [of _ "''json''" _ "''.tmp''"] unfolding m [of n] t by force
  show "cache_path cm n @ tmp_suffix \<noteq> meta_path cm m @ tmp_suffix"
    using last4 [of _ "''.txt''" _ "''json''"] unfolding c m by simp
qed

lemma cache_path_inj: "cache_path cm n = cache_path cm m \<longleftrightarrow> n = m"
  by (simp add: cache_path_def)

definition cache_paths :: "cache_manager \<Rightarrow> string \<Rightarrow> string set" where
  "cache_paths cm name = {cache_path cm name, meta_path cm name, cache_path cm name @ tmp_suffix, meta_path cm name @ tmp_suffix}"

definition download_metadata :: "cache_io \<Rightarrow> string \<Rightarrow> conditional_result \<Rightarrow> cache_metadata" where
  "download_metadata io url result = empty_metadata\<lparr>cmd_etag := Some (cdr_etag result),
     cmd_last_modified := Some (cdr_last_modified result), cmd_url := Some url, cmd_download_time := Some (cio_now_iso io)\<rparr>"

lemmas file_defs = write_file_def remove_file_def rename_file_def

lemma store_download_frame:
  "store_download io cm name url result fs = (r, fs') \<Longrightarrow> p \<notin> cache_paths cm name \<Longrightarrow> fs' p = fs p"
  by (auto simp: store_download_def Let_def file_defs cache_paths_def split: write_outcome.splits option.splits)

lemma store_download_outcome:
  assumes "store_download io cm name url result fs = (r, fs')"
  shows "dlr_status r = Updated \<and> fs' (cache_path cm name) = Some (cdr_body result)
           \<and> fs' (meta_path cm name) = Some (meta_text io (download_metadata io url result))
         \<or> dlr_status r = DownloadFailed \<and> fs' (meta_path cm name) = fs (meta_path cm name)
           \<and> (fs' (cache_path cm name) = fs (cache_path cm name)
              \<or> cio_rename io (meta_path cm name) \<noteq> None \<and> fs' (cache_path cm name) = Some (cdr_body result))"
  using assms cache_paths_distinct [of cm name name]
  by (auto simp: store_download_def Let_def file_defs download_failed_def download_done_def download_metadata_def
      split: write_outcome.splits option.splits)

lemma cache_download_cases:
  assumes "cache_download io cm name url fwmark fs = (r, fs')"
  obtains (kept) "fs' = fs" "dlr_status r \<noteq> Updated"
    | (stored) result where "cdr_not_modified result = False" "store_download io cm name url result fs = (r, fs')"
      "download_conditional (cio_transport io) (cm_client cm) url (value_or (cmd_etag (load_metadata io cm fs name)) [])
         (value_or (cmd_last_modified (load_metadata io cm fs name)) []) fwmark = Inr result"
  using assms by (auto simp: cache_download_def Let_def download_failed_def download_done_def split: sum.splits if_splits)

lemma cache_download_effect:
  assumes "cache_download io cm name url fwmark fs = (r, fs')"
  shows "(p \<notin> cache_paths cm name \<longrightarrow> fs' p = fs p) \<and>
    (dlr_status r \<noteq> Updated \<longrightarrow> fs' (meta_path cm name) = fs (meta_path cm name) \<and>
      (fs' (cache_path cm name) = fs (cache_path cm name) \<or> cio_rename io (meta_path cm name) \<noteq> None))"
  using assms
proof (cases rule: cache_download_cases)
  case (stored result)
  then show ?thesis using store_download_frame [OF stored(2), of p] store_download_outcome [OF stored(2)] by auto
qed auto


lemma record_download_changed:
  "set (rfr_changed_lists r) \<subseteq> set (rfr_changed_lists (record_download relevant dns_relevant name status r))"
  "status = Updated \<Longrightarrow> name \<in> set (rfr_changed_lists (record_download relevant dns_relevant name status r))"
  by (auto simp: record_download_def split: download_status.splits)

lemma download_lists_changed:
  "download_lists io cm marks only_uncached relevant targets dns_relevant ls r fs = (r', fs') \<Longrightarrow>
   set (rfr_changed_lists r) \<subseteq> set (rfr_changed_lists r') \<and>
   (fs' (cache_path cm n) \<noteq> fs (cache_path cm n) \<longrightarrow> n \<in> set (rfr_changed_lists r') \<or> cio_rename io (meta_path cm n) \<noteq> None)"
proof (induction io cm marks only_uncached relevant targets dns_relevant ls r fs arbitrary: r' fs' rule: download_lists.induct)
  case (2 io cm marks only_uncached relevant targets dns_relevant name list_cfg rest r fs)
  show ?case
  proof (cases "lst_url list_cfg")
    case None
    then show ?thesis using 2 by simp
  next
    case (Some url)
    show ?thesis
    proof (cases "targets \<noteq> None \<and> \<not> in_scope targets name \<or> only_uncached \<and> has_cache cm fs name")
      case True
      then show ?thesis using 2 Some by (auto split: if_splits)
    next
      case False
      obtain d fs1 where d: "cache_download io cm name url (list_fwmark marks list_cfg) fs = (d, fs1)" by fastforce
      let ?r1 = "record_download relevant dns_relevant name (dlr_status d) (r\<lparr>rfr_refreshed_lists := rfr_refreshed_lists r @ [name]\<rparr>)"
      have run: "download_lists io cm marks only_uncached relevant targets dns_relevant rest ?r1 fs1 = (r', fs')"
        using 2(5) Some False d by (auto split: if_splits)
      note rec = record_download_changed [where relevant = relevant and dns_relevant = dns_relevant and name = name and status = "dlr_status d"]
      have ih: "set (rfr_changed_lists ?r1) \<subseteq> set (rfr_changed_lists r') \<and>
          (fs' (cache_path cm n) \<noteq> fs1 (cache_path cm n) \<longrightarrow> n \<in> set (rfr_changed_lists r') \<or> cio_rename io (meta_path cm n) \<noteq> None)"
        using 2(4) [OF Some] False d run by auto
      have "n \<in> set (rfr_changed_lists ?r1) \<or> cio_rename io (meta_path cm n) \<noteq> None" if "fs1 (cache_path cm n) \<noteq> fs (cache_path cm n)"
      proof (cases "n = name")
        case True
        then show ?thesis using cache_download_effect [OF d, of "[]"] that rec(2) by blast
      next
        case False
        then have "cache_path cm n \<notin> cache_paths cm name"
          using cache_paths_distinct [of cm n name] by (simp add: cache_paths_def cache_path_inj)
        then show ?thesis using cache_download_effect [OF d, of "cache_path cm n"] that by blast
      qed
      then show ?thesis using ih rec(1) [where r = "r\<lparr>rfr_refreshed_lists := rfr_refreshed_lists r @ [name]\<rparr>"] by auto
    qed
  qed
qed simp

lemma download_lists_relevant:
  "download_lists io cm marks only_uncached relevant targets dns_relevant ls r fs = (r', fs') \<Longrightarrow>
   rfr_relevant_changed_lists r = filter (in_scope relevant) (rfr_changed_lists r) \<Longrightarrow>
   rfr_relevant_changed_lists r' = filter (in_scope relevant) (rfr_changed_lists r')"
  by (induction io cm marks only_uncached relevant targets dns_relevant ls r fs rule: download_lists.induct)
    (auto simp: record_download_def split: option.splits if_splits prod.splits download_status.splits)


definition sample_cache :: cache_manager where
  "sample_cache = \<lparr>cm_dir = ''/c'', cm_client = \<lparr>hc_timeout = 10, hc_user_agent = ''keen-pbr'', hc_max_response_size = 100\<rparr>\<rparr>"

text \<open>A server that answers 304 to a request with a validator, and a body otherwise; files can be written, except the metadata
  if \<open>broken_meta\<close>.\<close>

definition sample_cache_io :: "bool \<Rightarrow> cache_io" where
  "sample_cache_io broken_meta = \<lparr>cio_transport = \<lambda>rq. Inr (if hrq_headers rq \<noteq> []
       then \<lparr>hrs_status_code = 304, hrs_body = [], hrs_headers = []\<rparr>
       else \<lparr>hrs_status_code = 200, hrs_body = ''1.1.1.1'', hrs_headers = [(''etag'', ''v1'')]\<rparr>),
     cio_write = \<lambda>p. Written, cio_rename = \<lambda>p. if broken_meta \<and> p = ''/c/a.meta.json'' then Some ''denied'' else None,
     cio_now_iso = ''now'',
     cio_parse = \<lambda>t. if t = ''{}'' then Inr (JObject [(''etag'', JString ''v0''), (''url'', JString ''http://old/'')])
                  else Inl (JsonException t),
     cio_dump = \<lambda>j. []\<rparr>"

definition sample_lists_config :: config where
  "sample_lists_config = empty_config\<lparr>
     cfg_lists := Some [(''a'', \<lparr>lst_detour = None, lst_domains = None, lst_file = None, lst_ip_cidrs = None, lst_ttl_ms = None,
                                lst_url = Some ''http://h/''\<rparr>)],
     cfg_dns := Some (default_dns_config\<lparr>dns_rules := Some [\<lparr>dr_allow_domain_rebinding = None, dr_enabled = None, dr_list = [''a''],
        dr_server = ''s''\<rparr>]\<rparr>)\<rparr>"

lemmas sample_cache_defs = sample_cache_def sample_cache_io_def cache_download_def store_download_def load_metadata_def
  download_conditional_def perform_def checked_body_def throw_for_status_def request_for_def cache_path_def meta_path_def
  tmp_suffix_def file_defs cache_contents_equal_def download_done_def download_failed_def empty_metadata_def Let_def

lemma sample_download:
  "cache_download (sample_cache_io False) sample_cache ''a'' ''http://h/'' 0 (\<lambda>p. None) =
     (download_done Updated, [''/c/a.txt'' \<mapsto> ''1.1.1.1'', ''/c/a.meta.json'' \<mapsto> [CHR 0x0a]])"
  by (simp add: sample_cache_defs meta_text_def fun_eq_iff)



section \<open>Deviations\<close>

text \<open>A download that fails can overwrite the cached body: when the metadata cannot be renamed.\<close>

lemma failed_download_overwrites:
  "\<exists>fs'. cache_download (sample_cache_io True) sample_cache ''a'' ''http://h/'' 0 [''/c/a.txt'' \<mapsto> ''2.2.2.2''] =
     (download_failed ''denied'' None, fs') \<and> fs' ''/c/a.txt'' = Some ''1.1.1.1''"
  by (simp add: sample_cache_defs meta_text_def)

text \<open>The validators recorded for one URL are sent with the request for another: a list whose URL changed keeps the old
  contents when the new server answers that nothing changed.\<close>

lemma validators_of_other_url:
  "cache_download (sample_cache_io False) sample_cache ''a'' ''http://new/'' 0
     [''/c/a.txt'' \<mapsto> ''2.2.2.2'', ''/c/a.meta.json'' \<mapsto> ''{}''] =
   (download_done NotModified, [''/c/a.txt'' \<mapsto> ''2.2.2.2'', ''/c/a.meta.json'' \<mapsto> ''{}''])"
  by (simp add: sample_cache_defs from_json_cache_metadata_def get_stack_optional_def json_at_def get_optional_def)

end
