(* ===== verification/Daemon_Control.thy ===== *)
theory Daemon_Control
  imports Lifecycle Resolver_Sync List_Service Config_Validation
begin

text \<open>
  The control plane of the daemon: how routing, firewall and resolver are set up, torn down and changed
  (\<^verbatim>\<open>src/daemon/daemon_runtime.cpp\<close>), how a configuration is applied and committed and the runtime is started, stopped
  and restarted on request (\<^verbatim>\<open>src/daemon/daemon_api.cpp\<close>), how the daemon starts, reloads and shuts down
  (\<^verbatim>\<open>src/daemon/daemon_core.cpp\<close>) and how it follows the resolver (\<^verbatim>\<open>src/daemon/daemon_resolver.cpp\<close>). Every function is an
  effect on the state of the daemon that may throw. What the functions call in the other components is a record of
  effects on the rest of the world: the components are modelled in their own theories, and here nothing is assumed of
  them. Tasks that the code hands from one thread to the next run one after the other.
\<close>

section \<open>Effects\<close>

definition bind_eff :: "('s, 'a) eff \<Rightarrow> ('a \<Rightarrow> ('s, 'b) eff) \<Rightarrow> ('s, 'b) eff" where
  "bind_eff m f s = (case m s of (Inl e, s') \<Rightarrow> (Inl e, s') | (Inr a, s') \<Rightarrow> f a s')"

definition catch_eff :: "('s, 'a) eff \<Rightarrow> (cpp_error \<Rightarrow> ('s, 'a) eff) \<Rightarrow> ('s, 'a) eff" where
  "catch_eff m handler s = (case m s of (Inl e, s') \<Rightarrow> handler e s' | (Inr a, s') \<Rightarrow> (Inr a, s'))"

definition return_eff :: "'a \<Rightarrow> ('s, 'a) eff" where
  "return_eff a s = (Inr a, s)"

definition throw_eff :: "cpp_error \<Rightarrow> ('s, 'a) eff" where
  "throw_eff e s = (Inl e, s)"

definition modify_eff :: "('s \<Rightarrow> 's) \<Rightarrow> ('s, unit) eff" where
  "modify_eff f s = (Inr (), f s)"

definition result_eff :: "'a result \<Rightarrow> ('s, 'a) eff" where
  "result_eff r s = (r, s)"

definition reading :: "('s \<Rightarrow> ('s, 'a) eff) \<Rightarrow> ('s, 'a) eff" where
  "reading f s = f s s"

definition when_eff :: "bool \<Rightarrow> ('s, unit) eff \<Rightarrow> ('s, unit) eff" where
  "when_eff b m = (if b then m else return_eff ())"

text \<open>The statements of a block, one after the other.\<close>

definition steps :: "('s, unit) eff list \<Rightarrow> ('s, unit) eff" where
  "steps = for_each (\<lambda>m. m)"

section \<open>The daemon and its surroundings\<close>

type_synonym marks = "(string, u32) smap"

record 'w daemon_ops =
  do_static_routing :: "config \<Rightarrow> marks \<Rightarrow> ('w, unit) eff"
  do_firewall :: "config \<Rightarrow> marks \<Rightarrow> firewall_apply_mode \<Rightarrow> ('w, unit) eff"
  do_keenetic_refresh :: "config \<Rightarrow> 'w \<Rightarrow> bool \<times> 'w"
  do_expected_hash :: "config \<Rightarrow> ('w, string) eff"
  do_setup_dns_probe :: "config \<Rightarrow> ('w, unit) eff"
  do_teardown_dns_probe :: "('w, unit) eff"
  do_register_urltests :: "config \<Rightarrow> marks \<Rightarrow> ('w, unit) eff"
  do_clear_urltests :: "'w \<Rightarrow> 'w"
  do_select_urltest :: "string \<Rightarrow> string \<Rightarrow> 'w \<Rightarrow> 'w"
  do_delete_mark :: "u32 \<Rightarrow> u32 \<Rightarrow> 'w \<Rightarrow> bool \<times> 'w"
  do_clear_rules :: "('w, unit) eff"
  do_clear_routes :: "('w, unit) eff"
  do_cleanup_firewall :: "('w, unit) eff"
  do_next_autoupdate :: "config \<Rightarrow> ('w, unit) eff"
  do_register_interface_monitor :: "('w, unit) eff"
  do_hook :: "string list \<Rightarrow> ('w, int) eff"
  do_stream_wait :: "'w \<Rightarrow> bool \<times> 'w"
  do_confirm :: "string \<Rightarrow> string \<Rightarrow> int \<Rightarrow> 'w \<Rightarrow> (string + unit) \<times> 'w"
  do_download :: "config \<Rightarrow> marks \<Rightarrow> ('w, refresh_result) eff"
  do_refresh :: "config \<Rightarrow> marks \<Rightarrow> string set option \<Rightarrow> ('w, refresh_result) eff"
  do_read_config :: "('w, string) eff"
  do_write_config :: "string \<Rightarrow> ('w, unit) eff"
  do_post :: "'w \<Rightarrow> bool \<times> 'w"
  do_parse :: "string \<Rightarrow> json result"
  do_env :: validation_env
  do_hook_path :: string
  do_now :: "'w \<Rightarrow> int"

record published_state =
  pub_runtime_state :: runtime_state
  pub_reason :: string
  pub_active :: bool
  pub_resolver :: sync_snapshot

datatype config_operation_state = ConfigIdle | ConfigSaving | ConfigReloading

record 'w daemon =
  dm_machine :: runtime_machine
  dm_active :: bool
  dm_generation :: u64
  dm_config :: config
  dm_marks :: marks
  dm_apply_started_ts :: int
  dm_sync :: resolver_sync
  dm_metadata :: resolver_metadata
  dm_store :: config_store
  dm_lifecycle :: lifecycle_coordinator
  dm_lease :: operation_lease
  dm_config_op :: config_operation_state
  dm_lists_inflight :: bool
  dm_lists_task :: bool
  dm_keenetic_task :: bool
  dm_actual_task :: bool
  dm_retry_task :: bool
  dm_probe_inflight :: bool
  dm_probes :: "(string \<times> u64) list"
  dm_published :: "published_state option"
  dm_world :: 'w

definition world_eff :: "('w, 'a) eff \<Rightarrow> ('w daemon, 'a) eff" where
  "world_eff m d = (case m (dm_world d) of (r, w) \<Rightarrow> (r, d\<lparr>dm_world := w\<rparr>))"

definition asking :: "('w \<Rightarrow> 'a \<times> 'w) \<Rightarrow> ('w daemon, 'a) eff" where
  "asking f d = (case f (dm_world d) of (a, w) \<Rightarrow> (Inr a, d\<lparr>dm_world := w\<rparr>))"

section \<open>Publication and states\<close>

definition publish_runtime_state :: "'w daemon_ops \<Rightarrow> ('w daemon, unit) eff" where
  "publish_runtime_state ops = modify_eff (\<lambda>d. d\<lparr>dm_published := Some
     \<lparr>pub_runtime_state = rm_state (dm_machine d), pub_reason = rm_reason (dm_machine d), pub_active = dm_active d,
      pub_resolver = resolver_snapshot (dm_sync d) (do_now ops (dm_world d))\<rparr>\<rparr>)"

definition transition_runtime_or_throw :: "runtime_state \<Rightarrow> string \<Rightarrow> ('w daemon, unit) eff" where
  "transition_runtime_or_throw next reason d =
     (case transition next reason (dm_machine d) of
        (Inl message, m) \<Rightarrow> (Inl (DaemonError message), d)
      | (Inr _, m) \<Rightarrow> (Inr (), d\<lparr>dm_machine := m\<rparr>))"

text \<open>A transition whose failure the caller ignores.\<close>

definition try_transition :: "runtime_state \<Rightarrow> string \<Rightarrow> ('w daemon, unit) eff" where
  "try_transition next reason = modify_eff (\<lambda>d. d\<lparr>dm_machine := snd (transition next reason (dm_machine d))\<rparr>)"

definition bump_generation :: "('w daemon, unit) eff" where
  "bump_generation = modify_eff (\<lambda>d. d\<lparr>dm_generation := dm_generation d + 1\<rparr>)"

definition system_resolver_of :: "config \<Rightarrow> system_resolver option" where
  "system_resolver_of cfg = (case cfg_dns cfg of None \<Rightarrow> None | Some dns \<Rightarrow> dns_system_resolver dns)"

definition has_system_resolver :: "config \<Rightarrow> bool" where
  "has_system_resolver cfg =
     (case system_resolver_of cfg of None \<Rightarrow> False | Some r \<Rightarrow> sr_address r \<noteq> [])"

section \<open>The resolver\<close>

definition dns_config_uses_keenetic_server :: "dns_config option \<Rightarrow> bool" where
  "dns_config_uses_keenetic_server dns_cfg_opt =
     (case dns_cfg_opt of
        None \<Rightarrow> False
      | Some dns \<Rightarrow> list_ex (\<lambda>server. value_or (srv_type server) DnsStatic = DnsKeenetic) (value_or (dns_servers dns) []))"

definition update_resolver_config_hash :: "'w daemon_ops \<Rightarrow> ('w daemon, unit) eff" where
  "update_resolver_config_hash ops = reading (\<lambda>d.
     bind_eff (world_eff (do_expected_hash ops (dm_config d))) (\<lambda>hash.
       modify_eff (\<lambda>d.
         let sync1 = sync_expected_hash_updated hash (dm_sync d);
             sync2 = (if 0 < dm_apply_started_ts d then sync_apply_started (dm_apply_started_ts d) hash sync1 else sync1)
         in d\<lparr>dm_sync := sync2, dm_metadata := snd (metadata_reconcile hash (dm_metadata d))\<rparr>)))"

definition build_system_resolver_hook_args :: "string \<Rightarrow> config \<Rightarrow> string \<Rightarrow> string list" where
  "build_system_resolver_hook_args hook_path cfg action =
     (if system_resolver_of cfg = None then [] else if action = [] then [] else [hook_path, action])"

definition run_system_resolver_hook :: "'w daemon_ops \<Rightarrow> string \<Rightarrow> ('w daemon, bool) eff" where
  "run_system_resolver_hook ops action = reading (\<lambda>d.
     let args = build_system_resolver_hook_args (do_hook_path ops) (dm_config d) action in
     if args = [] then return_eff True
     else bind_eff (world_eff (do_hook ops args)) (\<lambda>exit_code. return_eff (exit_code = 0)))"

definition run_system_resolver_hook_reload :: "'w daemon_ops \<Rightarrow> ('w daemon, bool) eff" where
  "run_system_resolver_hook_reload ops =
     bind_eff (run_system_resolver_hook ops ''reload'') (\<lambda>ok.
       if \<not> ok then return_eff False
       else bind_eff (asking (do_stream_wait ops)) (\<lambda>streamed.
         if \<not> streamed then return_eff False
         else bind_eff (update_resolver_config_hash ops) (\<lambda>_. return_eff True)))"

definition wait_for_resolver_config_hash_confirmation ::
    "'w daemon_ops \<Rightarrow> config \<Rightarrow> string \<Rightarrow> int \<Rightarrow> ('w daemon, string + unit) eff" where
  "wait_for_resolver_config_hash_confirmation ops candidate expected_hash apply_started_ts =
     (case system_resolver_of candidate of
        None \<Rightarrow> return_eff (Inr ())
      | Some r \<Rightarrow> if sr_address r = [] then return_eff (Inr ())
                 else asking (do_confirm ops (sr_address r) expected_hash apply_started_ts))"

definition reset_resolver_actual_state :: "('w daemon, unit) eff" where
  "reset_resolver_actual_state = modify_eff (\<lambda>d.
     d\<lparr>dm_sync := sync_resolver_not_configured (dm_sync d), dm_metadata := metadata_clear_actual (dm_metadata d)\<rparr>)"

text \<open>A probe is handed to the worker unless one is under way.\<close>

definition refresh_resolver_config_hash_actual_async :: "'w daemon_ops \<Rightarrow> ('w daemon, unit) eff" where
  "refresh_resolver_config_hash_actual_async ops = reading (\<lambda>d.
     case (if dm_active d then system_resolver_of (dm_config d) else None) of
       None \<Rightarrow>
         steps [if \<not> dm_active d then modify_eff (\<lambda>d. d\<lparr>dm_sync := sync_runtime_stopped (dm_sync d)\<rparr>)
                else reset_resolver_actual_state,
                publish_runtime_state ops]
     | Some r \<Rightarrow>
         (if sr_address r = [] then steps [reset_resolver_actual_state, publish_runtime_state ops]
          else if dm_probe_inflight d then return_eff ()
          else bind_eff (asking (do_post ops)) (\<lambda>enqueued.
            when_eff enqueued (modify_eff (\<lambda>d. d\<lparr>dm_probe_inflight := True,
              dm_probes := dm_probes d @ [(sr_address r, dm_generation d)]\<rparr>)))))"

definition maybe_schedule_resolver_config_hash_actual_refresh :: "'w daemon_ops \<Rightarrow> ('w daemon, unit) eff" where
  "maybe_schedule_resolver_config_hash_actual_refresh ops = reading (\<lambda>d.
     if dm_probe_inflight d then return_eff () else refresh_resolver_config_hash_actual_async ops)"

text \<open>The result of a probe, on the control thread.\<close>

definition commit_resolver_hash_probe_result ::
    "'w daemon_ops \<Rightarrow> string \<Rightarrow> u64 \<Rightarrow> hash_probe_result option \<Rightarrow> int option \<Rightarrow> ('w daemon, unit) eff" where
  "commit_resolver_hash_probe_result ops resolver_addr generation probe_result probe_completed_ts =
     steps [modify_eff (\<lambda>d. d\<lparr>dm_probe_inflight := False, dm_probes := remove1 (resolver_addr, generation) (dm_probes d)\<rparr>),
       reading (\<lambda>d.
         when_eff (generation = dm_generation d)
           (steps [
             (case probe_result of
                None \<Rightarrow> return_eff ()
              | Some r \<Rightarrow> modify_eff (\<lambda>d. d\<lparr>dm_sync :=
                  (if hpr_status r = HpSuccess
                   then sync_probe_succeeded (txv_hash (hpr_parsed_value r)) (txv_ts (hpr_parsed_value r)) probe_completed_ts (dm_sync d)
                   else sync_probe_failed (hpr_status r) probe_completed_ts (dm_sync d))\<rparr>)),
             modify_eff (\<lambda>d.
               let snapshot = resolver_snapshot (dm_sync d) (do_now ops (dm_world d))
               in d\<lparr>dm_metadata := metadata_observe_actual (ss_actual_hash snapshot) (dm_metadata d),
                    dm_retry_task := (if ss_sync_state snapshot = Some CONVERGING then True else dm_retry_task d)\<rparr>),
             publish_runtime_state ops]))]"

text \<open>The retry task, when it fires.\<close>

definition resolver_retry_fires :: "'w daemon_ops \<Rightarrow> ('w daemon, unit) eff" where
  "resolver_retry_fires ops =
     steps [modify_eff (\<lambda>d. d\<lparr>dm_retry_task := False\<rparr>), maybe_schedule_resolver_config_hash_actual_refresh ops]"

definition schedule_keenetic_dns_refresh :: "('w daemon, unit) eff" where
  "schedule_keenetic_dns_refresh = modify_eff (\<lambda>d. d\<lparr>dm_keenetic_task := dns_config_uses_keenetic_server (cfg_dns (dm_config d))\<rparr>)"

definition refresh_keenetic_dns_cache :: "'w daemon_ops \<Rightarrow> ('w daemon, bool) eff" where
  "refresh_keenetic_dns_cache ops = reading (\<lambda>d.
     if \<not> dns_config_uses_keenetic_server (cfg_dns (dm_config d)) then return_eff False
     else asking (do_keenetic_refresh ops (dm_config d)))"

definition keenetic_refresh_fires :: "'w daemon_ops \<Rightarrow> ('w daemon, unit) eff" where
  "keenetic_refresh_fires ops = reading (\<lambda>d.
     when_eff (dm_active d) (bind_eff (refresh_keenetic_dns_cache ops) (\<lambda>updated.
       when_eff updated (steps [
         modify_eff (\<lambda>d. d\<lparr>dm_apply_started_ts := do_now ops (dm_world d)\<rparr>),
         update_resolver_config_hash ops,
         bind_eff (run_system_resolver_hook_reload ops) (\<lambda>_. return_eff ()),
         refresh_resolver_config_hash_actual_async ops,
         publish_runtime_state ops]))))"

section \<open>Setting up and tearing down\<close>

definition reconcile_static_routing_now :: "'w daemon_ops \<Rightarrow> ('w daemon, unit) eff" where
  "reconcile_static_routing_now ops = reading (\<lambda>d. world_eff (do_static_routing ops (dm_config d) (dm_marks d)))"

definition apply_firewall :: "'w daemon_ops \<Rightarrow> firewall_apply_mode \<Rightarrow> ('w daemon, unit) eff" where
  "apply_firewall ops mode = reading (\<lambda>d. world_eff (do_firewall ops (dm_config d) (dm_marks d) mode))"

definition setup_dns_probe :: "'w daemon_ops \<Rightarrow> ('w daemon, unit) eff" where
  "setup_dns_probe ops = reading (\<lambda>d. world_eff (do_setup_dns_probe ops (dm_config d)))"

definition register_urltest_outbounds :: "'w daemon_ops \<Rightarrow> ('w daemon, unit) eff" where
  "register_urltest_outbounds ops = reading (\<lambda>d. world_eff (do_register_urltests ops (dm_config d) (dm_marks d)))"

definition clear_urltests :: "'w daemon_ops \<Rightarrow> ('w daemon, unit) eff" where
  "clear_urltests ops = modify_eff (\<lambda>d. d\<lparr>dm_world := do_clear_urltests ops (dm_world d)\<rparr>)"

text \<open>The connections of every mark, in the order of a \<^verbatim>\<open>std::set\<close>; failures are only logged.\<close>

definition delete_owned_marks :: "'w daemon_ops \<Rightarrow> ('w daemon, unit) eff" where
  "delete_owned_marks ops = reading (\<lambda>d.
     bind_eff (result_eff (fwmark_mask_value (value_or (cfg_fwmark (dm_config d)) default_fwmark_config))) (\<lambda>mark_mask.
       steps (map (\<lambda>mark. bind_eff (asking (do_delete_mark ops mark mark_mask)) (\<lambda>_. return_eff ()))
         (sorted_list_of_set (set (map snd (dm_marks d)))))))"

definition schedule_lists_autoupdate :: "'w daemon_ops \<Rightarrow> ('w daemon, unit) eff" where
  "schedule_lists_autoupdate ops = reading (\<lambda>d.
     case cfg_lists_autoupdate (dm_config d) of
       None \<Rightarrow> return_eff ()
     | Some lau \<Rightarrow>
         when_eff (value_or (lau_enabled lau) False)
           (steps [world_eff (do_next_autoupdate ops (dm_config d)), modify_eff (\<lambda>d. d\<lparr>dm_lists_task := True\<rparr>)]))"

definition teardown_routing_and_firewall :: "'w daemon_ops \<Rightarrow> bool \<Rightarrow> ('w daemon, unit) eff" where
  "teardown_routing_and_firewall ops explicit_stop = reading (\<lambda>d.
     if \<not> dm_active d then return_eff ()
     else steps [
       bump_generation,
       clear_urltests ops,
       delete_owned_marks ops,
       world_eff (do_clear_rules ops),
       world_eff (do_clear_routes ops),
       world_eff (do_cleanup_firewall ops),
       modify_eff (\<lambda>d. d\<lparr>dm_keenetic_task := False\<rparr>),
       modify_eff (\<lambda>d. d\<lparr>dm_active := False\<rparr>),
       transition_runtime_or_throw (if explicit_stop then stopped else applying)
         (if explicit_stop then ''runtime stopped'' else ''runtime restarting''),
       publish_runtime_state ops])"

definition setup_routing_and_firewall :: "'w daemon_ops \<Rightarrow> ('w daemon, unit) eff" where
  "setup_routing_and_firewall ops = reading (\<lambda>d.
     if dm_active d then return_eff ()
     else steps [
       bump_generation,
       reconcile_static_routing_now ops,
       bind_eff (refresh_keenetic_dns_cache ops) (\<lambda>_. return_eff ()),
       apply_firewall ops Destructive,
       modify_eff (\<lambda>d. d\<lparr>dm_active := True\<rparr>),
       reading (\<lambda>d. when_eff (rm_state (dm_machine d) \<noteq> applying) (transition_runtime_or_throw applying ''runtime starting'')),
       publish_runtime_state ops,
       modify_eff (\<lambda>d. d\<lparr>dm_apply_started_ts := do_now ops (dm_world d)\<rparr>),
       update_resolver_config_hash ops,
       setup_dns_probe ops])"

definition complete_running_runtime :: "'w daemon_ops \<Rightarrow> string \<Rightarrow> ('w daemon, unit) eff" where
  "complete_running_runtime ops reason = steps [
     register_urltest_outbounds ops,
     schedule_keenetic_dns_refresh,
     schedule_lists_autoupdate ops,
     refresh_resolver_config_hash_actual_async ops,
     transition_runtime_or_throw running reason,
     publish_runtime_state ops]"

text \<open>Reloading the resolver and waiting until it serves the configuration expected now.\<close>

definition reload_and_confirm_resolver :: "'w daemon_ops \<Rightarrow> ('w daemon, unit) eff" where
  "reload_and_confirm_resolver ops = reading (\<lambda>d.
     when_eff (has_system_resolver (dm_config d))
       (bind_eff (run_system_resolver_hook_reload ops) (\<lambda>ok.
          if \<not> ok then throw_eff (DaemonError ''system resolver reload hook failed'')
          else reading (\<lambda>d.
            bind_eff (wait_for_resolver_config_hash_confirmation ops (dm_config d) (rs_expected_hash (dm_sync d))
                        (dm_apply_started_ts d)) (\<lambda>confirmed.
              case confirmed of Inl error \<Rightarrow> throw_eff (DaemonError error) | Inr _ \<Rightarrow> return_eff ())))))"

definition start_routing_runtime :: "'w daemon_ops \<Rightarrow> ('w daemon, unit) eff" where
  "start_routing_runtime ops =
     steps [setup_routing_and_firewall ops, reload_and_confirm_resolver ops, complete_running_runtime ops ''runtime started'']"

definition deactivate_resolver :: "'w daemon_ops \<Rightarrow> string \<Rightarrow> ('w daemon, unit) eff" where
  "deactivate_resolver ops message = bind_eff (run_system_resolver_hook ops ''deactivate'') (\<lambda>ok.
     if ok then return_eff () else throw_eff (DaemonError message))"

definition stop_routing_runtime :: "'w daemon_ops \<Rightarrow> ('w daemon, unit) eff" where
  "stop_routing_runtime ops = steps [
     teardown_routing_and_firewall ops True,
     reading (\<lambda>d. when_eff (has_system_resolver (dm_config d)) (deactivate_resolver ops ''System resolver deactivate hook failed'')),
     refresh_resolver_config_hash_actual_async ops]"

definition restart_routing_runtime :: "'w daemon_ops \<Rightarrow> ('w daemon, unit) eff" where
  "restart_routing_runtime ops = reading (\<lambda>d.
     if \<not> dm_active d then throw_eff (DaemonError ''Routing runtime is stopped'')
     else steps [
       teardown_routing_and_firewall ops False,
       setup_routing_and_firewall ops,
       reload_and_confirm_resolver ops,
       complete_running_runtime ops ''runtime restarted''])"

text \<open>The list-only reconciliation: whatever it throws, the runtime is reported broken first.\<close>

definition reconcile_lists_only :: "'w daemon_ops \<Rightarrow> bool \<Rightarrow> ('w daemon, unit) eff" where
  "reconcile_lists_only ops reload_resolver = reading (\<lambda>d.
     if \<not> dm_active d then throw_eff (DaemonError ''list-only reconcile requires an active routing runtime'')
     else catch_eff
       (steps [
         apply_firewall ops StaticSetsOnly,
         when_eff reload_resolver (steps [
           update_resolver_config_hash ops,
           bind_eff (run_system_resolver_hook_reload ops) (\<lambda>ok.
             if ok then return_eff () else throw_eff (DaemonError ''system resolver reload hook failed''))]),
         publish_runtime_state ops])
       (\<lambda>e. bind_eff (steps [try_transition broken ''list-only reconcile failed'', publish_runtime_state ops])
         (\<lambda>_. throw_eff e)))"

definition refresh_iproute_and_firewall_runtime :: "'w daemon_ops \<Rightarrow> ('w daemon, unit) eff" where
  "refresh_iproute_and_firewall_runtime ops = catch_eff
     (steps [reconcile_static_routing_now ops, apply_firewall ops PreserveSets, publish_runtime_state ops])
     (\<lambda>e. return_eff ())"

definition deletes_conntrack_on_switch :: "config \<Rightarrow> string \<Rightarrow> bool" where
  "deletes_conntrack_on_switch cfg urltest_tag = list_ex (\<lambda>ob. ob_tag ob = urltest_tag \<and>
     value_or (ob_conntrack_on_switch ob) ConntrackPreserve = ConntrackDelete) (value_or (cfg_outbounds cfg) [])"

definition handle_urltest_selection_change :: "'w daemon_ops \<Rightarrow> string \<Rightarrow> string \<Rightarrow> ('w daemon, unit) eff" where
  "handle_urltest_selection_change ops urltest_tag new_child_tag = reading (\<lambda>d.
     steps [
       modify_eff (\<lambda>d. d\<lparr>dm_world := do_select_urltest ops urltest_tag new_child_tag (dm_world d)\<rparr>),
       catch_eff
         (steps [
           reconcile_static_routing_now ops,
           apply_firewall ops PreserveSets,
           when_eff (deletes_conntrack_on_switch (dm_config d) urltest_tag)
             (bind_eff (result_eff (fwmark_mask_value (value_or (cfg_fwmark (dm_config d)) default_fwmark_config))) (\<lambda>mark_mask.
               case map_of (dm_marks d) urltest_tag of
                 None \<Rightarrow> return_eff ()
               | Some mark \<Rightarrow> bind_eff (asking (do_delete_mark ops mark mark_mask)) (\<lambda>_. return_eff ()))),
           publish_runtime_state ops])
         (\<lambda>e. return_eff ())])"

section \<open>Applying a configuration\<close>

record prepared_inputs =
  pri_config :: config
  pri_marks :: marks
  pri_lists_refreshed :: bool

definition prepare_runtime_inputs :: "'w daemon_ops \<Rightarrow> config \<Rightarrow> bool \<Rightarrow> ('w daemon, prepared_inputs) eff" where
  "prepare_runtime_inputs ops cfg with_lists =
     bind_eff (result_eff (validate_config (do_env ops) cfg)) (\<lambda>_.
     bind_eff (result_eff (allocate_outbound_marks (value_or (cfg_fwmark cfg) default_fwmark_config)
                             (value_or (cfg_outbounds cfg) []))) (\<lambda>marks.
       if \<not> with_lists then return_eff \<lparr>pri_config = cfg, pri_marks = marks, pri_lists_refreshed = False\<rparr>
       else reading (\<lambda>d.
         bind_eff (world_eff (do_download ops cfg (cs_active_marks (dm_store d)))) (\<lambda>refresh.
           if rfr_failed_lists refresh \<noteq> []
           then throw_eff (DaemonError (''Failed to prepare remote list(s): '' @ format_list_names (rfr_failed_lists refresh)))
           else return_eff \<lparr>pri_config = cfg, pri_marks = marks, pri_lists_refreshed = True\<rparr>))))"

definition reconcile_prepared_runtime :: "'w daemon_ops \<Rightarrow> prepared_inputs \<Rightarrow> ('w daemon, unit) eff" where
  "reconcile_prepared_runtime ops prepared = steps [
     bump_generation,
     modify_eff (\<lambda>d. d\<lparr>dm_lists_task := False, dm_keenetic_task := False, dm_actual_task := False, dm_retry_task := False\<rparr>),
     modify_eff (\<lambda>d. d\<lparr>dm_marks := pri_marks prepared, dm_config := pri_config prepared\<rparr>),
     bind_eff (result_eff (fwmark_mask_value (value_or (cfg_fwmark (pri_config prepared)) default_fwmark_config))) (\<lambda>_. return_eff ()),
     world_eff (do_teardown_dns_probe ops),
     clear_urltests ops,
     reconcile_static_routing_now ops,
     bind_eff (refresh_keenetic_dns_cache ops) (\<lambda>_. return_eff ()),
     apply_firewall ops PreserveSets,
     modify_eff (\<lambda>d. d\<lparr>dm_active := True\<rparr>),
     transition_runtime_or_throw applying ''config apply'',
     modify_eff (\<lambda>d. d\<lparr>dm_apply_started_ts := do_now ops (dm_world d)\<rparr>),
     update_resolver_config_hash ops,
     setup_dns_probe ops,
     publish_runtime_state ops]"

definition commit_active_config :: "('w daemon, unit) eff" where
  "commit_active_config = modify_eff (\<lambda>d. d\<lparr>dm_store := replace_active (dm_config d) (dm_marks d) (dm_store d)\<rparr>)"

definition apply_prepared_runtime_inputs :: "'w daemon_ops \<Rightarrow> prepared_inputs \<Rightarrow> bool \<Rightarrow> ('w daemon, unit) eff" where
  "apply_prepared_runtime_inputs ops prepared publish_active_snapshot = steps [
     reconcile_prepared_runtime ops prepared,
     reload_and_confirm_resolver ops,
     complete_running_runtime ops ''config apply complete'',
     when_eff publish_active_snapshot (steps [commit_active_config, publish_runtime_state ops])]"

definition apply_config :: "'w daemon_ops \<Rightarrow> config \<Rightarrow> bool \<Rightarrow> ('w daemon, unit) eff" where
  "apply_config ops cfg with_lists = catch_eff
     (bind_eff (prepare_runtime_inputs ops cfg with_lists) (\<lambda>prepared. apply_prepared_runtime_inputs ops prepared True))
     (\<lambda>e. bind_eff (try_transition broken ''config apply failed'') (\<lambda>_. throw_eff e))"

definition reload_from_disk :: "'w daemon_ops \<Rightarrow> ('w daemon, unit) eff" where
  "reload_from_disk ops =
     bind_eff (world_eff (do_read_config ops)) (\<lambda>body.
     bind_eff (result_eff (parse_config (do_env ops) (do_parse ops) body)) (\<lambda>next_config.
     bind_eff (result_eff (validate_config (do_env ops) next_config)) (\<lambda>_.
       catch_eff (apply_config ops next_config True)
         (\<lambda>e. bind_eff (steps [try_transition broken ''disk reload failed'', publish_runtime_state ops]) (\<lambda>_. throw_eff e)))))"

section \<open>The configuration transaction\<close>

record config_apply_result =
  car_saved :: bool
  car_applied :: bool
  car_error :: string
  car_apply_started_ts :: "int option"

text \<open>The task on the control thread that commits a confirmed candidate.\<close>

definition commit_confirmed_candidate :: "'w daemon_ops \<Rightarrow> bool \<Rightarrow> string \<Rightarrow> transaction_state \<Rightarrow> ('w daemon, unit) eff" where
  "commit_confirmed_candidate ops persist_config saved_config_json transaction =
     bind_eff (result_eff (resolver_confirmed transaction)) (\<lambda>transaction1.
       if \<not> may_commit transaction1 then throw_eff (DaemonError ''resolver confirmation did not unlock config commit'')
       else steps [
         when_eff persist_config (world_eff (do_write_config ops saved_config_json)),
         commit_active_config,
         when_eff persist_config (modify_eff (\<lambda>d. d\<lparr>dm_store := clear_staged_if_matches saved_config_json (dm_store d)\<rparr>)),
         transition_runtime_or_throw running ''config apply complete'',
         publish_runtime_state ops,
         bind_eff (result_eff (committed transaction1)) (\<lambda>_. return_eff ())])"

definition fail_after_mutation :: "'w daemon_ops \<Rightarrow> ('w daemon, unit) eff" where
  "fail_after_mutation ops = steps [try_transition broken ''config apply failed'', publish_runtime_state ops]"

text \<open>The candidate is applied on the control thread, confirmed on a worker, and committed on the control thread. The result
  tells the caller what happened.\<close>

definition apply_validated_config_via_control_task ::
    "'w daemon_ops \<Rightarrow> config \<Rightarrow> string \<Rightarrow> bool \<Rightarrow> 'w daemon \<Rightarrow> config_apply_result \<times> 'w daemon" where
  "apply_validated_config_via_control_task ops cfg saved_config_json persist_config d0 =
     (let started = do_now ops (dm_world d0);
          failed = (\<lambda>error. \<lparr>car_saved = False, car_applied = False, car_error = error, car_apply_started_ts = Some started\<rparr>)
      in case prepare_runtime_inputs ops cfg True (d0\<lparr>dm_apply_started_ts := started\<rparr>) of
           (Inl e, d1) \<Rightarrow> (failed (what e), d1)
         | (Inr prepared, d1) \<Rightarrow>
             (case bind_eff (apply_prepared_runtime_inputs ops prepared False) (\<lambda>_.
                     bind_eff (result_eff (candidate_applied Prepared)) (\<lambda>transaction.
                     bind_eff (asking (do_post ops)) (\<lambda>queued.
                       if queued then return_eff transaction
                       else throw_eff (DaemonError ''resolver confirmation executor is unavailable'')))) d1 of
                (Inl e, d2) \<Rightarrow> (failed (what e), snd (fail_after_mutation ops d2))
              | (Inr transaction, d2) \<Rightarrow>
                  (case wait_for_resolver_config_hash_confirmation ops (dm_config d2) (rs_expected_hash (dm_sync d2)) started d2 of
                     (Inl e, d3) \<Rightarrow> (failed (what e), snd (fail_after_mutation ops d3))
                   | (Inr (Inl error), d3) \<Rightarrow> (failed error, snd (fail_after_mutation ops d3))
                   | (Inr (Inr _), d3) \<Rightarrow>
                       (case commit_confirmed_candidate ops persist_config saved_config_json transaction d3 of
                          (Inl e, d4) \<Rightarrow> (failed (what e), d4)
                        | (Inr _, d4) \<Rightarrow>
                            (\<lparr>car_saved = persist_config, car_applied = True, car_error = [], car_apply_started_ts = Some started\<rparr>, d4)))))"

definition handle_sighup :: "'w daemon_ops \<Rightarrow> ('w daemon, unit) eff" where
  "handle_sighup ops d =
     (case try_begin ''sighup-reload'' (dm_lease d) of
        (False, _) \<Rightarrow> (Inr (), d)
      | (True, lease) \<Rightarrow>
          (let d1 = d\<lparr>dm_lease := lease\<rparr>; finished = (\<lambda>d. d\<lparr>dm_lease := lease_finish (dm_lease d)\<rparr>) in
           case asking (do_post ops) d1 of
             (Inr True, d2) \<Rightarrow>
               (case bind_eff (world_eff (do_read_config ops)) (\<lambda>body.
                       bind_eff (result_eff (parse_config (do_env ops) (do_parse ops) body)) (\<lambda>candidate.
                       bind_eff (result_eff (validate_config (do_env ops) candidate)) (\<lambda>_. return_eff candidate))) d2 of
                  (Inl e, d3) \<Rightarrow> (Inr (), finished d3)
                | (Inr candidate, d3) \<Rightarrow>
                    (Inr (), finished (snd (apply_validated_config_via_control_task ops candidate [] False d3))))
           | (_, d2) \<Rightarrow> (Inr (), finished d2)))"

section \<open>Lifecycle operations\<close>

definition pending_stage :: "string \<Rightarrow> string \<Rightarrow> lifecycle_stage" where
  "pending_stage sid title = \<lparr>stg_id = sid, stg_title = title, stg_status = Pending, stg_detail = []\<rparr>"

definition lifecycle_stages :: "lifecycle_type \<Rightarrow> lifecycle_stage list" where
  "lifecycle_stages ty =
     (case ty of
        ApplyConfig \<Rightarrow>
          [pending_stage ''validate_config'' ''Validate configuration'',
           pending_stage ''prepare_remote_lists'' ''Prepare remote lists'',
           pending_stage ''reconcile_runtime'' ''Reconcile routing and firewall'',
           pending_stage ''reload_dnsmasq'' ''Reload dnsmasq'',
           pending_stage ''verify_dnsmasq'' ''Verify dnsmasq configuration'',
           pending_stage ''commit_config'' ''Commit configuration'']
      | Restart \<Rightarrow>
          [pending_stage ''stop_routing'' ''Stop routing and firewall'',
           pending_stage ''start_routing'' ''Start routing and firewall'',
           pending_stage ''reload_dnsmasq'' ''Reload dnsmasq'',
           pending_stage ''verify_dnsmasq'' ''Verify dnsmasq configuration'']
      | Start \<Rightarrow>
          [pending_stage ''start_routing'' ''Start routing and firewall'',
           pending_stage ''reload_dnsmasq'' ''Reload dnsmasq'',
           pending_stage ''verify_dnsmasq'' ''Verify dnsmasq configuration'']
      | Stop \<Rightarrow>
          [pending_stage ''stop_routing'' ''Stop routing and firewall'',
           pending_stage ''reload_fallback'' ''Reload dnsmasq with fallback configuration''])"

record lifecycle_request =
  lrq_type :: lifecycle_type
  lrq_config :: "config option"
  lrq_serialized_config :: string

text \<open>The worker that executes an operation: the stage it is in, whether it has touched the runtime, and the daemon.\<close>

record 'w lifecycle_run =
  lr_stage :: string
  lr_mutated :: bool
  lr_daemon :: "'w daemon"

definition on_daemon :: "('w daemon, 'a) eff \<Rightarrow> ('w lifecycle_run, 'a) eff" where
  "on_daemon m run = (case m (lr_daemon run) of (r, d) \<Rightarrow> (r, run\<lparr>lr_daemon := d\<rparr>))"

definition on_lifecycle :: "(lifecycle_coordinator \<Rightarrow> lifecycle_coordinator) \<Rightarrow> ('w lifecycle_run, unit) eff" where
  "on_lifecycle f = on_daemon (modify_eff (\<lambda>d. d\<lparr>dm_lifecycle := f (dm_lifecycle d)\<rparr>))"

definition run_start :: "string \<Rightarrow> string \<Rightarrow> ('w lifecycle_run, unit) eff" where
  "run_start oid stage = steps [modify_eff (\<lambda>run. run\<lparr>lr_stage := stage\<rparr>), on_lifecycle (start_stage oid stage)]"

definition run_succeed :: "string \<Rightarrow> ('w lifecycle_run, unit) eff" where
  "run_succeed oid = reading (\<lambda>run. on_lifecycle (succeed_stage oid (lr_stage run) []))"

definition run_skip :: "string \<Rightarrow> string \<Rightarrow> string \<Rightarrow> ('w lifecycle_run, unit) eff" where
  "run_skip oid stage detail = on_lifecycle (skip_stage oid stage detail)"

definition run_stage :: "string \<Rightarrow> string \<Rightarrow> ('w daemon, unit) eff \<Rightarrow> ('w lifecycle_run, unit) eff" where
  "run_stage oid stage work = steps [run_start oid stage, on_daemon work, run_succeed oid]"

definition mark_mutated :: "('w lifecycle_run, unit) eff" where
  "mark_mutated = modify_eff (\<lambda>run. run\<lparr>lr_mutated := True\<rparr>)"

definition reload_stage :: "'w daemon_ops \<Rightarrow> ('w daemon, unit) eff" where
  "reload_stage ops = bind_eff (run_system_resolver_hook_reload ops) (\<lambda>ok.
     if ok then return_eff () else throw_eff (DaemonError ''system resolver reload hook failed''))"

definition verify_stage :: "'w daemon_ops \<Rightarrow> config \<Rightarrow> string \<Rightarrow> ('w daemon, unit) eff" where
  "verify_stage ops candidate expected_hash = reading (\<lambda>d.
     bind_eff (wait_for_resolver_config_hash_confirmation ops candidate expected_hash (dm_apply_started_ts d)) (\<lambda>confirmed.
       case confirmed of Inl error \<Rightarrow> throw_eff (DaemonError error) | Inr _ \<Rightarrow> return_eff ()))"

definition resolver_is_current :: "sync_snapshot \<Rightarrow> bool" where
  "resolver_is_current snapshot \<longleftrightarrow> ss_expected_hash snapshot \<noteq> [] \<and> ss_actual_hash snapshot = ss_expected_hash snapshot
     \<and> ss_live_status snapshot = LiveHealthy"

definition apply_resolver_stages :: "'w daemon_ops \<Rightarrow> string \<Rightarrow> config \<Rightarrow> ('w lifecycle_run, unit) eff" where
  "apply_resolver_stages ops oid cfg =
     (if \<not> has_system_resolver cfg
      then steps [run_skip oid ''reload_dnsmasq'' ''No system resolver configured'',
                  run_skip oid ''verify_dnsmasq'' ''No system resolver configured'']
      else reading (\<lambda>run.
        let snapshot = resolver_snapshot (dm_sync (lr_daemon run)) (do_now ops (dm_world (lr_daemon run))) in
        if resolver_is_current snapshot
        then steps [run_skip oid ''reload_dnsmasq'' ''Resolver configuration is unchanged and healthy'',
                    run_skip oid ''verify_dnsmasq'' ''Resolver configuration is already confirmed'']
        else steps [run_stage oid ''reload_dnsmasq'' (reload_stage ops),
                    run_stage oid ''verify_dnsmasq'' (verify_stage ops cfg (ss_expected_hash snapshot))]))"

definition commit_config_task :: "'w daemon_ops \<Rightarrow> string \<Rightarrow> ('w daemon, unit) eff" where
  "commit_config_task ops serialized = steps [
     commit_active_config,
     modify_eff (\<lambda>d. d\<lparr>dm_store := clear_staged_if_matches serialized (dm_store d)\<rparr>),
     publish_runtime_state ops]"

definition run_apply_config :: "'w daemon_ops \<Rightarrow> string \<Rightarrow> lifecycle_request \<Rightarrow> ('w lifecycle_run, unit) eff" where
  "run_apply_config ops oid request =
     (case lrq_config request of
        None \<Rightarrow> throw_eff (DaemonError ''Apply request has no configuration'')
      | Some cfg \<Rightarrow>
          bind_eff (steps [
            run_stage oid ''validate_config'' (result_eff (validate_config (do_env ops) cfg)),
            run_start oid ''prepare_remote_lists'']) (\<lambda>_.
          bind_eff (on_daemon (prepare_runtime_inputs ops cfg True)) (\<lambda>prepared.
            steps [
              run_succeed oid,
              mark_mutated,
              run_stage oid ''reconcile_runtime'' (reconcile_prepared_runtime ops prepared),
              apply_resolver_stages ops oid cfg,
              on_daemon (complete_running_runtime ops ''config apply verified''),
              run_stage oid ''commit_config''
                (steps [world_eff (do_write_config ops (lrq_serialized_config request)),
                        commit_config_task ops (lrq_serialized_config request)])])))"

definition run_stop :: "'w daemon_ops \<Rightarrow> string \<Rightarrow> ('w lifecycle_run, unit) eff" where
  "run_stop ops oid = steps [
     mark_mutated,
     run_stage oid ''stop_routing'' (teardown_routing_and_firewall ops True),
     run_start oid ''reload_fallback'',
     reading (\<lambda>run.
       if has_system_resolver (cs_active_config (dm_store (lr_daemon run)))
       then steps [on_daemon (deactivate_resolver ops ''system resolver fallback reload failed''), run_succeed oid]
       else run_skip oid ''reload_fallback'' ''No system resolver configured'')]"

definition run_start_or_restart :: "'w daemon_ops \<Rightarrow> string \<Rightarrow> bool \<Rightarrow> ('w lifecycle_run, unit) eff" where
  "run_start_or_restart ops oid restart = steps [
     mark_mutated,
     when_eff restart (run_stage oid ''stop_routing'' (teardown_routing_and_firewall ops False)),
     run_stage oid ''start_routing'' (setup_routing_and_firewall ops),
     reading (\<lambda>run.
       let active = cs_active_config (dm_store (lr_daemon run)) in
       if has_system_resolver active
       then steps [run_stage oid ''reload_dnsmasq'' (reload_stage ops),
                   run_stage oid ''verify_dnsmasq'' (reading (\<lambda>d. verify_stage ops active (rs_expected_hash (dm_sync d))))]
       else steps [run_skip oid ''reload_dnsmasq'' ''No system resolver configured'',
                   run_skip oid ''verify_dnsmasq'' ''No system resolver configured'']),
     on_daemon (complete_running_runtime ops ''lifecycle operation complete'')]"

definition run_operation :: "'w daemon_ops \<Rightarrow> string \<Rightarrow> lifecycle_request \<Rightarrow> ('w lifecycle_run, unit) eff" where
  "run_operation ops oid request =
     (case lrq_type request of
        ApplyConfig \<Rightarrow> run_apply_config ops oid request
      | Stop \<Rightarrow> run_stop ops oid
      | Start \<Rightarrow> run_start_or_restart ops oid False
      | Restart \<Rightarrow> run_start_or_restart ops oid True)"

definition execute_lifecycle_operation :: "'w daemon_ops \<Rightarrow> string \<Rightarrow> lifecycle_request \<Rightarrow> 'w daemon \<Rightarrow> 'w daemon" where
  "execute_lifecycle_operation ops oid request d =
     (case run_operation ops oid request \<lparr>lr_stage = [], lr_mutated = False, lr_daemon = d\<rparr> of
        (Inr _, run) \<Rightarrow>
          (lr_daemon run)\<lparr>dm_lifecycle := finish (do_now ops (dm_world (lr_daemon run))) oid [] (dm_lifecycle (lr_daemon run))\<rparr>
      | (Inl e, run) \<Rightarrow>
          (let d1 = (if lr_stage run \<noteq> []
                     then (lr_daemon run)\<lparr>dm_lifecycle := fail_stage oid (lr_stage run) (what e) (dm_lifecycle (lr_daemon run))\<rparr>
                     else lr_daemon run);
               d2 = (if lr_mutated run \<and> lr_stage run \<noteq> ''commit_config''
                     then snd (steps [try_transition broken (''lifecycle operation failed: '' @ what e), publish_runtime_state ops] d1)
                     else d1)
           in d2\<lparr>dm_lifecycle := finish (do_now ops (dm_world d2)) oid (what e) (dm_lifecycle d2)\<rparr>))"

definition submit_lifecycle_operation :: "'w daemon_ops \<Rightarrow> lifecycle_request \<Rightarrow> 'w daemon \<Rightarrow> string result \<times> 'w daemon" where
  "submit_lifecycle_operation ops request d =
     (case begin_operation (do_now ops (dm_world d)) (lrq_type request) (lifecycle_stages (lrq_type request)) (dm_lifecycle d) of
        (Inl active, _) \<Rightarrow> (Inl (ApiError ''A lifecycle operation is already active'' 409), d)
      | (Inr operation, lc) \<Rightarrow>
          (let oid = op_id operation; message = ''Lifecycle executor is unavailable'' in
           case asking (do_post ops) (d\<lparr>dm_lifecycle := lc\<rparr>) of
             (Inr True, d1) \<Rightarrow> (Inr oid, execute_lifecycle_operation ops oid request d1)
           | (_, d1) \<Rightarrow>
               (Inl (ApiError message 503),
                d1\<lparr>dm_lifecycle := finish (do_now ops (dm_world d1)) oid message
                     (fail_stage oid (stg_id (hd (op_stages operation))) message (dm_lifecycle d1))\<rparr>)))"

section \<open>Requests that need the configuration lease\<close>

definition finish_config_operation :: "('w daemon, unit) eff" where
  "finish_config_operation = modify_eff (\<lambda>d. d\<lparr>dm_config_op := ConfigIdle, dm_lease := lease_finish (dm_lease d)\<rparr>)"

text \<open>The runtime state that requests see is the published one; before the first publication it is the default snapshot.\<close>

definition seen_runtime_state :: "'w daemon \<Rightarrow> runtime_state \<times> bool" where
  "seen_runtime_state d = (case dm_published d of None \<Rightarrow> (starting, True) | Some p \<Rightarrow> (pub_runtime_state p, pub_active p))"

definition begin_config_operation_or_throw ::
    "config_operation_state \<Rightarrow> string \<Rightarrow> bool \<Rightarrow> bool \<Rightarrow> ('w daemon, unit) eff" where
  "begin_config_operation_or_throw state reason require_runtime_running require_runtime_stopped d =
     (if dm_config_op d \<noteq> ConfigIdle then (Inl (ApiError ''Another config operation is already in progress'' 409), d)
      else (case try_begin reason (dm_lease d) of
              (False, _) \<Rightarrow> (Inl (ApiError ''Another config operation is already in progress'' 409), d)
            | (True, lease) \<Rightarrow>
                (let d1 = d\<lparr>dm_lease := lease\<rparr>; released = d\<lparr>dm_lease := lease_finish lease\<rparr> in
                 case seen_runtime_state d of (runtime_state, runtime_running) \<Rightarrow>
                   (if runtime_state \<in> {starting, shutting_down}
                    then (Inl (ApiError ''Routing runtime initialization is still in progress'' 409), released)
                    else if require_runtime_running \<and> \<not> runtime_running
                    then (Inl (ApiError ''Routing runtime is stopped; start it first'' 409), released)
                    else if require_runtime_stopped \<and> runtime_running
                    then (Inl (ApiError ''Routing runtime is already started'' 409), released)
                    else (Inr (), d1\<lparr>dm_config_op := state\<rparr>)))))"

definition run_runtime_control_operation_or_throw :: "('w daemon, unit) eff \<Rightarrow> ('w daemon, unit) eff" where
  "run_runtime_control_operation_or_throw task = bind_eff
     (catch_eff task (\<lambda>e. bind_eff finish_config_operation (\<lambda>_. throw_eff e))) (\<lambda>_. finish_config_operation)"

definition runtime_request :: "string \<Rightarrow> bool \<Rightarrow> bool \<Rightarrow> ('w daemon, unit) eff \<Rightarrow> ('w daemon, unit) eff" where
  "runtime_request reason need_running need_stopped task = steps [
     begin_config_operation_or_throw ConfigReloading reason need_running need_stopped,
     run_runtime_control_operation_or_throw task]"

definition api_start_runtime :: "'w daemon_ops \<Rightarrow> ('w daemon, unit) eff" where
  "api_start_runtime ops = runtime_request ''start-runtime'' False True (start_routing_runtime ops)"

definition api_stop_runtime :: "'w daemon_ops \<Rightarrow> ('w daemon, unit) eff" where
  "api_stop_runtime ops = runtime_request ''stop-runtime'' True False (stop_routing_runtime ops)"

definition api_restart_runtime :: "'w daemon_ops \<Rightarrow> ('w daemon, unit) eff" where
  "api_restart_runtime ops = runtime_request ''restart-runtime'' True False (restart_routing_runtime ops)"

section \<open>Refreshing lists\<close>

definition execute_remote_list_refresh :: "'w daemon_ops \<Rightarrow> string set option \<Rightarrow> ('w daemon, refresh_result \<times> bool) eff" where
  "execute_remote_list_refresh ops target_lists = reading (\<lambda>d.
     bind_eff (world_eff (do_refresh ops (dm_config d) (dm_marks d) target_lists)) (\<lambda>r. reading (\<lambda>d.
       if should_reload_runtime_after_list_refresh (dm_active d) r
       then bind_eff (reconcile_lists_only ops (rfr_dns_relevant_changed_lists r \<noteq> [])) (\<lambda>_. return_eff (r, True))
       else return_eff (r, False))))"

definition refresh_lists_and_maybe_reload :: "'w daemon_ops \<Rightarrow> ('w daemon, unit) eff" where
  "refresh_lists_and_maybe_reload ops = catch_eff
     (bind_eff (execute_remote_list_refresh ops None) (\<lambda>(r, reloaded). when_eff (\<not> reloaded) (schedule_lists_autoupdate ops)))
     (\<lambda>e. schedule_lists_autoupdate ops)"

text \<open>The result of a scheduled refresh, on the control thread; the snapshots were taken when it was scheduled.\<close>

definition commit_lists_refresh_async_result ::
    "'w daemon_ops \<Rightarrow> bool \<Rightarrow> u64 \<Rightarrow> string + refresh_result \<Rightarrow> ('w daemon, unit) eff" where
  "commit_lists_refresh_async_result ops runtime_active_snapshot generation outcome = steps [
     modify_eff (\<lambda>d. d\<lparr>dm_lists_inflight := False\<rparr>),
     reading (\<lambda>d.
       if generation \<noteq> dm_generation d then schedule_lists_autoupdate ops
       else (case outcome of
               Inl error \<Rightarrow> schedule_lists_autoupdate ops
             | Inr r \<Rightarrow>
                 (if should_reload_runtime_after_list_refresh runtime_active_snapshot r
                  then catch_eff (reconcile_lists_only ops (rfr_dns_relevant_changed_lists r \<noteq> []))
                         (\<lambda>e. schedule_lists_autoupdate ops)
                  else schedule_lists_autoupdate ops)))]"

definition refresh_lists_and_maybe_reload_async :: "'w daemon_ops \<Rightarrow> ('w daemon, unit) eff" where
  "refresh_lists_and_maybe_reload_async ops = reading (\<lambda>d0.
     if dm_lists_inflight d0 then return_eff ()
     else bind_eff (asking (do_post ops)) (\<lambda>enqueued.
       if \<not> enqueued then schedule_lists_autoupdate ops
       else steps [
         modify_eff (\<lambda>d. d\<lparr>dm_lists_inflight := True\<rparr>),
         (\<lambda>d. case world_eff (do_refresh ops (dm_config d0) (dm_marks d0) None) d of
                (Inl e, d1) \<Rightarrow> commit_lists_refresh_async_result ops (dm_active d0) (dm_generation d0) (Inl (what e)) d1
              | (Inr r, d1) \<Rightarrow> commit_lists_refresh_async_result ops (dm_active d0) (dm_generation d0) (Inr r) d1)]))"

text \<open>A refresh asked for through the API. The generation is read after the download and compared by the task that is posted next;
  with the tasks one after the other it is still the current one.\<close>

definition release_and_throw :: "cpp_error \<Rightarrow> ('w daemon, 'a) eff" where
  "release_and_throw e = bind_eff finish_config_operation (\<lambda>_. throw_eff e)"

definition api_refresh_lists :: "'w daemon_ops \<Rightarrow> string option \<Rightarrow> ('w daemon, refresh_result \<times> bool) eff" where
  "api_refresh_lists ops requested_name =
     bind_eff (begin_config_operation_or_throw ConfigReloading ''refresh-lists'' False False) (\<lambda>_. reading (\<lambda>d.
       let cfg = cs_active_config (dm_store d); active = snd (seen_runtime_state d) in
       if config_is_draft (dm_store d)
       then release_and_throw (ApiError ''List refresh is unavailable while a draft config is staged'' 409)
       else bind_eff (result_eff (allocate_outbound_marks (value_or (cfg_fwmark cfg) default_fwmark_config)
              (value_or (cfg_outbounds cfg) []))) (\<lambda>marks.
         case select_remote_list_targets cfg requested_name of
           Inl TargetNotFound \<Rightarrow> release_and_throw (ApiError ''Requested list was not found'' 404)
         | Inl TargetNotRemote \<Rightarrow> release_and_throw (ApiError ''Requested list is not URL-backed'' 400)
         | Inr names \<Rightarrow>
             catch_eff
               (bind_eff (world_eff (do_refresh ops cfg marks (if requested_name = None then None else Some (set names)))) (\<lambda>r.
                 bind_eff (if should_reload_runtime_after_list_refresh active r
                           then bind_eff (reconcile_lists_only ops (rfr_dns_relevant_changed_lists r \<noteq> [])) (\<lambda>_. return_eff True)
                           else return_eff False) (\<lambda>reloaded.
                   bind_eff finish_config_operation (\<lambda>_. return_eff (r, reloaded)))))
               release_and_throw)))"

section \<open>Starting and shutting down\<close>

definition fail_startup_runtime :: "'w daemon_ops \<Rightarrow> string \<Rightarrow> ('w daemon, unit) eff" where
  "fail_startup_runtime ops error = steps [try_transition broken (''startup failed: '' @ error), publish_runtime_state ops]"

definition complete_startup :: "'w daemon_ops \<Rightarrow> ('w daemon, unit) eff" where
  "complete_startup ops = steps [complete_running_runtime ops ''startup complete'', modify_eff (\<lambda>d. d\<lparr>dm_actual_task := True\<rparr>)]"

definition finish_startup_after_resolver_hook :: "'w daemon_ops \<Rightarrow> bool \<Rightarrow> string \<Rightarrow> ('w daemon, unit) eff" where
  "finish_startup_after_resolver_hook ops hook_succeeded error =
     (if \<not> hook_succeeded
      then fail_startup_runtime ops (if error = [] then ''system resolver reload hook failed'' else error)
      else catch_eff
        (steps [
          update_resolver_config_hash ops,
          setup_dns_probe ops,
          world_eff (do_register_interface_monitor ops),
          reading (\<lambda>d.
            if \<not> has_system_resolver (dm_config d) then complete_startup ops
            else bind_eff (asking (do_post ops)) (\<lambda>queued.
              if \<not> queued then throw_eff (DaemonError ''startup resolver verification executor is unavailable'')
              else bind_eff (wait_for_resolver_config_hash_confirmation ops (dm_config d) (rs_expected_hash (dm_sync d))
                               (dm_apply_started_ts d)) (\<lambda>verified.
                case verified of
                  Inl verification_error \<Rightarrow> fail_startup_runtime ops verification_error
                | Inr _ \<Rightarrow> complete_startup ops)))])
        (\<lambda>e. fail_startup_runtime ops (what e)))"

definition continue_startup_after_lists :: "'w daemon_ops \<Rightarrow> string + refresh_result \<Rightarrow> ('w daemon, unit) eff" where
  "continue_startup_after_lists ops outcome =
     (case outcome of
        Inl error \<Rightarrow> fail_startup_runtime ops (if error = [] then ''startup list refresh failed'' else error)
      | Inr result \<Rightarrow>
          (\<lambda>d. case bind_eff (steps [
                     apply_firewall ops Destructive,
                     modify_eff (\<lambda>d. d\<lparr>dm_apply_started_ts := do_now ops (dm_world d)\<rparr>),
                     update_resolver_config_hash ops,
                     publish_runtime_state ops]) (\<lambda>_.
                   bind_eff (asking (do_post ops)) (\<lambda>queued.
                     if queued then return_eff () else throw_eff (DaemonError ''startup resolver hook executor is unavailable''))) d of
                 (Inl e, d1) \<Rightarrow> fail_startup_runtime ops (what e) d1
               | (Inr _, d1) \<Rightarrow>
                   (case run_system_resolver_hook_reload ops d1 of
                      (Inl e, d2) \<Rightarrow> finish_startup_after_resolver_hook ops False (what e) d2
                    | (Inr ok, d2) \<Rightarrow>
                        finish_startup_after_resolver_hook ops ok (if ok then [] else ''system resolver reload hook failed'') d2)))"

definition begin_startup_runtime :: "'w daemon_ops \<Rightarrow> ('w daemon, unit) eff" where
  "begin_startup_runtime ops d =
     (case bind_eff (reconcile_static_routing_now ops) (\<lambda>_. asking (do_post ops)) d of
        (Inl e, d1) \<Rightarrow> fail_startup_runtime ops (what e) d1
      | (Inr False, d1) \<Rightarrow> fail_startup_runtime ops ''startup list executor is unavailable'' d1
      | (Inr True, d1) \<Rightarrow>
          (case world_eff (do_download ops (dm_config d1) (dm_marks d1)) d1 of
             (Inl e, d2) \<Rightarrow> continue_startup_after_lists ops (Inl (what e)) d2
           | (Inr r, d2) \<Rightarrow> continue_startup_after_lists ops (Inr r) d2))"

text \<open>What \<^verbatim>\<open>run\<close> does after the event loop.\<close>

definition shutdown :: "'w daemon_ops \<Rightarrow> ('w daemon, unit) eff" where
  "shutdown ops = steps [
     transition_runtime_or_throw shutting_down ''daemon shutdown'',
     publish_runtime_state ops,
     catch_eff (bind_eff (run_system_resolver_hook ops ''deactivate'') (\<lambda>_. return_eff ())) (\<lambda>e. return_eff ()),
     world_eff (do_teardown_dns_probe ops),
     clear_urltests ops,
     modify_eff (\<lambda>d. d\<lparr>dm_lists_task := False, dm_keenetic_task := False, dm_actual_task := False, dm_retry_task := False\<rparr>),
     delete_owned_marks ops,
     world_eff (do_clear_rules ops),
     world_eff (do_clear_routes ops),
     world_eff (do_cleanup_firewall ops)]"

end
