(* ===== verification/Daemon_Apply.thy ===== *)
theory Daemon_Apply
  imports Daemon_Control Validated_Config
begin

text \<open>
  What the control plane of the daemon guarantees when it applies a configuration. A small Hoare logic for effects that may
  throw (\<open>hoare\<close>, and \<open>steady\<close> for what an effect keeps) gives a frame for every function of the daemon (\<open>core\<close>: which
  of the configuration, the stored configurations, the lifecycle and the state an effect may change), then a triple for
  every stage of an apply operation, and from them the outcome of the whole operation. The last section shows two
  behaviours of the code that differ from what it means to do.
\<close>

section \<open>Reasoning about effects\<close>

text \<open>From a state with \<open>P\<close>, the effect returns with \<open>Q\<close> or throws with \<open>E\<close>.\<close>

definition hoare :: "('s \<Rightarrow> bool) \<Rightarrow> ('s, 'a) eff \<Rightarrow> ('a \<Rightarrow> 's \<Rightarrow> bool) \<Rightarrow> ('s \<Rightarrow> bool) \<Rightarrow> bool" where
  "hoare P m Q E \<longleftrightarrow> (\<forall>s. P s \<longrightarrow> (case m s of (Inl e, s') \<Rightarrow> E s' | (Inr a, s') \<Rightarrow> Q a s'))"

named_theorems hoare_rules \<open>rules for the effects\<close>

lemma hoare_return [hoare_rules]: "(\<And>s. P s \<Longrightarrow> Q a s) \<Longrightarrow> hoare P (return_eff a) Q E"
  by (simp add: hoare_def return_eff_def)

lemma hoare_throw [hoare_rules]: "(\<And>s. P s \<Longrightarrow> E s) \<Longrightarrow> hoare P (throw_eff e) Q E"
  by (simp add: hoare_def throw_eff_def)

lemma hoare_modify [hoare_rules]: "(\<And>s. P s \<Longrightarrow> Q () (f s)) \<Longrightarrow> hoare P (modify_eff f) Q E"
  by (simp add: hoare_def modify_eff_def)

lemma hoare_result [hoare_rules]: "(\<And>s a. P s \<Longrightarrow> Q a s) \<Longrightarrow> (\<And>s. P s \<Longrightarrow> E s) \<Longrightarrow> hoare P (result_eff r) Q E"
  by (simp add: hoare_def result_eff_def split: sum.splits)

lemma hoare_bind: "hoare P m R E \<Longrightarrow> (\<And>a. hoare (R a) (f a) Q E) \<Longrightarrow> hoare P (bind_eff m f) Q E"
  by (fastforce simp: hoare_def bind_eff_def split: prod.splits sum.splits)

lemma hoare_catch: "hoare P m Q R \<Longrightarrow> (\<And>e. hoare R (h e) Q E) \<Longrightarrow> hoare P (catch_eff m h) Q E"
  by (fastforce simp: hoare_def catch_eff_def split: prod.splits sum.splits)

lemma hoare_reading: "(\<And>s. hoare (\<lambda>s'. s' = s \<and> P s) (f s) Q E) \<Longrightarrow> hoare P (reading f) Q E"
  by (simp add: hoare_def reading_def)

lemma hoare_reading_any: "(\<And>s. hoare P (f s) Q E) \<Longrightarrow> hoare P (reading f) Q E"
  by (simp add: hoare_def reading_def)

lemma hoare_conseq: "hoare P' m Q' E' \<Longrightarrow> (\<And>s. P s \<Longrightarrow> P' s) \<Longrightarrow> (\<And>a s. Q' a s \<Longrightarrow> Q a s) \<Longrightarrow> (\<And>s. E' s \<Longrightarrow> E s) \<Longrightarrow> hoare P m Q E"
  by (fastforce simp: hoare_def split: prod.splits sum.splits)

lemma hoare_steps_Nil: "(\<And>s. P s \<Longrightarrow> Q () s) \<Longrightarrow> hoare P (steps []) Q E"
  by (simp add: hoare_def steps_def)

lemma hoare_steps_Cons: "hoare P m (\<lambda>_. R) E \<Longrightarrow> hoare R (steps ms) Q E \<Longrightarrow> hoare P (steps (m # ms)) Q E"
  by (fastforce simp: hoare_def steps_def split: prod.splits sum.splits)

text \<open>An effect that keeps \<open>P\<close> whether it returns or throws.\<close>

definition steady :: "('s \<Rightarrow> bool) \<Rightarrow> ('s, 'a) eff \<Rightarrow> bool" where
  "steady P m \<longleftrightarrow> hoare P m (\<lambda>_. P) P"

named_theorems steady_rules \<open>what keeps a predicate\<close>

lemma steady_basic [steady_rules]:
  "steady P (return_eff a)" "steady P (throw_eff e)" "steady P (result_eff r)"
  by (simp_all add: steady_def hoare_def return_eff_def throw_eff_def result_eff_def split: sum.splits)

lemma steady_modify: "(\<And>s. P s \<Longrightarrow> P (f s)) \<Longrightarrow> steady P (modify_eff f)"
  by (simp add: steady_def hoare_def modify_eff_def)

lemma steady_snd: "steady P m \<Longrightarrow> P s \<Longrightarrow> P (snd (m s))"
  by (cases "m s"; cases "fst (m s)") (auto simp: steady_def hoare_def dest!: spec [of _ s])

lemma steady_bind [steady_rules]: "steady P m \<Longrightarrow> (\<And>a. steady P (f a)) \<Longrightarrow> steady P (bind_eff m f)"
  unfolding steady_def by (rule hoare_bind)

lemma steady_catch [steady_rules]: "steady P m \<Longrightarrow> (\<And>e. steady P (h e)) \<Longrightarrow> steady P (catch_eff m h)"
  unfolding steady_def by (rule hoare_catch)

lemma steady_reading [steady_rules]: "(\<And>s. steady P (f s)) \<Longrightarrow> steady P (reading f)"
  by (fastforce simp: steady_def hoare_def reading_def split: prod.splits sum.splits)

lemma steady_steps: "list_all (steady P) ms \<Longrightarrow> steady P (steps ms)"
  by (induction ms) (auto simp: steady_def intro: hoare_steps_Nil hoare_steps_Cons)

lemma steady_steps_rules [steady_rules]:
  "steady P (steps [])" "steady P m \<Longrightarrow> steady P (steps ms) \<Longrightarrow> steady P (steps (m # ms))"
  by (auto simp: steady_def intro: hoare_steps_Nil hoare_steps_Cons)

lemma steady_when [steady_rules]: "steady P m \<Longrightarrow> steady P (when_eff b m)"
  by (simp add: when_eff_def steady_basic)

lemma steady_cases [steady_rules]:
  "steady P m \<Longrightarrow> steady P n \<Longrightarrow> steady P (if b then m else n)"
  "steady P m1 \<Longrightarrow> (\<And>x. steady P (m2 x)) \<Longrightarrow> steady P (case opt of None \<Rightarrow> m1 | Some x \<Rightarrow> m2 x)"
  "(\<And>e. steady P (n1 e)) \<Longrightarrow> (\<And>x. steady P (n2 x)) \<Longrightarrow> steady P (case s of Inl e \<Rightarrow> n1 e | Inr x \<Rightarrow> n2 x)"
  by (simp_all split: option.splits sum.splits)

lemma steady_let [steady_rules]: "(\<And>x. steady P (f x)) \<Longrightarrow> steady P (let x = a in f x)"
  by (simp add: Let_def)

text \<open>What the daemon does to the world concerns no other part of its state.\<close>

definition world_free :: "('w daemon \<Rightarrow> bool) \<Rightarrow> bool" where
  "world_free P \<longleftrightarrow> (\<forall>d w. P (d\<lparr>dm_world := w\<rparr>) = P d)"

lemma steady_world [steady_rules]: "world_free P \<Longrightarrow> steady P (world_eff m)" "world_free P \<Longrightarrow> steady P (asking f)"
  by (simp_all add: world_free_def steady_def hoare_def world_eff_def asking_def split: prod.splits sum.splits)

section \<open>What every function of the daemon keeps\<close>

text \<open>The configuration store and the lifecycle operations are changed only by the tasks that own them, and no function but the
  shutdown enters the state \<^verbatim>\<open>shutting_down\<close>.\<close>

definition core :: "config set \<Rightarrow> config_store \<Rightarrow> lifecycle_coordinator \<Rightarrow> 'w daemon \<Rightarrow> bool" where
  "core X st lc d \<longleftrightarrow> dm_config d \<in> X \<and> dm_store d = st \<and> dm_lifecycle d = lc \<and> rm_state (dm_machine d) \<noteq> shutting_down"

lemma core_world: "world_free (core X st lc)"
  by (simp add: world_free_def core_def)

lemma core_transition:
  "next \<noteq> shutting_down \<Longrightarrow> steady (core X st lc) (transition_runtime_or_throw next reason)"
  "next \<noteq> shutting_down \<Longrightarrow> steady (core X st lc) (try_transition next reason)"
  by (auto simp: steady_def hoare_def transition_runtime_or_throw_def try_transition_def modify_eff_def transition_def core_def)

lemma core_publish: "steady (core X st lc) (publish_runtime_state ops)"
  unfolding publish_runtime_state_def by (rule steady_modify) (simp add: core_def)

lemma core_generation: "steady (core X st lc) bump_generation"
  unfolding bump_generation_def by (rule steady_modify) (simp add: core_def)

lemmas core_intros = steady_rules core_world core_transition core_publish core_generation steady_modify

lemma core_update_hash: "steady (core X st lc) (update_resolver_config_hash ops)"
  unfolding update_resolver_config_hash_def by (intro core_intros) (simp add: core_def Let_def)

lemma core_hook: "steady (core X st lc) (run_system_resolver_hook ops action)"
  unfolding run_system_resolver_hook_def by (intro core_intros)

lemma core_reload: "steady (core X st lc) (run_system_resolver_hook_reload ops)"
  unfolding run_system_resolver_hook_reload_def by (intro core_intros core_hook core_update_hash)

lemma core_wait: "steady (core X st lc) (wait_for_resolver_config_hash_confirmation ops candidate expected ts)"
  unfolding wait_for_resolver_config_hash_confirmation_def by (intro core_intros)

lemma core_refresh_actual: "steady (core X st lc) (refresh_resolver_config_hash_actual_async ops)"
  unfolding refresh_resolver_config_hash_actual_async_def reset_resolver_actual_state_def
  by (intro core_intros) (simp_all add: core_def)

lemma core_keenetic: "steady (core X st lc) (refresh_keenetic_dns_cache ops)"
  unfolding refresh_keenetic_dns_cache_def by (intro core_intros)

lemma core_lists_task: "steady (core X st lc) (schedule_lists_autoupdate ops)"
  unfolding schedule_lists_autoupdate_def by (intro core_intros) (simp add: core_def)

lemma core_world_calls:
  "steady (core X st lc) (reconcile_static_routing_now ops)" "steady (core X st lc) (apply_firewall ops mode)"
  "steady (core X st lc) (setup_dns_probe ops)" "steady (core X st lc) (register_urltest_outbounds ops)"
  "steady (core X st lc) (clear_urltests ops)"
  unfolding reconcile_static_routing_now_def apply_firewall_def setup_dns_probe_def register_urltest_outbounds_def clear_urltests_def
  by (auto intro!: core_intros simp: core_def)

lemma core_delete_marks: "steady (core X st lc) (delete_owned_marks ops)"
  unfolding delete_owned_marks_def
  by (intro steady_reading steady_bind steady_basic steady_steps) (auto simp: list_all_iff intro!: core_intros)

lemmas core_calls = core_intros core_update_hash core_hook core_reload core_wait core_refresh_actual core_keenetic core_lists_task
  core_world_calls core_delete_marks

lemma core_teardown: "steady (core X st lc) (teardown_routing_and_firewall ops explicit_stop)"
  unfolding teardown_routing_and_firewall_def by (intro core_calls) (auto simp: core_def)

lemma core_setup: "steady (core X st lc) (setup_routing_and_firewall ops)"
  unfolding setup_routing_and_firewall_def by (intro core_calls) (simp_all add: core_def)

lemma core_complete: "steady (core X st lc) (complete_running_runtime ops reason)"
  unfolding complete_running_runtime_def schedule_keenetic_dns_refresh_def by (intro core_calls) (simp_all add: core_def)

lemma complete_running: "hoare P (complete_running_runtime ops reason) (\<lambda>_ d. rm_state (dm_machine d) = running) (\<lambda>_. True)"
proof -
  have skip: "hoare (\<lambda>_. True) m (\<lambda>_ _. True) (\<lambda>_. True)" for m :: "('a daemon, unit) eff"
    by (simp add: hoare_def split: prod.splits sum.splits)
  have t: "hoare (\<lambda>_. True) (transition_runtime_or_throw running reason) (\<lambda>_ d. rm_state (dm_machine (d :: 'a daemon)) = running) (\<lambda>_. True)"
    by (auto simp: hoare_def transition_runtime_or_throw_def transition_def split: prod.splits sum.splits)
  have p: "hoare (\<lambda>d. rm_state (dm_machine d) = running) (publish_runtime_state ops)
      (\<lambda>_ d. rm_state (dm_machine d) = running) (\<lambda>_. True)"
    unfolding publish_runtime_state_def by (rule hoare_modify) simp
  have "hoare (\<lambda>_. True) (complete_running_runtime ops reason) (\<lambda>_ d. rm_state (dm_machine d) = running) (\<lambda>_. True)"
    unfolding complete_running_runtime_def
    by (rule hoare_steps_Cons [OF skip], rule hoare_steps_Cons [OF skip], rule hoare_steps_Cons [OF skip],
        rule hoare_steps_Cons [OF skip], rule hoare_steps_Cons [OF t], rule hoare_steps_Cons [OF p], rule hoare_steps_Nil)
  then show ?thesis by (rule hoare_conseq) auto
qed

lemma core_prepare: "steady (core X st lc) (prepare_runtime_inputs ops cfg with_lists)"
  unfolding prepare_runtime_inputs_def by (intro core_calls)

lemma core_reconcile_prepared:
  "hoare (core UNIV st lc) (reconcile_prepared_runtime ops prepared) (\<lambda>_. core {pri_config prepared} st lc) (core UNIV st lc)"
proof -
  have wider: "core {pri_config prepared} st lc d \<Longrightarrow> core UNIV st lc d" for d :: "'a daemon" by (simp add: core_def)
  have rest: "hoare (core {pri_config prepared} st lc) (steps ms) (\<lambda>_. core {pri_config prepared} st lc) (core UNIV st lc)"
    if "list_all (steady (core {pri_config prepared} st lc)) ms" for ms :: "('a daemon, unit) eff list"
    by (rule hoare_conseq [OF steady_steps [OF that, unfolded steady_def]]) (auto simp: wider)
  show ?thesis
    unfolding reconcile_prepared_runtime_def bump_generation_def
    by (rule hoare_steps_Cons [where R = "core UNIV st lc", OF hoare_modify], simp add: core_def,
        rule hoare_steps_Cons [where R = "core UNIV st lc", OF hoare_modify], simp add: core_def,
        rule hoare_steps_Cons [where R = "core {pri_config prepared} st lc", OF hoare_modify], simp add: core_def,
        rule rest) (auto simp: core_def intro!: core_calls)
qed

lemma core_stages:
  "steady (core X st lc) (reload_stage ops)" "steady (core X st lc) (verify_stage ops cfg expected)"
  "steady (core X st lc) (deactivate_resolver ops message)"
  unfolding reload_stage_def verify_stage_def deactivate_resolver_def by (auto intro!: core_calls)

section \<open>The progress of a lifecycle operation\<close>

text \<open>The apply operation is active without an error so far; the stages of \<open>pend\<close> are the pending ones, \<open>cur\<close> is the running one,
  and none has failed.\<close>

definition apply_stage_ids :: "string list" where
  "apply_stage_ids = [''validate_config'', ''prepare_remote_lists'', ''reconcile_runtime'', ''reload_dnsmasq'', ''verify_dnsmasq'',
     ''commit_config'']"

lemma apply_stage_ids_distinct: "distinct apply_stage_ids" "[] \<notin> set apply_stage_ids"
  by (simp_all add: apply_stage_ids_def)

definition op_going :: "string \<Rightarrow> string set \<Rightarrow> string option \<Rightarrow> lifecycle_coordinator \<Rightarrow> bool" where
  "op_going oid pend cur lc \<longleftrightarrow> (\<exists>op. lc_active lc = Some op \<and> op_id op = oid \<and> op_error op = [] \<and>
     map stg_id (op_stages op) = apply_stage_ids \<and>
     (\<forall>s \<in> set (op_stages op). stg_status s \<noteq> Failed \<and> (stg_status s = Pending \<longleftrightarrow> stg_id s \<in> pend) \<and>
        (stg_status s = Running \<longleftrightarrow> cur = Some (stg_id s))))"

text \<open>A run of the worker between two stages, and in a stage; \<open>mu\<close> tells whether it has touched the runtime.\<close>

definition quiet :: "bool \<Rightarrow> config set \<Rightarrow> config_store \<Rightarrow> string \<Rightarrow> string set \<Rightarrow> 'w lifecycle_run \<Rightarrow> bool" where
  "quiet mu X st oid pend run \<longleftrightarrow> lr_mutated run = mu \<and> lr_stage run \<noteq> ''commit_config'' \<and>
     (mu \<or> lr_stage run \<noteq> ''reconcile_runtime'') \<and> op_going oid pend None (dm_lifecycle (lr_daemon run)) \<and>
     core X st (dm_lifecycle (lr_daemon run)) (lr_daemon run)"

definition in_stage :: "bool \<Rightarrow> config set \<Rightarrow> config_store \<Rightarrow> string \<Rightarrow> string set \<Rightarrow> string \<Rightarrow> 'w lifecycle_run \<Rightarrow> bool" where
  "in_stage mu X st oid pend sid run \<longleftrightarrow> lr_mutated run = mu \<and> lr_stage run = sid \<and>
     op_going oid pend (Some sid) (dm_lifecycle (lr_daemon run)) \<and> core X st (dm_lifecycle (lr_daemon run)) (lr_daemon run)"

text \<open>A run that throws before it has touched the runtime has not started to reconcile it; one that throws while the configuration
  is committed leaves the runtime running.\<close>

definition failing :: "config_store \<Rightarrow> string \<Rightarrow> 'w lifecycle_run \<Rightarrow> bool" where
  "failing st oid run \<longleftrightarrow> (\<exists>pend cur. op_going oid pend cur (dm_lifecycle (lr_daemon run)) \<and> cur \<in> {None, Some (lr_stage run)} \<and>
     core UNIV st (dm_lifecycle (lr_daemon run)) (lr_daemon run) \<and>
     (lr_mutated run \<or> ''reconcile_runtime'' \<in> pend \<and> lr_stage run \<noteq> ''reconcile_runtime'') \<and>
     (lr_stage run = ''commit_config'' \<longrightarrow> cur = Some ''commit_config'' \<and> rm_state (dm_machine (lr_daemon run)) = running))"

lemma quiet_failing: "quiet mu X st oid pend run \<Longrightarrow> mu \<or> ''reconcile_runtime'' \<in> pend \<Longrightarrow> failing st oid run"
  unfolding quiet_def failing_def by (rule exI [of _ pend], rule exI [of _ None]) (auto simp: core_def)

lemma in_stage_failing:
  "in_stage mu X st oid pend sid run \<Longrightarrow> mu \<or> ''reconcile_runtime'' \<in> pend \<and> sid \<noteq> ''reconcile_runtime'' \<Longrightarrow>
     sid \<noteq> ''commit_config'' \<or> rm_state (dm_machine (lr_daemon run)) = running \<Longrightarrow> failing st oid run"
  unfolding in_stage_def failing_def by (rule exI [of _ pend], rule exI [of _ "Some sid"]) (auto simp: core_def)

lemma update_stage_ids: "(\<And>s. stg_id (f s) = stg_id s) \<Longrightarrow> map stg_id (update_stage sid f ss) = map stg_id ss"
  by (induction ss) auto

lemma update_stage_set:
  assumes "distinct (map stg_id ss)" "s \<in> set (update_stage sid f ss)"
  shows "s \<in> set ss \<and> stg_id s \<noteq> sid \<or> (\<exists>s0 \<in> set ss. stg_id s0 = sid \<and> s = f s0)"
  using assms
proof (induction ss)
  case (Cons a ss)
  then show ?case by (cases "stg_id a = sid") (auto simp: image_iff)
qed simp

lemma op_going_change:
  assumes "op_going oid pend cur lc" "\<And>s. stg_id (f s) = stg_id s"
    and "\<And>s. stg_id s = sid \<Longrightarrow> stg_status s \<noteq> Failed \<Longrightarrow> (stg_status s = Pending \<longleftrightarrow> sid \<in> pend) \<Longrightarrow>
      (stg_status s = Running \<longleftrightarrow> cur = Some sid) \<Longrightarrow>
      stg_status (f s) \<noteq> Failed \<and> stg_status (f s) \<noteq> Pending \<and> (stg_status (f s) = Running \<longleftrightarrow> cur' = Some sid)"
    and "cur \<in> {None, Some sid}" "cur' \<in> {None, Some sid}"
  shows "op_going oid (pend - {sid}) cur' (mutate oid (\<lambda>op. op\<lparr>op_stages := update_stage sid f (op_stages op)\<rparr>) lc)"
proof -
  from assms(1) obtain op where op: "lc_active lc = Some op" "op_id op = oid" "op_error op = []"
    "map stg_id (op_stages op) = apply_stage_ids"
    and st: "\<forall>s \<in> set (op_stages op). stg_status s \<noteq> Failed \<and> (stg_status s = Pending \<longleftrightarrow> stg_id s \<in> pend) \<and>
        (stg_status s = Running \<longleftrightarrow> cur = Some (stg_id s))"
    by (auto simp: op_going_def)
  have ids: "map stg_id (update_stage sid f (op_stages op)) = map stg_id (op_stages op)" using assms(2) by (rule update_stage_ids)
  have "stg_status s \<noteq> Failed \<and> (stg_status s = Pending \<longleftrightarrow> stg_id s \<in> pend - {sid}) \<and> (stg_status s = Running \<longleftrightarrow> cur' = Some (stg_id s))"
    if s: "s \<in> set (update_stage sid f (op_stages op))" for s
    using update_stage_set [OF op(4) [THEN arg_cong, of distinct, simplified apply_stage_ids_distinct, simplified] s]
  proof (elim disjE bexE)
    assume "s \<in> set (op_stages op) \<and> stg_id s \<noteq> sid"
    then show ?thesis using st assms(4,5) by auto
  next
    fix s0 assume "s0 \<in> set (op_stages op)" "stg_id s0 = sid \<and> s = f s0"
    then show ?thesis using st assms(2) [of s0] assms(3) [of s0] by auto
  qed
  then show ?thesis using op ids
    by (auto simp: op_going_def mutate_def publish_def simp flip: set_map)
qed

lemma going_start: "op_going oid pend None lc \<Longrightarrow> sid \<in> pend \<Longrightarrow> op_going oid (pend - {sid}) (Some sid) (start_stage oid sid lc)"
  unfolding start_stage_def by (rule op_going_change) auto

lemma going_succeed: "op_going oid pend (Some sid) lc \<Longrightarrow> sid \<notin> pend \<Longrightarrow> op_going oid pend None (succeed_stage oid sid detail lc)"
  unfolding succeed_stage_def
  by (drule op_going_change [where sid = sid and cur' = None and
        f = "\<lambda>s. if stg_status s \<noteq> Running then s else s\<lparr>stg_status := Succeeded, stg_detail := detail\<rparr>"]) auto

lemma going_skip: "op_going oid pend None lc \<Longrightarrow> op_going oid (pend - {sid}) None (skip_stage oid sid detail lc)"
  unfolding skip_stage_def by (rule op_going_change) auto

lemma hoare_on_daemon:
  assumes "\<And>lc. hoare (core X st lc) m (\<lambda>a d. core Y st lc d \<and> Q a d) (core UNIV st lc)"
    and "mu \<or> ''reconcile_runtime'' \<in> pend"
  shows "hoare (quiet mu X st oid pend) (on_daemon m) (\<lambda>a run. quiet mu Y st oid pend run \<and> Q a (lr_daemon run)) (failing st oid)"
    and "mu \<or> sid \<noteq> ''reconcile_runtime'' \<Longrightarrow> sid \<noteq> ''commit_config'' \<Longrightarrow>
      hoare (in_stage mu X st oid pend sid) (on_daemon m) (\<lambda>a run. in_stage mu Y st oid pend sid run \<and> Q a (lr_daemon run)) (failing st oid)"
proof -
  have kept: "case m (lr_daemon run) of (Inl e, d) \<Rightarrow> core UNIV st (dm_lifecycle (lr_daemon run)) d
      | (Inr a, d) \<Rightarrow> core Y st (dm_lifecycle (lr_daemon run)) d \<and> Q a d"
    if "core X st (dm_lifecycle (lr_daemon run)) (lr_daemon run)" for run :: "'a lifecycle_run"
    using assms(1) [of "dm_lifecycle (lr_daemon run)"] that by (simp add: hoare_def)
  show "hoare (quiet mu X st oid pend) (on_daemon m) (\<lambda>a run. quiet mu Y st oid pend run \<and> Q a (lr_daemon run)) (failing st oid)"
    unfolding hoare_def
  proof (intro allI impI)
    fix run :: "'a lifecycle_run" assume q: "quiet mu X st oid pend run"
    then have "core X st (dm_lifecycle (lr_daemon run)) (lr_daemon run)" by (simp add: quiet_def)
    note k = kept [OF this]
    obtain r d where m: "m (lr_daemon run) = (r, d)" by fastforce
    show "case on_daemon m run of (Inl e, s') \<Rightarrow> failing st oid s' | (Inr a, s') \<Rightarrow> quiet mu Y st oid pend s' \<and> Q a (lr_daemon s')"
    proof (cases r)
      case (Inl e)
      with k m q have "quiet mu UNIV st oid pend (run\<lparr>lr_daemon := d\<rparr>)" by (simp add: quiet_def core_def)
      then show ?thesis using quiet_failing assms(2) m Inl by (simp add: on_daemon_def)
    qed (use k m q in \<open>simp add: on_daemon_def quiet_def core_def\<close>)
  qed
  show "hoare (in_stage mu X st oid pend sid) (on_daemon m) (\<lambda>a run. in_stage mu Y st oid pend sid run \<and> Q a (lr_daemon run)) (failing st oid)"
    if sid: "mu \<or> sid \<noteq> ''reconcile_runtime''" "sid \<noteq> ''commit_config''"
    unfolding hoare_def
  proof (intro allI impI)
    fix run :: "'a lifecycle_run" assume q: "in_stage mu X st oid pend sid run"
    then have "core X st (dm_lifecycle (lr_daemon run)) (lr_daemon run)" by (simp add: in_stage_def)
    note k = kept [OF this]
    obtain r d where m: "m (lr_daemon run) = (r, d)" by fastforce
    show "case on_daemon m run of (Inl e, s') \<Rightarrow> failing st oid s' | (Inr a, s') \<Rightarrow> in_stage mu Y st oid pend sid s' \<and> Q a (lr_daemon s')"
    proof (cases r)
      case (Inl e)
      with k m q have "in_stage mu UNIV st oid pend sid (run\<lparr>lr_daemon := d\<rparr>)" by (simp add: in_stage_def core_def)
      then have "failing st oid (run\<lparr>lr_daemon := d\<rparr>)" by (rule in_stage_failing) (use assms(2) sid in auto)
      then show ?thesis using m Inl by (simp add: on_daemon_def)
    qed (use k m q in \<open>simp add: on_daemon_def in_stage_def core_def\<close>)
  qed
qed

lemma on_lifecycle_apply: "on_lifecycle f run = (Inr (), run\<lparr>lr_daemon := (lr_daemon run)\<lparr>dm_lifecycle := f (dm_lifecycle (lr_daemon run))\<rparr>\<rparr>)"
  by (simp add: on_lifecycle_def on_daemon_def modify_eff_def)

lemma hoare_run_start: "sid \<in> pend \<Longrightarrow> hoare (quiet mu X st oid pend) (run_start oid sid) (\<lambda>_. in_stage mu X st oid (pend - {sid}) sid) E"
  by (auto simp: hoare_def run_start_def steps_def modify_eff_def on_lifecycle_apply quiet_def in_stage_def core_def going_start)

lemma hoare_run_succeed:
  "sid \<notin> pend \<Longrightarrow> mu \<or> sid \<noteq> ''reconcile_runtime'' \<Longrightarrow> sid \<noteq> ''commit_config'' \<Longrightarrow>
     hoare (in_stage mu X st oid pend sid) (run_succeed oid) (\<lambda>_. quiet mu X st oid pend) E"
  by (auto simp: hoare_def run_succeed_def reading_def on_lifecycle_apply quiet_def in_stage_def core_def going_succeed)

lemma hoare_run_skip: "hoare (quiet mu X st oid pend) (run_skip oid sid detail) (\<lambda>_. quiet mu X st oid (pend - {sid})) E"
  by (auto simp: hoare_def run_skip_def on_lifecycle_apply quiet_def core_def going_skip)

lemma hoare_mark_mutated: "hoare (quiet mu X st oid pend) mark_mutated (\<lambda>_. quiet True X st oid pend) E"
  by (auto simp: hoare_def mark_mutated_def modify_eff_def quiet_def)

lemma core_hoare: "(\<And>lc. steady (core X st lc) m) \<Longrightarrow> hoare (core X st lc) m (\<lambda>a d. core X st lc d \<and> True) (core UNIV st lc)"
  unfolding steady_def by (rule hoare_conseq, assumption) (auto simp: core_def)

lemma hoare_run_stage:
  assumes "\<And>lc. hoare (core X st lc) work (\<lambda>_ d. core Y st lc d \<and> True) (core UNIV st lc)"
    and "mu \<or> ''reconcile_runtime'' \<in> pend - {sid}" "sid \<in> pend" "sid \<noteq> ''commit_config''"
  shows "hoare (quiet mu X st oid pend) (run_stage oid sid work) (\<lambda>_. quiet mu Y st oid (pend - {sid})) (failing st oid)"
proof -
  have sid: "mu \<or> sid \<noteq> ''reconcile_runtime''" using assms(2) by auto
  show ?thesis
    unfolding run_stage_def
    by (rule hoare_steps_Cons [OF hoare_run_start [OF assms(3)]], rule hoare_steps_Cons,
        rule hoare_conseq [OF hoare_on_daemon(2) [OF assms(1,2) sid assms(4)]], assumption, (erule conjE, assumption), assumption,
        rule hoare_steps_Cons [OF hoare_run_succeed]) (use sid assms(4) in \<open>auto intro: hoare_steps_Nil\<close>)
qed

lemma prepare_keeps:
  "hoare (core X st lc) (prepare_runtime_inputs ops cfg with_lists) (\<lambda>p d. core X st lc d \<and> pri_config p = cfg) (core UNIV st lc)"
proof -
  have "hoare (\<lambda>_. True) (prepare_runtime_inputs ops cfg with_lists) (\<lambda>p d. pri_config p = cfg) (\<lambda>_. True)"
    by (auto simp: hoare_def prepare_runtime_inputs_def bind_eff_def result_eff_def return_eff_def throw_eff_def reading_def
        split: prod.splits sum.splits)
  with core_prepare [of X st lc ops cfg with_lists] show ?thesis
    by (fastforce simp: steady_def hoare_def core_def split: prod.splits sum.splits)
qed

lemma apply_resolver_stages_keep:
  assumes "''reload_dnsmasq'' \<in> pend" "''verify_dnsmasq'' \<in> pend"
  shows "hoare (quiet True X st oid pend) (apply_resolver_stages ops oid cfg)
    (\<lambda>_. quiet True X st oid (pend - {''reload_dnsmasq''} - {''verify_dnsmasq''})) (failing st oid)"
proof -
  have skip: "hoare (quiet True X st oid pend) (steps [run_skip oid ''reload_dnsmasq'' a, run_skip oid ''verify_dnsmasq'' b])
      (\<lambda>_. quiet True X st oid (pend - {''reload_dnsmasq''} - {''verify_dnsmasq''})) (failing st oid)" for a b
    by (rule hoare_steps_Cons [OF hoare_run_skip], rule hoare_steps_Cons [OF hoare_run_skip], rule hoare_steps_Nil)
  have stages: "hoare (quiet True X st oid pend) (steps [run_stage oid ''reload_dnsmasq'' (reload_stage ops),
        run_stage oid ''verify_dnsmasq'' (verify_stage ops cfg h)])
      (\<lambda>_. quiet True X st oid (pend - {''reload_dnsmasq''} - {''verify_dnsmasq''})) (failing st oid)" for h
    by (rule hoare_steps_Cons [OF hoare_run_stage [OF core_hoare]], rule core_stages,
        simp, use assms in simp, simp,
        rule hoare_steps_Cons [OF hoare_run_stage [OF core_hoare]], rule core_stages, simp, use assms in simp, simp,
        rule hoare_steps_Nil)
  show ?thesis
    unfolding apply_resolver_stages_def using skip stages
    by (auto simp: Let_def intro!: hoare_reading_any)
qed

definition applied :: "config \<Rightarrow> string \<Rightarrow> 'w lifecycle_run \<Rightarrow> bool" where
  "applied cfg oid run \<longleftrightarrow> op_going oid {} None (dm_lifecycle (lr_daemon run)) \<and>
     cs_active_config (dm_store (lr_daemon run)) = cfg \<and> rm_state (dm_machine (lr_daemon run)) = running"

lemma commit_config_runs:
  "commit_config_task ops serialized d = (Inr (), d') \<Longrightarrow>
     dm_lifecycle d' = dm_lifecycle d \<and> dm_machine d' = dm_machine d \<and> cs_active_config (dm_store d') = dm_config d"
  by (auto simp: commit_config_task_def steps_def commit_active_config_def modify_eff_def publish_runtime_state_def
      clear_staged_if_matches_def clear_staged_def replace_active_def)

lemma commit_config_returns: "\<exists>d'. commit_config_task ops serialized d = (Inr (), d')"
  by (simp add: commit_config_task_def steps_def commit_active_config_def modify_eff_def publish_runtime_state_def)

lemma commit_stage_runs:
  "hoare (\<lambda>run. quiet True {cfg} st oid {''commit_config''} run \<and> rm_state (dm_machine (lr_daemon run)) = running)
     (run_stage oid ''commit_config'' (steps [world_eff (do_write_config ops serialized), commit_config_task ops serialized]))
     (\<lambda>_. applied cfg oid) (failing st oid)"
  unfolding hoare_def
proof (intro allI impI, elim conjE)
  fix run :: "'a lifecycle_run"
  assume q: "quiet True {cfg} st oid {''commit_config''} run" and m: "rm_state (dm_machine (lr_daemon run)) = running"
  let ?lc = "start_stage oid ''commit_config'' (dm_lifecycle (lr_daemon run))"
  let ?run = "run\<lparr>lr_stage := ''commit_config'', lr_daemon := (lr_daemon run)\<lparr>dm_lifecycle := ?lc\<rparr>\<rparr>"
  have going: "op_going oid {} (Some ''commit_config'') ?lc" 
    using q going_start [of oid "{''commit_config''}" "dm_lifecycle (lr_daemon run)" "''commit_config''"] by (simp add: quiet_def)
  have started: "run_start oid ''commit_config'' run = (Inr (), ?run)"
    by (simp add: run_start_def steps_def modify_eff_def on_lifecycle_apply)
  obtain r w where w: "do_write_config ops serialized (dm_world (lr_daemon run)) = (r, w)" by fastforce
  show "case run_stage oid ''commit_config'' (steps [world_eff (do_write_config ops serialized), commit_config_task ops serialized]) run of
      (Inl e, s') \<Rightarrow> failing st oid s' | (Inr a, s') \<Rightarrow> applied cfg oid s'"
  proof (cases r)
    case (Inl e)
    have stage: "in_stage True {cfg} st oid {} ''commit_config'' (?run\<lparr>lr_daemon := (lr_daemon ?run)\<lparr>dm_world := w\<rparr>\<rparr>)"
      using q going by (simp add: quiet_def in_stage_def core_def)
    have "failing st oid (?run\<lparr>lr_daemon := (lr_daemon ?run)\<lparr>dm_world := w\<rparr>\<rparr>)"
      by (rule in_stage_failing [OF stage]) (use m in simp_all)
    then show ?thesis using started w Inl by (simp add: run_stage_def steps_def on_daemon_def world_eff_def)
  next
    case (Inr u)
    obtain d' where d': "commit_config_task ops serialized ((lr_daemon ?run)\<lparr>dm_world := w\<rparr>) = (Inr (), d')"
      using commit_config_returns by blast
    note c = commit_config_runs [OF d']
    have "op_going oid {} None (succeed_stage oid ''commit_config'' [] (dm_lifecycle d'))"
      using going c by (simp add: going_succeed)
    then show ?thesis using started w Inr d' c q m
      by (simp add: run_stage_def steps_def on_daemon_def world_eff_def run_succeed_def reading_def on_lifecycle_apply applied_def
          quiet_def core_def)
  qed
qed

lemma complete_running_keeps:
  "hoare (core X st lc) (complete_running_runtime ops reason) (\<lambda>_ d. core X st lc d \<and> rm_state (dm_machine d) = running) (core UNIV st lc)"
  using core_complete [of X st lc ops reason] complete_running [of "\<lambda>_. True" ops reason]
  by (fastforce simp: steady_def hoare_def core_def split: prod.splits sum.splits)

lemma run_apply_config_outcome:
  "hoare (quiet False UNIV st oid (set apply_stage_ids)) (run_apply_config ops oid request)
     (\<lambda>_ run. \<exists>cfg. lrq_config request = Some cfg \<and> applied cfg oid run) (failing st oid)"
proof (cases "lrq_config request")
  case None
  then show ?thesis
    by (auto simp: run_apply_config_def apply_stage_ids_def intro!: hoare_throw intro: quiet_failing)
next
  case (Some cfg)
  let ?p1 = "set apply_stage_ids - {''validate_config''}"
  let ?p2 = "?p1 - {''prepare_remote_lists''}"
  let ?p3 = "?p2 - {''reconcile_runtime''}"
  have last: "?p3 - {''reload_dnsmasq''} - {''verify_dnsmasq''} = {''commit_config''}" by (auto simp: apply_stage_ids_def)
  have validated: "hoare (quiet False UNIV st oid (set apply_stage_ids))
      (steps [run_stage oid ''validate_config'' (result_eff (validate_config (do_env ops) cfg)), run_start oid ''prepare_remote_lists''])
      (\<lambda>_. in_stage False UNIV st oid ?p2 ''prepare_remote_lists'') (failing st oid)"
    by (rule hoare_steps_Cons [OF hoare_run_stage [OF core_hoare]], rule steady_basic, simp add: apply_stage_ids_def,
        simp add: apply_stage_ids_def, simp,
        rule hoare_steps_Cons [OF hoare_run_start], simp add: apply_stage_ids_def, rule hoare_steps_Nil)
  have prepared: "hoare (in_stage False UNIV st oid ?p2 ''prepare_remote_lists'') (on_daemon (prepare_runtime_inputs ops cfg True))
      (\<lambda>p run. in_stage False UNIV st oid ?p2 ''prepare_remote_lists'' run \<and> pri_config p = cfg) (failing st oid)"
    by (rule hoare_on_daemon(2) [OF prepare_keeps]) (simp_all add: apply_stage_ids_def)
  have reconciled: "hoare (quiet True UNIV st oid ?p2) (run_stage oid ''reconcile_runtime'' (reconcile_prepared_runtime ops p))
      (\<lambda>_. quiet True {cfg} st oid ?p3) (failing st oid)" if "pri_config p = cfg" for p
    using core_reconcile_prepared [of st _ ops p] that by (intro hoare_run_stage) (auto simp: apply_stage_ids_def)
  have resolver: "hoare (quiet True {cfg} st oid ?p3) (apply_resolver_stages ops oid cfg)
      (\<lambda>_. quiet True {cfg} st oid {''commit_config''}) (failing st oid)"
    using apply_resolver_stages_keep [of ?p3 "{cfg}" st oid ops cfg] unfolding last by (simp add: apply_stage_ids_def)
  have completed: "hoare (quiet True {cfg} st oid {''commit_config''}) (on_daemon (complete_running_runtime ops reason))
      (\<lambda>_ run. quiet True {cfg} st oid {''commit_config''} run \<and> rm_state (dm_machine (lr_daemon run)) = running) (failing st oid)" for reason
    by (rule hoare_on_daemon(1) [OF complete_running_keeps]) simp
  have rest: "hoare (\<lambda>run. in_stage False UNIV st oid ?p2 ''prepare_remote_lists'' run \<and> pri_config p = cfg) (steps [
        run_succeed oid, mark_mutated, run_stage oid ''reconcile_runtime'' (reconcile_prepared_runtime ops p),
        apply_resolver_stages ops oid cfg, on_daemon (complete_running_runtime ops ''config apply verified''),
        run_stage oid ''commit_config'' (steps [world_eff (do_write_config ops (lrq_serialized_config request)),
          commit_config_task ops (lrq_serialized_config request)])])
      (\<lambda>_. applied cfg oid) (failing st oid)" for p
  proof (cases "pri_config p = cfg")
    case True
    show ?thesis using True
      by simp (rule hoare_steps_Cons [OF hoare_run_succeed], simp, simp, simp, rule hoare_steps_Cons [OF hoare_mark_mutated],
        rule hoare_steps_Cons [OF reconciled [OF True]], rule hoare_steps_Cons [OF resolver], rule hoare_steps_Cons [OF completed],
        rule hoare_steps_Cons [OF commit_stage_runs], rule hoare_steps_Nil)
  qed (simp add: hoare_def)
  have "hoare (quiet False UNIV st oid (set apply_stage_ids)) (run_apply_config ops oid request) (\<lambda>_. applied cfg oid) (failing st oid)"
    unfolding run_apply_config_def Some option.case by (rule hoare_bind [OF validated hoare_bind [OF prepared rest]])
  then show ?thesis by (rule hoare_conseq) (auto simp: Some)
qed

section \<open>The outcome of an apply operation\<close>

definition stage_settled :: "lifecycle_stage \<Rightarrow> bool" where
  "stage_settled s \<longleftrightarrow> stg_status s \<noteq> Pending \<and> stg_status s \<noteq> Running"

definition stages_with :: "string \<Rightarrow> stage_status \<Rightarrow> lifecycle_snapshot \<Rightarrow> bool" where
  "stages_with sid status op \<longleftrightarrow> list_all (\<lambda>s. stg_id s = sid \<longrightarrow> stg_status s = status) (op_stages op)"

lemma skip_pending_set:
  "s \<in> set (skip_pending ss) \<Longrightarrow> \<exists>s0 \<in> set ss. stg_id s = stg_id s0 \<and> stg_status s = (if stg_status s0 = Pending then Skipped else stg_status s0)"
  by (auto simp: skip_pending_def)

lemma skip_pending_ids [simp]: "map stg_id (skip_pending ss) = map stg_id ss"
  by (simp add: skip_pending_def)

lemma skip_pending_twice [simp]: "skip_pending (skip_pending ss) = skip_pending ss"
  by (simp add: skip_pending_def)

lemma can_fail_find:
  "distinct (map stg_id ss) \<Longrightarrow> s \<in> set ss \<Longrightarrow> can_fail (stg_id s) ss \<longleftrightarrow> stg_status s = Pending \<or> stg_status s = Running"
  by (induction ss) (auto simp: can_fail_def image_iff)

lemma can_fail_mem: "can_fail sid ss \<Longrightarrow> sid \<in> stg_id ` set ss"
  by (induction ss) (auto simp: can_fail_def split: if_splits)

definition failed_stages :: "string \<Rightarrow> string \<Rightarrow> lifecycle_stage list \<Rightarrow> lifecycle_stage list" where
  "failed_stages sid err ss =
     skip_pending (if can_fail sid ss then update_stage sid (\<lambda>s. s\<lparr>stg_status := Failed, stg_detail := err\<rparr>) ss else ss)"

lemma failed_stages_status:
  assumes ids: "map stg_id ss = apply_stage_ids" and cur: "cur \<in> {None, Some sid}" and s: "s \<in> set (failed_stages sid err ss)"
    and st: "\<forall>s \<in> set ss. stg_status s \<noteq> Failed \<and> (stg_status s = Pending \<longleftrightarrow> stg_id s \<in> pend) \<and> (stg_status s = Running \<longleftrightarrow> cur = Some (stg_id s))"
  shows "stage_settled s \<and> (cur = Some (stg_id s) \<longrightarrow> stg_status s = Failed) \<and> (stg_id s \<in> pend \<and> stg_id s \<noteq> sid \<longrightarrow> stg_status s = Skipped)"
proof -
  let ?f = "\<lambda>s. s\<lparr>stg_status := Failed, stg_detail := err\<rparr>"
  have d: "distinct (map stg_id ss)" unfolding ids by (rule apply_stage_ids_distinct)
  obtain s1 where s1: "s1 \<in> set (if can_fail sid ss then update_stage sid ?f ss else ss)" and id: "stg_id s = stg_id s1"
    and status: "stg_status s = (if stg_status s1 = Pending then Skipped else stg_status s1)"
    using skip_pending_set [OF s [unfolded failed_stages_def]] by blast
  consider "s1 \<in> set ss" "stg_id s1 \<noteq> sid \<or> \<not> can_fail sid ss" | s0 where "s0 \<in> set ss" "stg_id s0 = sid" "s1 = ?f s0"
  proof (cases "can_fail sid ss")
    case True
    then show ?thesis using update_stage_set [OF d, of s1 sid ?f] s1 that by (simp only: if_True) blast
  next
    case False
    then show ?thesis using s1 that(1) by simp
  qed
  then show ?thesis
  proof cases
    case 1
    have "stg_status s1 \<noteq> Running"
    proof
      assume r: "stg_status s1 = Running"
      then have "sid = stg_id s1" using bspec [OF st 1(1)] cur by simp
      then show False using can_fail_find [OF d 1(1)] r 1(2) by simp
    qed
    then show ?thesis using bspec [OF st 1(1)] 1(2) can_fail_find [OF d 1(1)] id status by (simp add: stage_settled_def)
  next
    case 2
    then show ?thesis using id status cur by (simp add: stage_settled_def)
  qed
qed

lemma fail_then_finish:
  assumes "lc_active lc = Some op" "op_id op = oid" "map stg_id (op_stages op) = apply_stage_ids" "err \<noteq> []"
  shows "lc_active (finish now oid err (if sid \<noteq> [] then fail_stage oid sid err lc else lc)) = None \<and>
    lc_published (finish now oid err (if sid \<noteq> [] then fail_stage oid sid err lc else lc)) =
      Some (op\<lparr>op_error := err, op_stages := failed_stages sid err (op_stages op), op_result := OpFailed, op_finished_at := Some now\<rparr>)"
proof -
  have none: "\<not> can_fail [] (op_stages op)"
    using apply_stage_ids_distinct(2) can_fail_mem [of "[]" "op_stages op"] by (auto simp flip: assms(3))
  show ?thesis using assms none
    by (auto simp: finish_def finish_publish_def finish_reset_def fail_stage_def mutate_def publish_def failed_stages_def Let_def)
qed

lemma going_finish:
  assumes "op_going oid {} None lc"
  shows "lc_active (finish now oid [] lc) = None \<and> (\<exists>op. lc_published (finish now oid [] lc) = Some op \<and> op_id op = oid \<and>
    op_result op = OpSucceeded \<and> map stg_id (op_stages op) = apply_stage_ids \<and>
    list_all (\<lambda>s. stage_settled s \<and> stg_status s \<noteq> Failed) (op_stages op))"
  using assms
  by (auto simp: op_going_def finish_def finish_publish_def finish_reset_def mutate_def publish_def Let_def stage_settled_def list_all_iff)

lemma broken_after_failure:
  "rm_state (dm_machine d) \<noteq> shutting_down \<Longrightarrow>
     rm_state (dm_machine (snd (steps [try_transition broken reason, publish_runtime_state ops] d))) = broken"
  by (cases "rm_state (dm_machine d)")
    (auto simp: steps_def try_transition_def publish_runtime_state_def modify_eff_def transition_def transition_allowed_def)

lemma failure_keeps:
  "dm_store (snd (steps [try_transition next reason, publish_runtime_state ops] d)) = dm_store d"
  "dm_lifecycle (snd (steps [try_transition next reason, publish_runtime_state ops] d)) = dm_lifecycle d"
  by (simp_all add: steps_def try_transition_def publish_runtime_state_def modify_eff_def)

definition apply_succeeded :: "lifecycle_request \<Rightarrow> 'w daemon \<Rightarrow> lifecycle_snapshot \<Rightarrow> bool" where
  "apply_succeeded request d' op \<longleftrightarrow> op_result op = OpSucceeded \<and> list_all (\<lambda>s. stg_status s \<noteq> Failed) (op_stages op) \<and>
     lrq_config request = Some (cs_active_config (dm_store d')) \<and> rm_state (dm_machine d') = running"

definition apply_failed :: "'w daemon \<Rightarrow> 'w daemon \<Rightarrow> lifecycle_snapshot \<Rightarrow> bool" where
  "apply_failed d d' op \<longleftrightarrow> op_result op = OpFailed \<and> op_error op \<noteq> [] \<and> dm_store d' = dm_store d \<and>
     (rm_state (dm_machine d') = broken \<or> stages_with ''reconcile_runtime'' Skipped op \<or>
      stages_with ''commit_config'' Failed op \<and> rm_state (dm_machine d') = running)"

lemma failing_outcome:
  assumes f: "failing st oid run" and err: "err \<noteq> []"
    and d1: "d1 = (if lr_stage run \<noteq> []
       then (lr_daemon run)\<lparr>dm_lifecycle := fail_stage oid (lr_stage run) err (dm_lifecycle (lr_daemon run))\<rparr> else lr_daemon run)"
    and d2: "d2 = (if lr_mutated run \<and> lr_stage run \<noteq> ''commit_config''
       then snd (steps [try_transition broken reason, publish_runtime_state ops] d1) else d1)"
    and d': "d' = d2\<lparr>dm_lifecycle := finish now oid err (dm_lifecycle d2)\<rparr>" and st: "st = dm_store d"
  shows "lc_active (dm_lifecycle d') = None \<and> (\<exists>op. lc_published (dm_lifecycle d') = Some op \<and> op_id op = oid \<and>
    map stg_id (op_stages op) = apply_stage_ids \<and> list_all stage_settled (op_stages op) \<and> apply_failed d d' op)"
proof -
  from f obtain pend cur op where op: "lc_active (dm_lifecycle (lr_daemon run)) = Some op" "op_id op = oid"
      "map stg_id (op_stages op) = apply_stage_ids"
    and ss: "\<forall>s \<in> set (op_stages op). stg_status s \<noteq> Failed \<and> (stg_status s = Pending \<longleftrightarrow> stg_id s \<in> pend) \<and>
        (stg_status s = Running \<longleftrightarrow> cur = Some (stg_id s))"
    and cur: "cur \<in> {None, Some (lr_stage run)}" and c: "core UNIV st (dm_lifecycle (lr_daemon run)) (lr_daemon run)"
    and m: "lr_mutated run \<or> ''reconcile_runtime'' \<in> pend \<and> lr_stage run \<noteq> ''reconcile_runtime''"
    and k: "lr_stage run = ''commit_config'' \<longrightarrow> cur = Some ''commit_config'' \<and> rm_state (dm_machine (lr_daemon run)) = running"
    by (auto simp: failing_def op_going_def)
  let ?op = "op\<lparr>op_error := err, op_stages := failed_stages (lr_stage run) err (op_stages op), op_result := OpFailed, op_finished_at := Some now\<rparr>"
  note status = failed_stages_status [OF op(3) cur _ ss]
  have lc: "dm_lifecycle d2 = (if lr_stage run \<noteq> [] then fail_stage oid (lr_stage run) err (dm_lifecycle (lr_daemon run)) else dm_lifecycle (lr_daemon run))"
    and store: "dm_store d' = dm_store d" and alive: "rm_state (dm_machine d1) \<noteq> shutting_down"
    using c st by (simp_all add: d' d2 d1 failure_keeps core_def)
  have ids: "map stg_id (failed_stages (lr_stage run) err (op_stages op)) = apply_stage_ids"
    using op(3) by (simp add: failed_stages_def update_stage_ids)
  have "rm_state (dm_machine d') = broken \<or> stages_with ''reconcile_runtime'' Skipped ?op \<or>
      stages_with ''commit_config'' Failed ?op \<and> rm_state (dm_machine d') = running"
  proof (cases "lr_mutated run \<and> lr_stage run \<noteq> ''commit_config''")
    case True
    then show ?thesis using broken_after_failure [OF alive] by (simp add: d' d2)
  next
    case False
    then show ?thesis using m k status by (fastforce simp: stages_with_def list_all_iff d' d2 d1)
  qed
  then have "apply_failed d d' ?op" using err store by (simp add: apply_failed_def)
  moreover have "list_all stage_settled (op_stages ?op)" using status by (auto simp: list_all_iff)
  ultimately show ?thesis
    using fail_then_finish [OF op err, where now = now and sid = "lr_stage run"] ids op(2) by (auto simp: d' lc)
qed


text \<open>A world in which every call works, and a daemon that runs the empty configuration in it.\<close>

definition working_ops :: "unit daemon_ops" where
  "working_ops = \<lparr>do_static_routing = (\<lambda>_ _ w. (Inr (), w)), do_firewall = (\<lambda>_ _ _ w. (Inr (), w)),
     do_keenetic_refresh = (\<lambda>_ w. (False, w)), do_expected_hash = (\<lambda>_ w. (Inr ''new'', w)),
     do_setup_dns_probe = (\<lambda>_ w. (Inr (), w)), do_teardown_dns_probe = (\<lambda>w. (Inr (), w)),
     do_register_urltests = (\<lambda>_ _ w. (Inr (), w)), do_clear_urltests = (\<lambda>w. w), do_select_urltest = (\<lambda>_ _ w. w),
     do_delete_mark = (\<lambda>_ _ w. (True, w)), do_clear_rules = (\<lambda>w. (Inr (), w)), do_clear_routes = (\<lambda>w. (Inr (), w)),
     do_cleanup_firewall = (\<lambda>w. (Inr (), w)), do_next_autoupdate = (\<lambda>_ w. (Inr (), w)),
     do_register_interface_monitor = (\<lambda>w. (Inr (), w)), do_hook = (\<lambda>_ w. (Inr 0, w)), do_stream_wait = (\<lambda>w. (True, w)),
     do_confirm = (\<lambda>_ _ _ w. (Inr (), w)), do_download = (\<lambda>_ _ w. (Inr empty_refresh, w)),
     do_refresh = (\<lambda>_ _ _ w. (Inr empty_refresh, w)), do_read_config = (\<lambda>w. (Inr [], w)), do_write_config = (\<lambda>_ w. (Inr (), w)),
     do_post = (\<lambda>w. (True, w)), do_parse = (\<lambda>_. Inr sample_root), do_env = sample_env, do_hook_path = ''hook'', do_now = (\<lambda>_. 7)\<rparr>"

definition running_daemon :: "lifecycle_coordinator \<Rightarrow> unit daemon" where
  "running_daemon lc = \<lparr>dm_machine = \<lparr>rm_state = running, rm_reason = []\<rparr>, dm_active = True, dm_generation = 1, dm_config = empty_config,
     dm_marks = [], dm_apply_started_ts = 0, dm_sync = initial_sync, dm_metadata = \<lparr>rmd_expected_config_hash = [], rmd_actual_config_hash = []\<rparr>,
     dm_store = \<lparr>cs_active_config = empty_config, cs_active_marks = [], cs_staged_config = None, cs_staged_json = None\<rparr>,
     dm_lifecycle = lc, dm_lease = \<lparr>ol_busy = False, ol_operation = []\<rparr>, dm_config_op = ConfigIdle, dm_lists_inflight = False,
     dm_lists_task = False, dm_keenetic_task = False, dm_actual_task = False, dm_retry_task = False, dm_probe_inflight = False,
     dm_probes = [], dm_published = None, dm_world = ()\<rparr>"

definition sample_request :: lifecycle_request where
  "sample_request = \<lparr>lrq_type = ApplyConfig, lrq_config = Some sample_accepted_config, lrq_serialized_config = ''{}''\<rparr>"

lemma sample_config_parts:
  "cfg_fwmark sample_accepted_config = None" "cfg_lists_autoupdate sample_accepted_config = None"
  "cfg_outbounds sample_accepted_config = Some [(make_outbound ''vpn'' INTERFACE)\<lparr>ob_interface := Some ''wg0''\<rparr>]"
  "system_resolver_of sample_accepted_config = Some \<lparr>sr_address = ''127.0.0.1''\<rparr>"
  "\<not> dns_config_uses_keenetic_server (cfg_dns sample_accepted_config)"
  by (simp_all add: sample_accepted_config_def empty_config_def system_resolver_of_def dns_config_uses_keenetic_server_def
      default_dns_config_def)

lemmas effect_defs = bind_eff_def return_eff_def throw_eff_def modify_eff_def result_eff_def reading_def when_eff_def steps_def
  on_daemon_def on_lifecycle_def world_eff_def asking_def publish_runtime_state_def transition_runtime_or_throw_def

definition sample_marks :: marks where
  "sample_marks = smap_put (internal_detour_mark_key ''vpn'') 0x00020000 (smap_put ''vpn'' 0x00010000 [])"

lemma sample_prepared:
  "prepare_runtime_inputs working_ops sample_accepted_config True d =
     (Inr \<lparr>pri_config = sample_accepted_config, pri_marks = sample_marks, pri_lists_refreshed = True\<rparr>, d)"
  using sample_config_accepted [folded validate_config_wf] sample_accepted_marks [folded sample_marks_def]
  by (simp add: prepare_runtime_inputs_def effect_defs sample_config_parts working_ops_def empty_refresh_def)

lemma sample_daemon_mask: "\<exists>m. fwmark_mask_value default_fwmark_config = Inr m"
  using default_marks [unfolded default_fwmark_def, folded default_fwmark_config_def] by (simp add: fwmark_mask_value_def default_mask_valid)

lemma sample_reconciled:
  assumes "rm_state (dm_machine d) = running" "dm_world d = ()"
  shows "\<exists>d'. reconcile_prepared_runtime working_ops \<lparr>pri_config = sample_accepted_config, pri_marks = marks, pri_lists_refreshed = True\<rparr> d
    = (Inr (), d') \<and> rm_state (dm_machine d') = applying \<and> dm_config d' = sample_accepted_config \<and> dm_active d'"
proof -
  obtain m where "fwmark_mask_value default_fwmark_config = Inr m" using sample_daemon_mask by blast
  then show ?thesis using assms
    by (simp add: reconcile_prepared_runtime_def effect_defs bump_generation_def sample_config_parts clear_urltests_def
      reconcile_static_routing_now_def refresh_keenetic_dns_cache_def apply_firewall_def transition_def transition_allowed_def
      update_resolver_config_hash_def setup_dns_probe_def working_ops_def Let_def)
qed

lemma sample_resolver_runs:
  assumes "dm_config (lr_daemon run) = sample_accepted_config"
  shows "\<exists>run'. apply_resolver_stages working_ops oid sample_accepted_config run = (Inr (), run') \<and>
    dm_machine (lr_daemon run') = dm_machine (lr_daemon run) \<and> dm_config (lr_daemon run') = sample_accepted_config"
  using assms
  by (simp add: apply_resolver_stages_def effect_defs has_system_resolver_def sample_config_parts run_skip_def run_stage_def
      run_start_def run_succeed_def reload_stage_def verify_stage_def run_system_resolver_hook_reload_def
      run_system_resolver_hook_def build_system_resolver_hook_args_def update_resolver_config_hash_def
      wait_for_resolver_config_hash_confirmation_def working_ops_def Let_def)

lemma sample_completed:
  assumes "dm_config d = sample_accepted_config" "rm_state (dm_machine d) = applying"
  shows "\<exists>d'. complete_running_runtime working_ops reason d = (Inr (), d')"
  using assms
  by (simp add: complete_running_runtime_def effect_defs register_urltest_outbounds_def schedule_keenetic_dns_refresh_def
      schedule_lists_autoupdate_def refresh_resolver_config_hash_actual_async_def sample_config_parts transition_def
      transition_allowed_def working_ops_def)

lemma sample_run:
  "\<exists>run. run_operation working_ops oid sample_request \<lparr>lr_stage = [], lr_mutated = False, lr_daemon = running_daemon lc\<rparr> = (Inr (), run)"
proof -
  let ?prepared = "\<lparr>pri_config = sample_accepted_config, pri_marks = sample_marks, pri_lists_refreshed = True\<rparr>"
  have valid: "validate_config (do_env working_ops) sample_accepted_config = Inr ()"
    using sample_config_accepted [folded validate_config_wf] by (simp add: working_ops_def)
  define d1 where "d1 = (running_daemon lc)\<lparr>dm_lifecycle := start_stage oid ''reconcile_runtime'' (succeed_stage oid ''prepare_remote_lists'' []
    (start_stage oid ''prepare_remote_lists'' (succeed_stage oid ''validate_config'' [] (start_stage oid ''validate_config'' lc))))\<rparr>"
  have "rm_state (dm_machine d1) = running" "dm_world d1 = ()" by (simp_all add: d1_def running_daemon_def)
  from sample_reconciled [OF this, of sample_marks] obtain d2 where d2: "reconcile_prepared_runtime working_ops ?prepared d1 = (Inr (), d2)"
    "rm_state (dm_machine d2) = applying" "dm_config d2 = sample_accepted_config" by blast
  define run2 where "run2 = \<lparr>lr_stage = ''reconcile_runtime'', lr_mutated = True,
    lr_daemon = d2\<lparr>dm_lifecycle := succeed_stage oid ''reconcile_runtime'' [] (dm_lifecycle d2)\<rparr>\<rparr>"
  have "dm_config (lr_daemon run2) = sample_accepted_config" by (simp add: run2_def d2)
  from sample_resolver_runs [OF this, of oid] obtain run3 where run3:
    "apply_resolver_stages working_ops oid sample_accepted_config run2 = (Inr (), run3)"
    "rm_state (dm_machine (lr_daemon run3)) = applying" "dm_config (lr_daemon run3) = sample_accepted_config"
    using d2 by (auto simp: run2_def)
  from sample_completed [OF run3(3,2)] obtain d4
    where d4: "complete_running_runtime working_ops ''config apply verified'' (lr_daemon run3) = (Inr (), d4)" by blast
  have early: "bind_eff (steps [run_stage oid ''validate_config'' (result_eff (validate_config (do_env working_ops) sample_accepted_config)),
        run_start oid ''prepare_remote_lists'']) (\<lambda>_. bind_eff (on_daemon (prepare_runtime_inputs working_ops sample_accepted_config True)) f)
      \<lparr>lr_stage = [], lr_mutated = False, lr_daemon = running_daemon lc\<rparr> =
      f ?prepared \<lparr>lr_stage = ''prepare_remote_lists'', lr_mutated = False,
        lr_daemon = (running_daemon lc)\<lparr>dm_lifecycle := start_stage oid ''prepare_remote_lists''
          (succeed_stage oid ''validate_config'' [] (start_stage oid ''validate_config'' lc))\<rparr>\<rparr>" for f
    by (simp add: bind_eff_def steps_def run_stage_def run_start_def run_succeed_def modify_eff_def on_lifecycle_def on_daemon_def
        reading_def result_eff_def valid sample_prepared running_daemon_def)
  have wrote: "do_write_config working_ops serialized w = (Inr (), w)" for serialized w by (simp add: working_ops_def)
  show ?thesis
    using d2(1) run3(1) d4
    by (simp add: run_operation_def run_apply_config_def sample_request_def early)
      (simp add: steps_def run_succeed_def mark_mutated_def run_stage_def run_start_def reading_def modify_eff_def
        on_lifecycle_def on_daemon_def world_eff_def d1_def run2_def wrote commit_config_task_def commit_active_config_def
        publish_runtime_state_def)
qed

definition sample_operation :: lifecycle_snapshot where
  "sample_operation = \<lparr>op_id = ''op-1'', op_type = ApplyConfig, op_result = OpRunning, op_started_at = 7, op_finished_at = None,
     op_error = [], op_stages = lifecycle_stages ApplyConfig\<rparr>"

definition sample_coordinator :: lifecycle_coordinator where
  "sample_coordinator = \<lparr>lc_active = Some sample_operation, lc_sequence = 1, lc_published = None, lc_publications = 1\<rparr>"


section \<open>Deviations\<close>

lemma hoare_true: "hoare (\<lambda>_. True) m (\<lambda>_ _. True) (\<lambda>_. True)"
  by (auto simp: hoare_def split: prod.splits sum.splits)

lemma apply_prepared_running:
  "hoare (\<lambda>_. True) (apply_prepared_runtime_inputs ops prepared False) (\<lambda>_ d. rm_state (dm_machine d) = running) (\<lambda>_. True)"
  unfolding apply_prepared_runtime_inputs_def
  by (rule hoare_steps_Cons [OF hoare_true], rule hoare_steps_Cons [OF hoare_true], rule hoare_steps_Cons [OF complete_running])
    (auto simp: when_eff_def hoare_def steps_def return_eff_def)

text \<open>The path that SIGHUP takes commits the configuration and then asks for the transition from \<^const>\<open>running\<close> to \<^const>\<open>running\<close>,
  which the state machine refuses: whatever happens, the caller is told that the configuration has not been applied.\<close>

lemma commit_confirmed_refused:
  assumes "rm_state (dm_machine d) = running"
  shows "\<exists>e d'. commit_confirmed_candidate ops persist saved_json t d = (Inl e, d')"
proof -
  have refused: "hoare (\<lambda>d. rm_state (dm_machine d) = running) (transition_runtime_or_throw running reason) (\<lambda>_ _. False) (\<lambda>_. True)"
    for reason :: string
    by (simp add: hoare_def transition_runtime_or_throw_def transition_def transition_allowed_def)
  have kept: "hoare (\<lambda>d. rm_state (dm_machine d) = running) m (\<lambda>_ d. rm_state (dm_machine d) = running) (\<lambda>_. True)"
    if "m \<in> {when_eff persist (world_eff (do_write_config ops saved_json)), commit_active_config,
      when_eff persist (modify_eff (\<lambda>d. d\<lparr>dm_store := clear_staged_if_matches saved_json (dm_store d)\<rparr>))}" for m :: "('a daemon, unit) eff"
    using that by (cases persist) (auto simp: hoare_def when_eff_def world_eff_def return_eff_def commit_active_config_def modify_eff_def
        split: prod.splits sum.splits)
  have "hoare (\<lambda>d. rm_state (dm_machine d) = running) (commit_confirmed_candidate ops persist saved_json t) (\<lambda>_ _. False) (\<lambda>_. True)"
    unfolding commit_confirmed_candidate_def
    by (rule hoare_bind, rule hoare_result [where Q = "\<lambda>_ d. rm_state (dm_machine d) = running"], assumption, simp,
        simp, intro conjI impI, (rule hoare_throw, simp), rule hoare_steps_Cons [OF kept], simp, rule hoare_steps_Cons [OF kept], simp,
        rule hoare_steps_Cons [OF kept], simp, rule hoare_steps_Cons [OF refused]) (simp add: hoare_def)
  then have "case commit_confirmed_candidate ops persist saved_json t d of (Inl e, d') \<Rightarrow> True | (Inr _, d') \<Rightarrow> False"
    using assms by (simp add: hoare_def)
  then show ?thesis by (cases "commit_confirmed_candidate ops persist saved_json t d") (auto split: sum.splits)
qed

lemma candidate_applied_running:
  "hoare (\<lambda>_. True) (bind_eff (apply_prepared_runtime_inputs ops prepared False) (\<lambda>_. bind_eff (result_eff (candidate_applied Prepared)) (\<lambda>transaction.
         bind_eff (asking (do_post ops)) (\<lambda>queued. if queued then return_eff transaction
           else throw_eff (DaemonError ''resolver confirmation executor is unavailable'')))))
     (\<lambda>_ d. rm_state (dm_machine d) = running) (\<lambda>_. True)"
  by (rule hoare_bind [OF apply_prepared_running])
    (simp add: hoare_def bind_eff_def result_eff_def asking_def return_eff_def throw_eff_def split: prod.splits sum.splits)

lemma wait_keeps_state:
  "wait_for_resolver_config_hash_confirmation ops c h ts d = (r, d') \<Longrightarrow> dm_machine d' = dm_machine d"
  by (auto simp: wait_for_resolver_config_hash_confirmation_def return_eff_def asking_def split: option.splits if_splits prod.splits)

lemma validated_apply_never_reported:
  "\<not> car_applied (fst (apply_validated_config_via_control_task ops cfg saved_json persist d))"
proof -
  let ?started = "do_now ops (dm_world d)"
  let ?apply = "\<lambda>prepared. bind_eff (apply_prepared_runtime_inputs ops prepared False) (\<lambda>_. bind_eff (result_eff (candidate_applied Prepared))
    (\<lambda>transaction. bind_eff (asking (do_post ops)) (\<lambda>queued. if queued then return_eff transaction
      else throw_eff (DaemonError ''resolver confirmation executor is unavailable''))))"
  obtain r1 d1 where 1: "prepare_runtime_inputs ops cfg True (d\<lparr>dm_apply_started_ts := ?started\<rparr>) = (r1, d1)" by fastforce
  show ?thesis
  proof (cases r1)
    case (Inr prepared)
    obtain r2 d2 where 2: "?apply prepared d1 = (r2, d2)" by fastforce
    show ?thesis
    proof (cases r2)
      case (Inr t)
      have run: "rm_state (dm_machine d2) = running"
        using candidate_applied_running [of ops prepared] 2 Inr by (auto simp: hoare_def dest!: spec [of _ d1])
      obtain r3 d3 where 3: "wait_for_resolver_config_hash_confirmation ops (dm_config d2) (rs_expected_hash (dm_sync d2)) ?started d2 = (r3, d3)"
        by fastforce
      obtain e d4 where "commit_confirmed_candidate ops persist saved_json t d3 = (Inl e, d4)"
        using commit_confirmed_refused wait_keeps_state [OF 3] run by metis
      then show ?thesis using 1 2 3 Inr \<open>r1 = Inr prepared\<close>
        by (simp add: apply_validated_config_via_control_task_def Let_def split: sum.splits)
    qed (use 1 2 Inr in \<open>simp add: apply_validated_config_via_control_task_def Let_def\<close>)
  qed (use 1 in \<open>simp add: apply_validated_config_via_control_task_def Let_def\<close>)
qed

text \<open>A daemon told to stop while a configuration is being applied throws before it cleans up anything.\<close>

lemma shutdown_refused_while_applying:
  "rm_state (dm_machine d) = applying \<Longrightarrow> \<exists>e. shutdown ops d = (Inl e, d)"
  by (simp add: shutdown_def steps_def transition_runtime_or_throw_def transition_def transition_allowed_def)

end
