(* ===== verification/Spec2Isabelle.thy ===== *)
theory Spec2Isabelle
  imports Port_Spec Ip_Set Config_Types List_Parser Cron Circuit_Breaker Urltest Route_Table Routing_Reconciler
    Config_Marks Routing_Transaction Reachability Keenetic_Dns Iptables Validated_Config Daemon_Apply
begin

text \<open>
  A verification library for keen-pbr, a policy-based routing daemon for Linux routers. All paths below are relative to
  \<^verbatim>\<open>src/src\<close>.

  \<^bold>\<open>The program.\<close> A JSON configuration names outbounds (an interface, a routing table, a URL test over other outbounds,
  a blackhole), lists of addresses and domains, route rules that send the traffic of lists, addresses and ports to
  outbounds, and DNS servers. The daemon reads and validates it, gives every routable outbound two firewall marks, plans
  routing tables and policy rules for them and reconciles the kernel with the plan over netlink, loads the lists into
  firewall sets, and writes firewall rules that mark packets, through nftables or iptables. URL tests choose among
  outbounds while it runs, remote lists are downloaded on a schedule, and a resolver serves a TXT record with the hash of
  the configuration it was given, so that the daemon knows when an applied configuration is in use.

  \<^bold>\<open>How code becomes definitions.\<close> A struct is a record, an enum a datatype, a fixed-width integer a word where its width
  matters and \<^typ>\<open>int\<close> or \<^typ>\<open>nat\<close> otherwise, a \<^verbatim>\<open>std::string\<close> a list of characters, a \<^verbatim>\<open>std::map\<close> an association list in key
  order (\<open>smap\<close>). A function that may throw returns a \<open>result\<close>, an exception or a value; a member function takes and
  returns the state of its object; code that also talks to the system is an effect (\<open>eff\<close>) on a state that is kept when
  it throws. A loop is structural recursion, or recursion with a termination proof. Definitions keep the names of the
  functions they translate. Third-party libraries and the operating system (inet_pton, libnl, the nft and iptables
  commands, the file system, clocks, sockets, the JSON text parser, libcurl) are parameters; a theorem that relies on
  them states what it relies on as a hypothesis. The conversions of nlohmann::json values to C++ types, which the
  generated code calls, follow the documentation of that library (\<open>Json\<close>).

  \<^bold>\<open>Configuration.\<close>
  \<^item> \<open>Prelude\<close>: results, text and map functions, words, and the interface \<open>std_map\<close>.
  \<^item> \<open>Config_Types\<close>: the structs of the configuration (api/generated/api_types.hpp).
  \<^item> \<open>Json\<close>, \<open>Config_Json\<close>: their conversions from and to JSON; the interface \<open>json_codec\<close> is interpreted for every
    struct, which gives the round trip of the whole configuration.
  \<^item> \<open>Config_Validation\<close>: \<^verbatim>\<open>parse_config\<close> and \<^verbatim>\<open>validate_config\<close> (config/config.cpp) with every message. \<open>Validated_Config\<close>: the
    validation accepts exactly the well-formed configurations, and every rule of an accepted one takes effect.
  \<^item> \<open>Config_Marks\<close>: \<^verbatim>\<open>allocate_outbound_marks\<close> and the checks of the mask; allocated marks differ under the mask.
  \<^item> \<open>Port_Spec\<close> (firewall/port_spec_util.cpp), \<open>Cron\<close> (util/cron.hpp): parsers with round trips and the meaning of what
    they accept.

  \<^bold>\<open>Lists.\<close>
  \<^item> \<open>Ip_Set\<close> (lists/ipset.cpp): address parsers and the binary trie, with the interface \<open>prefix_set\<close>; membership is the
    union of the subnets added.
  \<^item> \<open>List_Parser\<close>, \<open>List_Entries\<close> (config/list_parser.cpp, lists/list_streamer.cpp): entries of a text, streamed through a
    line buffer of fixed size, and of the sources of a list.
  \<^item> \<open>List_Service\<close> (http/http_client.cpp, cache/cache_manager.cpp, daemon/list_service.cpp): conditional downloads into a
    cache of files, and when a refresh makes the runtime reload.

  \<^bold>\<open>Routing.\<close>
  \<^item> \<open>Netlink\<close>: the routes and rules of the kernel and the operations the code calls on them (routing/netlink.hpp).
  \<^item> \<open>Route_Table\<close> (routing/route_table.cpp, policy_rule.cpp): the trackers, with the interface \<open>tracker\<close>; they never delete
    what they did not create.
  \<^item> \<open>Routing_Reconciler\<close> (routing/routing_reconciler.cpp): the kernel converges to the desired state beside foreign
    entries, which are never overwritten.
  \<^item> \<open>Routing_Plan\<close>, \<open>Routing_Transaction\<close>, \<open>Reachability\<close> (config/routing_state.cpp, daemon/daemon_runtime.cpp): the plan of
    tables and rules, that marked traffic never leaks to another table, the transaction that installs a plan or restores
    what was there, and which outbound is reachable or selected according to the kernel.
  \<^item> \<open>Circuit_Breaker\<close>, \<open>Urltest\<close> (health/circuit_breaker.cpp, routing/urltest_manager.cpp): probes, breakers and the
    selection of an outbound.

  \<^bold>\<open>Firewall.\<close>
  \<^item> \<open>Firewall_Rules\<close> (config/routing_state.cpp, routing/firewall_state.cpp, runtime/conntrack_manager.cpp): the state of
    every rule, the sets that exist, connection marks.
  \<^item> \<open>Firewall_Interface\<close>, \<open>Firewall_Runtime\<close> (firewall/firewall.hpp, firewall_runtime.cpp): the virtual interface of a
    backend as a record of operations, and the traversal that drives it; the interfaces \<open>firewall_backend\<close>,
    \<open>plain_set_names\<close> and \<open>queue_invariant\<close> say what it needs of a backend.
  \<^item> \<open>Nftables\<close>, \<open>Nft_Semantics\<close>, \<open>Nft_Runtime\<close> (firewall/nftables.cpp): the JSON document the backend writes, what its
    rules do to a packet, and that the kernel then classifies every packet as the configuration says.
  \<^item> \<open>Iptables\<close> (firewall/iptables.cpp): the restore scripts of the two set generations; the active one is not written.

  \<^bold>\<open>DNS and the resolver.\<close>
  \<^item> \<open>Dns_Server\<close>, \<open>Keenetic_Dns\<close> (dns/dns_server.cpp, dns_router.cpp, keenetic_dns.cpp): addresses, the registry with the
    interface \<open>dns_source\<close>, and the cache of the router's own servers.
  \<^item> \<open>Dns_Txt\<close> (dns/dns_txt_client.cpp): the TXT query, the check that a response answers it, the choice among answers.
  \<^item> \<open>Resolver_Sync\<close> (daemon/resolver_sync_state_machine.cpp, resolver_health.cpp, resolver_apply_confirmation.cpp,
    runtime/resolver_coordinator.cpp): what the daemon knows of the resolver, and the wait for a confirmation.

  \<^bold>\<open>The daemon.\<close>
  \<^item> \<open>Lifecycle\<close> (runtime/runtime_state_machine.cpp, operation_coordinator.cpp, lifecycle_operation.cpp,
    runtime_reconciler.cpp, daemon/config_store.cpp, config_apply_transaction.cpp): the state machine, the lease and the
    coordinator of operations, whose critical sections are the steps of a relation; the interface \<open>stage_change\<close> collects
    what the changes of a stage have in common.
  \<^item> \<open>Daemon_Control\<close> (daemon/daemon_runtime.cpp, daemon_api.cpp, daemon_core.cpp, daemon_resolver.cpp,
    system_resolver_hook.cpp): start-up, shut-down, applying and reloading a configuration, list refreshes, resolver
    probes and the requests of the API, as effects on the state of the daemon. The components above are effects of the
    record \<open>daemon_ops\<close>, about which nothing is assumed. \<open>Daemon_Apply\<close>: a logic for these effects, and that applying a
    configuration ends with the new configuration active and running, or with an error and the old one stored.

  \<^bold>\<open>Bounds.\<close> No definition has fuel. The recursions that are not structural (\<open>safe_table_loop\<close>, \<open>bit_position\<close>,
  \<open>full_f_nibbles_loop\<close>, \<open>cron_values\<close>, \<open>parse_ipv6_groups\<close>, \<open>parse_ipv6\<close>, \<open>domain_labels\<close>, \<open>saved_set_names\<close>, \<open>unwrap_quotes\<close>,
  \<open>txt_chunks\<close>) have termination proofs. The wait for the resolver depends on the clock and is a partial function; that it
  returns is a theorem (\<open>confirmation_wait_ends\<close>). The tasks that the daemon hands from one thread to another run one
  after the other in \<open>Daemon_Control\<close>; in \<open>Lifecycle\<close>, \<open>Urltest\<close> and \<open>Circuit_Breaker\<close> the operations come in any order.

  \<^bold>\<open>Deviations.\<close> Lemmas in sections of that name, or beside the theorem they qualify, show where the code does not do what
  it means to: for example \<open>validated_apply_never_reported\<close>, \<open>shutdown_refused_while_applying\<close>, \<open>spaced_ports_accepted\<close>,
  \<open>full_mask_valid_but_unusable\<close>, \<open>negated_addresses_split\<close>, \<open>failed_download_overwrites\<close>.

  \<^bold>\<open>Not modelled.\<close> The HTTP server and its handlers, event streams, the control socket, the command line, the PID file, logging and
  crash diagnostics, process execution, thread pools and timers: input and output, or utilities that the model has as
  parameters. The writer of the configuration file, the dnsmasq generator with its MD5 hash and the DNS probe server are
  effects of \<open>Daemon_Control\<close>; of the probe server the settings are read in \<open>Config_Validation\<close>. The verifiers of firewall
  and routing state and the inventory of interfaces only read the system and print what they find. The netlink sockets
  below the operations of \<open>Netlink\<close> and the structs of API responses are left out, and so is the shared flight of
  concurrent list refreshes.
\<close>

end
